(* ===== verification/Prelude.thy ===== *)
theory Prelude
  imports Complex_Main "HOL-Library.Sublist" "HOL-Library.AList" "HOL-Library.Word"
begin

text \<open>
  Shared material: the collections of hints, Go's string functions on byte strings, the
  search loops of the source as functions on index lists, association lists for Go maps
  that are iterated, and points in time.

  Strings are lists of bytes, as in Go. The functions of the package \<open>strings\<close> that fold
  case or trim white space act on the ASCII letters and the ASCII spaces; a byte outside
  ASCII is left alone.
\<close>

named_theorems str_simps \<open>Go string functions, for unfolding\<close>
named_theorems wf_intros \<open>preservation of well-formedness\<close>
named_theorems frame_simps \<open>fields an operation does not write\<close>

section \<open>Strings\<close>

type_synonym bytes = string

definition lower_char :: "char \<Rightarrow> char" where
  "lower_char c = (if 65 \<le> (of_char c :: nat) \<and> (of_char c :: nat) \<le> 90
                   then char_of (of_char c + 32 :: nat) else c)"

definition to_lower :: "string \<Rightarrow> string" where
  "to_lower s = map lower_char s"

definition is_space :: "char \<Rightarrow> bool" where
  "is_space c = ((of_char c :: nat) \<in> {9, 10, 11, 12, 13, 32})"

definition trim_space :: "string \<Rightarrow> string" where
  "trim_space s = rev (dropWhile is_space (rev (dropWhile is_space s)))"

definition has_prefix :: "string \<Rightarrow> string \<Rightarrow> bool" where
  "has_prefix s p = prefix p s"

definition has_suffix :: "string \<Rightarrow> string \<Rightarrow> bool" where
  "has_suffix s p = suffix p s"

definition contains :: "string \<Rightarrow> string \<Rightarrow> bool" where
  "contains s p = sublist p s"

definition equal_fold :: "string \<Rightarrow> string \<Rightarrow> bool" where
  "equal_fold a b = (to_lower a = to_lower b)"

text \<open>\<open>strings.Index\<close>: the offset of the first occurrence, \<open>None\<close> for -1.\<close>

fun str_index :: "string \<Rightarrow> string \<Rightarrow> nat option" where
  "str_index [] p = (if p = [] then Some 0 else None)"
| "str_index (c # s) p = (if prefix p (c # s) then Some 0 else map_option Suc (str_index s p))"

definition trim_left_char :: "char \<Rightarrow> string \<Rightarrow> string" where
  "trim_left_char c s = dropWhile (\<lambda>x. x = c) s"

definition trim_right_char :: "char \<Rightarrow> string \<Rightarrow> string" where
  "trim_right_char c s = rev (dropWhile (\<lambda>x. x = c) (rev s))"

lemma of_char_less: "(of_char c :: nat) < 256"
  using nat_of_char_less_256 by simp

lemma lower_char_idem [simp]: "lower_char (lower_char c) = lower_char c"
  by (auto simp: lower_char_def)

lemma to_lower_idem [simp]: "to_lower (to_lower s) = to_lower s"
  by (simp add: to_lower_def)

lemma to_lower_Nil [simp]: "to_lower [] = []"
  by (simp add: to_lower_def)

lemma to_lower_eq_Nil [simp]: "to_lower s = [] \<longleftrightarrow> s = []"
  by (simp add: to_lower_def)

lemma to_lower_append [simp]: "to_lower (s @ t) = to_lower s @ to_lower t"
  by (simp add: to_lower_def)

lemma length_to_lower [simp]: "length (to_lower s) = length s"
  by (simp add: to_lower_def)

lemma is_space_lower [simp]: "is_space (lower_char c) = is_space c"
  by (auto simp: is_space_def lower_char_def)

lemma dropWhile_lower: "dropWhile is_space (map lower_char s) = map lower_char (dropWhile is_space s)"
  by (induction s) auto

lemma trim_space_lower: "trim_space (to_lower s) = to_lower (trim_space s)"
  by (simp add: trim_space_def to_lower_def dropWhile_lower rev_map)

lemma trim_space_Nil [simp]: "trim_space [] = []"
  by (simp add: trim_space_def)

lemma hd_dropWhile_not: "dropWhile P xs \<noteq> [] \<Longrightarrow> \<not> P (hd (dropWhile P xs))"
  by (rule hd_dropWhile)

lemma dropWhile_id: "xs = [] \<or> \<not> P (hd xs) \<Longrightarrow> dropWhile P xs = xs"
  by (cases xs) auto

lemma dropWhile_rev_keeps_hd:
  assumes "xs = [] \<or> \<not> P (hd xs)"
  shows "rev (dropWhile P (rev xs)) = [] \<or> \<not> P (hd (rev (dropWhile P (rev xs))))"
proof -
  obtain ys where "rev xs = ys @ dropWhile P (rev xs)"
    by (metis takeWhile_dropWhile_id)
  then have "xs = rev (dropWhile P (rev xs)) @ rev ys"
    by (metis rev_append rev_rev_ident)
  then show ?thesis
    using assms by (metis hd_append2 append_is_Nil_conv)
qed

lemma trim_space_idem [simp]: "trim_space (trim_space s) = trim_space s"
proof -
  let ?d = "dropWhile is_space s"
  have "?d = [] \<or> \<not> is_space (hd ?d)"
    using hd_dropWhile by blast
  then have "dropWhile is_space (trim_space s) = trim_space s"
    unfolding trim_space_def by (intro dropWhile_id dropWhile_rev_keeps_hd)
  then show ?thesis
    by (simp add: trim_space_def)
qed

lemma str_index_bound: "str_index s p = Some i \<Longrightarrow> i + length p \<le> length s"
  by (induction s arbitrary: i) (auto split: if_splits dest: prefix_length_le)

lemma str_index_take: "str_index s p = Some i \<Longrightarrow> take (length p) (drop i s) = p"
proof (induction s arbitrary: i)
  case Nil
  then show ?case by (auto split: if_splits)
next
  case (Cons c s)
  then show ?case
    by (auto split: if_splits simp: prefix_def)
qed

lemma str_index_None: "str_index s p = None \<longleftrightarrow> \<not> sublist p s"
  by (induction s) (auto simp: sublist_Cons_right)

text \<open>Cutting at a character, as \<open>strings.Cut\<close>: the parts before and after its first occurrence.\<close>

definition cut_char :: "char \<Rightarrow> string \<Rightarrow> string \<times> string \<times> bool" where
  "cut_char c s = (let a = takeWhile (\<lambda>x. x \<noteq> c) s in
     if length a < length s then (a, drop (Suc (length a)) s, True) else (s, [], False))"

fun split_char :: "char \<Rightarrow> string \<Rightarrow> string list" where
  "split_char c [] = [[]]"
| "split_char c (x # xs) =
     (if x = c then [] # split_char c xs
      else (case split_char c xs of [] \<Rightarrow> [[x]] | y # ys \<Rightarrow> (x # y) # ys))"

text \<open>Joining with a one-character separator, as \<open>strings.Join\<close>.\<close>

fun join_char :: "char \<Rightarrow> string list \<Rightarrow> string" where
  "join_char c [] = []"
| "join_char c [x] = x"
| "join_char c (x # xs) = x @ c # join_char c xs"

lemma split_char_nonempty [simp]: "split_char c s \<noteq> []"
  by (induction s) (auto split: list.splits)

lemma join_split_char: "join_char c (split_char c s) = s"
proof (induction s)
  case Nil
  then show ?case by simp
next
  case (Cons x s)
  then show ?case
    by (cases "split_char c s"; cases "tl (split_char c s)") auto
qed

section \<open>Search loops over indices\<close>

text \<open>
  A Go loop that returns at the first index satisfying a test is \<open>List.find\<close> over the indices
  in the order the loop visits them; a loop that keeps the best candidate so far is
  \<open>arg_best\<close>: a later candidate replaces the current one only when it is strictly better.
\<close>

lemma find_upt_Some:
  "find P [a..<b] = Some i \<Longrightarrow> a \<le> i \<and> i < b \<and> P i \<and> (\<forall>j. a \<le> j \<and> j < i \<longrightarrow> \<not> P j)"
proof -
  assume "find P [a..<b] = Some i"
  then obtain k where k: "k < b - a" "P ([a..<b] ! k)" "i = [a..<b] ! k"
    "\<forall>j<k. \<not> P ([a..<b] ! j)"
    by (auto simp: find_Some_iff)
  have "\<not> P j" if "a \<le> j" "j < i" for j
    using k(4)[rule_format, of "j - a"] k(1,3) that by auto
  with k show ?thesis by auto
qed

lemma find_upt_None: "find P [a..<b] = None \<longleftrightarrow> (\<forall>i. a \<le> i \<and> i < b \<longrightarrow> \<not> P i)"
  by (auto simp: find_None_iff)

lemma find_in_set: "find P xs = Some x \<Longrightarrow> x \<in> set xs \<and> P x"
  by (auto simp: find_Some_iff)

fun best_step :: "('a \<Rightarrow> 'a \<Rightarrow> bool) \<Rightarrow> 'a option \<Rightarrow> 'a \<Rightarrow> 'a option" where
  "best_step lt None x = Some x"
| "best_step lt (Some b) x = (if lt x b then Some x else Some b)"

definition arg_best :: "('a \<Rightarrow> 'a \<Rightarrow> bool) \<Rightarrow> 'a list \<Rightarrow> 'a option" where
  "arg_best lt xs = foldl (best_step lt) None xs"

lemma arg_best_snoc: "arg_best lt (xs @ [x]) = best_step lt (arg_best lt xs) x"
  by (simp add: arg_best_def)

lemma arg_best_Nil [simp]: "arg_best lt [] = None"
  by (simp add: arg_best_def)

lemma arg_best_single [simp]: "arg_best lt [x] = Some x"
  by (simp add: arg_best_def)

lemma arg_best_None [simp]: "arg_best lt xs = None \<longleftrightarrow> xs = []"
proof (induction xs rule: rev_induct)
  case (snoc x xs)
  then show ?case by (cases "arg_best lt xs") (auto simp: arg_best_snoc)
qed simp

lemma arg_best_in: "arg_best lt xs = Some b \<Longrightarrow> b \<in> set xs"
proof (induction xs arbitrary: b rule: rev_induct)
  case (snoc x xs)
  then show ?case
    by (cases "arg_best lt xs") (auto simp: arg_best_snoc split: if_splits)
qed simp

text \<open>For a comparison by a key in a linear order, no element is better than the result.\<close>

lemma arg_best_least:
  fixes f :: "'a \<Rightarrow> 'b :: linorder"
  assumes "arg_best (\<lambda>x y. f x < f y) xs = Some b" and "x \<in> set xs"
  shows "f b \<le> f x"
  using assms
proof (induction xs arbitrary: b rule: rev_induct)
  case (snoc y ys)
  show ?case
  proof (cases "arg_best (\<lambda>x y. f x < f y) ys")
    case None
    with snoc.prems show ?thesis by (auto simp: arg_best_snoc)
  next
    case (Some c)
    with snoc.prems snoc.IH[OF Some] show ?thesis
      by (auto simp: arg_best_snoc split: if_splits)
  qed
qed simp

lemma arg_best_cong:
  assumes "\<And>x y. x \<in> set xs \<Longrightarrow> y \<in> set xs \<Longrightarrow> l1 x y = l2 x y"
  shows "arg_best l1 xs = arg_best l2 xs"
  using assms
proof (induction xs rule: rev_induct)
  case (snoc x xs)
  have IH: "arg_best l1 xs = arg_best l2 xs"
    using snoc by auto
  then show ?case
    using snoc.prems arg_best_in[of l2 xs]
    by (cases "arg_best l2 xs") (auto simp: arg_best_snoc)
qed simp

section \<open>Points in time\<close>

text \<open>
  A \<open>time.Time\<close> is the number of nanoseconds since the zero time of Go (0001-01-01 00:00 UTC),
  so \<open>IsZero\<close> is equality with 0; \<open>After\<close>, \<open>Before\<close>, \<open>Equal\<close> are the comparisons. A
  \<open>time.Duration\<close> is a 64-bit count of nanoseconds, and \<open>Sub\<close> saturates at its bounds.
\<close>

type_synonym time = int
type_synonym duration = int

definition max_duration :: duration where "max_duration = 9223372036854775807"
definition min_duration :: duration where "min_duration = -9223372036854775808"

definition seconds :: "int \<Rightarrow> duration" where "seconds n = n * 1000000000"
definition minutes :: "int \<Rightarrow> duration" where "minutes n = n * 60000000000"
definition hours :: "int \<Rightarrow> duration" where "hours n = n * 3600000000000"

definition time_sub :: "time \<Rightarrow> time \<Rightarrow> duration" where
  "time_sub t u = max min_duration (min max_duration (t - u))"

lemma time_sub_mono: "t \<le> t' \<Longrightarrow> time_sub t u \<le> time_sub t' u"
  by (auto simp: time_sub_def)

lemma time_sub_ge: "0 \<le> d \<Longrightarrow> d \<le> max_duration \<Longrightarrow> d \<le> time_sub t u \<longleftrightarrow> u + d \<le> t"
  by (auto simp: time_sub_def max_duration_def min_duration_def)

lemma time_sub_less: "0 \<le> d \<Longrightarrow> d \<le> max_duration \<Longrightarrow> time_sub t u < d \<longleftrightarrow> t < u + d"
  using time_sub_ge[of d t u] by linarith

lemma time_sub_gt: "0 \<le> d \<Longrightarrow> d < max_duration \<Longrightarrow> d < time_sub t u \<longleftrightarrow> u + d < t"
  by (auto simp: time_sub_def max_duration_def min_duration_def)

lemmas time_units = seconds_def minutes_def hours_def

end
