(* ===== verification/Civil_Time.thy ===== *)
theory Civil_Time
  imports Prelude
begin

text \<open>
  The part of Go's \<open>time\<close> package the quota periods and the key reset days use: the proleptic
  Gregorian calendar behind \<open>time.Date\<close>, \<open>Year\<close>, \<open>Month\<close>, \<open>Day\<close>, \<open>Weekday\<close> and \<open>AddDate\<close>.
  Day 0 is 0001-01-01, a Monday. \<open>date_days\<close> normalises a month outside 1..12 and a day outside
  the month the way \<open>time.Date\<close> documents. The lemmas show that the calendar fields of a day
  are the unique ones that denote it.
\<close>

definition day_ns :: int where "day_ns = 86400000000000"

definition leap_year :: "int \<Rightarrow> bool" where
  "leap_year y = (y mod 4 = 0 \<and> (y mod 100 \<noteq> 0 \<or> y mod 400 = 0))"

definition days_before_year :: "int \<Rightarrow> int" where
  "days_before_year y = 365 * (y - 1) + (y - 1) div 4 - (y - 1) div 100 + (y - 1) div 400"

definition days_before_month :: "int \<Rightarrow> int \<Rightarrow> int" where
  "days_before_month y m =
     (if m = 1 then 0 else if m = 2 then 31 else
      (if leap_year y then 1 else 0) +
      (if m = 3 then 59 else if m = 4 then 90 else if m = 5 then 120 else
       if m = 6 then 151 else if m = 7 then 181 else if m = 8 then 212 else
       if m = 9 then 243 else if m = 10 then 273 else if m = 11 then 304 else
       if m = 12 then 334 else 365))"

definition month_len :: "int \<Rightarrow> int \<Rightarrow> int" where
  "month_len y m = days_before_month y (m + 1) - days_before_month y m"

text \<open>\<open>time.Date (y, m, d, 0, ...)\<close> as a day number, with overflowing months and days normalised.\<close>

definition date_days :: "int \<Rightarrow> int \<Rightarrow> int \<Rightarrow> int" where
  "date_days y m d =
     (let y' = y + (m - 1) div 12; m' = (m - 1) mod 12 + 1
      in days_before_year y' + days_before_month y' m' + (d - 1))"

definition year_of :: "int \<Rightarrow> int" where
  "year_of n = (let y = 400 * n div 146097 + 1 in
     if n < days_before_year y then y - 1
     else if days_before_year (y + 1) \<le> n then y + 1 else y)"

definition month_of_yday :: "int \<Rightarrow> int \<Rightarrow> int" where
  "month_of_yday y d =
    (if d < days_before_month y 2 then 1 else if d < days_before_month y 3 then 2 else
     if d < days_before_month y 4 then 3 else if d < days_before_month y 5 then 4 else
     if d < days_before_month y 6 then 5 else if d < days_before_month y 7 then 6 else
     if d < days_before_month y 8 then 7 else if d < days_before_month y 9 then 8 else
     if d < days_before_month y 10 then 9 else if d < days_before_month y 11 then 10 else
     if d < days_before_month y 12 then 11 else 12)"

definition month_of :: "int \<Rightarrow> int" where
  "month_of n = month_of_yday (year_of n) (n - days_before_year (year_of n))"

definition mday_of :: "int \<Rightarrow> int" where
  "mday_of n = n - days_before_year (year_of n) - days_before_month (year_of n) (month_of n) + 1"

text \<open>\<open>Weekday\<close>, with Sunday = 0.\<close>

definition weekday :: "int \<Rightarrow> int" where "weekday n = (n + 1) mod 7"

text \<open>Calendar fields of an instant in a zone \<open>off\<close> nanoseconds east of UTC, and the way back.\<close>

definition day_at :: "duration \<Rightarrow> time \<Rightarrow> int" where "day_at off t = (t + off) div day_ns"
definition clock_at :: "duration \<Rightarrow> time \<Rightarrow> int" where "clock_at off t = (t + off) mod day_ns"
definition midnight :: "duration \<Rightarrow> int \<Rightarrow> time" where "midnight off n = n * day_ns - off"

definition add_date :: "duration \<Rightarrow> time \<Rightarrow> int \<Rightarrow> int \<Rightarrow> int \<Rightarrow> time" where
  "add_date off t ys ms ds = (let n = day_at off t in
     midnight off (date_days (year_of n + ys) (month_of n + ms) (mday_of n + ds)) + clock_at off t)"

section \<open>The calendar is a bijection\<close>

lemma days_before_year_Suc:
  "days_before_year (y + 1) = days_before_year y + 365 + (if leap_year y then 1 else 0)"
proof -
  have d: "y div k = (y - 1) div k + (if y mod k = 0 then 1 else 0)" if "k > 1" for k :: int
  proof (cases "y mod k = 0")
    case True
    then obtain q where q: "y = k * q" by auto
    have "(k * q - 1) div k = q - 1"
      using that by (intro int_div_pos_eq[where r = "k - 1"]) (auto simp: algebra_simps)
    then show ?thesis using q that by auto
  next
    case False
    have "y = k * (y div k) + y mod k" by simp
    moreover have "0 < y mod k" "y mod k < k"
      using that False pos_mod_sign[of k y] by (simp_all add: le_less)
    ultimately have "(y - 1) div k = y div k"
      using that by (intro int_div_pos_eq[where r = "y mod k - 1"]) linarith+
    then show ?thesis using False by simp
  qed
  have m: "y mod 100 = 0 \<Longrightarrow> y mod 4 = 0" "y mod 400 = 0 \<Longrightarrow> y mod 100 = 0" by presburger+
  obtain a b c p q r where g: "(y - 1) div 4 = a" "(y - 1) div 100 = b" "(y - 1) div 400 = c"
    "y mod 4 = p" "y mod 100 = q" "y mod 400 = r" by blast
  have e: "y div 4 = a + (if p = 0 then 1 else 0)" "y div 100 = b + (if q = 0 then 1 else 0)"
    "y div 400 = c + (if r = 0 then 1 else 0)"
    using d[of 4] d[of 100] d[of 400] by (simp_all add: g)
  show ?thesis
    using m unfolding days_before_year_def leap_year_def add_diff_cancel_right' g e by auto
qed

lemma days_before_year_less: "days_before_year y < days_before_year (y + 1)"
  by (simp add: days_before_year_Suc)

lemma days_before_year_mono: "x \<le> y \<Longrightarrow> days_before_year x \<le> days_before_year y"
proof (induction "nat (y - x)" arbitrary: y)
  case (Suc k)
  then have "days_before_year x \<le> days_before_year (y - 1)" by auto
  then show ?case using days_before_year_less[of "y - 1"] by simp
qed auto

lemma year_of_bounds:
  "days_before_year (year_of n) \<le> n \<and> n < days_before_year (year_of n + 1)"
proof -
  define z where "z = 400 * n div 146097"
  have z: "146097 * z \<le> 400 * n" "400 * n < 146097 * (z + 1)"
    unfolding z_def by (auto simp: algebra_simps)
  have b: "400 * days_before_year (w + 1) \<le> 146097 * w + 396"
          "146097 * w - 699 \<le> 400 * days_before_year (w + 1)" for w
  proof -
    have "4 * (w div 4) \<le> w" "w < 4 * (w div 4) + 4" "100 * (w div 100) \<le> w"
      "w < 100 * (w div 100) + 100" "400 * (w div 400) \<le> w" "w < 400 * (w div 400) + 400"
      by linarith+
    then have "400 * (w div 4) \<le> 100 * w" "100 * w - 300 \<le> 400 * (w div 4)"
      "4 * w - 396 \<le> 400 * (w div 100)" "400 * (w div 100) \<le> 4 * w"
      "400 * (w div 400) \<le> w" "w - 399 \<le> 400 * (w div 400)"
      by linarith+
    then show "400 * days_before_year (w + 1) \<le> 146097 * w + 396"
      "146097 * w - 699 \<le> 400 * days_before_year (w + 1)"
      by (simp_all add: days_before_year_def)
  qed
  have "days_before_year (z + 1 - 1) \<le> n" "n < days_before_year (z + 2 + 1)"
    using b(1)[of "z - 1"] b(2)[of "z + 2"] z by auto
  then show ?thesis
    by (auto simp: year_of_def Let_def z_def[symmetric] add.commute)
qed

lemma year_of_unique:
  assumes "days_before_year y \<le> n" "n < days_before_year (y + 1)"
  shows "year_of n = y"
proof (rule antisym)
  show "year_of n \<le> y"
    using days_before_year_mono[of "y + 1" "year_of n"] year_of_bounds[of n] assms by linarith
  show "y \<le> year_of n"
    using days_before_year_mono[of "year_of n + 1" y] year_of_bounds[of n] assms by linarith
qed

lemmas month_table = days_before_month_def month_len_def

lemma month_cases:
  assumes "1 \<le> m" "m \<le> (12::int)"
  obtains "m = 1" | "m = 2" | "m = 3" | "m = 4" | "m = 5" | "m = 6" | "m = 7" | "m = 8"
    | "m = 9" | "m = 10" | "m = 11" | "m = 12"
proof -
  have "m = 1 \<or> m = 2 \<or> m = 3 \<or> m = 4 \<or> m = 5 \<or> m = 6 \<or> m = 7 \<or> m = 8 \<or> m = 9 \<or> m = 10
    \<or> m = 11 \<or> m = 12"
    using assms by presburger
  then show ?thesis using that by blast
qed

lemma month_values [simp]:
  "days_before_month y 1 = 0" "days_before_month y 2 = 31"
  "days_before_month y 3 = 59 + of_bool (leap_year y)"
  "days_before_month y 4 = 90 + of_bool (leap_year y)"
  "days_before_month y 5 = 120 + of_bool (leap_year y)"
  "days_before_month y 6 = 151 + of_bool (leap_year y)"
  "days_before_month y 7 = 181 + of_bool (leap_year y)"
  "days_before_month y 8 = 212 + of_bool (leap_year y)"
  "days_before_month y 9 = 243 + of_bool (leap_year y)"
  "days_before_month y 10 = 273 + of_bool (leap_year y)"
  "days_before_month y 11 = 304 + of_bool (leap_year y)"
  "days_before_month y 12 = 334 + of_bool (leap_year y)"
  "days_before_month y 13 = 365 + of_bool (leap_year y)"
  by (simp_all add: days_before_month_def)

lemma month_bracket:
  assumes "1 \<le> m" "m \<le> 12" "days_before_month y m \<le> d" "d < days_before_month y (m + 1)"
  shows "month_of_yday y d = m"
  using assms(1,2)
  by (cases rule: month_cases; insert assms(3,4); cases "leap_year y"; simp add: month_of_yday_def)

lemma month_of_date:
  assumes "1 \<le> m" "m \<le> 12" "1 \<le> d" "d \<le> month_len y m"
  shows "year_of (date_days y m d) = y" "month_of (date_days y m d) = m"
    "mday_of (date_days y m d) = d"
proof -
  let ?n = "date_days y m d"
  have n: "?n = days_before_year y + (days_before_month y m + (d - 1))"
    using assms by (simp add: date_days_def Let_def)
  have lo: "0 \<le> days_before_month y m" and hi: "days_before_month y (m + 1) \<le> 365 + of_bool (leap_year y)"
    using assms(1,2) by (cases rule: month_cases; simp)+
  have br: "days_before_month y m \<le> days_before_month y m + (d - 1)"
    "days_before_month y m + (d - 1) < days_before_month y (m + 1)"
    using assms(3,4) by (simp_all add: month_len_def)
  show y: "year_of ?n = y"
    using lo hi br by (intro year_of_unique) (auto simp: n days_before_year_Suc)
  show m: "month_of ?n = m"
    using month_bracket[OF assms(1,2) br] by (simp add: month_of_def y) (simp add: n)
  show "mday_of ?n = d"
    by (simp add: mday_of_def y m) (simp add: n)
qed

lemma month_of_yday_bracket:
  assumes "0 \<le> d" "d < 365 + of_bool (leap_year y)"
  shows "1 \<le> month_of_yday y d \<and> month_of_yday y d \<le> 12 \<and>
    days_before_month y (month_of_yday y d) \<le> d \<and> d < days_before_month y (month_of_yday y d + 1)"
  using assms by (cases "leap_year y") (simp_all add: month_of_yday_def)

lemma date_of_day:
  "1 \<le> month_of n" "month_of n \<le> 12" "1 \<le> mday_of n"
  "mday_of n \<le> month_len (year_of n) (month_of n)"
  "date_days (year_of n) (month_of n) (mday_of n) = n"
proof -
  have "0 \<le> n - days_before_year (year_of n)"
    "n - days_before_year (year_of n) < 365 + of_bool (leap_year (year_of n))"
    using year_of_bounds[of n] by (auto simp: days_before_year_Suc)
  note b = month_of_yday_bracket[OF this, folded month_of_def]
  from b show "1 \<le> month_of n" "month_of n \<le> 12" "1 \<le> mday_of n"
    "mday_of n \<le> month_len (year_of n) (month_of n)"
    by (simp_all add: mday_of_def month_len_def)
  from b show "date_days (year_of n) (month_of n) (mday_of n) = n"
    by (simp add: date_days_def Let_def mday_of_def)
qed

text \<open>A day outside its month moves the date by that many days.\<close>

lemma date_days_shift: "date_days y m (d + k) = date_days y m d + k"
  by (simp add: date_days_def Let_def)

lemma date_days_of_shift: "date_days (year_of n) (month_of n) (mday_of n + k) = n + k"
  by (simp add: date_days_shift date_of_day)

lemma add_days: "add_date off t 0 0 k = t + k * day_ns"
proof -
  have "(t + off) div day_ns * day_ns + (t + off) mod day_ns = t + off"
    by simp
  then have "((t + off) div day_ns + k) * day_ns - off + (t + off) mod day_ns = t + k * day_ns"
    by (simp only: distrib_right)
  then show ?thesis
    by (simp only: add_date_def Let_def midnight_def day_at_def clock_at_def date_days_of_shift
        add_0_right)
qed

text \<open>The first day of the following month lies after every day of this month.\<close>

lemma date_next_month: "date_days y (m + 1) 1 = date_days y m 1 + month_len y ((m - 1) mod 12 + 1)"
  if "1 \<le> m" "m \<le> 12"
proof (cases "m = 12")
  case True
  then show ?thesis
    using days_before_year_Suc[of y]
    by (auto simp: date_days_def Let_def month_table)
next
  case False
  with that have "m mod 12 = m" by simp
  with that False show ?thesis
    by (simp add: date_days_def Let_def month_len_def)
qed

lemma month_len_bounds: "28 \<le> month_len y m \<and> month_len y m \<le> 31" if "1 \<le> m" "m \<le> 12"
  using that by (cases rule: month_cases) (auto simp: month_table)

lemma day_ns_pos [simp]: "0 < day_ns" "day_ns \<noteq> 0"
  by (simp_all add: day_ns_def)

lemma midnight_at: "midnight off (day_at off t) \<le> t" "t < midnight off (day_at off t + 1)"
proof -
  let ?q = "(t + off) div day_ns"
  have "?q * day_ns + (t + off) mod day_ns = t + off"
    by simp
  moreover have "(t + off) mod day_ns < day_ns" "0 \<le> (t + off) mod day_ns"
    by simp_all
  ultimately have "?q * day_ns \<le> t + off" "t + off < (?q + 1) * day_ns"
    unfolding distrib_right by linarith+
  then show "midnight off (day_at off t) \<le> t" "t < midnight off (day_at off t + 1)"
    unfolding midnight_def day_at_def by linarith+
qed

lemma midnight_less [simp]: "midnight off a < midnight off b \<longleftrightarrow> a < b"
  and midnight_le [simp]: "midnight off a \<le> midnight off b \<longleftrightarrow> a \<le> b"
  by (simp_all add: midnight_def)

lemma day_at_midnight [simp]: "day_at off (midnight off n) = n"
  by (simp add: day_at_def midnight_def)

lemma midnight_after_iff: "t < midnight off n \<longleftrightarrow> day_at off t < n"
proof
  assume "t < midnight off n"
  then have "midnight off (day_at off t) < midnight off n"
    using midnight_at(1)[of off t] by linarith
  then show "day_at off t < n" by simp
next
  assume "day_at off t < n"
  then have "midnight off (day_at off t + 1) \<le> midnight off n" by simp
  then show "t < midnight off n"
    using midnight_at(2)[of t off] by linarith
qed

end
