(* ===== verification/Key_Pool.thy ===== *)
theory Key_Pool
  imports Civil_Time
begin

text \<open>
  The API key pool of one target (\<open>internal/proxy/keypool.go\<close>): its state, and one definition per
  method. A method that reads the clock takes the time it reads; a method with a receiver takes
  and returns the pool. The Go maps from client to key index and to binding time are association
  lists in the order the map iteration visits them, which the theorems leave open. Log lines are
  not modelled. The methods' nil receiver is \<open>None\<close> at the callers (theory \<open>Targets\<close>).
\<close>

section \<open>State\<close>

record token_sample =
  sampleAt :: time
  sampleTokens :: int

record key_entry =
  keyStr :: string
  exhausted :: bool
  exhaustedAt :: time
  exhaustReason :: string
  cooldownEnd :: time
  blocked :: bool
  tokenSamples :: "token_sample list"
  lastError :: string
  lastErrorAt :: time

record key_pool =
  entries :: "key_entry list"
  resetTime :: time
  resetTimeSpec :: string
  poolTarget :: string
  rrCounter :: "32 word"
  clientAffinity :: "(string \<times> nat) list"
  tokenWindow :: duration
  inFlight :: "int list"
  clientAffinityAt :: "(string \<times> time) list"
  rebalanceInterval :: duration
  affinityTTL :: duration
  maxAffinityEntries :: nat
  wakeUpCooldown :: time
  wakeUpInProgress :: bool

abbreviation no_key :: "string \<times> int" where "no_key \<equiv> ([], -1)"

definition new_entry :: "string \<Rightarrow> key_entry" where
  "new_entry k = \<lparr>keyStr = k, exhausted = False, exhaustedAt = 0, exhaustReason = [],
     cooldownEnd = 0, blocked = False, tokenSamples = [], lastError = [], lastErrorAt = 0\<rparr>"

definition active :: "key_entry \<Rightarrow> bool" where
  "active e = (\<not> exhausted e \<and> \<not> blocked e)"

definition recover :: "key_entry \<Rightarrow> key_entry" where
  "recover e = e\<lparr>exhausted := False, exhaustedAt := 0, exhaustReason := [], cooldownEnd := 0\<rparr>"

definition upd_entry :: "key_pool \<Rightarrow> nat \<Rightarrow> (key_entry \<Rightarrow> key_entry) \<Rightarrow> key_pool" where
  "upd_entry p i f = p\<lparr>entries := (entries p)[i := f (entries p ! i)]\<rparr>"

definition valid_index :: "key_pool \<Rightarrow> int \<Rightarrow> bool" where
  "valid_index p i = (0 \<le> i \<and> i < int (length (entries p)))"

section \<open>Reset times\<close>

definition cst :: duration where "cst = hours 8"

text \<open>\<open>strconv.Atoi\<close>: an optional sign and decimal digits, within 64 bits.\<close>

definition is_digit :: "char \<Rightarrow> bool" where
  "is_digit c = (48 \<le> (of_char c :: nat) \<and> (of_char c :: nat) \<le> 57)"

definition digit_val :: "char \<Rightarrow> int" where
  "digit_val c = of_char c - 48"

definition digits_val :: "string \<Rightarrow> int" where
  "digits_val s = foldl (\<lambda>n c. 10 * n + digit_val c) 0 s"

definition atoi :: "string \<Rightarrow> int option" where
  "atoi s = (let (sg, ds) = (case s of [] \<Rightarrow> (1, []) | c # cs \<Rightarrow>
        if c = CHR ''-'' then (-1, cs) else if c = CHR ''+'' then (1, cs) else (1, s)) in
     if ds \<noteq> [] \<and> (\<forall>c \<in> set ds. is_digit c) then
       (let v = sg * digits_val ds in
        if min_duration \<le> v \<and> v \<le> max_duration then Some v else None)
     else None)"

definition parseMonthlyResetDay :: "string \<Rightarrow> int option" where
  "parseMonthlyResetDay s = (let s = trim_space s in
     if s = [] then None
     else case atoi s of None \<Rightarrow> None
       | Some d \<Rightarrow> if 1 \<le> d \<and> d \<le> 31 then Some d else None)"

definition monthlyResetInMonth :: "int \<Rightarrow> int \<Rightarrow> int \<Rightarrow> duration \<Rightarrow> time" where
  "monthlyResetInMonth y m d loc = (let lastDay = mday_of (date_days y (m + 1) 0) in
     midnight loc (date_days y m (min d lastDay)))"

definition nextMonthlyReset :: "time \<Rightarrow> int \<Rightarrow> duration \<Rightarrow> time" where
  "nextMonthlyReset now d loc =
     (let n = day_at loc now;
          nxt = monthlyResetInMonth (year_of n) (month_of n) d loc
      in if nxt \<le> now then
           (let nm = day_at loc (add_date loc (midnight loc (date_days (year_of n) (month_of n) 1)) 0 1 0)
            in monthlyResetInMonth (year_of nm) (month_of nm) d loc)
         else nxt)"

text \<open>
  \<open>time.ParseInLocation\<close> for the layouts \<open>2006-01-02\<close> and \<open>2006-01-02 15:04\<close>: a number of two
  digits, or one digit where the layout allows it; a run of spaces matches the space of the layout.
\<close>

definition get_num :: "bool \<Rightarrow> string \<Rightarrow> (int \<times> string) option" where
  "get_num fixed s = (case s of
     [] \<Rightarrow> None
   | c # cs \<Rightarrow> if \<not> is_digit c then None else
      (case cs of
         [] \<Rightarrow> if fixed then None else Some (digit_val c, cs)
       | c' # cs' \<Rightarrow> if \<not> is_digit c' then (if fixed then None else Some (digit_val c, cs))
                    else Some (10 * digit_val c + digit_val c', cs')))"

definition expect :: "char \<Rightarrow> string \<Rightarrow> string option" where
  "expect c s = (case s of [] \<Rightarrow> None | x # xs \<Rightarrow> if x = c then Some xs else None)"

definition parse_date :: "string \<Rightarrow> (int \<times> string) option" where
  "parse_date s = (if length s < 4 \<or> \<not> (\<forall>c \<in> set (take 4 s). is_digit c) then None else
     Option.bind (expect (CHR ''-'') (drop 4 s)) (\<lambda>s1.
     Option.bind (get_num True s1) (\<lambda>(m, s2).
     if m < 1 \<or> 12 < m then None else
     Option.bind (expect (CHR ''-'') s2) (\<lambda>s3.
     Option.bind (get_num True s3) (\<lambda>(d, s4).
     let y = digits_val (take 4 s) in
     if d < 1 \<or> month_len y m < d then None else Some (date_days y m d, s4))))))"

definition parse_ymd :: "string \<Rightarrow> duration \<Rightarrow> time option" where
  "parse_ymd s loc = (case parse_date s of
     None \<Rightarrow> None | Some (n, r) \<Rightarrow> if r = [] then Some (midnight loc n) else None)"

definition parse_ymd_hm :: "string \<Rightarrow> duration \<Rightarrow> time option" where
  "parse_ymd_hm s loc = (case parse_date s of None \<Rightarrow> None | Some (n, r) \<Rightarrow>
     if r \<noteq> [] \<and> hd r \<noteq> CHR '' '' then None else
     Option.bind (get_num False (dropWhile (\<lambda>c. c = CHR '' '') r)) (\<lambda>(h, r1).
     if 24 \<le> h then None else
     Option.bind (expect (CHR '':'') r1) (\<lambda>r2.
     Option.bind (get_num True r2) (\<lambda>(mi, r3).
     if 60 \<le> mi \<or> r3 \<noteq> [] then None else Some (midnight loc n + hours h + minutes mi)))))"

definition parseResetTimeSpec :: "string \<Rightarrow> time \<Rightarrow> time" where
  "parseResetTimeSpec spec now = (let s = trim_space spec in
     if s = [] then 0 else
     let monthly = has_prefix (to_lower s) ''monthly:'';
         dayStr = (if monthly then trim_space (drop 8 s) else s) in
     case parseMonthlyResetDay dayStr of
       Some d \<Rightarrow> nextMonthlyReset now d cst
     | None \<Rightarrow> if monthly then 0 else
         (case parse_ymd s cst of Some t \<Rightarrow> t | None \<Rightarrow>
         (case parse_ymd_hm s cst of Some t \<Rightarrow> t | None \<Rightarrow> 0)))"

definition newKeyPool :: "string \<Rightarrow> string list \<Rightarrow> string \<Rightarrow> time \<Rightarrow> key_pool option" where
  "newKeyPool target keys spec now = (if keys = [] then None else
     Some \<lparr>entries = map new_entry keys, resetTime = parseResetTimeSpec (trim_space spec) now,
       resetTimeSpec = trim_space spec, poolTarget = target, rrCounter = 0, clientAffinity = [],
       tokenWindow = minutes 3, inFlight = replicate (length keys) 0, clientAffinityAt = [],
       rebalanceInterval = seconds 30, affinityTTL = minutes 10, maxAffinityEntries = 10000,
       wakeUpCooldown = 0, wakeUpInProgress = False\<rparr>)"

section \<open>Token window and load\<close>

definition window_cutoff :: "key_pool \<Rightarrow> time \<Rightarrow> time" where
  "window_cutoff p now = now - tokenWindow p"

definition prune_entry :: "time \<Rightarrow> key_entry \<Rightarrow> key_entry" where
  "prune_entry cutoff e = e\<lparr>tokenSamples := dropWhile (\<lambda>s. sampleAt s < cutoff) (tokenSamples e)\<rparr>"

definition pruneExpiredSamplesLocked :: "key_pool \<Rightarrow> nat \<Rightarrow> time \<Rightarrow> key_pool" where
  "pruneExpiredSamplesLocked p i now = upd_entry p i (prune_entry (window_cutoff p now))"

definition tokenSumInWindow :: "key_pool \<Rightarrow> nat \<Rightarrow> time \<Rightarrow> int \<times> key_pool" where
  "tokenSumInWindow p i now = (let p' = pruneExpiredSamplesLocked p i now in
     (sum_list (map sampleTokens (tokenSamples (entries p' ! i))), p'))"

definition recordTokens :: "key_pool \<Rightarrow> int \<Rightarrow> int \<Rightarrow> time \<Rightarrow> key_pool" where
  "recordTokens p i tokens now = (if \<not> valid_index p i \<or> tokens \<le> 0 then p else
     pruneExpiredSamplesLocked
       (upd_entry p (nat i) (\<lambda>e. e\<lparr>tokenSamples := tokenSamples e @ [\<lparr>sampleAt = now, sampleTokens = tokens\<rparr>]\<rparr>))
       (nat i) now)"

definition acquireInFlight :: "key_pool \<Rightarrow> int \<Rightarrow> key_pool" where
  "acquireInFlight p i = (if i < 0 then p else if nat i < length (inFlight p)
     then p\<lparr>inFlight := (inFlight p)[nat i := inFlight p ! nat i + 1]\<rparr> else p)"

definition releaseInFlight :: "key_pool \<Rightarrow> int \<Rightarrow> key_pool" where
  "releaseInFlight p i = (if i < 0 then p else if nat i < length (inFlight p) \<and> 0 < inFlight p ! nat i
     then p\<lparr>inFlight := (inFlight p)[nat i := inFlight p ! nat i - 1]\<rparr> else p)"

definition activeKeyCount :: "key_pool \<Rightarrow> nat" where
  "activeKeyCount p = length (filter active (entries p))"

definition scoreLessLocked :: "key_pool \<Rightarrow> int \<Rightarrow> int \<Rightarrow> time \<Rightarrow> bool \<times> key_pool" where
  "scoreLessLocked p a b now =
     (if \<not> valid_index p a then (False, p) else if \<not> valid_index p b then (True, p) else
      let infA = inFlight p ! nat a; infB = inFlight p ! nat b in
      if infA \<noteq> infB then (infA < infB, p) else
      let (sa, p1) = tokenSumInWindow p (nat a) now; (sb, p2) = tokenSumInWindow p1 (nat b) now
      in (sa < sb, p2))"

definition best_active_step :: "time \<Rightarrow> int \<times> key_pool \<Rightarrow> nat \<Rightarrow> int \<times> key_pool" where
  "best_active_step now = (\<lambda>(best, p) i.
     if \<not> active (entries p ! i) then (best, p) else
     if best = -1 then (int i, p) else
     let (lt, p') = scoreLessLocked p (int i) best now in (if lt then int i else best, p'))"

definition bestActiveKeyLocked :: "key_pool \<Rightarrow> time \<Rightarrow> int \<times> key_pool" where
  "bestActiveKeyLocked p now = foldl (best_active_step now) (-1, p) [0..<length (entries p)]"

definition least_token_step ::
    "time \<Rightarrow> int \<times> int \<times> bool \<times> key_pool \<Rightarrow> nat \<Rightarrow> int \<times> int \<times> bool \<times> key_pool" where
  "least_token_step now = (\<lambda>(best, bestTokens, hasAny, p) i.
     if \<not> active (entries p ! i) then (best, bestTokens, hasAny, p) else
     let (s, p') = tokenSumInWindow p i now; hasAny' = (hasAny \<or> 0 < s) in
     if best = -1 \<or> s < bestTokens then (int i, s, hasAny', p') else (best, bestTokens, hasAny', p'))"

definition leastTokenActiveKeyIndex :: "key_pool \<Rightarrow> time \<Rightarrow> int \<times> key_pool" where
  "leastTokenActiveKeyIndex p now =
     (let (best, _, hasAny, p') = foldl (least_token_step now) (-1, -1, False, p) [0..<length (entries p)]
      in (if best = -1 then -1 else if \<not> hasAny then -2 else best, p'))"

section \<open>Client affinity\<close>

definition stale_clients :: "key_pool \<Rightarrow> time \<Rightarrow> string list" where
  "stale_clients p now =
     map fst (filter (\<lambda>(c, ts). affinityTTL p \<le> time_sub now ts) (clientAffinityAt p))"

definition drop_clients :: "key_pool \<Rightarrow> string list \<Rightarrow> key_pool" where
  "drop_clients p cs = p\<lparr>clientAffinity := filter (\<lambda>(c, _). c \<notin> set cs) (clientAffinity p),
     clientAffinityAt := filter (\<lambda>(c, _). c \<notin> set cs) (clientAffinityAt p)\<rparr>"

definition oldest_step :: "string \<times> time \<Rightarrow> string \<times> time \<Rightarrow> string \<times> time" where
  "oldest_step = (\<lambda>(on, ot) (n, ts). if on = [] \<or> ts < ot then (n, ts) else (on, ot))"

definition oldest_client :: "key_pool \<Rightarrow> string" where
  "oldest_client p = fst (foldl oldest_step ([], 0) (clientAffinityAt p))"

lemma oldest_in: "fst (foldl oldest_step s xs) \<in> insert (fst s) (fst ` set xs)"
proof (induction xs arbitrary: s)
  case (Cons x xs)
  have "fst (oldest_step s x) \<in> {fst s, fst x}"
    by (cases s; cases x) (simp add: oldest_step_def)
  then show ?case
    using Cons.IH[of "oldest_step s x"] by auto
qed simp

function evict_oldest :: "key_pool \<Rightarrow> key_pool" where
  "evict_oldest p = (if length (clientAffinity p) < maxAffinityEntries p then p
     else if oldest_client p = [] then p
     else evict_oldest (drop_clients p [oldest_client p]))"
  by pat_completeness auto
termination
proof (relation "measure (\<lambda>p. length (clientAffinityAt p))")
  show "wf (measure (\<lambda>p. length (clientAffinityAt p)))" by simp
next
  fix p assume "oldest_client p \<noteq> []"
  then have "oldest_client p \<in> fst ` set (clientAffinityAt p)"
    using oldest_in[of "([], 0)" "clientAffinityAt p"] by (auto simp: oldest_client_def)
  then obtain ts where "(oldest_client p, ts) \<in> set (clientAffinityAt p)" by auto
  then have "length (filter (\<lambda>(c, _). c \<noteq> oldest_client p) (clientAffinityAt p)) < length (clientAffinityAt p)"
    by (intro length_filter_less) auto
  then show "(drop_clients p [oldest_client p], p) \<in> measure (\<lambda>p. length (clientAffinityAt p))"
    by (simp add: drop_clients_def)
qed

declare evict_oldest.simps [simp del]

definition evictStaleAffinityLocked :: "key_pool \<Rightarrow> time \<Rightarrow> key_pool" where
  "evictStaleAffinityLocked p now = (if length (clientAffinity p) < maxAffinityEntries p then p
     else evict_oldest (drop_clients p (stale_clients p now)))"

definition bindLocked :: "key_pool \<Rightarrow> string \<Rightarrow> nat \<Rightarrow> time \<Rightarrow> key_pool" where
  "bindLocked p c idx now =
     (let p' = (if map_of (clientAffinity p) c = None then evictStaleAffinityLocked p now else p)
      in p'\<lparr>clientAffinity := AList.update c idx (clientAffinity p'),
            clientAffinityAt := AList.update c now (clientAffinityAt p')\<rparr>)"

section \<open>Selecting a key\<close>

definition rr_start :: "key_pool \<Rightarrow> nat" where
  "rr_start p = unat (rrCounter p) mod length (entries p)"

definition rotation :: "nat \<Rightarrow> nat \<Rightarrow> nat list" where
  "rotation start n = map (\<lambda>i. (start + i) mod n) [0..<n]"

definition cooled :: "time \<Rightarrow> key_entry \<Rightarrow> bool" where
  "cooled now e = (\<not> blocked e \<and> cooldownEnd e \<le> now)"

definition keyAt :: "key_pool \<Rightarrow> nat \<Rightarrow> string \<times> int" where
  "keyAt p i = (keyStr (entries p ! i), int i)"

definition desperation :: "key_pool \<Rightarrow> time \<Rightarrow> nat option" where
  "desperation p now =
     arg_best (\<lambda>i j. time_sub (cooldownEnd (entries p ! i)) now < time_sub (cooldownEnd (entries p ! j)) now)
       (filter (\<lambda>i. \<not> blocked (entries p ! i) \<and> exhaustReason (entries p ! i) \<noteq> ''rate_limited'')
         [0..<length (entries p)])"

definition selectKey :: "key_pool \<Rightarrow> time \<Rightarrow> (string \<times> int) \<times> key_pool" where
  "selectKey p now = (if entries p = [] then (no_key, p) else
     let n = length (entries p) in
     case find (\<lambda>i. active (entries p ! i)) (rotation (rr_start p) n) of
       Some i \<Rightarrow> (keyAt p i, p\<lparr>rrCounter := rrCounter p + 1\<rparr>)
     | None \<Rightarrow> (case find (\<lambda>i. cooled now (entries p ! i)) [0..<n] of
         Some i \<Rightarrow> (keyAt p i, upd_entry p i recover)
       | None \<Rightarrow> (case desperation p now of
           Some i \<Rightarrow> (keyAt p i, p)
         | None \<Rightarrow> (no_key, p))))"

definition new_client_step ::
    "time \<Rightarrow> int \<times> bool \<times> key_pool \<Rightarrow> nat \<Rightarrow> int \<times> bool \<times> key_pool" where
  "new_client_step now = (\<lambda>(best, sig, p) i.
     if \<not> active (entries p ! i) then (best, sig, p) else
     let (sig', p1) = (if 0 < inFlight p ! i then (True, p)
                       else let (s, p') = tokenSumInWindow p i now in (sig \<or> 0 < s, p'))
     in if best = -1 then (int i, sig', p1)
        else let (lt, p2) = scoreLessLocked p1 (int i) best now
             in (if lt then int i else best, sig', p2))"

primrec rr_pick :: "nat \<Rightarrow> key_pool \<Rightarrow> nat option \<times> key_pool" where
  "rr_pick 0 p = (None, p)"
| "rr_pick (Suc k) p = (let idx = rr_start p; p' = p\<lparr>rrCounter := rrCounter p + 1\<rparr> in
     if active (entries p ! idx) then (Some idx, p') else rr_pick k p')"

definition overflow_select :: "key_pool \<Rightarrow> string \<Rightarrow> time \<Rightarrow> (string \<times> int) \<times> key_pool" where
  "overflow_select p c now = (let n = length (entries p) in
     case find (\<lambda>i. active (entries p ! i)) (rotation (rr_start p) n) of
       Some i \<Rightarrow> (keyAt p i, bindLocked p c i now)
     | None \<Rightarrow> (case find (\<lambda>i. cooled now (entries p ! i)) [0..<n] of
         Some i \<Rightarrow> (keyAt p i, bindLocked (upd_entry p i recover) c i now)
       | None \<Rightarrow> (no_key, p)))"

definition new_client_select :: "key_pool \<Rightarrow> string \<Rightarrow> time \<Rightarrow> (string \<times> int) \<times> key_pool" where
  "new_client_select p c now =
     (let n = length (entries p);
          (best, sig, p1) = foldl (new_client_step now) (-1, False, p) [0..<n]
      in if best < 0 then overflow_select p1 c now
         else if sig then (keyAt p1 (nat best), bindLocked p1 c (nat best) now)
         else (case rr_pick n p1 of
             (Some i, p2) \<Rightarrow> (keyAt p2 i, bindLocked p2 c i now)
           | (None, p2) \<Rightarrow> overflow_select p2 c now))"

definition bound_select :: "key_pool \<Rightarrow> string \<Rightarrow> nat \<Rightarrow> time \<Rightarrow> (string \<times> int) \<times> key_pool" where
  "bound_select p c pref now =
     (let boundAt = (case map_of (clientAffinityAt p) c of Some t \<Rightarrow> t | None \<Rightarrow> 0) in
      if time_sub now boundAt < rebalanceInterval p then (keyAt p pref, p) else
      let (best, p1) = bestActiveKeyLocked p now in
      if 0 \<le> best \<and> best \<noteq> int pref then
        let (lt, p2) = scoreLessLocked p1 best (int pref) now; tgt = (if lt then nat best else pref)
        in (keyAt p2 tgt, bindLocked p2 c tgt now)
      else (keyAt p1 pref, bindLocked p1 c pref now))"

definition selectKeyForClient :: "key_pool \<Rightarrow> string \<Rightarrow> time \<Rightarrow> (string \<times> int) \<times> key_pool" where
  "selectKeyForClient p c now = (if entries p = [] then (no_key, p)
     else if c = [] then selectKey p now
     else case map_of (clientAffinity p) c of
       None \<Rightarrow> new_client_select p c now
     | Some pref \<Rightarrow>
         if pref < length (entries p) \<and> active (entries p ! pref) then bound_select p c pref now
         else overflow_select p c now)"

definition rotation_after :: "int \<Rightarrow> nat \<Rightarrow> nat list" where
  "rotation_after a n = map (\<lambda>i. nat ((a + int i) mod int n)) [1..<Suc n]"

definition selectNextActiveKey :: "key_pool \<Rightarrow> int \<Rightarrow> time \<Rightarrow> (string \<times> int) \<times> key_pool" where
  "selectNextActiveKey p afterIndex now = (if entries p = [] then (no_key, p) else
     let n = length (entries p) in
     case find (\<lambda>i. active (entries p ! i)) (rotation_after afterIndex n) of
       Some i \<Rightarrow> (keyAt p i, p)
     | None \<Rightarrow> (case find (\<lambda>i. cooled now (entries p ! i)) [0..<n] of
         Some i \<Rightarrow> (keyAt p i, upd_entry p i recover)
       | None \<Rightarrow> (no_key, p)))"

section \<open>Exhaustion, blocking and recovery\<close>

definition permanentEnd :: time where "permanentEnd = midnight 0 (date_days 9999 1 1)"

definition truncateErrBody :: "string \<Rightarrow> string" where
  "truncateErrBody s = (let s = trim_space s in
     if 512 < length s then take 512 s @ ''...(truncated)'' else s)"

definition exhaustion_outcome :: "key_pool \<Rightarrow> string \<Rightarrow> time \<Rightarrow> string \<times> time \<times> key_pool" where
  "exhaustion_outcome p code now =
     (if code = ''quota_exceeded'' then
        let rt = (if resetTimeSpec p \<noteq> [] then parseResetTimeSpec (resetTimeSpec p) now else resetTime p);
            p' = (if resetTimeSpec p \<noteq> [] then p\<lparr>resetTime := rt\<rparr> else p)
        in if rt \<noteq> 0 \<and> now < rt then (''quota_exceeded_subscription'', rt, p')
           else (''quota_exceeded_api'', permanentEnd, p')
      else if code = ''rate_limited'' then (code, now + seconds 5, p)
      else if code = ''invalid_token'' \<or> code = ''billing_error'' \<or> code = ''account_disabled'' then
        (code, now + minutes 5, p)
      else (code, permanentEnd, p))"

definition markExhaustedWithError :: "key_pool \<Rightarrow> int \<Rightarrow> string \<Rightarrow> string \<Rightarrow> time \<Rightarrow> key_pool" where
  "markExhaustedWithError p i code errBody now =
     (if \<not> valid_index p i then p
      else if exhausted (entries p ! nat i) then p
      else let (reason, cend, p') = exhaustion_outcome p code now in
        upd_entry p' (nat i) (\<lambda>e.
          (if errBody \<noteq> [] then e\<lparr>lastError := truncateErrBody errBody, lastErrorAt := now\<rparr> else e)
            \<lparr>exhausted := True, exhaustedAt := now, exhaustReason := reason, cooldownEnd := cend\<rparr>))"

definition markExhausted :: "key_pool \<Rightarrow> int \<Rightarrow> string \<Rightarrow> time \<Rightarrow> key_pool" where
  "markExhausted p i code now = markExhaustedWithError p i code [] now"

definition markRateLimited :: "key_pool \<Rightarrow> int \<Rightarrow> time \<Rightarrow> key_pool" where
  "markRateLimited p i now = markExhausted p i ''rate_limited'' now"

definition blockKey :: "key_pool \<Rightarrow> int \<Rightarrow> key_pool" where
  "blockKey p i = (if \<not> valid_index p i then p else upd_entry p (nat i) (\<lambda>e. e\<lparr>blocked := True\<rparr>))"

definition unblockKey :: "key_pool \<Rightarrow> int \<Rightarrow> key_pool" where
  "unblockKey p i = (if \<not> valid_index p i then p
     else upd_entry p (nat i) (\<lambda>e. recover (e\<lparr>blocked := False\<rparr>)))"

definition markRecovered :: "key_pool \<Rightarrow> int \<Rightarrow> bool \<times> key_pool" where
  "markRecovered p i = (if \<not> valid_index p i then (False, p)
     else if \<not> exhausted (entries p ! nat i) then (False, p)
     else (True, upd_entry p (nat i) recover))"

definition isAccountLevelExhaustion :: "string \<Rightarrow> bool" where
  "isAccountLevelExhaustion r = (r \<in> set [''invalid_token'', ''account_disabled'', ''billing_error'',
     ''quota_exceeded_api'', ''Arrearage'', ''free_tier_exhausted'', ''AccessDenied.Unpurchased''])"

definition isHardFailureReason :: "string \<Rightarrow> bool" where
  "isHardFailureReason r = (r \<in> set [''invalid_token'', ''account_disabled'', ''billing_error'',
     ''rate_limited'', ''quota_exceeded_api'', ''quota_exceeded_subscription'', ''Arrearage'',
     ''free_tier_exhausted'', ''AccessDenied.Unpurchased''])"

definition exhaustReasonAt :: "key_pool \<Rightarrow> int \<Rightarrow> string" where
  "exhaustReasonAt p i = (if \<not> valid_index p i then []
     else if \<not> exhausted (entries p ! nat i) then [] else exhaustReason (entries p ! nat i))"

section \<open>Waking up\<close>

definition remaining_at :: "key_pool \<Rightarrow> time \<Rightarrow> nat \<Rightarrow> duration" where
  "remaining_at p now i = max 0 (time_sub (cooldownEnd (entries p ! i)) now)"

text \<open>
  \<open>sort.Slice\<close> does not fix the order of equal elements; the model keeps the order of the indices.
\<close>

definition getExhaustedKeys :: "key_pool \<Rightarrow> time \<Rightarrow> nat list" where
  "getExhaustedKeys p now = sort_key (remaining_at p now)
     (filter (\<lambda>i. exhausted (entries p ! i) \<or> blocked (entries p ! i)) [0..<length (entries p)])"

definition getProbeableExhaustedKeys :: "key_pool \<Rightarrow> time \<Rightarrow> nat list" where
  "getProbeableExhaustedKeys p now =
     filter (\<lambda>i. \<not> isHardFailureReason (exhaustReason (entries p ! i))) (getExhaustedKeys p now)"

definition tryWakeUp :: "key_pool \<Rightarrow> time \<Rightarrow> bool \<times> key_pool" where
  "tryWakeUp p now = (if now < wakeUpCooldown p then (False, p)
     else if wakeUpInProgress p then (False, p)
     else (True, p\<lparr>wakeUpInProgress := True\<rparr>))"

definition wakeUpComplete :: "key_pool \<Rightarrow> time \<Rightarrow> key_pool" where
  "wakeUpComplete p now = p\<lparr>wakeUpCooldown := now + minutes 1, wakeUpInProgress := False\<rparr>"

section \<open>Reports\<close>

definition maskAPIKey :: "string \<Rightarrow> string" where
  "maskAPIKey k = (if length k \<le> 10 then ''***'' else take 6 k @ ''***'' @ drop (length k - 4) k)"

text \<open>The labels the admin page shows, in the order of the source's cases.\<close>

datatype key_label = Label_blocked | Label_quota_auto | Label_quota_manual | Label_quota
  | Label_rate_limited | Label_used | Label_in_use | Label_waiting

record key_status =
  ksIndex :: nat
  ksKeyMask :: string
  ksExhausted :: bool
  ksExhaustReason :: string
  ksExhaustedAt :: time
  ksCooldownEnd :: time
  ksBlocked :: bool
  ksLastError :: string
  ksLastErrorAt :: time
  ksStatus :: key_label

definition key_label_of :: "time \<Rightarrow> nat option \<Rightarrow> nat \<Rightarrow> key_entry \<Rightarrow> key_label" where
  "key_label_of now cur i e =
     (if blocked e then Label_blocked
      else if exhausted e \<and> exhaustReason e = ''quota_exceeded_subscription'' then Label_quota_auto
      else if exhausted e \<and> exhaustReason e = ''quota_exceeded_api'' then Label_quota_manual
      else if exhausted e \<and> exhaustReason e = ''quota_exceeded'' then Label_quota
      else if exhausted e \<and> exhaustReason e = ''rate_limited'' \<and> now < cooldownEnd e then Label_rate_limited
      else if exhausted e then Label_used
      else if cur = Some i then Label_in_use
      else Label_waiting)"

definition key_status_of :: "time \<Rightarrow> nat option \<Rightarrow> nat \<Rightarrow> key_entry \<Rightarrow> key_status" where
  "key_status_of now cur i e =
     \<lparr>ksIndex = i, ksKeyMask = maskAPIKey (keyStr e), ksExhausted = exhausted e,
      ksExhaustReason = (if exhausted e then exhaustReason e else []),
      ksExhaustedAt = (if exhausted e then exhaustedAt e else 0),
      ksCooldownEnd = (if exhausted e then cooldownEnd e else 0),
      ksBlocked = blocked e,
      ksLastError = lastError e,
      ksLastErrorAt = (if lastError e \<noteq> [] then lastErrorAt e else 0),
      ksStatus = key_label_of now cur i e\<rparr>"

definition pool_status :: "key_pool \<Rightarrow> time \<Rightarrow> key_status list" where
  "pool_status p now = (let cur = find (\<lambda>i. active (entries p ! i)) [0..<length (entries p)] in
     map (\<lambda>i. key_status_of now cur i (entries p ! i)) [0..<length (entries p)])"

text \<open>FNV-1a over the client name, a zero byte and the target name.\<close>

definition fnv_step :: "32 word \<Rightarrow> char \<Rightarrow> 32 word" where
  "fnv_step h c = (xor h (of_char c)) * 16777619"

definition hashClientKey :: "string \<Rightarrow> string \<Rightarrow> 32 word" where
  "hashClientKey c t = foldl fnv_step (foldl fnv_step 2166136261 c * 16777619) t"

end
