(* ===== verification/Key_Pool_Load.thy ===== *)
theory Key_Pool_Load
  imports Key_Pool "HOL-Library.Product_Lexorder"
begin

text \<open>
  The load comparison of the key pool. Reading a key's token window drops its expired samples, so
  the source's comparison loops thread the pool through every comparison. Here the pools that
  differ only in expired samples are identified (\<open>same_pool\<close>), and every loop is shown to compute
  the first minimum of a pure load: requests in flight first, tokens in the window second.
\<close>

section \<open>Pools up to expired samples\<close>

definition prune_all :: "time \<Rightarrow> key_pool \<Rightarrow> key_pool" where
  "prune_all now p = p\<lparr>entries := map (prune_entry (window_cutoff p now)) (entries p)\<rparr>"

definition same_pool :: "time \<Rightarrow> key_pool \<Rightarrow> key_pool \<Rightarrow> bool" where
  "same_pool now p q = (prune_all now p = prune_all now q)"

lemma dropWhile_twice [simp]: "dropWhile P (dropWhile P xs) = dropWhile P xs"
  by (induction xs) auto

lemma prune_entry_idem [simp]: "prune_entry c (prune_entry c e) = prune_entry c e"
  by (simp add: prune_entry_def)

lemma prune_entry_frames [simp]:
  "keyStr (prune_entry c e) = keyStr e" "exhausted (prune_entry c e) = exhausted e"
  "exhaustedAt (prune_entry c e) = exhaustedAt e" "exhaustReason (prune_entry c e) = exhaustReason e"
  "cooldownEnd (prune_entry c e) = cooldownEnd e" "blocked (prune_entry c e) = blocked e"
  "lastError (prune_entry c e) = lastError e" "lastErrorAt (prune_entry c e) = lastErrorAt e"
  "active (prune_entry c e) = active e" "cooled now (prune_entry c e) = cooled now e"
  by (simp_all add: prune_entry_def active_def cooled_def)

lemma upd_entry_simps [simp]:
  "length (entries (upd_entry p i f)) = length (entries p)"
  "inFlight (upd_entry p i f) = inFlight p" "rrCounter (upd_entry p i f) = rrCounter p"
  "clientAffinity (upd_entry p i f) = clientAffinity p"
  "clientAffinityAt (upd_entry p i f) = clientAffinityAt p"
  "maxAffinityEntries (upd_entry p i f) = maxAffinityEntries p"
  "tokenWindow (upd_entry p i f) = tokenWindow p"
  "affinityTTL (upd_entry p i f) = affinityTTL p"
  "rebalanceInterval (upd_entry p i f) = rebalanceInterval p"
  "wakeUpInProgress (upd_entry p i f) = wakeUpInProgress p"
  "wakeUpCooldown (upd_entry p i f) = wakeUpCooldown p"
  "resetTime (upd_entry p i f) = resetTime p" "resetTimeSpec (upd_entry p i f) = resetTimeSpec p"
  "poolTarget (upd_entry p i f) = poolTarget p"
  by (simp_all add: upd_entry_def)

lemma upd_entry_nth:
  "j < length (entries p) \<Longrightarrow>
     entries (upd_entry p i f) ! j = (if i = j then f (entries p ! j) else entries p ! j)"
  by (simp add: upd_entry_def nth_list_update)

lemma entries_upd_entry: "entries (upd_entry p i f) = (entries p)[i := f (entries p ! i)]"
  by (simp add: upd_entry_def)

lemma same_pool_refl [simp]: "same_pool now p p"
  by (simp add: same_pool_def)

lemma same_pool_sym: "same_pool now p q \<Longrightarrow> same_pool now q p"
  by (simp add: same_pool_def)

lemma same_pool_trans: "same_pool now p q \<Longrightarrow> same_pool now q r \<Longrightarrow> same_pool now p r"
  by (simp add: same_pool_def)

lemma same_pool_prune: "same_pool now (pruneExpiredSamplesLocked p i now) p"
proof -
  let ?f = "prune_entry (window_cutoff p now)"
  have "map ?f ((entries p)[i := ?f (entries p ! i)]) = map ?f (entries p)"
    by (cases "i < length (entries p)") (simp_all add: map_update list_update_same_conv list_update_beyond not_less)
  then show ?thesis
    by (simp add: same_pool_def prune_all_def pruneExpiredSamplesLocked_def upd_entry_def
        window_cutoff_def)
qed

lemma same_pool_fields:
  assumes "same_pool now p q"
  shows "length (entries p) = length (entries q)" "inFlight p = inFlight q"
    "rrCounter p = rrCounter q" "clientAffinity p = clientAffinity q"
    "clientAffinityAt p = clientAffinityAt q" "maxAffinityEntries p = maxAffinityEntries q"
    "tokenWindow p = tokenWindow q" "affinityTTL p = affinityTTL q"
    "rebalanceInterval p = rebalanceInterval q" "wakeUpInProgress p = wakeUpInProgress q"
    "wakeUpCooldown p = wakeUpCooldown q" "resetTime p = resetTime q"
    "resetTimeSpec p = resetTimeSpec q" "poolTarget p = poolTarget q"
proof -
  from assms have e: "prune_all now p = prune_all now q" by (simp add: same_pool_def)
  from arg_cong[OF e, of "\<lambda>p. length (entries p)"]
  show "length (entries p) = length (entries q)" by (simp add: prune_all_def)
  from arg_cong[OF e, of inFlight] show "inFlight p = inFlight q" by (simp add: prune_all_def)
  from arg_cong[OF e, of rrCounter] show "rrCounter p = rrCounter q" by (simp add: prune_all_def)
  from arg_cong[OF e, of clientAffinity] show "clientAffinity p = clientAffinity q"
    by (simp add: prune_all_def)
  from arg_cong[OF e, of clientAffinityAt] show "clientAffinityAt p = clientAffinityAt q"
    by (simp add: prune_all_def)
  from arg_cong[OF e, of maxAffinityEntries] show "maxAffinityEntries p = maxAffinityEntries q"
    by (simp add: prune_all_def)
  from arg_cong[OF e, of tokenWindow] show "tokenWindow p = tokenWindow q" by (simp add: prune_all_def)
  from arg_cong[OF e, of affinityTTL] show "affinityTTL p = affinityTTL q" by (simp add: prune_all_def)
  from arg_cong[OF e, of rebalanceInterval] show "rebalanceInterval p = rebalanceInterval q"
    by (simp add: prune_all_def)
  from arg_cong[OF e, of wakeUpInProgress] show "wakeUpInProgress p = wakeUpInProgress q"
    by (simp add: prune_all_def)
  from arg_cong[OF e, of wakeUpCooldown] show "wakeUpCooldown p = wakeUpCooldown q"
    by (simp add: prune_all_def)
  from arg_cong[OF e, of resetTime] show "resetTime p = resetTime q" by (simp add: prune_all_def)
  from arg_cong[OF e, of resetTimeSpec] show "resetTimeSpec p = resetTimeSpec q"
    by (simp add: prune_all_def)
  from arg_cong[OF e, of poolTarget] show "poolTarget p = poolTarget q" by (simp add: prune_all_def)
qed

lemma same_pool_entry:
  assumes "same_pool now p q" "i < length (entries q)"
  shows "prune_entry (window_cutoff q now) (entries p ! i) = prune_entry (window_cutoff q now) (entries q ! i)"
proof -
  have "entries (prune_all now p) ! i = entries (prune_all now q) ! i"
    using assms by (simp add: same_pool_def)
  moreover have "window_cutoff p now = window_cutoff q now"
    using same_pool_fields[OF assms(1)] by (simp add: window_cutoff_def)
  ultimately show ?thesis
    using assms same_pool_fields(1)[OF assms(1)] by (simp add: prune_all_def)
qed

lemma same_pool_entry_fields:
  assumes "same_pool now p q" "i < length (entries q)"
  shows "active (entries p ! i) = active (entries q ! i)"
    "cooled t (entries p ! i) = cooled t (entries q ! i)"
    "keyStr (entries p ! i) = keyStr (entries q ! i)"
    "exhausted (entries p ! i) = exhausted (entries q ! i)"
    "blocked (entries p ! i) = blocked (entries q ! i)"
    "exhaustReason (entries p ! i) = exhaustReason (entries q ! i)"
    "cooldownEnd (entries p ! i) = cooldownEnd (entries q ! i)"
    "exhaustedAt (entries p ! i) = exhaustedAt (entries q ! i)"
proof -
  note e = same_pool_entry[OF assms]
  from arg_cong[OF e, of active] show "active (entries p ! i) = active (entries q ! i)" by simp
  from arg_cong[OF e, of "cooled t"] show "cooled t (entries p ! i) = cooled t (entries q ! i)" by simp
  from arg_cong[OF e, of keyStr] show "keyStr (entries p ! i) = keyStr (entries q ! i)" by simp
  from arg_cong[OF e, of exhausted] show "exhausted (entries p ! i) = exhausted (entries q ! i)" by simp
  from arg_cong[OF e, of blocked] show "blocked (entries p ! i) = blocked (entries q ! i)" by simp
  from arg_cong[OF e, of exhaustReason] show "exhaustReason (entries p ! i) = exhaustReason (entries q ! i)" by simp
  from arg_cong[OF e, of cooldownEnd] show "cooldownEnd (entries p ! i) = cooldownEnd (entries q ! i)" by simp
  from arg_cong[OF e, of exhaustedAt] show "exhaustedAt (entries p ! i) = exhaustedAt (entries q ! i)" by simp
qed

section \<open>The pure load of a key\<close>

definition window_sum :: "key_pool \<Rightarrow> time \<Rightarrow> nat \<Rightarrow> int" where
  "window_sum p now i =
     sum_list (map sampleTokens (tokenSamples (prune_entry (window_cutoff p now) (entries p ! i))))"

definition load :: "key_pool \<Rightarrow> time \<Rightarrow> nat \<Rightarrow> int \<times> int" where
  "load p now i = (inFlight p ! i, window_sum p now i)"

definition active_indices :: "key_pool \<Rightarrow> nat list" where
  "active_indices p = filter (\<lambda>i. active (entries p ! i)) [0..<length (entries p)]"

definition least_loaded :: "key_pool \<Rightarrow> time \<Rightarrow> nat option" where
  "least_loaded p now = arg_best (\<lambda>i j. load p now i < load p now j) (active_indices p)"

lemma window_sum_same:
  assumes "same_pool now p q" "i < length (entries q)"
  shows "window_sum p now i = window_sum q now i"
proof -
  have "window_cutoff p now = window_cutoff q now"
    using same_pool_fields[OF assms(1)] by (simp add: window_cutoff_def)
  then show ?thesis
    using same_pool_entry[OF assms] by (simp add: window_sum_def)
qed

lemma load_same:
  "same_pool now p q \<Longrightarrow> i < length (entries q) \<Longrightarrow> load p now i = load q now i"
  by (simp add: load_def window_sum_same same_pool_fields)

lemma active_indices_same: "same_pool now p q \<Longrightarrow> active_indices p = active_indices q"
  by (auto simp: active_indices_def same_pool_fields(1) same_pool_entry_fields intro: filter_cong)

lemma in_active_indices: "i \<in> set (active_indices p) \<longleftrightarrow> i < length (entries p) \<and> active (entries p ! i)"
  by (auto simp: active_indices_def)

lemma tokenSumInWindow_spec:
  assumes "i < length (entries p)"
  shows "fst (tokenSumInWindow p i now) = window_sum p now i"
    "same_pool now (snd (tokenSumInWindow p i now)) p"
proof -
  show "fst (tokenSumInWindow p i now) = window_sum p now i"
    using assms by (simp add: tokenSumInWindow_def Let_def window_sum_def
        pruneExpiredSamplesLocked_def entries_upd_entry)
  show "same_pool now (snd (tokenSumInWindow p i now)) p"
    by (simp add: tokenSumInWindow_def Let_def same_pool_prune)
qed

lemma scoreLessLocked_spec:
  assumes "a < length (entries p)" "b < length (entries p)"
  shows "fst (scoreLessLocked p (int a) (int b) now) = (load p now a < load p now b)"
    "same_pool now (snd (scoreLessLocked p (int a) (int b) now)) p"
proof -
  obtain sa p1 where A: "tokenSumInWindow p a now = (sa, p1)" by fastforce
  obtain sb p2 where B: "tokenSumInWindow p1 b now = (sb, p2)" by fastforce
  have s1: "same_pool now p1 p" and va: "sa = window_sum p now a"
    using tokenSumInWindow_spec[OF assms(1), of now] A by auto
  have b1: "b < length (entries p1)"
    using assms(2) same_pool_fields(1)[OF s1] by simp
  have s2: "same_pool now p2 p1" and vb: "sb = window_sum p now b"
    using tokenSumInWindow_spec[OF b1, of now] B window_sum_same[OF s1 assms(2)] by auto
  show "fst (scoreLessLocked p (int a) (int b) now) = (load p now a < load p now b)"
    using assms by (simp add: scoreLessLocked_def valid_index_def A B va vb load_def less_prod_def' Let_def)
  show "same_pool now (snd (scoreLessLocked p (int a) (int b) now)) p"
    using assms same_pool_trans[OF s2 s1]
    by (simp add: scoreLessLocked_def valid_index_def A B Let_def)
qed

text \<open>One step of each comparison loop, on a pool that differs from the first in expired samples only.\<close>

definition opt_int :: "nat option \<Rightarrow> int" where
  "opt_int x = (case x of None \<Rightarrow> -1 | Some i \<Rightarrow> int i)"

lemma opt_int_simps [simp]: "opt_int None = -1" "opt_int (Some i) = int i"
  "opt_int x = -1 \<longleftrightarrow> x = None" "opt_int x < 0 \<longleftrightarrow> x = None" "0 \<le> opt_int x \<longleftrightarrow> x \<noteq> None"
  by (auto simp: opt_int_def split: option.splits)

lemma scoreLess_same:
  assumes s: "same_pool now q p" and i: "i < length (entries p)" and b: "b < length (entries p)"
    and e: "scoreLessLocked q (int i) (int b) now = (lt, q')"
  shows "lt = (load p now i < load p now b) \<and> same_pool now q' p"
proof -
  have "i < length (entries q)" "b < length (entries q)"
    using i b same_pool_fields(1)[OF s] by simp_all
  note spec = scoreLessLocked_spec[OF this, of now, unfolded e fst_conv snd_conv]
  have "lt = (load p now i < load p now b)"
    using spec(1) load_same[OF s i] load_same[OF s b] by simp
  moreover have "same_pool now q' p"
    using same_pool_trans[OF spec(2) s] .
  ultimately show ?thesis by simp
qed

definition best_sim :: "time \<Rightarrow> key_pool \<Rightarrow> int \<times> key_pool \<Rightarrow> nat option \<Rightarrow> bool" where
  "best_sim now p s b = (fst s = opt_int b \<and> same_pool now (snd s) p \<and>
     (\<forall>i. b = Some i \<longrightarrow> i < length (entries p)))"

lemma best_active_step_sim:
  assumes sim: "best_sim now p s b" and i: "i < length (entries p)"
  shows "best_sim now p (best_active_step now s i)
    (if active (entries p ! i) then best_step (\<lambda>i j. load p now i < load p now j) b i else b)"
proof -
  obtain q where s: "s = (opt_int b, q)" and q: "same_pool now q p"
    using sim by (cases s) (auto simp: best_sim_def)
  have act: "active (entries q ! i) = active (entries p ! i)"
    using same_pool_entry_fields(1)[OF q i] .
  show ?thesis
  proof (cases "active (entries p ! i)")
    case False
    then show ?thesis using sim by (simp add: s best_active_step_def act)
  next
    case True
    show ?thesis
    proof (cases b)
      case None
      then show ?thesis using True i q by (simp add: s best_active_step_def act best_sim_def)
    next
      case (Some j)
      then have j: "j < length (entries p)" using sim by (simp add: best_sim_def)
      obtain lt q' where sc: "scoreLessLocked q (int i) (int j) now = (lt, q')" by fastforce
      note sp = scoreLess_same[OF q i j sc]
      show ?thesis
        using True Some i j sp by (simp add: s best_active_step_def act best_sim_def sc)
    qed
  qed
qed

lemma best_active_loop:
  assumes "best_sim now p s b" "set xs \<subseteq> {..<length (entries p)}"
  shows "best_sim now p (foldl (best_active_step now) s xs)
     (foldl (best_step (\<lambda>i j. load p now i < load p now j)) b (filter (\<lambda>i. active (entries p ! i)) xs))"
  using assms
proof (induction xs arbitrary: s b)
  case (Cons i xs)
  have "best_sim now p (best_active_step now s i)
    (if active (entries p ! i) then best_step (\<lambda>i j. load p now i < load p now j) b i else b)"
    using Cons.prems by (intro best_active_step_sim) auto
  from Cons.IH[OF this] Cons.prems(2) show ?case
    by (cases "active (entries p ! i)") simp_all
qed simp

lemma bestActiveKeyLocked_spec:
  obtains q where "bestActiveKeyLocked p now = (opt_int (least_loaded p now), q)" "same_pool now q p"
proof -
  have "best_sim now p (-1, p) None" by (simp add: best_sim_def)
  then have "best_sim now p (bestActiveKeyLocked p now) (least_loaded p now)"
    unfolding bestActiveKeyLocked_def least_loaded_def arg_best_def active_indices_def
    by (rule best_active_loop) auto
  then show ?thesis
    using that by (cases "bestActiveKeyLocked p now") (auto simp: best_sim_def)
qed

lemma least_loaded_in: "least_loaded p now = Some i \<Longrightarrow> i < length (entries p) \<and> active (entries p ! i)"
  by (auto simp: least_loaded_def in_active_indices dest!: arg_best_in)

lemma least_loaded_least:
  "least_loaded p now = Some i \<Longrightarrow> j < length (entries p) \<Longrightarrow> active (entries p ! j) \<Longrightarrow>
     load p now i \<le> load p now j"
  unfolding least_loaded_def by (rule arg_best_least) (auto simp: in_active_indices)

lemma least_loaded_None: "least_loaded p now = None \<longleftrightarrow> (\<forall>e \<in> set (entries p). \<not> active e)"
  by (auto simp: least_loaded_def active_indices_def filter_empty_conv all_set_conv_all_nth)

end
