(* ===== verification/Key_Pool_Inv.thy ===== *)
theory Key_Pool_Inv
  imports Key_Pool_Load
begin

text \<open>
  The well-formedness of a key pool and its preservation: counters and bindings fit the list of
  keys, the two binding tables hold the same clients, the table is within its capacity, and an
  entry that is not exhausted carries no reason, no exhaustion time and no cooldown. The operations
  are in theory \<open>Key_Pool_Run\<close>.
\<close>

section \<open>The invariant\<close>

definition entry_ok :: "key_entry \<Rightarrow> bool" where
  "entry_ok e = (\<not> exhausted e \<longrightarrow> exhaustReason e = [] \<and> cooldownEnd e = 0 \<and> exhaustedAt e = 0)"

definition affinity_ok :: "key_pool \<Rightarrow> bool" where
  "affinity_ok p = (distinct (map fst (clientAffinity p)) \<and> distinct (map fst (clientAffinityAt p)) \<and>
     fst ` set (clientAffinity p) = fst ` set (clientAffinityAt p) \<and>
     (\<forall>(c, i) \<in> set (clientAffinity p). c \<noteq> [] \<and> i < length (entries p)))"

definition kp_wf :: "key_pool \<Rightarrow> bool" where
  "kp_wf p = (entries p \<noteq> [] \<and> length (inFlight p) = length (entries p) \<and>
     (\<forall>x \<in> set (inFlight p). 0 \<le> x) \<and> (\<forall>e \<in> set (entries p). entry_ok e) \<and>
     affinity_ok p \<and> 0 < maxAffinityEntries p \<and>
     length (clientAffinity p) \<le> maxAffinityEntries p)"

lemma kp_wfD:
  assumes "kp_wf p"
  shows "entries p \<noteq> []" "length (inFlight p) = length (entries p)"
    "i < length (entries p) \<Longrightarrow> 0 \<le> inFlight p ! i" "i < length (entries p) \<Longrightarrow> entry_ok (entries p ! i)"
    "affinity_ok p" "0 < maxAffinityEntries p" "length (clientAffinity p) \<le> maxAffinityEntries p"
  using assms by (auto simp: kp_wf_def)

lemma entry_ok_simps [simp]: "entry_ok (new_entry k)" "entry_ok (recover e)"
  "entry_ok (prune_entry c e) = entry_ok e" "exhausted e \<Longrightarrow> entry_ok e"
  by (simp_all add: entry_ok_def new_entry_def recover_def)

lemma recover_simps [simp]: "keyStr (recover e) = keyStr e" "exhausted (recover e) = False"
  "blocked (recover e) = blocked e" "exhaustReason (recover e) = []" "cooldownEnd (recover e) = 0"
  "exhaustedAt (recover e) = 0" "tokenSamples (recover e) = tokenSamples e"
  "lastError (recover e) = lastError e" "active (recover e) = (\<not> blocked e)"
  by (simp_all add: recover_def active_def)

lemma affinity_ok_cong:
  "clientAffinity q = clientAffinity p \<Longrightarrow> clientAffinityAt q = clientAffinityAt p \<Longrightarrow>
     length (entries q) = length (entries p) \<Longrightarrow> affinity_ok p \<Longrightarrow> affinity_ok q"
  by (simp add: affinity_ok_def)

lemma kp_wf_upd_entry [wf_intros]:
  assumes wf: "kp_wf p" and ok: "i < length (entries p) \<Longrightarrow> entry_ok (f (entries p ! i))"
  shows "kp_wf (upd_entry p i f)"
proof (cases "i < length (entries p)")
  case True
  then have "\<forall>e \<in> set (entries (upd_entry p i f)). entry_ok e"
    using ok wf set_update_subset_insert[of "entries p" i]
    by (auto simp: entries_upd_entry kp_wf_def)
  moreover have "entries (upd_entry p i f) \<noteq> []"
    using True by (auto simp: entries_upd_entry)
  ultimately show ?thesis
    using wf affinity_ok_cong[of "upd_entry p i f" p] by (simp add: kp_wf_def)
next
  case False
  then have "upd_entry p i f = p"
    by (simp add: upd_entry_def list_update_beyond)
  with wf show ?thesis by simp
qed

lemma kp_wf_rr [wf_intros]: "kp_wf p \<Longrightarrow> kp_wf (p\<lparr>rrCounter := c\<rparr>)"
  by (simp add: kp_wf_def affinity_ok_def)

lemma kp_wf_resetTime [wf_intros]: "kp_wf p \<Longrightarrow> kp_wf (p\<lparr>resetTime := c\<rparr>)"
  by (simp add: kp_wf_def affinity_ok_def)

lemma kp_wf_same:
  assumes s: "same_pool now q p" and wf: "kp_wf p"
  shows "kp_wf q"
proof -
  note f = same_pool_fields[OF s]
  have "entry_ok (entries q ! i)" if "i < length (entries q)" for i
    using that kp_wfD(4)[OF wf, of i] same_pool_entry_fields[OF s, of i] f(1)
    by (simp add: entry_ok_def)
  then have "\<forall>e \<in> set (entries q). entry_ok e"
    by (auto simp: in_set_conv_nth)
  then show ?thesis
    using wf f affinity_ok_cong[OF f(4,5,1)] by (auto simp: kp_wf_def)
qed

section \<open>Binding and eviction\<close>

lemma drop_clients_simps [simp]:
  "entries (drop_clients p cs) = entries p" "inFlight (drop_clients p cs) = inFlight p"
  "maxAffinityEntries (drop_clients p cs) = maxAffinityEntries p"
  "rrCounter (drop_clients p cs) = rrCounter p" "tokenWindow (drop_clients p cs) = tokenWindow p"
  "affinityTTL (drop_clients p cs) = affinityTTL p"
  "rebalanceInterval (drop_clients p cs) = rebalanceInterval p"
  by (simp_all add: drop_clients_def)

lemma fst_filter_keys: "fst ` set (filter (\<lambda>(c, _). c \<notin> set cs) xs) = fst ` set xs - set cs"
  by force

lemma affinity_ok_drop:
  assumes "affinity_ok p"
  shows "affinity_ok (drop_clients p cs)"
proof -
  let ?f = "filter (\<lambda>(c, _). c \<notin> set cs)"
  have "fst ` set (?f (clientAffinity p)) = fst ` set (?f (clientAffinityAt p))"
    using assms by (simp only: fst_filter_keys affinity_ok_def)
  then show ?thesis
    using assms by (auto simp: affinity_ok_def drop_clients_def distinct_map_filter)
qed

lemma kp_wf_drop:
  assumes "kp_wf p"
  shows "kp_wf (drop_clients p cs)"
proof -
  have "length (clientAffinity (drop_clients p cs)) \<le> length (clientAffinity p)"
    by (simp add: drop_clients_def)
  then show ?thesis
    using assms by (simp add: kp_wf_def affinity_ok_drop)
qed

lemma kp_wf_evict_oldest: "kp_wf p \<Longrightarrow> kp_wf (evict_oldest p)"
proof (induction p rule: evict_oldest.induct)
  case (1 p)
  then show ?case
    by (subst evict_oldest.simps) (simp add: kp_wf_drop)
qed

lemma oldest_nonempty:
  assumes "\<forall>x \<in> set xs. fst x \<noteq> []" "xs \<noteq> [] \<or> fst s \<noteq> []"
  shows "fst (foldl oldest_step s xs) \<noteq> []"
  using assms
proof (induction xs arbitrary: s)
  case (Cons x xs)
  have "fst (oldest_step s x) \<noteq> []"
    using Cons.prems(1) by (cases s; cases x) (auto simp: oldest_step_def)
  then show ?case using Cons by simp
qed simp

lemma evict_oldest_room:
  "kp_wf p \<Longrightarrow> length (clientAffinity (evict_oldest p)) < maxAffinityEntries p"
proof (induction p rule: evict_oldest.induct)
  case (1 p)
  show ?case
  proof (cases "length (clientAffinity p) < maxAffinityEntries p")
    case True
    then show ?thesis by (simp add: evict_oldest.simps)
  next
    case False
    have ok: "affinity_ok p" and max: "0 < maxAffinityEntries p"
      using kp_wfD[OF 1(2)] by blast+
    have "clientAffinity p \<noteq> []" using False max by auto
    then have "clientAffinityAt p \<noteq> []" using ok by (auto simp: affinity_ok_def)
    moreover have "\<forall>x \<in> set (clientAffinityAt p). fst x \<noteq> []"
    proof
      fix x assume "x \<in> set (clientAffinityAt p)"
      then have "fst x \<in> fst ` set (clientAffinity p)" using ok by (simp add: affinity_ok_def)
      then obtain y where "y \<in> set (clientAffinity p)" "fst x = fst y" by auto
      then show "fst x \<noteq> []" using ok by (cases y) (auto simp: affinity_ok_def)
    qed
    ultimately have "oldest_client p \<noteq> []"
      unfolding oldest_client_def using oldest_nonempty by blast
    then show ?thesis
      using False 1 by (subst evict_oldest.simps) (simp add: kp_wf_drop)
  qed
qed

lemma evict_oldest_frame:
  "entries (evict_oldest p) = entries p \<and> inFlight (evict_oldest p) = inFlight p \<and>
   maxAffinityEntries (evict_oldest p) = maxAffinityEntries p \<and> rrCounter (evict_oldest p) = rrCounter p \<and>
   set (clientAffinity (evict_oldest p)) \<subseteq> set (clientAffinity p) \<and>
   tokenWindow (evict_oldest p) = tokenWindow p"
proof (induction p rule: evict_oldest.induct)
  case (1 p)
  have sub: "set (clientAffinity (drop_clients p cs)) \<subseteq> set (clientAffinity p)" for cs
    by (auto simp: drop_clients_def)
  show ?case
    using 1 sub[of "[oldest_client p]"] by (subst (1 2 3 4 5 6) evict_oldest.simps) auto
qed

lemma evictStale_frame [simp]:
  "entries (evictStaleAffinityLocked p now) = entries p"
  "inFlight (evictStaleAffinityLocked p now) = inFlight p"
  "maxAffinityEntries (evictStaleAffinityLocked p now) = maxAffinityEntries p"
  "rrCounter (evictStaleAffinityLocked p now) = rrCounter p"
  "tokenWindow (evictStaleAffinityLocked p now) = tokenWindow p"
  by (simp_all add: evictStaleAffinityLocked_def evict_oldest_frame)

lemma evictStale_subset:
  "set (clientAffinity (evictStaleAffinityLocked p now)) \<subseteq> set (clientAffinity p)"
  using evict_oldest_frame[of "drop_clients p (stale_clients p now)"]
  by (auto simp: evictStaleAffinityLocked_def drop_clients_def)

lemma evictStale_wf:
  assumes "kp_wf p"
  shows "kp_wf (evictStaleAffinityLocked p now)"
    "length (clientAffinity (evictStaleAffinityLocked p now)) < maxAffinityEntries p"
  using assms kp_wf_evict_oldest kp_wf_drop evict_oldest_room[OF kp_wf_drop]
  by (auto simp: evictStaleAffinityLocked_def)

lemma bindLocked_frame [simp]:
  "entries (bindLocked p c i now) = entries p" "inFlight (bindLocked p c i now) = inFlight p"
  "maxAffinityEntries (bindLocked p c i now) = maxAffinityEntries p"
  "rrCounter (bindLocked p c i now) = rrCounter p"
  "tokenWindow (bindLocked p c i now) = tokenWindow p"
  by (simp_all add: bindLocked_def Let_def)

lemma bindLocked_binds:
  "map_of (clientAffinity (bindLocked p c i now)) c = Some i"
  "map_of (clientAffinityAt (bindLocked p c i now)) c = Some now"
  by (simp_all add: bindLocked_def Let_def update_conv')

lemma length_update_present: "c \<in> fst ` set xs \<Longrightarrow> length (AList.update c v xs) = length xs"
  by (induction xs) auto

lemma length_update_absent: "c \<notin> fst ` set xs \<Longrightarrow> length (AList.update c v xs) = Suc (length xs)"
  by (induction xs) auto

lemma set_update_sub: "set (AList.update c v xs) \<subseteq> insert (c, v) (set xs)"
  by (induction xs) auto

lemma kp_wf_bind [wf_intros]:
  assumes wf: "kp_wf p" and i: "i < length (entries p)" and c: "c \<noteq> []"
  shows "kp_wf (bindLocked p c i now)"
proof -
  let ?p = "if map_of (clientAffinity p) c = None then evictStaleAffinityLocked p now else p"
  have wf': "kp_wf ?p" and i': "i < length (entries ?p)" using wf i evictStale_wf by auto
  then have ok: "affinity_ok ?p" by (simp add: kp_wf_def)
  let ?q = "bindLocked p c i now"
  have e: "entries ?p = entries p" by simp
  have q: "clientAffinity ?q = AList.update c i (clientAffinity ?p)"
    "clientAffinityAt ?q = AList.update c now (clientAffinityAt ?p)"
    by (simp_all add: bindLocked_def Let_def)
  have "length (clientAffinity ?q) \<le> maxAffinityEntries p"
  proof (cases "map_of (clientAffinity p) c")
    case None
    then have "c \<notin> fst ` set (clientAffinity (evictStaleAffinityLocked p now))"
      using evictStale_subset[of p now] by (auto simp: map_of_eq_None_iff)
    then show ?thesis
      using evictStale_wf(2)[OF wf, of now] None by (simp add: q length_update_absent)
  next
    case (Some j)
    then have "c \<in> fst ` set (clientAffinity p)" by (force dest: map_of_SomeD)
    then show ?thesis using Some wf by (simp add: q length_update_present kp_wf_def)
  qed
  moreover have "affinity_ok ?q"
    unfolding affinity_ok_def q
  proof (intro conjI)
    show "distinct (map fst (AList.update c i (clientAffinity ?p)))"
      "distinct (map fst (AList.update c now (clientAffinityAt ?p)))"
      using ok by (simp_all only: affinity_ok_def distinct_update)
    have "fst ` set (clientAffinity ?p) = fst ` set (clientAffinityAt ?p)"
      using ok by (simp only: affinity_ok_def)
    then show "fst ` set (AList.update c i (clientAffinity ?p)) = fst ` set (AList.update c now (clientAffinityAt ?p))"
      by (simp only: dom_update)
    have "\<forall>(c, i) \<in> set (clientAffinity ?p). c \<noteq> [] \<and> i < length (entries ?q)"
      using ok unfolding affinity_ok_def e bindLocked_frame by blast
    then show "\<forall>(c, i) \<in> set (AList.update c i (clientAffinity ?p)). c \<noteq> [] \<and> i < length (entries ?q)"
      using set_update_sub[of c i "clientAffinity ?p"] i c
      by (auto simp del: AList.update.simps)
  qed
  ultimately show ?thesis using wf by (simp add: kp_wf_def)
qed

end
