(* ===== verification/Key_Pool_Select.thy ===== *)
theory Key_Pool_Select
  imports Key_Pool_Inv
begin

text \<open>
  What the three selectors of the pool promise. The contract (\<open>sel_post\<close>) says which key is
  returned, when none is, and what selection may change; the locale \<open>key_selector\<close> is the part of
  it the retry loops rely on, interpreted on the model's selectors. The second half is the policy:
  least load first, round robin without load, sticky bindings, migration only to a strictly less
  loaded key.
\<close>

section \<open>Usable keys\<close>

definition usable :: "time \<Rightarrow> key_entry \<Rightarrow> bool" where
  "usable now e = (\<not> blocked e \<and> (exhausted e \<longrightarrow> cooldownEnd e \<le> now))"

text \<open>The part of an entry that reading the token window leaves alone.\<close>

definition core :: "key_entry \<Rightarrow> key_entry" where
  "core e = e\<lparr>tokenSamples := []\<rparr>"

lemma core_prune [simp]: "core (prune_entry c e) = core e"
  by (simp add: core_def prune_entry_def)

lemma core_eq_fields:
  assumes "core e = core d"
  shows "active e = active d" "keyStr e = keyStr d" "usable now e = usable now d"
    "blocked e = blocked d" "exhausted e = exhausted d" "cooled now e = cooled now d"
    "exhaustReason e = exhaustReason d" "cooldownEnd e = cooldownEnd d"
proof -
  have *: "blocked (core x) = blocked x" "exhausted (core x) = exhausted x" "keyStr (core x) = keyStr x"
    "cooldownEnd (core x) = cooldownEnd x" "exhaustReason (core x) = exhaustReason x" for x
    by (simp_all add: core_def)
  show "blocked e = blocked d" "exhausted e = exhausted d" "keyStr e = keyStr d"
    "cooldownEnd e = cooldownEnd d" "exhaustReason e = exhaustReason d"
    using assms *[of e] *[of d] by simp_all
  then show "active e = active d" "usable now e = usable now d" "cooled now e = cooled now d"
    by (simp_all add: active_def usable_def cooled_def)
qed

lemma core_recover: "core (recover e) = recover (core e)"
  by (simp add: core_def recover_def)

lemma same_pool_core: "same_pool now q p \<Longrightarrow> i < length (entries p) \<Longrightarrow> core (entries q ! i) = core (entries p ! i)"
  using same_pool_entry[of now q p i] by (metis core_prune)

lemma active_usable: "active e \<Longrightarrow> usable now e"
  by (simp add: active_def usable_def)

lemma usable_iff: "usable now e = (active e \<or> (\<not> active e \<and> cooled now e \<and> exhausted e))"
  by (auto simp: active_def usable_def cooled_def)

lemma inactive_cooled_usable: "\<not> active e \<Longrightarrow> cooled now e = usable now e"
  by (auto simp: active_def usable_def cooled_def)

section \<open>The rotation\<close>

lemma set_rotation: "0 < n \<Longrightarrow> set (rotation s n) = {..<n}"
proof
  assume n: "0 < n"
  then show "set (rotation s n) \<subseteq> {..<n}" by (auto simp: rotation_def)
  show "{..<n} \<subseteq> set (rotation s n)"
  proof
    fix j assume j: "j \<in> {..<n}"
    let ?i = "(j + (n - s mod n)) mod n"
    have "s mod n < n" using n by simp
    then have "s mod n + (j + (n - s mod n)) = j + n" by simp
    then have "(s + ?i) mod n = j"
      using j by (metis mod_add_left_eq mod_add_right_eq mod_add_self2 mod_less lessThan_iff)
    moreover have "?i < n" using n by simp
    ultimately show "j \<in> set (rotation s n)"
      by (force simp: rotation_def)
  qed
qed

lemma find_rotation_None:
  "0 < n \<Longrightarrow> find P (rotation s n) = None \<longleftrightarrow> (\<forall>i < n. \<not> P i)"
  by (auto simp: find_None_iff set_rotation)

lemma find_rotation_Some:
  "0 < n \<Longrightarrow> find P (rotation s n) = Some i \<Longrightarrow> i < n \<and> P i"
  using find_in_set[of P "rotation s n" i] by (simp add: set_rotation)

section \<open>The contract of a selector\<close>

definition sel_post :: "time \<Rightarrow> key_pool \<Rightarrow> (string \<times> int) \<times> key_pool \<Rightarrow> bool" where
  "sel_post now p = (\<lambda>((k, i), q).
     length (entries q) = length (entries p) \<and> inFlight q = inFlight p \<and>
     (\<forall>j < length (entries p). core (entries q ! j) = core (entries p ! j) \<or>
        int j = i \<and> usable now (entries p ! j) \<and> core (entries q ! j) = core (recover (entries p ! j))) \<and>
     (if i = -1 then k = [] \<and> (\<forall>j < length (entries p). \<not> usable now (entries p ! j))
      else valid_index p i \<and> k = keyStr (entries p ! nat i) \<and> active (entries q ! nat i)))"

lemma sel_post_active:
  assumes "i < length (entries p)" "active (entries p ! i)" "entries q = entries p" "inFlight q = inFlight p"
  shows "sel_post now p (keyAt p i, q)"
  using assms by (simp add: sel_post_def keyAt_def valid_index_def)

lemma sel_post_cooled:
  assumes "i < length (entries p)" "cooled now (entries p ! i)" "\<not> active (entries p ! i)"
    "entries q = entries (upd_entry p i recover)" "inFlight q = inFlight p"
  shows "sel_post now p (keyAt p i, q)"
  using assms inactive_cooled_usable[of "entries p ! i" now]
  by (auto simp: sel_post_def keyAt_def valid_index_def entries_upd_entry nth_list_update cooled_def)

lemma sel_post_none:
  assumes "\<forall>j < length (entries p). \<not> active (entries p ! j)"
    "\<forall>j < length (entries p). \<not> cooled now (entries p ! j)"
  shows "sel_post now p (no_key, p)"
  using assms by (simp add: sel_post_def inactive_cooled_usable)

lemma sel_post_same:
  assumes s: "same_pool now p' p" and post: "sel_post now p' r"
  shows "sel_post now p r"
proof -
  note f = same_pool_fields[OF s]
  obtain k i q where r: "r = ((k, i), q)" by (cases r) auto
  have c: "core (entries p' ! j) = core (entries p ! j)" if "j < length (entries p)" for j
    using same_pool_core[OF s that] .
  then have u: "usable now (entries p' ! j) = usable now (entries p ! j)"
    "keyStr (entries p' ! j) = keyStr (entries p ! j)" if "j < length (entries p)" for j
    using core_eq_fields[OF c[OF that]] that by auto
  have rc: "core (recover (entries p' ! j)) = core (recover (entries p ! j))" if "j < length (entries p)" for j
    using c[OF that] by (simp add: core_recover)
  have "nat i < length (entries p)" if "valid_index p' i"
    using that f(1) by (auto simp: valid_index_def)
  then show ?thesis
    using post f(1,2) c u rc
    by (cases "i = -1") (simp_all add: sel_post_def r valid_index_def)
qed

lemma sel_post_cong:
  "entries p = entries q \<Longrightarrow> inFlight p = inFlight q \<Longrightarrow> sel_post now p = sel_post now q"
  by (simp only: sel_post_def valid_index_def)

lemma overflow_select_post:
  assumes ne: "entries p \<noteq> []"
  shows "sel_post now p (overflow_select p c now)"
proof (cases "find (\<lambda>i. active (entries p ! i)) (rotation (rr_start p) (length (entries p)))")
  case (Some i)
  then have "i < length (entries p) \<and> active (entries p ! i)"
    using find_rotation_Some[OF _ Some] ne by simp
  then show ?thesis
    by (simp add: overflow_select_def Some sel_post_active)
next
  case None
  then have na: "\<forall>j < length (entries p). \<not> active (entries p ! j)"
    using find_rotation_None[of "length (entries p)"] ne by simp
  show ?thesis
  proof (cases "find (\<lambda>i. cooled now (entries p ! i)) [0..<length (entries p)]")
    case (Some i)
    then show ?thesis
      using find_upt_Some[OF Some] na
      by (simp add: overflow_select_def None sel_post_cooled)
  next
    case None': None
    then have "\<forall>j < length (entries p). \<not> cooled now (entries p ! j)"
      by (simp add: find_upt_None)
    then show ?thesis
      using na by (simp add: overflow_select_def None None' sel_post_none)
  qed
qed

lemma overflow_select_wf:
  assumes wf: "kp_wf p" and c: "c \<noteq> []"
  shows "kp_wf (snd (overflow_select p c now))"
proof (cases "find (\<lambda>i. active (entries p ! i)) (rotation (rr_start p) (length (entries p)))")
  case (Some i)
  then have "i < length (entries p)"
    using find_rotation_Some[OF _ Some] kp_wfD(1)[OF wf] by simp
  then show ?thesis
    by (simp add: overflow_select_def Some kp_wf_bind wf c)
next
  case None
  show ?thesis
  proof (cases "find (\<lambda>i. cooled now (entries p ! i)) [0..<length (entries p)]")
    case (Some i)
    then show ?thesis
      using find_upt_Some[OF Some]
      by (simp add: overflow_select_def None kp_wf_bind kp_wf_upd_entry wf c)
  next
    case None': None
    then show ?thesis by (simp add: overflow_select_def None wf)
  qed
qed

section \<open>New clients\<close>

definition signal :: "key_pool \<Rightarrow> time \<Rightarrow> nat \<Rightarrow> bool" where
  "signal p now i = (0 < inFlight p ! i \<or> 0 < window_sum p now i)"

definition any_signal :: "key_pool \<Rightarrow> time \<Rightarrow> bool" where
  "any_signal p now = (\<exists>i \<in> set (active_indices p). signal p now i)"

definition new_sim :: "time \<Rightarrow> key_pool \<Rightarrow> int \<times> bool \<times> key_pool \<Rightarrow> nat option \<Rightarrow> bool \<Rightarrow> bool" where
  "new_sim now p s b g = (case s of (best, sig, q) \<Rightarrow> best = opt_int b \<and> sig = g \<and> same_pool now q p \<and>
     (\<forall>i. b = Some i \<longrightarrow> i < length (entries p)))"

lemma new_client_step_sim:
  assumes sim: "new_sim now p s b g" and i: "i < length (entries p)" and act: "active (entries p ! i)"
  shows "new_sim now p (new_client_step now s i)
    (best_step (\<lambda>i j. load p now i < load p now j) b i) (g \<or> signal p now i)"
proof -
  obtain q where s: "s = (opt_int b, g, q)" and q: "same_pool now q p"
    using sim by (cases s) (auto simp: new_sim_def)
  have act': "active (entries q ! i)"
    using same_pool_entry_fields(1)[OF q i] act by simp
  have iq: "i < length (entries q)" using i same_pool_fields(1)[OF q] by simp
  obtain q1 where q1: "(if 0 < inFlight q ! i then (True, q)
      else let (t, q') = tokenSumInWindow q i now in (g \<or> 0 < t, q')) = (g \<or> signal p now i, q1)"
    and s1: "same_pool now q1 p"
  proof (cases "0 < inFlight q ! i")
    case True
    then show thesis
      using that[of q] q same_pool_fields(2)[OF q] by (simp add: signal_def)
  next
    case False
    obtain t q' where t: "tokenSumInWindow q i now = (t, q')" by fastforce
    note ts = tokenSumInWindow_spec[OF iq, of now, unfolded t fst_conv snd_conv]
    have "t = window_sum p now i" using ts(1) window_sum_same[OF q i] by simp
    then show thesis
      using that[of q'] False same_pool_trans[OF ts(2) q] same_pool_fields(2)[OF q]
      by (simp add: signal_def t)
  qed
  show ?thesis
  proof (cases b)
    case None
    then show ?thesis
      using i s1 by (simp add: s new_client_step_def act' q1 new_sim_def)
  next
    case (Some j)
    then have j: "j < length (entries p)" using sim by (simp add: new_sim_def s)
    obtain lt q' where sc: "scoreLessLocked q1 (int i) (int j) now = (lt, q')" by fastforce
    show ?thesis
      using scoreLess_same[OF s1 i j sc] i j
      by (simp add: s new_client_step_def act' q1 new_sim_def Some sc)
  qed
qed

lemma new_client_loop:
  assumes "new_sim now p s b g" "set xs \<subseteq> {..<length (entries p)}"
  shows "new_sim now p (foldl (new_client_step now) s xs)
     (foldl (best_step (\<lambda>i j. load p now i < load p now j)) b (filter (\<lambda>i. active (entries p ! i)) xs))
     (g \<or> (\<exists>i \<in> set (filter (\<lambda>i. active (entries p ! i)) xs). signal p now i))"
  using assms
proof (induction xs arbitrary: s b g)
  case (Cons i xs)
  show ?case
  proof (cases "active (entries p ! i)")
    case True
    then have "new_sim now p (new_client_step now s i)
      (best_step (\<lambda>i j. load p now i < load p now j) b i) (g \<or> signal p now i)"
      using Cons.prems by (intro new_client_step_sim) auto
    from Cons.IH[OF this] Cons.prems(2) show ?thesis
      by (simp add: True disj_assoc)
  next
    case False
    obtain best sg q where s: "s = (best, sg, q)" and q: "same_pool now q p"
      using Cons.prems(1) by (cases s) (auto simp: new_sim_def)
    have "\<not> active (entries q ! i)"
      using same_pool_entry_fields(1)[OF q, of i] False Cons.prems(2) by simp
    then have "new_client_step now s i = s" by (simp add: s new_client_step_def)
    then show ?thesis using Cons False by simp
  qed
qed simp

lemma new_client_best:
  obtains q where "foldl (new_client_step now) (-1, False, p) [0..<length (entries p)] =
      (opt_int (least_loaded p now), any_signal p now, q)" "same_pool now q p"
proof -
  have "new_sim now p (-1, False, p) None False" by (simp add: new_sim_def)
  from new_client_loop[OF this, of "[0..<length (entries p)]"]
  have "new_sim now p (foldl (new_client_step now) (-1, False, p) [0..<length (entries p)])
      (least_loaded p now) (any_signal p now)"
    by (simp add: least_loaded_def arg_best_def active_indices_def any_signal_def lessThan_atLeast0)
  then show ?thesis
    using that by (auto simp: new_sim_def)
qed

lemma rr_pick_spec:
  assumes "rr_pick k p = (r, q)"
  shows "\<exists>c. q = p\<lparr>rrCounter := c\<rparr>"
    "r = Some i \<Longrightarrow> entries p \<noteq> [] \<Longrightarrow> i < length (entries p) \<and> active (entries p ! i)"
proof -
  show "\<exists>c. q = p\<lparr>rrCounter := c\<rparr>"
    using assms
  proof (induction k arbitrary: p)
    case 0
    then show ?case by (intro exI[of _ "rrCounter p"]) simp
  next
    case (Suc k)
    show ?case
    proof (cases "active (entries p ! rr_start p)")
      case True
      then show ?thesis using Suc.prems by (auto simp: Let_def)
    next
      case False
      then show ?thesis using Suc.prems Suc.IH[of "p\<lparr>rrCounter := rrCounter p + 1\<rparr>"] by (auto simp: Let_def)
    qed
  qed
  show "i < length (entries p) \<and> active (entries p ! i)" if "r = Some i" "entries p \<noteq> []"
    using assms that
  proof (induction k arbitrary: p)
    case (Suc k)
    show ?case
    proof (cases "active (entries p ! rr_start p)")
      case True
      then show ?thesis using Suc.prems by (auto simp: Let_def rr_start_def)
    next
      case False
      then show ?thesis using Suc.prems Suc.IH[of "p\<lparr>rrCounter := rrCounter p + 1\<rparr>"] by (auto simp: Let_def)
    qed
  qed simp
qed

text \<open>Without a wrap of the 32-bit counter the round robin visits every key, starting at the counter.\<close>

lemma rr_pick_no_wrap:
  assumes "unat (rrCounter p) + k < 2 ^ 32"
  shows "fst (rr_pick k p) = find (\<lambda>i. active (entries p ! i))
     (map (\<lambda>i. (unat (rrCounter p) + i) mod length (entries p)) [0..<k])"
  using assms
proof (induction k arbitrary: p)
  case (Suc k)
  let ?p = "p\<lparr>rrCounter := rrCounter p + 1\<rparr>"
  have u: "unat (rrCounter p + 1) = Suc (unat (rrCounter p))"
    using Suc.prems unat_eq_zero[of "rrCounter p + 1"] by (simp add: unat_word_ariths take_bit_nat_eq_self_iff)
  have m: "map (\<lambda>i. (unat (rrCounter p) + i) mod length (entries p)) [0..<Suc k] =
      rr_start p # map (\<lambda>i. (unat (rrCounter ?p) + i) mod length (entries ?p)) [0..<k]"
    by (simp only: upt_conv_Cons[OF zero_less_Suc] map_Suc_upt[symmetric]) (simp add: u rr_start_def comp_def)
  show ?case
    using Suc.IH[of ?p] Suc.prems u unfolding m by (simp add: Let_def)
qed simp

section \<open>The selectors meet the contract\<close>

lemma new_client_select_post:
  assumes ne: "entries p \<noteq> []"
  shows "sel_post now p (new_client_select p c now)"
proof -
  obtain q where L: "foldl (new_client_step now) (-1, False, p) [0..<length (entries p)] =
      (opt_int (least_loaded p now), any_signal p now, q)" and s: "same_pool now q p"
    by (rule new_client_best)
  have neq: "entries q \<noteq> []" using ne same_pool_fields(1)[OF s] by auto
  show ?thesis
  proof (cases "least_loaded p now")
    case None
    then show ?thesis
      using sel_post_same[OF s overflow_select_post[OF neq]] L by (simp add: new_client_select_def)
  next
    case (Some i)
    then have i: "i < length (entries q)" "active (entries q ! i)"
      using least_loaded_in[OF Some] same_pool_fields(1)[OF s] same_pool_entry_fields(1)[OF s] by auto
    show ?thesis
    proof (cases "any_signal p now")
      case True
      have "sel_post now q (keyAt q i, bindLocked q c i now)"
        using i by (intro sel_post_active) simp_all
      then show ?thesis
        using sel_post_same[OF s] L Some True by (simp add: new_client_select_def)
    next
      case False
      obtain r q2 where R: "rr_pick (length (entries p)) q = (r, q2)" by fastforce
      obtain rc where q2: "q2 = q\<lparr>rrCounter := rc\<rparr>" using rr_pick_spec(1)[OF R] by blast
      have post: "sel_post now q2 (case r of Some i \<Rightarrow> (keyAt q2 i, bindLocked q2 c i now)
          | None \<Rightarrow> overflow_select q2 c now)"
      proof (cases r)
        case None
        then show ?thesis using overflow_select_post[of q2] neq q2 by simp
      next
        case (Some j)
        then have "j < length (entries q)" "active (entries q ! j)"
          using rr_pick_spec(2)[OF R _ neq] by auto
        then show ?thesis using Some q2 by (auto intro!: sel_post_active)
      qed
      have "sel_post now q (case r of Some i \<Rightarrow> (keyAt q2 i, bindLocked q2 c i now)
          | None \<Rightarrow> overflow_select q2 c now)"
        using post sel_post_cong[of q2 q] q2 by simp
      then show ?thesis
        using sel_post_same[OF s] L Some False R
        by (cases r) (simp_all add: new_client_select_def)
    qed
  qed
qed

lemma new_client_select_wf:
  assumes wf: "kp_wf p" and c: "c \<noteq> []"
  shows "kp_wf (snd (new_client_select p c now))"
proof -
  obtain q where L: "foldl (new_client_step now) (-1, False, p) [0..<length (entries p)] =
      (opt_int (least_loaded p now), any_signal p now, q)" and s: "same_pool now q p"
    by (rule new_client_best)
  have wfq: "kp_wf q" using kp_wf_same[OF s wf] .
  obtain r q2 where R: "rr_pick (length (entries p)) q = (r, q2)" by fastforce
  obtain rc where q2: "q2 = q\<lparr>rrCounter := rc\<rparr>" using rr_pick_spec(1)[OF R] by blast
  have wf2: "kp_wf q2" using wfq by (simp add: q2 kp_wf_rr)
  have rr: "i < length (entries q2)" if "r = Some i" for i
    using rr_pick_spec(2)[OF R that] kp_wfD(1)[OF wfq] by (simp add: q2)
  have ll: "i < length (entries q)" if "least_loaded p now = Some i" for i
    using least_loaded_in[OF that] same_pool_fields(1)[OF s] by simp
  show ?thesis
    using L R wfq wf2 c rr ll overflow_select_wf[OF wfq c] overflow_select_wf[OF wf2 c]
    by (cases "least_loaded p now"; cases "any_signal p now"; cases r)
      (simp_all add: new_client_select_def kp_wf_bind)
qed

text \<open>A bound client: the choice between the binding and the least loaded key.\<close>

definition bound_at :: "key_pool \<Rightarrow> string \<Rightarrow> time" where
  "bound_at p c = (case map_of (clientAffinityAt p) c of Some t \<Rightarrow> t | None \<Rightarrow> 0)"

definition rebalanced :: "key_pool \<Rightarrow> time \<Rightarrow> nat \<Rightarrow> nat" where
  "rebalanced p now pref = (case least_loaded p now of
     Some b \<Rightarrow> if load p now b < load p now pref then b else pref | None \<Rightarrow> pref)"

lemma bound_select_spec:
  assumes pref: "pref < length (entries p)"
  obtains q where "same_pool now q p"
    "bound_select p c pref now =
       (if time_sub now (bound_at p c) < rebalanceInterval p then (keyAt p pref, p)
        else (keyAt p (rebalanced p now pref), bindLocked q c (rebalanced p now pref) now))"
proof -
  obtain q where B: "bestActiveKeyLocked p now = (opt_int (least_loaded p now), q)" and s: "same_pool now q p"
    by (rule bestActiveKeyLocked_spec)
  have key: "keyAt q' j = keyAt p j" if "same_pool now q' p" "j < length (entries p)" for q' j
    using same_pool_entry_fields(3)[OF that] by (simp add: keyAt_def)
  show thesis
  proof (cases "least_loaded p now")
    case None
    then show thesis
      using that[OF s] B key[OF s pref]
      by (simp add: bound_select_def bound_at_def[symmetric] rebalanced_def Let_def)
  next
    case (Some b)
    have b: "b < length (entries p)" using least_loaded_in[OF Some] by simp
    obtain lt q' where sc: "scoreLessLocked q (int b) (int pref) now = (lt, q')" by fastforce
    note sp = scoreLess_same[OF s b pref sc]
    show thesis
    proof (cases "b = pref")
      case True
      then show thesis
        using that[OF s] B key[OF s pref] Some
        by (simp add: bound_select_def bound_at_def[symmetric] rebalanced_def Let_def)
    next
      case False
      then show thesis
        using that[of q'] sp B key[of q'] pref b Some sc
        by (simp add: bound_select_def bound_at_def[symmetric] rebalanced_def Let_def)
    qed
  qed
qed

lemma rebalanced_in:
  assumes "pref < length (entries p)" "active (entries p ! pref)"
  shows "rebalanced p now pref < length (entries p) \<and> active (entries p ! rebalanced p now pref)"
  using assms least_loaded_in[of p now] by (auto simp: rebalanced_def split: option.splits)

lemma bound_select_post:
  assumes pref: "pref < length (entries p)" "active (entries p ! pref)"
  shows "sel_post now p (bound_select p c pref now)"
proof -
  obtain q where s: "same_pool now q p" and B: "bound_select p c pref now =
       (if time_sub now (bound_at p c) < rebalanceInterval p then (keyAt p pref, p)
        else (keyAt p (rebalanced p now pref), bindLocked q c (rebalanced p now pref) now))"
    by (rule bound_select_spec[OF pref(1)])
  let ?i = "rebalanced p now pref"
  have i: "?i < length (entries p)" "active (entries p ! ?i)" using rebalanced_in[OF pref] by auto
  have qi: "?i < length (entries q)" "active (entries q ! ?i)" "keyAt q ?i = keyAt p ?i"
    using i same_pool_fields(1)[OF s] same_pool_entry_fields[OF s i(1)] by (simp_all add: keyAt_def)
  have "sel_post now q (keyAt q ?i, bindLocked q c ?i now)"
    using qi by (intro sel_post_active) simp_all
  from sel_post_same[OF s this] show ?thesis
    using sel_post_active[OF pref] qi(3) by (simp add: B)
qed

lemma bound_select_wf:
  assumes wf: "kp_wf p" and c: "c \<noteq> []" and pref: "pref < length (entries p)" "active (entries p ! pref)"
  shows "kp_wf (snd (bound_select p c pref now))"
proof -
  obtain q where s: "same_pool now q p" and B: "bound_select p c pref now =
       (if time_sub now (bound_at p c) < rebalanceInterval p then (keyAt p pref, p)
        else (keyAt p (rebalanced p now pref), bindLocked q c (rebalanced p now pref) now))"
    by (rule bound_select_spec[OF pref(1)])
  have "kp_wf q" "rebalanced p now pref < length (entries q)"
    using kp_wf_same[OF s wf] rebalanced_in[OF pref] same_pool_fields(1)[OF s] by auto
  then show ?thesis using wf c by (simp add: B kp_wf_bind)
qed

lemma selectKeyForClient_post_wf:
  assumes wf: "kp_wf p" and c: "c \<noteq> []"
  shows "sel_post now p (selectKeyForClient p c now) \<and> kp_wf (snd (selectKeyForClient p c now))"
proof -
  have ne: "entries p \<noteq> []" using kp_wfD(1)[OF wf] .
  show ?thesis
  proof (cases "map_of (clientAffinity p) c")
    case None
    then show ?thesis
      using ne c new_client_select_post[OF ne] new_client_select_wf[OF wf c]
      by (simp add: selectKeyForClient_def)
  next
    case (Some pref)
    show ?thesis
    proof (cases "pref < length (entries p) \<and> active (entries p ! pref)")
      case True
      then show ?thesis
        using ne c Some bound_select_post bound_select_wf[OF wf c]
        by (simp add: selectKeyForClient_def)
    next
      case False
      then show ?thesis
        using ne c Some overflow_select_post[OF ne] overflow_select_wf[OF wf c]
        by (auto simp: selectKeyForClient_def)
    qed
  qed
qed

lemma set_rotation_after:
  assumes n: "0 < n"
  shows "set (rotation_after a n) = {..<n}"
proof
  show "set (rotation_after a n) \<subseteq> {..<n}"
    using n by (auto simp: rotation_after_def nat_less_iff)
  show "{..<n} \<subseteq> set (rotation_after a n)"
  proof
    fix j assume "j \<in> {..<n}"
    then have j: "j < n" by simp
    obtain r where r_def: "r = (int j - a - 1) mod int n" by blast
    let ?i = "nat (r + 1)"
    have r: "0 \<le> r" "r < int n" using n by (simp_all add: r_def)
    then have i: "?i \<in> set [1..<Suc n]" and ii: "int ?i = r + 1" by auto
    have "(a + int ?i) mod int n = (a + 1 + r) mod int n" unfolding ii by (simp add: ac_simps)
    also have "\<dots> = (a + 1 + (int j - a - 1)) mod int n" unfolding r_def by (rule mod_add_right_eq)
    also have "\<dots> = int j" using j by simp
    finally have "j = nat ((a + int ?i) mod int n)" by simp
    then show "j \<in> set (rotation_after a n)"
      unfolding rotation_after_def set_map using i by (rule image_eqI)
  qed
qed

lemma find_after_None:
  "0 < n \<Longrightarrow> find P (rotation_after a n) = None \<longleftrightarrow> (\<forall>i < n. \<not> P i)"
  by (auto simp: find_None_iff set_rotation_after)

lemma find_after_Some: "0 < n \<Longrightarrow> find P (rotation_after a n) = Some i \<Longrightarrow> i < n \<and> P i"
  using find_in_set[of P "rotation_after a n" i] by (simp add: set_rotation_after)

lemma selectNextActiveKey_post_wf:
  assumes wf: "kp_wf p"
  shows "sel_post now p (selectNextActiveKey p a now) \<and> kp_wf (snd (selectNextActiveKey p a now))"
proof -
  let ?n = "length (entries p)"
  have ne: "entries p \<noteq> []" and n: "0 < ?n" using kp_wfD(1)[OF wf] by auto
  show ?thesis
  proof (cases "find (\<lambda>i. active (entries p ! i)) (rotation_after a ?n)")
    case (Some i)
    then show ?thesis
      using find_after_Some[OF n Some] ne wf
      by (simp add: selectNextActiveKey_def sel_post_active)
  next
    case None
    then have na: "\<forall>j < ?n. \<not> active (entries p ! j)" by (rule find_after_None[OF n, THEN iffD1])
    show ?thesis
    proof (cases "find (\<lambda>i. cooled now (entries p ! i)) [0..<?n]")
      case (Some i)
      then show ?thesis
        using find_upt_Some[OF Some] na ne wf
        by (simp add: selectNextActiveKey_def None sel_post_cooled kp_wf_upd_entry)
    next
      case None': None
      then have "\<forall>j < ?n. \<not> cooled now (entries p ! j)" by (simp add: find_upt_None)
      then show ?thesis
        using na ne wf by (simp add: selectNextActiveKey_def None None' sel_post_none)
    qed
  qed
qed

lemma selectKey_cases:
  assumes wf: "kp_wf p"
  shows "kp_wf (snd (selectKey p now))"
    "\<exists>e \<in> set (entries p). usable now e \<Longrightarrow> sel_post now p (selectKey p now)"
    "\<not> (\<exists>e \<in> set (entries p). usable now e) \<Longrightarrow>
       selectKey p now = (case desperation p now of Some i \<Rightarrow> (keyAt p i, p) | None \<Rightarrow> (no_key, p))"
proof -
  let ?n = "length (entries p)"
  have ne: "entries p \<noteq> []" and n: "0 < ?n" using kp_wfD(1)[OF wf] by auto
  have ex: "(\<exists>e \<in> set (entries p). usable now e) = (\<exists>j < ?n. usable now (entries p ! j))"
    by (metis in_set_conv_nth)
  consider (act) i where "find (\<lambda>i. active (entries p ! i)) (rotation (rr_start p) ?n) = Some i"
    | (cool) i where "find (\<lambda>i. active (entries p ! i)) (rotation (rr_start p) ?n) = None"
        "find (\<lambda>i. cooled now (entries p ! i)) [0..<?n] = Some i"
    | (none) "find (\<lambda>i. active (entries p ! i)) (rotation (rr_start p) ?n) = None"
        "find (\<lambda>i. cooled now (entries p ! i)) [0..<?n] = None"
    by (metis not_None_eq)
  then have "kp_wf (snd (selectKey p now)) \<and> (if \<exists>j < ?n. usable now (entries p ! j)
      then sel_post now p (selectKey p now)
      else selectKey p now = (case desperation p now of Some i \<Rightarrow> (keyAt p i, p) | None \<Rightarrow> (no_key, p)))"
  proof cases
    case act
    note i = find_rotation_Some[OF n act]
    then have "\<exists>j < ?n. usable now (entries p ! j)" using active_usable by blast
    then show ?thesis
      using ne i wf by (simp add: selectKey_def act kp_wf_rr sel_post_active)
  next
    case cool
    have na: "\<forall>j < ?n. \<not> active (entries p ! j)" using find_rotation_None[OF n, THEN iffD1, OF cool(1)] .
    note i = find_upt_Some[OF cool(2)]
    then have "\<exists>j < ?n. usable now (entries p ! j)" using inactive_cooled_usable na by blast
    then show ?thesis
      using ne i na wf by (simp add: selectKey_def cool kp_wf_upd_entry sel_post_cooled)
  next
    case none
    have "\<forall>j < ?n. \<not> active (entries p ! j)" using find_rotation_None[OF n, THEN iffD1, OF none(1)] .
    moreover have "\<forall>j < ?n. \<not> cooled now (entries p ! j)" using none(2) by (simp add: find_upt_None)
    ultimately have "\<not> (\<exists>j < ?n. usable now (entries p ! j))" using inactive_cooled_usable by blast
    then show ?thesis
      using ne wf by (cases "desperation p now") (auto simp: selectKey_def none)
  qed
  then show "kp_wf (snd (selectKey p now))"
    "\<exists>e \<in> set (entries p). usable now e \<Longrightarrow> sel_post now p (selectKey p now)"
    "\<not> (\<exists>e \<in> set (entries p). usable now e) \<Longrightarrow>
       selectKey p now = (case desperation p now of Some i \<Rightarrow> (keyAt p i, p) | None \<Rightarrow> (no_key, p))"
    by (simp_all only: ex if_True if_False)
qed

lemma desperation_spec:
  assumes "desperation p now = Some i"
  shows "i < length (entries p)" "\<not> blocked (entries p ! i)"
    "exhaustReason (entries p ! i) \<noteq> ''rate_limited''"
    "j < length (entries p) \<Longrightarrow> \<not> blocked (entries p ! j) \<Longrightarrow>
       exhaustReason (entries p ! j) \<noteq> ''rate_limited'' \<Longrightarrow>
       time_sub (cooldownEnd (entries p ! i)) now \<le> time_sub (cooldownEnd (entries p ! j)) now"
proof -
  let ?xs = "filter (\<lambda>i. \<not> blocked (entries p ! i) \<and> exhaustReason (entries p ! i) \<noteq> ''rate_limited'')
         [0..<length (entries p)]"
  have "i \<in> set ?xs" using assms arg_best_in unfolding desperation_def by fast
  then show "i < length (entries p)" "\<not> blocked (entries p ! i)"
    "exhaustReason (entries p ! i) \<noteq> ''rate_limited''" by auto
  show "time_sub (cooldownEnd (entries p ! i)) now \<le> time_sub (cooldownEnd (entries p ! j)) now"
    if "j < length (entries p)" "\<not> blocked (entries p ! j)"
       "exhaustReason (entries p ! j) \<noteq> ''rate_limited''"
    using that by (intro arg_best_least[OF assms[unfolded desperation_def]]) auto
qed

section \<open>The interface of the retry loops\<close>

text \<open>
  A selector of usable keys. The client is a loop that selects a key, finds it exhausted, marks it
  and selects again: within one cooldown it tries every usable key exactly once and then stops.
\<close>

definition usable_keys :: "time \<Rightarrow> key_pool \<Rightarrow> nat set" where
  "usable_keys now p = {i. i < length (entries p) \<and> usable now (entries p ! i)}"

locale key_selector =
  fixes select :: "key_pool \<Rightarrow> time \<Rightarrow> (string \<times> int) \<times> key_pool"
  assumes select_wf: "kp_wf p \<Longrightarrow> kp_wf (snd (select p now))"
    and select_usable: "kp_wf p \<Longrightarrow> usable_keys now (snd (select p now)) = usable_keys now p"
    and select_some: "kp_wf p \<Longrightarrow> usable_keys now p \<noteq> {} \<Longrightarrow>
      \<exists>i \<in> usable_keys now p. fst (select p now) = keyAt p i \<and> active (entries (snd (select p now)) ! i)"
    and select_none: "kp_wf p \<Longrightarrow> usable_keys now p = {} \<Longrightarrow> fst (select p now) = no_key"

primrec exhaust_loop :: "(key_pool \<Rightarrow> time \<Rightarrow> (string \<times> int) \<times> key_pool) \<Rightarrow> string \<Rightarrow> time \<Rightarrow>
    nat \<Rightarrow> key_pool \<Rightarrow> (nat list \<times> key_pool) option" where
  "exhaust_loop sel code now 0 p = None"
| "exhaust_loop sel code now (Suc k) p = (let ((_, i), q) = sel p now in
     if i = -1 then Some ([], q)
     else map_option (\<lambda>(is, r). (nat i # is, r)) (exhaust_loop sel code now k (markExhausted q i code now)))"

lemma exhaustion_outcome_cooldown:
  assumes "exhaustion_outcome p code now = (r, cend, q)" "now < permanentEnd"
  shows "now < cend" "\<exists>t. q = p\<lparr>resetTime := t\<rparr>"
proof -
  show "now < cend"
    using assms by (auto simp: exhaustion_outcome_def Let_def time_units split: if_splits)
  have "q = p \<or> (\<exists>t. q = p\<lparr>resetTime := t\<rparr>)"
    using assms by (auto simp: exhaustion_outcome_def Let_def split: if_splits)
  then show "\<exists>t. q = p\<lparr>resetTime := t\<rparr>"
    by (metis key_pool.update_convs(2) key_pool.surjective)
qed

lemma markExhausted_usable:
  assumes now: "now < permanentEnd" and i: "i < length (entries p)" "active (entries p ! i)"
  shows "usable_keys now (markExhausted p (int i) code now) = usable_keys now p - {i}"
proof -
  obtain r cend q where o: "exhaustion_outcome p code now = (r, cend, q)" by (cases "exhaustion_outcome p code now") auto
  obtain t where q: "q = p\<lparr>resetTime := t\<rparr>" and ce: "now < cend"
    using exhaustion_outcome_cooldown[OF o now] by blast
  show ?thesis
    using i ce by (auto simp: markExhausted_def markExhaustedWithError_def o q valid_index_def active_def
        usable_keys_def entries_upd_entry nth_list_update usable_def split: if_splits)
qed

lemma markExhausted_wf [wf_intros]:
  assumes wf: "kp_wf p"
  shows "kp_wf (markExhaustedWithError p i code body now)"
proof (cases "valid_index p i \<and> \<not> exhausted (entries p ! nat i)")
  case True
  obtain r cend q where o: "exhaustion_outcome p code now = (r, cend, q)" by (cases "exhaustion_outcome p code now") auto
  have "q = p \<or> (\<exists>t. q = p\<lparr>resetTime := t\<rparr>)"
    using o by (auto simp: exhaustion_outcome_def Let_def split: if_splits)
  then have "kp_wf q" using wf kp_wf_resetTime by blast
  then show ?thesis
    using True by (simp add: markExhaustedWithError_def o kp_wf_upd_entry)
next
  case False
  then show ?thesis using wf by (auto simp: markExhaustedWithError_def)
qed

context key_selector
begin

lemma exhaust_loop_complete:
  assumes "kp_wf p" "now < permanentEnd" "card (usable_keys now p) < k"
  shows "\<exists>is q. exhaust_loop select code now k p = Some (is, q) \<and> distinct is \<and>
     set is = usable_keys now p \<and> usable_keys now q = {}"
  using assms
proof (induction k arbitrary: p)
  case (Suc k)
  obtain kk i q where S: "select p now = ((kk, i), q)" by (metis prod.collapse)
  have wfq: "kp_wf q" and uq: "usable_keys now q = usable_keys now p"
    using select_wf[OF Suc.prems(1), of now] select_usable[OF Suc.prems(1), of now] by (simp_all add: S)
  have fin: "finite (usable_keys now p)" by (simp add: usable_keys_def)
  show ?case
  proof (cases "usable_keys now p = {}")
    case True
    then show ?thesis
      using select_none[OF Suc.prems(1) True] uq by (simp add: S)
  next
    case False
    obtain j where j: "j \<in> usable_keys now p" and ij: "i = int j" and act: "active (entries q ! j)"
      using select_some[OF Suc.prems(1) False] by (auto simp: S keyAt_def)
    let ?r = "markExhausted q (int j) code now"
    have jq: "j < length (entries q)" using j uq by (auto simp: usable_keys_def)
    have ur: "usable_keys now ?r = usable_keys now p - {j}"
      using markExhausted_usable[OF Suc.prems(2) jq act] uq by simp
    have "card (usable_keys now p) = Suc (card (usable_keys now p - {j}))"
      using card.remove[OF fin j] by simp
    then have "card (usable_keys now ?r) < k"
      using Suc.prems(3) by (simp add: ur)
    from Suc.IH[OF _ Suc.prems(2) this] markExhausted_wf[OF wfq]
    obtain "is" r where r: "exhaust_loop select code now k ?r = Some (is, r)" "distinct is"
      "set is = usable_keys now ?r" "usable_keys now r = {}"
      unfolding markExhausted_def by blast
    then show ?thesis
      using j ur by (auto simp: S ij)
  qed
qed simp

end

lemma sel_post_contract:
  assumes "sel_post now p r"
  shows "usable_keys now (snd r) = usable_keys now p"
    "usable_keys now p \<noteq> {} \<Longrightarrow>
      \<exists>i \<in> usable_keys now p. fst r = keyAt p i \<and> active (entries (snd r) ! i)"
    "usable_keys now p = {} \<Longrightarrow> fst r = no_key"
proof -
  obtain k i q where r: "r = ((k, i), q)" by (cases r) auto
  have len: "length (entries q) = length (entries p)" using assms by (simp add: r sel_post_def)
  have u: "usable now (entries q ! j) = usable now (entries p ! j)" if "j < length (entries p)" for j
  proof -
    have "core (entries q ! j) = core (entries p ! j) \<or>
        usable now (entries p ! j) \<and> core (entries q ! j) = core (recover (entries p ! j))"
      using assms that by (auto simp: r sel_post_def)
    moreover have "usable now (recover (entries p ! j))" if "usable now (entries p ! j)"
      using that by (simp add: usable_def)
    ultimately show ?thesis using core_eq_fields(3) by metis
  qed
  then show ueq: "usable_keys now (snd r) = usable_keys now p"
    by (auto simp: usable_keys_def r len)
  have found: "\<exists>i \<in> usable_keys now p. fst r = keyAt p i \<and> active (entries (snd r) ! i)" if "i \<noteq> -1"
  proof -
    have v: "valid_index p i" "k = keyStr (entries p ! nat i)" "active (entries q ! nat i)"
      using assms that by (simp_all add: r sel_post_def)
    then have "nat i \<in> usable_keys now p"
      using active_usable[OF v(3)] u[of "nat i"] by (auto simp: usable_keys_def valid_index_def)
    then show ?thesis
      using v by (intro bexI[of _ "nat i"]) (simp_all add: r keyAt_def valid_index_def)
  qed
  have none: "k = [] \<and> usable_keys now p = {}" if "i = -1"
    using assms that by (auto simp: r sel_post_def usable_keys_def)
  show "\<exists>i \<in> usable_keys now p. fst r = keyAt p i \<and> active (entries (snd r) ! i)"
    if "usable_keys now p \<noteq> {}"
    using found none that by blast
  show "fst r = no_key" if "usable_keys now p = {}"
    using found none that by (cases "i = -1") (auto simp: r)
qed

lemma key_selectorI:
  assumes "\<And>p now. kp_wf p \<Longrightarrow> sel_post now p (s p now) \<and> kp_wf (snd (s p now))"
  shows "key_selector s"
proof
  fix p now assume wf: "kp_wf p"
  note post = assms[OF wf, of now, THEN conjunct1]
  show "kp_wf (snd (s p now))" using assms[OF wf] by blast
  show "usable_keys now (snd (s p now)) = usable_keys now p" by (rule sel_post_contract(1)[OF post])
  show "\<exists>i \<in> usable_keys now p. fst (s p now) = keyAt p i \<and> active (entries (snd (s p now)) ! i)"
    if "usable_keys now p \<noteq> {}" by (rule sel_post_contract(2)[OF post that])
  show "fst (s p now) = no_key" if "usable_keys now p = {}" by (rule sel_post_contract(3)[OF post that])
qed

interpretation next_sel: key_selector "\<lambda>p now. selectNextActiveKey p a now" for a
  by (rule key_selectorI) (rule selectNextActiveKey_post_wf)

text \<open>The caller in \<open>forward.go\<close> passes the client's address, a bar and its access key.\<close>

interpretation client_sel: key_selector "\<lambda>p now. selectKeyForClient p (ip @ CHR ''|'' # k) now" for ip k
  by (rule key_selectorI) (simp add: selectKeyForClient_post_wf)

end
