(* ===== verification/Key_Pool_Run.thy ===== *)
theory Key_Pool_Run
  imports Key_Pool_Select
begin

text \<open>
  Runs of the pool: every method as an operation, the pools reachable from a new one, and what
  holds of them and of the bookkeeping operations (tokens, requests in flight, wake-up lock).
\<close>

section \<open>Operations and reachable pools\<close>

datatype pool_op =
    Select time
  | Select_client string time
  | Select_next int time
  | Record int int time
  | Acquire int
  | Release int
  | Exhaust int string string time
  | Block int
  | Unblock int
  | Mark_recovered int
  | Try_wake time
  | Wake_complete time
  | Least_token time

fun pool_exec :: "key_pool \<Rightarrow> pool_op \<Rightarrow> key_pool" where
  "pool_exec p (Select now) = snd (selectKey p now)"
| "pool_exec p (Select_client c now) = snd (selectKeyForClient p c now)"
| "pool_exec p (Select_next a now) = snd (selectNextActiveKey p a now)"
| "pool_exec p (Record i t now) = recordTokens p i t now"
| "pool_exec p (Acquire i) = acquireInFlight p i"
| "pool_exec p (Release i) = releaseInFlight p i"
| "pool_exec p (Exhaust i code body now) = markExhaustedWithError p i code body now"
| "pool_exec p (Block i) = blockKey p i"
| "pool_exec p (Unblock i) = unblockKey p i"
| "pool_exec p (Mark_recovered i) = snd (markRecovered p i)"
| "pool_exec p (Try_wake now) = snd (tryWakeUp p now)"
| "pool_exec p (Wake_complete now) = wakeUpComplete p now"
| "pool_exec p (Least_token now) = snd (leastTokenActiveKeyIndex p now)"

inductive reachable :: "key_pool \<Rightarrow> bool" where
  reach_new: "newKeyPool target keys spec now = Some p \<Longrightarrow> reachable p"
| reach_step: "reachable p \<Longrightarrow> reachable (pool_exec p op)"

inductive_cases reachableE: "reachable p"

lemma reachable_foldl: "reachable p \<Longrightarrow> reachable (foldl pool_exec p ops)"
  by (induction ops arbitrary: p) (auto intro: reach_step)

lemma newKeyPool_wf: "newKeyPool target keys spec now = Some p \<Longrightarrow> kp_wf p"
  by (auto simp: newKeyPool_def kp_wf_def affinity_ok_def Let_def split: if_splits)

lemma kp_wf_prune [wf_intros]: "kp_wf p \<Longrightarrow> kp_wf (pruneExpiredSamplesLocked p i now)"
  unfolding pruneExpiredSamplesLocked_def by (rule kp_wf_upd_entry) (auto dest: kp_wfD(4))

lemma kp_wf_record [wf_intros]: "kp_wf p \<Longrightarrow> kp_wf (recordTokens p i t now)"
  by (auto simp: recordTokens_def entry_ok_def dest: kp_wfD(4) intro!: kp_wf_prune kp_wf_upd_entry)

lemma kp_wf_inflight:
  "kp_wf p \<Longrightarrow> 0 \<le> x \<Longrightarrow> kp_wf (p\<lparr>inFlight := (inFlight p)[i := x]\<rparr>)"
  using set_update_subset_insert[of "inFlight p" i x]
  by (auto simp: kp_wf_def affinity_ok_def)

lemma kp_wf_acquire [wf_intros]: "kp_wf p \<Longrightarrow> kp_wf (acquireInFlight p i)"
  using kp_wfD(2)[of p] kp_wfD(3)[of p "nat i"] by (auto simp: acquireInFlight_def intro!: kp_wf_inflight)

lemma kp_wf_release [wf_intros]: "kp_wf p \<Longrightarrow> kp_wf (releaseInFlight p i)"
  by (auto simp: releaseInFlight_def intro!: kp_wf_inflight)

lemma kp_wf_block [wf_intros]: "kp_wf p \<Longrightarrow> kp_wf (blockKey p i)"
  by (auto simp: blockKey_def entry_ok_def dest: kp_wfD(4) intro!: kp_wf_upd_entry)

lemma kp_wf_unblock [wf_intros]: "kp_wf p \<Longrightarrow> kp_wf (unblockKey p i)"
  by (auto simp: unblockKey_def intro!: kp_wf_upd_entry)

lemma kp_wf_recovered [wf_intros]: "kp_wf p \<Longrightarrow> kp_wf (snd (markRecovered p i))"
  by (auto simp: markRecovered_def intro!: kp_wf_upd_entry)

lemma kp_wf_wake [wf_intros]: "kp_wf p \<Longrightarrow> kp_wf (snd (tryWakeUp p now))" "kp_wf p \<Longrightarrow> kp_wf (wakeUpComplete p now)"
  by (simp_all add: tryWakeUp_def wakeUpComplete_def kp_wf_def affinity_ok_def)

lemma least_token_loop_wf:
  "kp_wf (snd (snd (snd s))) \<Longrightarrow> kp_wf (snd (snd (snd (foldl (least_token_step now) s xs))))"
proof (induction xs arbitrary: s)
  case (Cons i xs)
  have "kp_wf (snd (snd (snd (least_token_step now s i))))"
    using Cons.prems by (cases s) (auto simp: least_token_step_def tokenSumInWindow_def Let_def kp_wf_prune)
  then show ?case using Cons.IH by simp
qed simp

lemma kp_wf_least_token [wf_intros]: "kp_wf p \<Longrightarrow> kp_wf (snd (leastTokenActiveKeyIndex p now))"
  using least_token_loop_wf[of "(-1, -1, False, p)" now "[0..<length (entries p)]"]
  by (auto simp: leastTokenActiveKeyIndex_def split: prod.splits)

lemma kp_wf_select [wf_intros]: "kp_wf p \<Longrightarrow> kp_wf (snd (selectKeyForClient p c now))"
  using selectKeyForClient_post_wf[of p c now] selectKey_cases(1)[of p now]
  by (cases "c = []") (auto simp: selectKeyForClient_def)

lemmas select_wfs = kp_wf_select selectKey_cases(1) selectNextActiveKey_post_wf[THEN conjunct2]

lemma pool_exec_wf: "kp_wf p \<Longrightarrow> kp_wf (pool_exec p op)"
  by (cases op) (simp_all add: select_wfs kp_wf_record kp_wf_acquire kp_wf_release markExhausted_wf
      kp_wf_block kp_wf_unblock kp_wf_recovered kp_wf_wake kp_wf_least_token)

text \<open>
  C28: every pool a run of the proxy can reach is well-formed: it keeps one in-flight counter per
  key, none negative; every client binding points at a key of the pool; the two binding tables
  hold the same clients and never exceed their capacity; and a key that is not exhausted carries
  no reason, exhaustion time or cooldown.
\<close>

theorem reachable_pool_wf: "reachable p \<Longrightarrow> kp_wf p"
  by (induction rule: reachable.induct) (auto intro: newKeyPool_wf pool_exec_wf)

theorem reachable_pool_wf_witness:
  "\<exists>p. newKeyPool ''t'' [''k0'', ''k1''] ''monthly:1'' 0 = Some p \<and>
     kp_wf (foldl pool_exec p [Acquire 0, Select_client ''c'' 5, Exhaust 0 ''rate_limited'' [] 7, Release 0])"
proof -
  obtain p where p: "newKeyPool ''t'' [''k0'', ''k1''] ''monthly:1'' 0 = Some p"
    by (auto simp: newKeyPool_def)
  show ?thesis
    using p reachable_pool_wf[OF reachable_foldl[OF reach_new[OF p]]] by blast
qed

end
