(* ===== verification/Key_Pool_Props.thy ===== *)
theory Key_Pool_Props
  imports Key_Pool_Run
begin

text \<open>
  The properties of the key pool: what a selection returns, how clients stick to keys and move,
  what exhaustion does, and the bookkeeping of tokens, requests in flight and wake-ups.
\<close>

section \<open>A concrete pool\<close>

text \<open>Three keys with requests in flight, used by the witnesses.\<close>

definition demo_pool :: key_pool where
  "demo_pool = \<lparr>entries = map new_entry [''k0'', ''k1'', ''k2''], resetTime = 0, resetTimeSpec = [],
     poolTarget = ''t'', rrCounter = 0, clientAffinity = [(''a'', 0)], tokenWindow = minutes 3,
     inFlight = [2, 1, 1], clientAffinityAt = [(''a'', seconds 100)], rebalanceInterval = seconds 30,
     affinityTTL = minutes 10, maxAffinityEntries = 2, wakeUpCooldown = 0, wakeUpInProgress = False\<rparr>"

lemma demo_pool_wf: "kp_wf demo_pool"
  by (simp add: demo_pool_def kp_wf_def affinity_ok_def)

lemma demo_pool_simps: "length (entries demo_pool) = 3" "entries demo_pool ! 0 = new_entry ''k0''"
  "entries demo_pool ! Suc 0 = new_entry ''k1''" "entries demo_pool ! 2 = new_entry ''k2''"
  by (simp_all add: demo_pool_def)

lemma new_entry_active [simp]: "active (new_entry k)" "usable now (new_entry k)"
  by (simp_all add: new_entry_def active_def usable_def)

lemma usable_keys_set:
  "usable_keys now p = set (filter (\<lambda>i. usable now (entries p ! i)) [0..<length (entries p)])"
  by (auto simp: usable_keys_def)

lemma demo_usable: "usable_keys now demo_pool = {0, 1, 2}"
proof -
  have "[0..<3] = [0, 1, 2::nat]" by (simp add: upt_rec)
  then show ?thesis
    unfolding usable_keys_set demo_pool_simps(1) by (simp add: demo_pool_simps)
qed

section \<open>Selection\<close>

text \<open>
  C25: for a client, selection returns a key of the pool that is neither blocked nor in its
  cooldown whenever there is one, and the returned entry is active in the resulting pool; it
  reports no key exactly when every key is blocked or cooling down.
\<close>

theorem selectKeyForClient_usable:
  assumes "kp_wf p" "c \<noteq> []"
  shows "if usable_keys now p = {} then fst (selectKeyForClient p c now) = no_key
    else \<exists>i \<in> usable_keys now p. fst (selectKeyForClient p c now) = keyAt p i \<and>
      active (entries (snd (selectKeyForClient p c now)) ! i)"
  using sel_post_contract[OF selectKeyForClient_post_wf[OF assms, THEN conjunct1], of now] by simp

theorem selectKeyForClient_usable_witness:
  "\<exists>i \<in> {0, 1, 2}. fst (selectKeyForClient demo_pool ''b'' 7) = keyAt demo_pool i"
  using selectKeyForClient_usable[OF demo_pool_wf, of "''b''" 7] unfolding demo_usable by auto



text \<open>
  A client bound to a key that is still active keeps that key, and the pool does not change,
  as long as less than the rebalance interval has passed since the binding was made.
\<close>

theorem binding_sticky:
  assumes "entries p \<noteq> []" "c \<noteq> []" "map_of (clientAffinity p) c = Some i" "i < length (entries p)"
    "active (entries p ! i)" "map_of (clientAffinityAt p) c = Some t" "now < t + rebalanceInterval p"
    "0 \<le> rebalanceInterval p" "rebalanceInterval p \<le> max_duration"
  shows "selectKeyForClient p c now = (keyAt p i, p)"
  using assms time_sub_less[of "rebalanceInterval p" now t]
  by (simp add: selectKeyForClient_def bound_select_def)

theorem binding_sticky_witness:
  "selectKeyForClient demo_pool ''a'' (seconds 129) = ((''k0'', 0), demo_pool)"
  using binding_sticky[of demo_pool "''a''" 0 "seconds 100" "seconds 129"]
  by (simp add: demo_pool_def time_units max_duration_def keyAt_def new_entry_def active_def)

text \<open>
  Once the interval has passed, a client bound to an active key moves only to a key with
  strictly less load (fewer requests in flight, then fewer tokens in the window), and then to one
  that no active key is below; otherwise it stays. Either way the binding is renewed.
\<close>

theorem rebalance_improves:
  assumes "entries p \<noteq> []" "c \<noteq> []" "map_of (clientAffinity p) c = Some i" "i < length (entries p)"
    "active (entries p ! i)" "map_of (clientAffinityAt p) c = Some t" "t + rebalanceInterval p \<le> now"
    "0 \<le> rebalanceInterval p" "rebalanceInterval p \<le> max_duration"
  shows "\<exists>j q. selectKeyForClient p c now = (keyAt p j, q) \<and> j < length (entries p) \<and> active (entries p ! j) \<and>
    (j = i \<or> load p now j < load p now i) \<and>
    (\<forall>l < length (entries p). active (entries p ! l) \<longrightarrow> load p now j \<le> load p now l) \<and>
    map_of (clientAffinity q) c = Some j \<and> map_of (clientAffinityAt q) c = Some now"
proof -
  obtain q where B: "bound_select p c i now =
       (if time_sub now (bound_at p c) < rebalanceInterval p then (keyAt p i, p)
        else (keyAt p (rebalanced p now i), bindLocked q c (rebalanced p now i) now))"
    by (rule bound_select_spec[OF assms(4)])
  let ?j = "rebalanced p now i"
  have "\<not> time_sub now (bound_at p c) < rebalanceInterval p"
    using assms(6,7,8,9) time_sub_less[of "rebalanceInterval p" now t] by (simp add: bound_at_def)
  then have S: "selectKeyForClient p c now = (keyAt p ?j, bindLocked q c ?j now)"
    using assms B by (simp add: selectKeyForClient_def)
  obtain b where b: "least_loaded p now = Some b"
    using least_loaded_None[of p now] assms(4,5) by (cases "least_loaded p now") auto
  have "load p now ?j \<le> load p now l" if "l < length (entries p)" "active (entries p ! l)" for l
    using least_loaded_least[OF b that] by (auto simp: rebalanced_def b)
  moreover have "?j = i \<or> load p now ?j < load p now i" by (auto simp: rebalanced_def b)
  ultimately show ?thesis
    using S rebalanced_in[OF assms(4,5), of now] bindLocked_binds[of q c ?j now] by blast
qed

theorem rebalance_improves_witness:
  "\<exists>j q. selectKeyForClient demo_pool ''a'' (seconds 130) = (keyAt demo_pool j, q) \<and>
     load demo_pool (seconds 130) j \<le> load demo_pool (seconds 130) 0"
  using rebalance_improves[of demo_pool "''a''" 0 "seconds 100" "seconds 130"] demo_pool_simps
  by (auto simp: demo_pool_def time_units max_duration_def)

text \<open>
  A client without a binding, when some active key has a request in flight or tokens in its
  window, gets an active key that no active key is below in load, and is bound to it.
\<close>

theorem new_client_least_loaded:
  assumes "entries p \<noteq> []" "c \<noteq> []" "map_of (clientAffinity p) c = None" "any_signal p now"
  shows "\<exists>j q. selectKeyForClient p c now = (keyAt p j, q) \<and> j < length (entries p) \<and> active (entries p ! j) \<and>
    (\<forall>l < length (entries p). active (entries p ! l) \<longrightarrow> load p now j \<le> load p now l) \<and>
    map_of (clientAffinity q) c = Some j \<and> map_of (clientAffinityAt q) c = Some now"
proof -
  obtain q where L: "foldl (new_client_step now) (-1, False, p) [0..<length (entries p)] =
      (opt_int (least_loaded p now), any_signal p now, q)" and s: "same_pool now q p"
    by (rule new_client_best)
  obtain i where "i \<in> set (active_indices p)" using assms(4) by (auto simp: any_signal_def)
  then obtain b where b: "least_loaded p now = Some b"
    using least_loaded_None[of p now] by (cases "least_loaded p now") (auto simp: in_active_indices)
  note bi = least_loaded_in[OF b]
  have "keyAt q b = keyAt p b"
    using same_pool_entry_fields(3)[OF s] bi by (simp add: keyAt_def)
  then have "selectKeyForClient p c now = (keyAt p b, bindLocked q c b now)"
    using assms L b by (simp add: selectKeyForClient_def new_client_select_def)
  then show ?thesis
    using bi least_loaded_least[OF b] bindLocked_binds[of q c b now] by blast
qed

theorem new_client_least_loaded_witness:
  "\<exists>j q. selectKeyForClient demo_pool ''b'' 7 = (keyAt demo_pool j, q) \<and>
     load demo_pool 7 j \<le> load demo_pool 7 0 \<and> map_of (clientAffinity q) ''b'' = Some j"
proof -
  have "any_signal demo_pool 7"
    unfolding any_signal_def by (rule bexI[of _ 0]) (simp_all add: signal_def in_active_indices demo_pool_simps, simp add: demo_pool_def)
  then show ?thesis
    using new_client_least_loaded[of demo_pool "''b''" 7] demo_pool_simps
    by (fastforce simp: demo_pool_def)
qed

text \<open>Successive calls of \<open>selectKey\<close> at the given times, with the indices returned.\<close>

primrec selectKeys :: "key_pool \<Rightarrow> time list \<Rightarrow> int list" where
  "selectKeys p [] = []"
| "selectKeys p (t # ts) = (let ((_, i), q) = selectKey p t in i # selectKeys q ts)"

text \<open>
  While every key is active, calls without a client name go round robin: call \<open>j\<close> returns key
  \<open>(counter + j) mod n\<close>, so any \<open>n\<close> consecutive calls use each of the \<open>n\<close> keys once. The hypothesis
  excludes the wrap of the 32-bit counter during the calls, where the rotation may skip keys.
\<close>

theorem selectKey_round_robin:
  assumes "entries p \<noteq> []" "\<forall>e \<in> set (entries p). active e" "unat (rrCounter p) + length ts < 2 ^ 32"
  shows "selectKeys p ts = map (\<lambda>j. int ((unat (rrCounter p) + j) mod length (entries p))) [0..<length ts]"
  using assms
proof (induction ts arbitrary: p)
  case (Cons t ts)
  let ?q = "p\<lparr>rrCounter := rrCounter p + 1\<rparr>" and ?n = "length (entries p)"
  have n: "0 < ?n" using Cons.prems(1) by simp
  have "find (\<lambda>i. active (entries p ! i)) (rotation (rr_start p) ?n) = Some (rr_start p)"
  proof -
    have "rotation (rr_start p) ?n = rr_start p # tl (rotation (rr_start p) ?n)"
      using n by (simp add: rotation_def rr_start_def upt_rec[of 0])
    moreover have "active (entries p ! rr_start p)"
      using n Cons.prems(2) by (simp add: rr_start_def)
    ultimately show ?thesis by (metis find.simps(2))
  qed
  then have sel: "selectKey p t = (keyAt p (rr_start p), ?q)"
    using Cons.prems(1) by (simp add: selectKey_def)
  have u: "unat (rrCounter p + 1) = Suc (unat (rrCounter p))"
    using Cons.prems(3) by (simp add: unat_word_ariths take_bit_nat_eq_self_iff)
  have IH: "selectKeys ?q ts = map (\<lambda>j. int ((unat (rrCounter ?q) + j) mod length (entries ?q))) [0..<length ts]"
    using Cons.prems u by (intro Cons.IH) simp_all
  have "[0..<length (t # ts)] = 0 # map Suc [0..<length ts]"
    by (simp only: length_Cons upt_conv_Cons[OF zero_less_Suc] map_Suc_upt)
  then show ?case
    by (simp add: sel keyAt_def IH u rr_start_def comp_def)
qed simp

theorem selectKey_round_robin_witness:
  "selectKeys demo_pool [1, 1, 2, 3] = [0, 1, 2, 0]"
proof -
  have "\<forall>e \<in> set (entries demo_pool). active e" by (simp add: demo_pool_def)
  then show ?thesis
    using selectKey_round_robin[of demo_pool "[1, 1, 2, 3]"] demo_pool_simps(1)
    by (simp add: demo_pool_def upt_rec)
qed

text \<open>
  When every key is blocked or cooling down, selection without a client name probes: it returns
  an unblocked key that is not rate limited with the least time left, without changing the pool,
  and reports none exactly when every unblocked key is rate limited. (The request path always
  passes a client, and then such a probe never happens.)
\<close>

theorem selectKey_desperation:
  assumes "kp_wf p" "usable_keys now p = {}"
  shows "(\<exists>i. selectKey p now = (keyAt p i, p) \<and> i < length (entries p) \<and> \<not> blocked (entries p ! i) \<and>
      exhaustReason (entries p ! i) \<noteq> ''rate_limited'' \<and>
      (\<forall>j < length (entries p). \<not> blocked (entries p ! j) \<and> exhaustReason (entries p ! j) \<noteq> ''rate_limited'' \<longrightarrow>
        time_sub (cooldownEnd (entries p ! i)) now \<le> time_sub (cooldownEnd (entries p ! j)) now)) \<or>
    selectKey p now = (no_key, p) \<and>
      (\<forall>j < length (entries p). blocked (entries p ! j) \<or> exhaustReason (entries p ! j) = ''rate_limited'')"
proof -
  have "\<not> (\<exists>e \<in> set (entries p). usable now e)"
    using assms(2) by (auto simp: usable_keys_def in_set_conv_nth)
  note eq = selectKey_cases(3)[OF assms(1) this]
  show ?thesis
  proof (cases "desperation p now")
    case None
    then have "\<forall>j < length (entries p). blocked (entries p ! j) \<or> exhaustReason (entries p ! j) = ''rate_limited''"
      by (auto simp: desperation_def filter_empty_conv)
    with None eq show ?thesis by simp
  next
    case (Some i)
    note d = desperation_spec[OF Some]
    have "selectKey p now = (keyAt p i, p)" using eq Some by simp
    with d show ?thesis by blast
  qed
qed

definition cooling_pool :: key_pool where
  "cooling_pool = demo_pool\<lparr>entries := [
     (new_entry ''k0'')\<lparr>exhausted := True, exhaustReason := ''billing_error'', cooldownEnd := seconds 300\<rparr>,
     (new_entry ''k1'')\<lparr>exhausted := True, exhaustReason := ''rate_limited'', cooldownEnd := seconds 5\<rparr>,
     (new_entry ''k2'')\<lparr>exhausted := True, exhaustReason := ''quota_exceeded_subscription'', cooldownEnd := seconds 200\<rparr>]\<rparr>"

lemma cooling_pool_wf: "kp_wf cooling_pool"
  by (simp add: cooling_pool_def demo_pool_def kp_wf_def affinity_ok_def)

lemma cooling_pool_usable: "usable_keys (seconds 1) cooling_pool = {}"
  unfolding usable_keys_set by code_simp

theorem selectKey_desperation_witness:
  "\<exists>i. selectKey cooling_pool (seconds 1) = (keyAt cooling_pool i, cooling_pool) \<and> i < 3 \<and>
     exhaustReason (entries cooling_pool ! i) \<noteq> ''rate_limited''"
proof -
  have l: "length (entries cooling_pool) = 3" and
    e: "\<not> (blocked (entries cooling_pool ! 0) \<or> exhaustReason (entries cooling_pool ! 0) = ''rate_limited'')"
    by (simp_all add: cooling_pool_def new_entry_def)
  then show ?thesis
    using selectKey_desperation[OF cooling_pool_wf cooling_pool_usable]
    unfolding l by (metis zero_less_numeral)
qed

section \<open>Exhaustion\<close>

text \<open>The cooldown the source gives each error code.\<close>

definition cooldown_of :: "key_pool \<Rightarrow> string \<Rightarrow> time \<Rightarrow> string \<times> time" where
  "cooldown_of p code now =
     (let rt = (if resetTimeSpec p \<noteq> [] then parseResetTimeSpec (resetTimeSpec p) now else resetTime p) in
      if code = ''quota_exceeded'' then
        (if rt \<noteq> 0 \<and> now < rt then (''quota_exceeded_subscription'', rt) else (''quota_exceeded_api'', permanentEnd))
      else (code, if code = ''rate_limited'' then now + seconds 5
        else if code \<in> {''invalid_token'', ''billing_error'', ''account_disabled''} then now + minutes 5
        else permanentEnd))"



section \<open>Bookkeeping\<close>

lemma dropWhile_append_all: "dropWhile P (xs @ [y]) = (if \<forall>x \<in> set xs. P x then dropWhile P [y] else dropWhile P xs @ [y])"
  by (induction xs) auto

lemma dropWhile_dropWhile_weaker:
  "(\<And>x. P x \<Longrightarrow> Q x) \<Longrightarrow> dropWhile Q (dropWhile P xs) = dropWhile Q xs"
  by (induction xs) auto

text \<open>
  Recording tokens on a key adds them to its window sum, at every later time up to the end of
  the window and not after it, and leaves the window sums of the other keys as they were; a record
  without tokens or for an index that is no key changes nothing.
\<close>

theorem recordTokens_window:
  assumes "\<forall>s \<in> set (tokenSamples (entries p ! nat i)). sampleAt s \<le> now" "now \<le> later"
  shows "window_sum (recordTokens p i t now) later j = window_sum p later j +
    (if valid_index p i \<and> 0 < t \<and> j = nat i \<and> later - tokenWindow p \<le> now then t else 0)"
proof (cases "valid_index p i \<and> 0 < t")
  case False
  then show ?thesis by (auto simp: recordTokens_def)
next
  case True
  then have i: "nat i < length (entries p)" by (auto simp: valid_index_def)
  let ?c = "later - tokenWindow p"
  let ?s = "\<lparr>sampleAt = now, sampleTokens = t\<rparr>"
  let ?xs = "tokenSamples (entries p ! nat i)"
  let ?old = "\<lambda>d s. sampleAt s < d"
  have cut: "window_cutoff (recordTokens p i t now) later = ?c" "window_cutoff p later = ?c"
    using True by (simp_all add: window_cutoff_def recordTokens_def pruneExpiredSamplesLocked_def)
  have weak: "dropWhile (?old ?c) (dropWhile (?old (now - tokenWindow p)) ys) = dropWhile (?old ?c) ys" for ys
    using assms(2) by (intro dropWhile_dropWhile_weaker) auto
  have ent: "entries (recordTokens p i t now) ! k = (if k = nat i then
      prune_entry (now - tokenWindow p) ((entries p ! k)\<lparr>tokenSamples := ?xs @ [?s]\<rparr>) else entries p ! k)" for k
    using True i by (cases "k = nat i")
      (simp_all add: recordTokens_def pruneExpiredSamplesLocked_def entries_upd_entry window_cutoff_def)
  have sum: "sum_list (map sampleTokens (dropWhile (?old ?c) (?xs @ [?s]))) =
      sum_list (map sampleTokens (dropWhile (?old ?c) ?xs)) + (if ?c \<le> now then t else 0)"
  proof (cases "\<forall>x \<in> set ?xs. ?old ?c x")
    case True
    then show ?thesis by (simp add: dropWhile_append_all dropWhile_eq_Nil_conv[THEN iffD2])
  next
    case False
    then have "?c \<le> now" using assms(1) by force
    with False show ?thesis by (auto simp: dropWhile_append_all)
  qed
  show ?thesis
    using True sum by (cases "j = nat i") (simp_all add: window_sum_def cut ent prune_entry_def weak)
qed

theorem recordTokens_window_witness:
  "window_sum (recordTokens demo_pool 1 40 (seconds 10)) (seconds 190) 1 = window_sum demo_pool (seconds 190) 1 + 40 \<and>
   window_sum (recordTokens demo_pool 1 40 (seconds 10)) (seconds 191) 1 = window_sum demo_pool (seconds 191) 1"
  using recordTokens_window[of demo_pool 1 "seconds 10" "seconds 190" 40 1]
    recordTokens_window[of demo_pool 1 "seconds 10" "seconds 191" 40 1]
  by (simp add: demo_pool_def new_entry_def time_units valid_index_def)

definition acquires :: "nat \<Rightarrow> pool_op list \<Rightarrow> nat" where
  "acquires i ops = length (filter (\<lambda>op. op = Acquire (int i)) ops)"

definition releases :: "nat \<Rightarrow> pool_op list \<Rightarrow> nat" where
  "releases i ops = length (filter (\<lambda>op. op = Release (int i)) ops)"

lemma sel_post_inFlight: "sel_post now p r \<Longrightarrow> inFlight (snd r) = inFlight p"
  by (auto simp: sel_post_def)

lemma least_token_loop_frame:
  "inFlight (snd (snd (snd (foldl (least_token_step now) s xs)))) = inFlight (snd (snd (snd s))) \<and>
   length (entries (snd (snd (snd (foldl (least_token_step now) s xs))))) = length (entries (snd (snd (snd s))))"
proof (induction xs arbitrary: s)
  case (Cons i xs)
  have "inFlight (snd (snd (snd (least_token_step now s i)))) = inFlight (snd (snd (snd s))) \<and>
      length (entries (snd (snd (snd (least_token_step now s i))))) = length (entries (snd (snd (snd s))))"
    by (cases s) (auto simp: least_token_step_def tokenSumInWindow_def Let_def pruneExpiredSamplesLocked_def)
  then show ?case using Cons.IH by simp
qed simp

lemma sel_post_length: "sel_post now p r \<Longrightarrow> length (entries (snd r)) = length (entries p)"
  by (auto simp: sel_post_def)

lemma selectKey_frame:
  "kp_wf p \<Longrightarrow> inFlight (snd (selectKey p now)) = inFlight p \<and> length (entries (snd (selectKey p now))) = length (entries p)"
  using selectKey_cases(2,3)[of p now] sel_post_inFlight[of now p "selectKey p now"]
    sel_post_length[of now p "selectKey p now"]
  by (cases "\<exists>e \<in> set (entries p). usable now e") (auto split: option.splits)

lemma selectKeyForClient_frame:
  assumes "kp_wf p"
  shows "inFlight (snd (selectKeyForClient p c now)) = inFlight p \<and>
    length (entries (snd (selectKeyForClient p c now))) = length (entries p)"
proof (cases "c = []")
  case True
  then show ?thesis using selectKey_frame[OF assms] kp_wfD(1)[OF assms] by (simp add: selectKeyForClient_def)
next
  case False
  note post = selectKeyForClient_post_wf[OF assms False, THEN conjunct1]
  then show ?thesis using sel_post_inFlight[OF post] sel_post_length[OF post] by simp
qed

lemma mark_frame: "inFlight (markExhaustedWithError p i code body now) = inFlight p \<and>
    length (entries (markExhaustedWithError p i code body now)) = length (entries p)"
  by (auto simp: markExhaustedWithError_def exhaustion_outcome_def Let_def split: if_splits prod.splits)

lemma least_token_frame: "inFlight (snd (leastTokenActiveKeyIndex p now)) = inFlight p \<and>
    length (entries (snd (leastTokenActiveKeyIndex p now))) = length (entries p)"
  using least_token_loop_frame[of now "(-1, -1, False, p)" "[0..<length (entries p)]"]
  by (auto simp: leastTokenActiveKeyIndex_def split: prod.splits)

lemmas op_defs = recordTokens_def pruneExpiredSamplesLocked_def acquireInFlight_def releaseInFlight_def
  blockKey_def unblockKey_def markRecovered_def tryWakeUp_def wakeUpComplete_def

lemmas op_frames = selectKey_frame selectKeyForClient_frame mark_frame least_token_frame
  sel_post_inFlight[OF selectNextActiveKey_post_wf[THEN conjunct1]]
  sel_post_length[OF selectNextActiveKey_post_wf[THEN conjunct1]]

lemma pool_exec_inFlight:
  assumes "kp_wf p" "i < length (entries p)"
  shows "inFlight (pool_exec p op) ! i = (if op = Acquire (int i) then inFlight p ! i + 1
     else if op = Release (int i) then max 0 (inFlight p ! i - 1) else inFlight p ! i)"
proof -
  have i: "i < length (inFlight p)" "0 \<le> inFlight p ! i" using kp_wfD(2,3)[OF assms(1)] assms(2) by auto
  show ?thesis
    using assms i by (cases op) (auto simp: op_frames op_defs nth_list_update)
qed

lemma pool_exec_length: "kp_wf p \<Longrightarrow> length (entries (pool_exec p op)) = length (entries p)"
  by (cases op) (auto simp: op_frames op_defs)

text \<open>
  C29: the in-flight counter of a key counts its open requests: over any sequence of operations on a
  well-formed pool in which no prefix releases a key more often than it was acquired, the counter
  ends as its start plus the acquisitions minus the releases, whatever the other operations are.
\<close>

theorem inFlight_balance:
  assumes "kp_wf p" "i < length (entries p)"
    "\<forall>k \<le> length ops. int (releases i (take k ops)) \<le> inFlight p ! i + int (acquires i (take k ops))"
  shows "inFlight (foldl pool_exec p ops) ! i = inFlight p ! i + int (acquires i ops) - int (releases i ops)"
  using assms
proof (induction ops rule: rev_induct)
  case Nil
  then show ?case by (simp add: acquires_def releases_def)
next
  case (snoc op ops)
  let ?q = "foldl pool_exec p ops"
  have ok: "kp_wf ?q \<and> i < length (entries ?q)"
    using snoc.prems(1,2) by (induction ops rule: rev_induct) (auto simp: pool_exec_wf pool_exec_length)
  have "\<forall>k \<le> length ops. int (releases i (take k ops)) \<le> inFlight p ! i + int (acquires i (take k ops))"
  proof (intro allI impI)
    fix k assume "k \<le> length ops"
    then show "int (releases i (take k ops)) \<le> inFlight p ! i + int (acquires i (take k ops))"
      using snoc.prems(3)[rule_format, of k] by simp
  qed
  then have IH: "inFlight ?q ! i = inFlight p ! i + int (acquires i ops) - int (releases i ops)"
    using snoc.IH[OF snoc.prems(1,2)] by simp
  have "int (releases i (ops @ [op])) \<le> inFlight p ! i + int (acquires i (ops @ [op]))"
    using snoc.prems(3)[rule_format, of "Suc (length ops)"] by simp
  then show ?case
    using pool_exec_inFlight[of ?q i op] ok IH by (simp add: acquires_def releases_def split: if_splits)
qed

theorem inFlight_balance_witness:
  "inFlight (foldl pool_exec demo_pool [Acquire 1, Exhaust 1 ''rate_limited'' [] 5, Release 1, Acquire 0, Release 1]) ! 1 = 0"
proof -
  let ?ops = "[Acquire 1, Exhaust 1 ''rate_limited'' [] 5, Release 1, Acquire 0, Release 1]"
  have "\<forall>k \<le> length ?ops. int (releases 1 (take k ?ops)) \<le> inFlight demo_pool ! 1 + int (acquires 1 (take k ?ops))"
    by (auto simp: releases_def acquires_def demo_pool_def take_Cons split: nat.splits)
  then show ?thesis
    using inFlight_balance[OF demo_pool_wf, of 1 ?ops] demo_pool_simps(1)
    by (simp add: acquires_def releases_def) (simp add: demo_pool_def)
qed

section \<open>Waking up\<close>

definition wake_state :: "key_pool \<Rightarrow> bool \<times> time" where
  "wake_state p = (wakeUpInProgress p, wakeUpCooldown p)"

lemma wake_evict: "wake_state (evict_oldest p) = wake_state p"
proof (induction p rule: evict_oldest.induct)
  case (1 p)
  then show ?case
    by (subst evict_oldest.simps) (simp add: wake_state_def drop_clients_def)
qed

lemma wake_drop: "wake_state (drop_clients p cs) = wake_state p"
  by (simp add: wake_state_def drop_clients_def)

lemma wake_bind_fields: "wake_state (p\<lparr>clientAffinity := a, clientAffinityAt := b\<rparr>) = wake_state p"
  by (simp add: wake_state_def)

lemma wake_frames [simp]:
  "wake_state (bindLocked p c i now) = wake_state p" "wake_state (upd_entry p i f) = wake_state p"
  "wake_state (p\<lparr>rrCounter := rc\<rparr>) = wake_state p" "wake_state (p\<lparr>inFlight := xs\<rparr>) = wake_state p"
  by (simp_all add: bindLocked_def evictStaleAffinityLocked_def wake_evict wake_drop wake_bind_fields Let_def)
    (simp_all add: wake_state_def)

lemma wake_same: "same_pool now q p \<Longrightarrow> wake_state q = wake_state p"
  using same_pool_fields[of now q p] by (simp add: wake_state_def)

lemma wake_selectKey: "wake_state (snd (selectKey p now)) = wake_state p"
  by (auto simp: selectKey_def Let_def split: option.splits)

lemma wake_overflow: "wake_state (snd (overflow_select p c now)) = wake_state p"
  by (auto simp: overflow_select_def Let_def split: option.splits)

lemma wake_new_client: "wake_state (snd (new_client_select p c now)) = wake_state p"
proof -
  obtain q where L: "foldl (new_client_step now) (-1, False, p) [0..<length (entries p)] =
      (opt_int (least_loaded p now), any_signal p now, q)" and s: "same_pool now q p"
    by (rule new_client_best)
  obtain r q2 where R: "rr_pick (length (entries p)) q = (r, q2)" by fastforce
  have "wake_state q2 = wake_state q" using rr_pick_spec(1)[OF R] by auto
  then show ?thesis
    using L R wake_same[OF s] wake_overflow
    by (cases r) (auto simp: new_client_select_def Let_def)
qed

lemma wake_bound: "pref < length (entries p) \<Longrightarrow> wake_state (snd (bound_select p c pref now)) = wake_state p"
  by (rule bound_select_spec[of pref p now c]) (auto simp: wake_same)

lemma wake_client: "wake_state (snd (selectKeyForClient p c now)) = wake_state p"
  by (auto simp: selectKeyForClient_def wake_selectKey wake_overflow wake_new_client wake_bound split: option.splits)

lemma wake_next: "wake_state (snd (selectNextActiveKey p a now)) = wake_state p"
  by (auto simp: selectNextActiveKey_def Let_def split: option.splits)

lemma wake_least_token: "wake_state (snd (leastTokenActiveKeyIndex p now)) = wake_state p"
proof -
  have "wake_state (snd (snd (snd (foldl (least_token_step now) s xs)))) = wake_state (snd (snd (snd s)))" for s xs
  proof (induction xs arbitrary: s)
    case (Cons i xs)
    have "wake_state (snd (snd (snd (least_token_step now s i)))) = wake_state (snd (snd (snd s)))"
      by (cases s) (auto simp: least_token_step_def tokenSumInWindow_def Let_def pruneExpiredSamplesLocked_def)
    then show ?case using Cons.IH by simp
  qed simp
  from this[of "(-1, -1, False, p)" "[0..<length (entries p)]"] show ?thesis
    by (auto simp: leastTokenActiveKeyIndex_def split: prod.splits)
qed

lemma wake_mark: "wake_state (markExhaustedWithError p i code body now) = wake_state p"
proof -
  have "wake_state (p\<lparr>resetTime := t\<rparr>) = wake_state p" for t by (simp add: wake_state_def)
  then show ?thesis
    by (auto simp: markExhaustedWithError_def exhaustion_outcome_def Let_def split: if_splits prod.splits)
qed

lemma pool_exec_wake:
  "wake_state (pool_exec p op) = (case op of
     Try_wake now \<Rightarrow> (wakeUpInProgress p \<or> wakeUpCooldown p \<le> now, wakeUpCooldown p)
   | Wake_complete now \<Rightarrow> (False, now + minutes 1)
   | _ \<Rightarrow> wake_state p)"
proof (cases op)
  case (Try_wake x11)
  then show ?thesis by (auto simp: tryWakeUp_def wake_state_def)
next
  case (Wake_complete x12)
  then show ?thesis by (auto simp: wakeUpComplete_def wake_state_def)
qed (auto simp: wake_selectKey wake_client wake_next wake_least_token wake_mark recordTokens_def
    pruneExpiredSamplesLocked_def acquireInFlight_def releaseInFlight_def blockKey_def unblockKey_def
    markRecovered_def)

text \<open>
  The wake-up lock is exclusive: after a successful attempt, every later attempt fails, whatever
  operations come between, until a wake-up completes; and after a completion at time \<open>t\<close> attempts
  keep failing until one minute has passed, however the other operations interleave.
\<close>

theorem wakeUp_exclusive:
  "(fst (tryWakeUp p t0) \<and> (\<forall>op \<in> set ops. \<not> (\<exists>t. op = Wake_complete t)) \<longrightarrow>
     \<not> fst (tryWakeUp (foldl pool_exec (snd (tryWakeUp p t0)) ops) now)) \<and>
   ((\<forall>op \<in> set ops. \<not> (\<exists>t. op = Wake_complete t)) \<and> now < t1 + minutes 1 \<longrightarrow>
     \<not> fst (tryWakeUp (foldl pool_exec (wakeUpComplete p t1) ops) now))"
proof -
  have prog: "wakeUpInProgress (foldl pool_exec q ops)"
    if "\<forall>op \<in> set ops. \<not> (\<exists>t. op = Wake_complete t)" "wakeUpInProgress q" for q
    using that
  proof (induction ops arbitrary: q)
    case (Cons op ops)
    then have "wakeUpInProgress (pool_exec q op)"
      using pool_exec_wake[of q op] by (cases op) (auto simp: wake_state_def)
    then show ?case using Cons by simp
  qed simp
  have cool: "wakeUpCooldown (foldl pool_exec q ops) = wakeUpCooldown q"
    if "\<forall>op \<in> set ops. \<not> (\<exists>t. op = Wake_complete t)" for q
    using that
  proof (induction ops arbitrary: q)
    case (Cons op ops)
    then have "wakeUpCooldown (pool_exec q op) = wakeUpCooldown q"
      using pool_exec_wake[of q op] by (cases op) (auto simp: wake_state_def)
    then show ?case using Cons by simp
  qed simp
  have "wakeUpInProgress (snd (tryWakeUp p t0))" if "fst (tryWakeUp p t0)"
    using that by (auto simp: tryWakeUp_def split: if_splits)
  then show ?thesis
    using prog[of "snd (tryWakeUp p t0)"] cool[of "wakeUpComplete p t1"]
    by (auto simp: tryWakeUp_def[of "foldl pool_exec q ops" for q] wakeUpComplete_def)
qed

theorem wakeUp_exclusive_witness:
  "fst (tryWakeUp demo_pool 5) \<and> \<not> fst (tryWakeUp (foldl pool_exec (snd (tryWakeUp demo_pool 5)) [Block 0, Try_wake 6]) 7) \<and>
   \<not> fst (tryWakeUp (wakeUpComplete demo_pool 8) (8 + seconds 59))"
  using wakeUp_exclusive[of demo_pool 5 "[Block 0, Try_wake 6]" 7 0] wakeUp_exclusive[of demo_pool 5 "[]" "8 + seconds 59" 8]
  by (auto simp: tryWakeUp_def demo_pool_def time_units)

text \<open>
  The keys offered to a wake-up probe are exactly the exhausted or blocked keys whose reason is
  not a failure of the key or account itself, each once, in the order of the time left to the end
  of their cooldown.
\<close>

theorem probeable_keys_sorted:
  "distinct (getProbeableExhaustedKeys p now) \<and>
   set (getProbeableExhaustedKeys p now) = {i. i < length (entries p) \<and>
     (exhausted (entries p ! i) \<or> blocked (entries p ! i)) \<and> \<not> isHardFailureReason (exhaustReason (entries p ! i))} \<and>
   sorted (map (remaining_at p now) (getProbeableExhaustedKeys p now))"
proof -
  have "sorted (map (remaining_at p now) (filter P (getExhaustedKeys p now)))" for P
    unfolding getExhaustedKeys_def by (intro sorted_filter) simp
  then show ?thesis
    by (auto simp: getProbeableExhaustedKeys_def getExhaustedKeys_def)
qed

end
