(* ===== verification/Key_Pool_Reset.thy ===== *)
theory Key_Pool_Reset
  imports Key_Pool
begin

text \<open>The monthly reset of a quota: the next occurrence of a day of the month, local midnight.\<close>

definition reset_day :: "int \<Rightarrow> int \<Rightarrow> int \<Rightarrow> int" where
  "reset_day y m d = date_days y m (min d (month_len y m))"

lemma date_days_prev: "1 \<le> m \<Longrightarrow> m \<le> 12 \<Longrightarrow> date_days y (m + 1) 0 = date_days y m (month_len y m)"
  using date_next_month[of m y] date_days_shift[of y "m + 1" 1 "-1"]
    date_days_shift[of y m 1 "month_len y m - 1"] by simp

lemma monthlyResetInMonth_eq:
  assumes "1 \<le> m" "m \<le> 12"
  shows "monthlyResetInMonth y m d loc = midnight loc (reset_day y m d)"
  using month_of_date(3)[OF assms, of "month_len y m" y] month_len_bounds[OF assms, of y]
  by (simp add: monthlyResetInMonth_def date_days_prev[OF assms] reset_day_def)

lemma date_first_next: "1 \<le> m \<Longrightarrow> m \<le> 12 \<Longrightarrow> date_days y (m + 1) 1 = date_days y m 1 + month_len y m"
  using date_next_month[of m y] mod_pos_pos_trivial[of "m - 1" 12] by simp

lemma date_from_first: "date_days y m k = date_days y m 1 + (k - 1)"
  using date_days_shift[of y m 1 "k - 1"] by simp

lemma reset_day_eq: "reset_day y m d = date_days y m 1 + min d (month_len y m) - 1"
  using date_from_first[of y m "min d (month_len y m)"] by (simp add: reset_day_def)

lemma date_days_norm: "date_days y 13 1 = date_days (y + 1) 1 1"
  by (simp add: date_days_def Let_def)

definition next_month :: "int \<times> int \<Rightarrow> int \<times> int" where
  "next_month = (\<lambda>(y, m). if m = 12 then (y + 1, 1) else (y, m + 1))"

lemma next_month_first:
  assumes "1 \<le> m" "m \<le> 12" "next_month (y, m) = (y', m')"
  shows "1 \<le> m'" "m' \<le> 12" "date_days y (m + 1) 1 = date_days y' m' 1"
  using assms by (auto simp: next_month_def date_days_norm split: if_splits)

lemma first_of_month:
  assumes "1 \<le> m" "m \<le> 12"
  shows "year_of (date_days y m 1) = y" "month_of (date_days y m 1) = m" "mday_of (date_days y m 1) = 1"
  using month_of_date[OF assms, of 1 y] month_len_bounds[OF assms, of y] by simp_all

lemma nextMonthlyReset_eq:
  assumes n: "n = day_at loc now" and nx: "next_month (year_of n, month_of n) = (y', m')"
  shows "nextMonthlyReset now d loc =
    (if reset_day (year_of n) (month_of n) d \<le> n then midnight loc (reset_day y' m' d)
     else midnight loc (reset_day (year_of n) (month_of n) d))"
proof -
  note mb = date_of_day(1,2)[of n]
  note nm = next_month_first[OF mb nx]
  let ?f = "date_days (year_of n) (month_of n) 1"
  have "clock_at loc (midnight loc ?f) = 0" by (simp add: clock_at_def midnight_def)
  then have "add_date loc (midnight loc ?f) 0 1 0 = midnight loc (date_days y' m' 1)"
    using first_of_month[OF mb] nm(3) by (simp add: add_date_def Let_def add.commute)
  moreover have "midnight loc (reset_day (year_of n) (month_of n) d) \<le> now \<longleftrightarrow>
      reset_day (year_of n) (month_of n) d \<le> n"
    using midnight_after_iff[of now loc "reset_day (year_of n) (month_of n) d"] n by linarith
  ultimately show ?thesis
    using first_of_month[OF nm(1,2)]
    by (simp add: nextMonthlyReset_def Let_def n[symmetric] monthlyResetInMonth_eq mb nm)
qed

lemma day_in_month:
  "date_days (year_of n) (month_of n) 1 \<le> n" "n < date_days (year_of n) (month_of n) 1 + month_len (year_of n) (month_of n)"
  using date_from_first[of "year_of n" "month_of n" "mday_of n"] date_of_day[of n] by simp_all

text \<open>The day chosen: the first reset day after today, at most 31 days ahead.\<close>

lemma nextMonthlyReset_day:
  assumes d: "1 \<le> d" "d \<le> 31"
  obtains r where "nextMonthlyReset now d loc = midnight loc r" "day_at loc now < r"
    "r \<le> day_at loc now + 31" "mday_of r = min d (month_len (year_of r) (month_of r))"
proof -
  define n where "n = day_at loc now"
  obtain y' m' where nx: "next_month (year_of n, month_of n) = (y', m')" by fastforce
  let ?y = "year_of n" and ?m = "month_of n"
  note mb = date_of_day(1,2)[of n]
  note nm = next_month_first[OF mb nx]
  have l: "28 \<le> month_len ?y ?m \<and> month_len ?y ?m \<le> 31" "28 \<le> month_len y' m' \<and> month_len y' m' \<le> 31"
    using month_len_bounds[OF mb] month_len_bounds[OF nm(1,2)] by blast+
  have field: "mday_of (reset_day y m d) = min d (month_len (year_of (reset_day y m d)) (month_of (reset_day y m d)))"
    if "1 \<le> m" "m \<le> 12" for y m
    using month_of_date[OF that, of "min d (month_len y m)" y] month_len_bounds[OF that, of y] d
    by (simp add: reset_day_def)
  have nxt: "date_days y' m' 1 = date_days ?y ?m 1 + month_len ?y ?m"
    using date_first_next[OF mb] nm(3) by simp
  note eq = nextMonthlyReset_eq[OF n_def nx, of d]
  show thesis
  proof (cases "reset_day ?y ?m d \<le> n")
    case True
    show thesis
    proof (rule that)
      show "nextMonthlyReset now d loc = midnight loc (reset_day y' m' d)" using eq True by simp
      show "day_at loc now < reset_day y' m' d"
        using reset_day_eq[of y' m' d] nxt day_in_month[of n] d l unfolding n_def[symmetric] by linarith
      show "reset_day y' m' d \<le> day_at loc now + 31"
        using reset_day_eq[of y' m' d] reset_day_eq[of ?y ?m d] nxt True d l
        unfolding n_def[symmetric] by linarith
      show "mday_of (reset_day y' m' d) = min d (month_len (year_of (reset_day y' m' d)) (month_of (reset_day y' m' d)))"
        by (rule field[OF nm(1,2)])
    qed
  next
    case False
    show thesis
    proof (rule that)
      show "nextMonthlyReset now d loc = midnight loc (reset_day ?y ?m d)" using eq False by simp
      show "day_at loc now < reset_day ?y ?m d" using False by (simp add: n_def)
      show "reset_day ?y ?m d \<le> day_at loc now + 31"
        using reset_day_eq[of ?y ?m d] day_in_month[of n] d l unfolding n_def[symmetric] by linarith
      show "mday_of (reset_day ?y ?m d) = min d (month_len (year_of (reset_day ?y ?m d)) (month_of (reset_day ?y ?m d)))"
        by (rule field[OF mb])
    qed
  qed
qed

text \<open>
  A monthly reset configured for day \<open>d\<close> is put at the next local midnight that begins day \<open>d\<close> of
  a month, or the month's last day where the month is shorter: strictly in the future, and at most
  31 days after the midnight of the current day.
\<close>

theorem nextMonthlyReset_next:
  assumes "1 \<le> d" "d \<le> 31"
  shows "let nr = nextMonthlyReset now d loc; r = day_at loc nr in
    now < nr \<and> nr \<le> midnight loc (day_at loc now + 31) \<and>
    nr = midnight loc r \<and> mday_of r = min d (month_len (year_of r) (month_of r))"
proof -
  obtain r where "nextMonthlyReset now d loc = midnight loc r" "day_at loc now < r"
    "r \<le> day_at loc now + 31" "mday_of r = min d (month_len (year_of r) (month_of r))"
    by (rule nextMonthlyReset_day[OF assms])
  then show ?thesis
    using midnight_after_iff[of now loc r] by simp
qed

theorem nextMonthlyReset_next_witness:
  "midnight cst (date_days 2024 2 10) < nextMonthlyReset (midnight cst (date_days 2024 2 10)) 31 cst \<and>
   nextMonthlyReset (midnight cst (date_days 2024 2 10)) 31 cst = midnight cst (date_days 2024 2 29)"
proof
  show "midnight cst (date_days 2024 2 10) < nextMonthlyReset (midnight cst (date_days 2024 2 10)) 31 cst"
    using nextMonthlyReset_next[of 31 "midnight cst (date_days 2024 2 10)" cst] by (simp add: Let_def)
  show "nextMonthlyReset (midnight cst (date_days 2024 2 10)) 31 cst = midnight cst (date_days 2024 2 29)"
    by code_simp
qed

end
