(* ===== verification/Go_Url.thy ===== *)
theory Go_Url
  imports Prelude
begin

text \<open>
  What the proxy uses of Go's \<open>net/url\<close>: parsing an absolute URL into scheme, host, path and query,
  and the query form of \<open>Values\<close> with its escaping. A query is a list of keys with their values, in
  the order of their first occurrence; encoding sorts the keys.
\<close>

record go_url =
  uScheme :: string
  uHost :: string
  uPath :: string
  uRawQuery :: string

section \<open>Escaping\<close>

definition code :: "char \<Rightarrow> nat" where "code c = of_char c"

definition is_alnum :: "char \<Rightarrow> bool" where
  "is_alnum c = (let n = code c in 48 \<le> n \<and> n \<le> 57 \<or> 65 \<le> n \<and> n \<le> 90 \<or> 97 \<le> n \<and> n \<le> 122)"

definition unreserved :: "char \<Rightarrow> bool" where
  "unreserved c = (is_alnum c \<or> c \<in> set ''-_.~'')"

definition hex_digit :: "nat \<Rightarrow> char" where
  "hex_digit n = char_of (if n < 10 then 48 + n else 55 + n)"

definition unhex :: "char \<Rightarrow> nat option" where
  "unhex c = (let n = code c in
     if 48 \<le> n \<and> n \<le> 57 then Some (n - 48)
     else if 65 \<le> n \<and> n \<le> 70 then Some (n - 55)
     else if 97 \<le> n \<and> n \<le> 102 then Some (n - 87) else None)"

definition escape_char :: "char \<Rightarrow> string" where
  "escape_char c = (if unreserved c then [c] else if c = CHR '' '' then ''+''
     else [CHR ''%'', hex_digit (code c div 16), hex_digit (code c mod 16)])"

definition queryEscape :: "string \<Rightarrow> string" where
  "queryEscape s = concat (map escape_char s)"

text \<open>Unescaping, with \<open>+\<close> read as a space in a query and left alone in a path.\<close>

fun unescape :: "bool \<Rightarrow> string \<Rightarrow> string option" where
  "unescape q [] = Some []"
| "unescape q (c # s) =
     (if c = CHR ''%'' then (case s of
        a # b # s' \<Rightarrow> (case (unhex a, unhex b) of
            (Some x, Some y) \<Rightarrow> map_option ((#) (char_of (16 * x + y))) (unescape q s')
          | _ \<Rightarrow> None)
      | _ \<Rightarrow> None)
      else map_option ((#) (if q \<and> c = CHR ''+'' then CHR '' '' else c)) (unescape q s))"

definition queryUnescape :: "string \<Rightarrow> string option" where
  "queryUnescape s = unescape True s"

lemma unhex_hex: "n < 16 \<Longrightarrow> unhex (hex_digit n) = Some n"
  by (simp add: unhex_def hex_digit_def code_def Let_def take_bit_nat_eq_self)

lemma code_less: "code c < 256"
  by (simp add: code_def of_char_less)

lemma unescape_escape: "unescape True (escape_char c @ s) = map_option ((#) c) (unescape True s)"
proof -
  have div: "16 * (code c div 16) + code c mod 16 = code c" by simp
  have cc: "char_of (code c) = c" by (simp add: code_def)
  have "code c div 16 < 16" using code_less[of c] by simp
  then have "unescape True ([CHR ''%'', hex_digit (code c div 16), hex_digit (code c mod 16)] @ s) =
      map_option ((#) c) (unescape True s)"
    by (simp add: unhex_hex cc)
  moreover have "c \<noteq> CHR ''%''" "c \<noteq> CHR ''+''" if "unreserved c"
    using that by (auto simp: unreserved_def is_alnum_def code_def Let_def)
  ultimately show ?thesis by (auto simp: escape_char_def)
qed

lemma queryUnescape_escape: "queryUnescape (queryEscape s) = Some s"
  unfolding queryUnescape_def queryEscape_def by (induction s) (simp_all add: unescape_escape)

section \<open>Queries\<close>

type_synonym query_values = "(string \<times> string list) list"

definition add_value :: "query_values \<Rightarrow> string \<Rightarrow> string \<Rightarrow> query_values" where
  "add_value q k v = AList.update k (case map_of q k of None \<Rightarrow> [v] | Some vs \<Rightarrow> vs @ [v]) q"

text \<open>
  \<open>URL.Query\<close>: the pairs between the ampersands; a pair with a semicolon or a bad escape is
  skipped, and so is an empty one.
\<close>

definition parse_pair :: "query_values \<Rightarrow> string \<Rightarrow> query_values" where
  "parse_pair q s = (if CHR '';'' \<in> set s \<or> s = [] then q else
     let (k, v, _) = cut_char (CHR ''='') s in
     case (queryUnescape k, queryUnescape v) of
       (Some k', Some v') \<Rightarrow> add_value q k' v'
     | _ \<Rightarrow> q)"

definition parse_query :: "string \<Rightarrow> query_values" where
  "parse_query s = foldl parse_pair [] (split_char (CHR ''&'') s)"

fun str_le :: "string \<Rightarrow> string \<Rightarrow> bool" where
  "str_le [] b = True"
| "str_le (x # a) [] = False"
| "str_le (x # a) (y # b) = (code x < code y \<or> x = y \<and> str_le a b)"

fun insert_key :: "string \<times> 'a \<Rightarrow> (string \<times> 'a) list \<Rightarrow> (string \<times> 'a) list" where
  "insert_key x [] = [x]"
| "insert_key x (y # ys) = (if str_le (fst x) (fst y) then x # y # ys else y # insert_key x ys)"

definition sort_keys :: "(string \<times> 'a) list \<Rightarrow> (string \<times> 'a) list" where
  "sort_keys xs = foldr insert_key xs []"

definition encode_pairs :: "query_values \<Rightarrow> string list" where
  "encode_pairs q = concat (map (\<lambda>(k, vs). map (\<lambda>v. queryEscape k @ ''='' @ queryEscape v) vs) (sort_keys q))"

definition encode_query :: "query_values \<Rightarrow> string" where
  "encode_query q = join_char (CHR ''&'') (encode_pairs q)"

lemma set_insert_key [simp]: "set (insert_key x ys) = insert x (set ys)"
  by (induction ys) auto

lemma set_sort_keys [simp]: "set (sort_keys xs) = set xs"
proof -
  have "set (foldr insert_key xs []) = set xs" by (induction xs) auto
  then show ?thesis by (simp add: sort_keys_def)
qed

text \<open>Encoding a query and parsing it again gives the same values.\<close>

lemma split_char_no: "c \<notin> set s \<Longrightarrow> split_char c s = [s]"
  by (induction s) auto

lemma split_char_append: "c \<notin> set s \<Longrightarrow> split_char c (s @ c # t) = s # split_char c t"
  by (induction s) auto

lemma split_join: "xs \<noteq> [] \<Longrightarrow> \<forall>x \<in> set xs. c \<notin> set x \<Longrightarrow> split_char c (join_char c xs) = xs"
  by (induction xs rule: join_char.induct) (auto simp: split_char_no split_char_append)

lemma hex_digit_plain: "n < 16 \<Longrightarrow> is_alnum (hex_digit n)"
  by (auto simp: is_alnum_def hex_digit_def code_def Let_def take_bit_nat_eq_self)

lemma escape_plain: "d \<in> set (queryEscape s) \<Longrightarrow> unreserved d \<or> d = CHR ''%'' \<or> d = CHR ''+''"
proof -
  have "unreserved d \<or> d = CHR ''%'' \<or> d = CHR ''+''" if "d \<in> set (escape_char c)" for c
  proof -
    have "code c div 16 < 16" using code_less[of c] by simp
    then show ?thesis
      using that hex_digit_plain[of "code c div 16"] hex_digit_plain[of "code c mod 16"]
      by (auto simp: escape_char_def unreserved_def split: if_splits)
  qed
  moreover assume "d \<in> set (queryEscape s)"
  ultimately show ?thesis by (auto simp: queryEscape_def)
qed

lemma escape_clean: "CHR ''&'' \<notin> set (queryEscape s)" "CHR ''='' \<notin> set (queryEscape s)" "CHR '';'' \<notin> set (queryEscape s)"
  using escape_plain[of "CHR ''&''" s] escape_plain[of "CHR ''=''" s] escape_plain[of "CHR '';''" s]
  by (auto simp: unreserved_def is_alnum_def code_def Let_def)

lemma cut_char_at: "c \<notin> set a \<Longrightarrow> cut_char c (a @ c # b) = (a, b, True)"
proof -
  assume "c \<notin> set a"
  then have "takeWhile (\<lambda>x. x \<noteq> c) (a @ c # b) = a"
    by (induction a) auto
  then show ?thesis by (simp add: cut_char_def Let_def)
qed

lemma parse_pair_encoded: "parse_pair q (queryEscape k @ ''='' @ queryEscape v) = add_value q k v"
  using escape_clean[of k] escape_clean[of v]
  by (simp add: parse_pair_def cut_char_at queryUnescape_escape Let_def)

definition add_all :: "query_values \<Rightarrow> query_values \<Rightarrow> query_values" where
  "add_all q xs = foldl (\<lambda>q (k, vs). foldl (\<lambda>q v. add_value q k v) q vs) q xs"

lemma parse_encode_fold:
  "foldl parse_pair q (concat (map (\<lambda>(k, vs). map (\<lambda>v. queryEscape k @ ''='' @ queryEscape v) vs) xs)) = add_all q xs"
proof (induction xs arbitrary: q)
  case (Cons x xs)
  obtain k vs where x: "x = (k, vs)" by fastforce
  have "foldl parse_pair q (map (\<lambda>v. queryEscape k @ ''='' @ queryEscape v) vs) = foldl (\<lambda>q v. add_value q k v) q vs" for q
    by (induction vs arbitrary: q) (simp_all only: list.map foldl_Nil foldl_Cons parse_pair_encoded)
  then show ?case using Cons by (simp add: x add_all_def)
qed (simp add: add_all_def)

lemma parse_encode_query: "parse_query (encode_query q) = add_all [] (sort_keys q)"
proof (cases "encode_pairs q = []")
  case True
  then have "parse_query (encode_query q) = []"
    by (simp add: encode_query_def parse_query_def parse_pair_def)
  then show ?thesis
    using parse_encode_fold[of "[]" "sort_keys q", folded encode_pairs_def] True by simp
next
  case False
  have "\<forall>x \<in> set (encode_pairs q). CHR ''&'' \<notin> set x"
    by (auto simp: encode_pairs_def escape_clean)
  then show ?thesis
    using False parse_encode_fold[of "[]" "sort_keys q"]
    by (simp add: parse_query_def encode_query_def split_join) (simp add: encode_pairs_def)
qed

lemma map_of_add_value: "map_of (add_value q k v) = (map_of q)(k \<mapsto> (case map_of q k of None \<Rightarrow> [v] | Some vs \<Rightarrow> vs @ [v]))"
  by (simp add: add_value_def update_conv')

lemma map_of_add_values: "vs \<noteq> [] \<Longrightarrow> map_of (foldl (\<lambda>q v. add_value q k v) q vs) =
    (map_of q)(k \<mapsto> (case map_of q k of None \<Rightarrow> [] | Some us \<Rightarrow> us) @ vs)"
proof (induction vs arbitrary: q)
  case (Cons v vs)
  then show ?case
    by (cases "vs = []") (auto simp: map_of_add_value split: option.splits)
qed simp

lemma map_of_add_all:
  assumes "distinct (map fst xs)" "\<forall>(k, vs) \<in> set xs. vs \<noteq> []" "fst ` set xs \<inter> dom (map_of q) = {}"
  shows "map_of (add_all q xs) = map_of q ++ map_of xs"
  using assms
proof (induction xs arbitrary: q)
  case (Cons x xs)
  obtain k vs where x: "x = (k, vs)" by fastforce
  let ?q = "foldl (\<lambda>q v. add_value q k v) q vs"
  have "map_of q k = None" using Cons.prems(3) by (auto simp: x)
  then have q: "map_of ?q = (map_of q)(k \<mapsto> vs)"
    using Cons.prems(2) by (simp add: x map_of_add_values)
  have "map_of (add_all ?q xs) = map_of ?q ++ map_of xs"
  proof (rule Cons.IH)
    show "fst ` set xs \<inter> dom (map_of ?q) = {}"
      using Cons.prems(1,3) by (force simp: x q)
  qed (use Cons.prems in \<open>auto simp: x\<close>)
  moreover have "k \<notin> dom (map_of xs)" using Cons.prems(1) by (simp add: x dom_map_of_conv_image_fst)
  ultimately show ?case
    by (auto simp: add_all_def x q map_add_upd_left map_add_def fun_eq_iff split: option.splits)
qed (simp add: add_all_def)

lemma distinct_insert_key: "distinct (map fst (insert_key x ys)) = distinct (map fst (x # ys))"
  by (induction ys) auto

lemma distinct_sort_keys: "distinct (map fst (sort_keys xs)) = distinct (map fst xs)"
proof -
  have "distinct (map fst (foldr insert_key xs [])) = distinct (map fst xs) \<and> set (foldr insert_key xs []) = set xs"
    by (induction xs) (auto simp: distinct_insert_key)
  then show ?thesis by (simp add: sort_keys_def)
qed

lemma query_roundtrip:
  assumes "distinct (map fst q)" "\<forall>(k, vs) \<in> set q. vs \<noteq> []"
  shows "map_of (parse_query (encode_query q)) = map_of q"
proof -
  have "map_of (sort_keys q) = map_of q"
    using assms(1) by (metis distinct_sort_keys map_of_eqI set_sort_keys map_of_inject_set)
  then show ?thesis
    using map_of_add_all[of "sort_keys q" "[]"] assms by (simp add: parse_encode_query distinct_sort_keys)
qed

lemma parse_query_wf: "distinct (map fst (parse_query s)) \<and> (\<forall>(k, vs) \<in> set (parse_query s). vs \<noteq> [])"
proof -
  define P where "P = (\<lambda>q::query_values. distinct (map fst q) \<and> (\<forall>(k, vs) \<in> set q. vs \<noteq> []))"
  have add: "P (add_value q k v)" if "P q" for q k v
  proof -
    have "set (AList.update k w q) \<subseteq> insert (k, w) (set q)" for w by (induction q) auto
    then show ?thesis
      using that by (fastforce simp: P_def add_value_def distinct_update split: option.splits)
  qed
  have "P (parse_pair q x)" if "P q" for q x
    using that add by (auto simp: parse_pair_def split: option.splits prod.splits)
  then have "P (foldl parse_pair q xs)" if "P q" for q xs
    using that by (induction xs arbitrary: q) auto
  moreover have "P []" by (simp add: P_def)
  ultimately have "P (parse_query s)" by (simp add: parse_query_def)
  then show ?thesis by (simp add: P_def)
qed

section \<open>Parsing an absolute URL\<close>

definition is_letter :: "char \<Rightarrow> bool" where
  "is_letter c = (let n = code c in 65 \<le> n \<and> n \<le> 90 \<or> 97 \<le> n \<and> n \<le> 122)"

text \<open>\<open>getScheme\<close>: the scheme before the first colon; \<open>None\<close> is the error of a leading colon.\<close>

fun get_scheme :: "nat \<Rightarrow> string \<Rightarrow> string \<Rightarrow> (string \<times> string) option" where
  "get_scheme i whole [] = Some ([], whole)"
| "get_scheme i whole (c # s) =
     (if is_letter c then get_scheme (Suc i) whole s
      else if is_alnum c \<or> c \<in> set ''+-.'' then (if i = 0 then Some ([], whole) else get_scheme (Suc i) whole s)
      else if c = CHR '':'' then (if i = 0 then None else Some (take i whole, s))
      else Some ([], whole))"

definition host_char :: "char \<Rightarrow> bool" where
  "host_char c = (128 \<le> code c \<or> unreserved c \<or> c \<in> set ''!$&()*+,;=:[]<>'' \<or> code c = 34 \<or> code c = 39)"

definition valid_port :: "string \<Rightarrow> bool" where
  "valid_port s = (s = [] \<or> hd s = CHR '':'' \<and> (\<forall>c \<in> set (tl s). 48 \<le> code c \<and> code c \<le> 57))"

text \<open>
  The host after the user information. Percent escapes in a host and bracketed IPv6 hosts with
  zones are outside the model: such a host is kept as it is when its characters are allowed.
\<close>

definition last_part :: "char \<Rightarrow> string \<Rightarrow> string" where
  "last_part c s = rev (takeWhile (\<lambda>x. x \<noteq> c) (rev s))"

definition parse_host :: "string \<Rightarrow> string option" where
  "parse_host s = (let port = (if CHR '':'' \<in> set s then CHR '':'' # last_part (CHR '':'') s else []) in
     if (hd (s @ [CHR ''x'']) = CHR ''['' \<or> valid_port port) \<and> (\<forall>c \<in> set s. host_char c) then Some s else None)"

definition parse_url :: "string \<Rightarrow> go_url option" where
  "parse_url raw = (let (u, _, _) = cut_char (CHR ''#'') raw in
     if \<exists>c \<in> set u. code c < 32 \<or> code c = 127 then None else
     case get_scheme 0 u u of None \<Rightarrow> None
     | Some (sch, rest) \<Rightarrow>
        let scheme = to_lower sch; (rest, query, _) = cut_char (CHR ''?'') rest in
        if \<not> has_prefix rest ''/'' \<and> scheme \<noteq> [] then
          Some \<lparr>uScheme = scheme, uHost = [], uPath = [], uRawQuery = query\<rparr>
        else if \<not> has_prefix rest ''/'' \<and> CHR '':'' \<in> set (fst (cut_char (CHR ''/'') rest)) then None
        else if has_prefix rest ''//'' \<and> (scheme \<noteq> [] \<or> \<not> has_prefix rest ''///'') then
          (let auth = takeWhile (\<lambda>c. c \<noteq> CHR ''/'') (drop 2 rest);
               path = dropWhile (\<lambda>c. c \<noteq> CHR ''/'') (drop 2 rest) in
           case (parse_host (last_part (CHR ''@'') auth), unescape False path) of
             (Some h, Some p) \<Rightarrow> Some \<lparr>uScheme = scheme, uHost = h, uPath = p, uRawQuery = query\<rparr>
           | _ \<Rightarrow> None)
        else (case unescape False rest of None \<Rightarrow> None
          | Some p \<Rightarrow> Some \<lparr>uScheme = scheme, uHost = [], uPath = p, uRawQuery = query\<rparr>))"

lemma parse_url_example:
  "parse_url ''https://api.example.com:8443/v1%2Fx?a=b#frag'' =
     Some \<lparr>uScheme = ''https'', uHost = ''api.example.com:8443'', uPath = ''/v1/x'', uRawQuery = ''a=b''\<rparr>"
  by code_simp

end
