(* ===== verification/Go_Json.thy ===== *)
theory Go_Json
  imports Go_Url
begin

text \<open>
  What the proxy uses of Go's \<open>encoding/json\<close>, on bytes: decoding a text into a value, encoding a
  value, and the members of an object with the text of their values. The texts are taken to be
  valid UTF-8, which the decoder and the encoder then copy; a number keeps its literal, so that a
  value decoded and encoded again has the number as it was written. Go's limit on the nesting depth
  and on the range of a float are not modelled.
\<close>

section \<open>Values\<close>

text \<open>A number is its literal; an object has its keys once each.\<close>

datatype json = JNull | JBool bool | JNum string | JStr string | JArr "json list" | JObj "(string \<times> json) list"

definition dedup :: "(string \<times> 'a) list \<Rightarrow> (string \<times> 'a) list" where
  "dedup ms = foldl (\<lambda>a (k, v). AList.update k v a) [] ms"

definition is_json_space :: "char \<Rightarrow> bool" where
  "is_json_space c = (code c \<in> {32, 9, 10, 13})"

definition skip_ws :: "string \<Rightarrow> string" where
  "skip_ws s = dropWhile is_json_space s"

section \<open>Strings\<close>

definition hex_low :: "nat \<Rightarrow> char" where
  "hex_low n = char_of (if n < 10 then 48 + n else 87 + n)"

definition hex_value :: "char \<Rightarrow> char \<Rightarrow> char \<Rightarrow> char \<Rightarrow> nat option" where
  "hex_value a b c d = (case (unhex a, unhex b, unhex c, unhex d) of
     (Some w, Some x, Some y, Some z) \<Rightarrow> Some (((w * 16 + x) * 16 + y) * 16 + z) | _ \<Rightarrow> None)"

definition utf8 :: "nat \<Rightarrow> string" where
  "utf8 n = (if n < 128 then [char_of n]
     else if n < 2048 then [char_of (192 + n div 64), char_of (128 + n mod 64)]
     else if n < 65536 then [char_of (224 + n div 4096), char_of (128 + n div 64 mod 64), char_of (128 + n mod 64)]
     else [char_of (240 + n div 262144), char_of (128 + n div 4096 mod 64), char_of (128 + n div 64 mod 64), char_of (128 + n mod 64)])"

definition quote :: char where "quote = char_of (34::nat)"
definition backslash :: char where "backslash = char_of (92::nat)"

definition simple_escape :: "char \<Rightarrow> char option" where
  "simple_escape e = (if e = quote \<or> e = backslash \<or> e = CHR ''/'' then Some e
     else if e = CHR ''n'' then Some (char_of (10::nat)) else if e = CHR ''r'' then Some (char_of (13::nat))
     else if e = CHR ''t'' then Some (char_of (9::nat)) else if e = CHR ''b'' then Some (char_of (8::nat))
     else if e = CHR ''f'' then Some (char_of (12::nat)) else None)"

text \<open>The second half of a surrogate pair, when it follows.\<close>

definition low_surrogate :: "string \<Rightarrow> nat option" where
  "low_surrogate s = (case s of x # u # a # b # c # d # _ \<Rightarrow>
       if x = backslash \<and> u = CHR ''u'' then (case hex_value a b c d of
         Some n \<Rightarrow> if 56320 \<le> n \<and> n < 57344 then Some n else None | None \<Rightarrow> None) else None
     | _ \<Rightarrow> None)"

text \<open>The text after an opening quote: the decoded string and the rest after the closing quote.\<close>

function (sequential) parse_str :: "string \<Rightarrow> (string \<times> string) option" where
  "parse_str [] = None"
| "parse_str (c # cs) =
     (if c = quote then Some ([], cs)
      else if c = backslash then (case cs of
          [] \<Rightarrow> None
        | e # ds \<Rightarrow> (case simple_escape e of
            Some x \<Rightarrow> map_option (apfst ((#) x)) (parse_str ds)
          | None \<Rightarrow> if e \<noteq> CHR ''u'' then None else (case ds of
              a # b # c' # d # es \<Rightarrow> (case hex_value a b c' d of
                  None \<Rightarrow> None
                | Some n \<Rightarrow>
                  if n < 55296 \<or> 57344 \<le> n then map_option (apfst ((@) (utf8 n))) (parse_str es)
                  else (case (if n < 56320 then low_surrogate es else None) of
                      Some m \<Rightarrow> map_option (apfst ((@) (utf8 (65536 + (n - 55296) * 1024 + (m - 56320))))) (parse_str (drop 6 es))
                    | None \<Rightarrow> map_option (apfst ((@) (utf8 65533))) (parse_str es)))
            | _ \<Rightarrow> None)))
      else if code c < 32 then None
      else map_option (apfst ((#) c)) (parse_str cs))"
  by pat_completeness auto
termination
  by (relation "measure length") auto

definition short_escape :: "char \<Rightarrow> char option" where
  "short_escape c = (if c = quote \<or> c = backslash then Some c
     else if c = char_of (10::nat) then Some (CHR ''n'') else if c = char_of (13::nat) then Some (CHR ''r'')
     else if c = char_of (9::nat) then Some (CHR ''t'') else if c = char_of (8::nat) then Some (CHR ''b'')
     else if c = char_of (12::nat) then Some (CHR ''f'') else None)"

definition enc_char :: "char \<Rightarrow> string" where
  "enc_char c = (case short_escape c of Some e \<Rightarrow> [backslash, e] | None \<Rightarrow>
     if code c < 32 \<or> c \<in> {CHR ''<'', CHR ''>'', CHR ''&''}
     then [backslash, CHR ''u'', CHR ''0'', CHR ''0'', hex_low (code c div 16), hex_low (code c mod 16)]
     else [c])"

text \<open>The line and paragraph separators, U+2028 and U+2029, are escaped too.\<close>

function (sequential) enc_body :: "string \<Rightarrow> string" where
  "enc_body [] = []"
| "enc_body (c # cs) = (if c = char_of (226::nat) \<and> (take 2 cs = [char_of (128::nat), char_of (168::nat)] \<or> take 2 cs = [char_of (128::nat), char_of (169::nat)])
     then [backslash] @ ''u202'' @ [hex_low (code (cs ! 1) - 160)] @ enc_body (drop 2 cs)
     else enc_char c @ enc_body cs)"
  by pat_completeness auto
termination
  by (relation "measure length") auto

definition enc_str :: "string \<Rightarrow> string" where
  "enc_str s = quote # enc_body s @ [quote]"

section \<open>Numbers\<close>

definition is_num_char :: "char \<Rightarrow> bool" where
  "is_num_char c = (48 \<le> code c \<and> code c \<le> 57 \<or> c \<in> {CHR ''-'', CHR ''+'', CHR ''.'', CHR ''e'', CHR ''E''})"

definition digits :: "string \<Rightarrow> bool" where
  "digits s = (s \<noteq> [] \<and> (\<forall>c \<in> set s. 48 \<le> code c \<and> code c \<le> 57))"

definition unsigned_exponent :: "string \<Rightarrow> string" where
  "unsigned_exponent s = (case s of c # r \<Rightarrow> if c = CHR ''+'' \<or> c = CHR ''-'' then r else s | [] \<Rightarrow> [])"

definition valid_number :: "string \<Rightarrow> bool" where
  "valid_number s = (let t = (case s of c # r \<Rightarrow> if c = CHR ''-'' then r else s | [] \<Rightarrow> []);
      (mant, ex, has_e) = (case cut_char (CHR ''e'') t of (a, b, True) \<Rightarrow> (a, b, True) | _ \<Rightarrow> cut_char (CHR ''E'') t);
      (ip, fp, has_dot) = cut_char (CHR ''.'') mant in
      digits ip \<and> (hd ip = CHR ''0'' \<longrightarrow> length ip = 1) \<and> (has_dot \<longrightarrow> digits fp) \<and>
      (has_e \<longrightarrow> digits (unsigned_exponent ex)))"

section \<open>Decoding\<close>

definition after_prefix :: "string \<Rightarrow> string \<Rightarrow> string option" where
  "after_prefix p s = (if has_prefix s p then Some (drop (length p) s) else None)"

definition parse_number :: "string \<Rightarrow> (json \<times> string) option" where
  "parse_number s = (let t = takeWhile is_num_char s in
     if valid_number t then Some (JNum t, drop (length t) s) else None)"

definition parse_word :: "string \<Rightarrow> (json \<times> string) option" where
  "parse_word s = (case after_prefix ''null'' s of Some r \<Rightarrow> Some (JNull, r) | None \<Rightarrow>
     (case after_prefix ''true'' s of Some r \<Rightarrow> Some (JBool True, r) | None \<Rightarrow>
     (case after_prefix ''false'' s of Some r \<Rightarrow> Some (JBool False, r) | None \<Rightarrow> None)))"

text \<open>The fuel is the number of nested calls; twice the length of the text is enough.\<close>

fun parse_val :: "nat \<Rightarrow> string \<Rightarrow> (json \<times> string) option"
  and parse_elems :: "nat \<Rightarrow> string \<Rightarrow> (json list \<times> string) option"
  and parse_members :: "nat \<Rightarrow> string \<Rightarrow> ((string \<times> json) list \<times> string) option" where
  "parse_val 0 s = None"
| "parse_val (Suc n) s = (case s of [] \<Rightarrow> None | c # cs \<Rightarrow>
     if c = CHR ''{'' then
       (if skip_ws cs \<noteq> [] \<and> hd (skip_ws cs) = CHR ''}'' then Some (JObj [], tl (skip_ws cs))
        else map_option (apfst (\<lambda>ms. JObj (dedup ms))) (parse_members n cs))
     else if c = CHR ''['' then
       (if skip_ws cs \<noteq> [] \<and> hd (skip_ws cs) = CHR '']'' then Some (JArr [], tl (skip_ws cs))
        else map_option (apfst JArr) (parse_elems n cs))
     else if c = quote then map_option (apfst JStr) (parse_str cs)
     else if c \<in> {CHR ''n'', CHR ''t'', CHR ''f''} then parse_word s
     else parse_number s)"
| "parse_elems 0 s = None"
| "parse_elems (Suc n) s = (case parse_val n (skip_ws s) of None \<Rightarrow> None | Some (v, r) \<Rightarrow>
     (case skip_ws r of [] \<Rightarrow> None | c # cs \<Rightarrow>
        if c = CHR '']'' then Some ([v], cs)
        else if c = CHR '','' then map_option (apfst ((#) v)) (parse_elems n cs) else None))"
| "parse_members 0 s = None"
| "parse_members (Suc n) s = (case skip_ws s of [] \<Rightarrow> None | q # s' \<Rightarrow> if q \<noteq> quote then None else
     (case parse_str s' of None \<Rightarrow> None | Some (k, r) \<Rightarrow>
       (case skip_ws r of [] \<Rightarrow> None | c # cs \<Rightarrow> if c \<noteq> CHR '':'' then None else
         (case parse_val n (skip_ws cs) of None \<Rightarrow> None | Some (v, r') \<Rightarrow>
           (case skip_ws r' of [] \<Rightarrow> None | d # ds \<Rightarrow>
              if d = CHR ''}'' then Some ([(k, v)], ds)
              else if d = CHR '','' then map_option (apfst ((#) (k, v))) (parse_members n ds) else None)))))"

definition decode_json :: "string \<Rightarrow> json option" where
  "decode_json s = (case parse_val (2 * length s + 2) (skip_ws s) of
     Some (v, r) \<Rightarrow> if skip_ws r = [] then Some v else None | None \<Rightarrow> None)"

text \<open>Decoding into a map, which an object or \<open>null\<close> fills; \<open>null\<close> leaves the map nil.\<close>

definition decode_map :: "string \<Rightarrow> (string \<times> json) list option option" where
  "decode_map s = (case decode_json s of Some (JObj ms) \<Rightarrow> Some (Some ms) | Some JNull \<Rightarrow> Some None | _ \<Rightarrow> None)"

section \<open>Encoding\<close>

definition commas :: "string list \<Rightarrow> string" where
  "commas xs = join_char (CHR '','') xs"

fun enc_json :: "json \<Rightarrow> string" where
  "enc_json JNull = ''null''"
| "enc_json (JBool b) = (if b then ''true'' else ''false'')"
| "enc_json (JNum s) = s"
| "enc_json (JStr s) = enc_str s"
| "enc_json (JArr xs) = CHR ''['' # commas (map enc_json xs) @ '']''"
| "enc_json (JObj ms) = CHR ''{'' # commas (map (\<lambda>(k, t). enc_str k @ '':'' @ t) (sort_keys (map (\<lambda>(k, v). (k, enc_json v)) ms))) @ ''}''"

section \<open>The members of an object, as text\<close>

text \<open>The value of each member is the text it had, as \<open>json.RawMessage\<close> keeps it.\<close>

fun raw_members :: "nat \<Rightarrow> string \<Rightarrow> ((string \<times> string) list \<times> string) option" where
  "raw_members 0 s = None"
| "raw_members (Suc n) s = (case skip_ws s of [] \<Rightarrow> None | q # s' \<Rightarrow> if q \<noteq> quote then None else
     (case parse_str s' of None \<Rightarrow> None | Some (k, r) \<Rightarrow>
       (case skip_ws r of [] \<Rightarrow> None | c # cs \<Rightarrow> if c \<noteq> CHR '':'' then None else
         (case parse_val (2 * length cs + 2) (skip_ws cs) of None \<Rightarrow> None | Some (v, r') \<Rightarrow>
           (let raw = take (length (skip_ws cs) - length r') (skip_ws cs) in
            case skip_ws r' of [] \<Rightarrow> None | d # ds \<Rightarrow>
              if d = CHR ''}'' then Some ([(k, raw)], ds)
              else if d = CHR '','' then map_option (apfst ((#) (k, raw))) (raw_members n ds) else None)))))"

definition decode_raw_map :: "string \<Rightarrow> (string \<times> string) list option" where
  "decode_raw_map s = (case decode_json s of
     Some (JObj ms) \<Rightarrow> (if ms = [] then Some [] else map_option (\<lambda>(ms, _). dedup ms) (raw_members (length s) (tl (skip_ws s))))
   | Some JNull \<Rightarrow> Some [] | _ \<Rightarrow> None)"

text \<open>
  Encoding raw values compacts them: white space outside strings goes, and the characters escaped
  by \<open>enc_char\<close> for HTML are escaped.
\<close>

function (sequential) compact :: "bool \<Rightarrow> string \<Rightarrow> string" where
  "compact instr [] = []"
| "compact instr (c # cs) =
     (if \<not> instr \<and> is_json_space c then compact instr cs
      else if instr \<and> c = backslash then c # take 1 cs @ compact instr (drop 1 cs)
      else if c \<in> {CHR ''<'', CHR ''>'', CHR ''&''} then enc_char c @ compact instr cs
      else if c = char_of (226::nat) \<and> (take 2 cs = [char_of (128::nat), char_of (168::nat)] \<or> take 2 cs = [char_of (128::nat), char_of (169::nat)])
        then [backslash] @ ''u202'' @ [hex_low (code (cs ! 1) - 160)] @ compact instr (drop 2 cs)
      else c # compact (if c = quote then \<not> instr else instr) cs)"
  by pat_completeness auto
termination
  by (relation "measure (\<lambda>(_, s). length s)") auto

definition enc_raw_map :: "(string \<times> string) list \<Rightarrow> string" where
  "enc_raw_map ms = CHR ''{'' # commas (map (\<lambda>(k, t). enc_str k @ '':'' @ compact False t) (sort_keys ms)) @ ''}''"

end
