(* ===== verification/Config_Types.thy ===== *)
theory Config_Types
  imports Go_Json
begin

text \<open>
  The configuration of the proxy (\<open>internal/config\<close>): endpoint and protocol types, targets, the
  normalisation of legacy targets, and validation. A validation problem is a value of a datatype
  where the source formats a message; the validator returns the problems together with the
  configuration whose targets it has rewritten. Reading and writing the file are not modelled.
\<close>

section \<open>Endpoint and protocol types\<close>

definition EndpointTypeAzureOpenAI :: string where "EndpointTypeAzureOpenAI = ''azure_openai''"
definition EndpointTypeOpenAI :: string where "EndpointTypeOpenAI = ''openai''"
definition EndpointTypeClaude :: string where "EndpointTypeClaude = ''claude''"
definition EndpointTypeGemini :: string where "EndpointTypeGemini = ''gemini''"
definition EndpointTypeOpenAIImage :: string where "EndpointTypeOpenAIImage = ''openai_image''"
definition EndpointTypeDualProtocol :: string where "EndpointTypeDualProtocol = ''dual_protocol''"

lemmas endpoint_type_defs = EndpointTypeAzureOpenAI_def EndpointTypeOpenAI_def EndpointTypeClaude_def
  EndpointTypeGemini_def EndpointTypeOpenAIImage_def EndpointTypeDualProtocol_def

definition ImageOperationGenerations :: string where "ImageOperationGenerations = ''generations''"
definition ImageOperationEdits :: string where "ImageOperationEdits = ''edits''"
definition ImageOperationVariations :: string where "ImageOperationVariations = ''variations''"

lemmas image_operation_defs = ImageOperationGenerations_def ImageOperationEdits_def ImageOperationVariations_def

text \<open>The display strings and colours of the metadata are left out.\<close>

record endpoint_type_meta =
  metaCode :: string
  metaSupportsBearer :: bool

definition endpointTypes :: "endpoint_type_meta list" where
  "endpointTypes = [
     \<lparr>metaCode = EndpointTypeAzureOpenAI, metaSupportsBearer = True\<rparr>,
     \<lparr>metaCode = EndpointTypeOpenAI, metaSupportsBearer = False\<rparr>,
     \<lparr>metaCode = EndpointTypeClaude, metaSupportsBearer = False\<rparr>,
     \<lparr>metaCode = EndpointTypeGemini, metaSupportsBearer = False\<rparr>,
     \<lparr>metaCode = EndpointTypeOpenAIImage, metaSupportsBearer = False\<rparr>,
     \<lparr>metaCode = EndpointTypeDualProtocol, metaSupportsBearer = False\<rparr>]"

definition endpointTypeMetaOf :: "string \<Rightarrow> endpoint_type_meta option" where
  "endpointTypeMetaOf t = (let c = to_lower (trim_space t) in find (\<lambda>m. metaCode m = c) endpointTypes)"

definition isValidEndpointType :: "string \<Rightarrow> bool" where
  "isValidEndpointType t = (endpointTypeMetaOf t \<noteq> None)"

definition validEndpointTypes :: "string list" where
  "validEndpointTypes = map metaCode endpointTypes"

definition normalizeEndpointType :: "string \<Rightarrow> string" where
  "normalizeEndpointType t = (let t = to_lower (trim_space t) in
     if t = [] then EndpointTypeAzureOpenAI
     else if t = ''deepseek'' \<or> t = ''bailian'' \<or> t = ''bailian_api'' then EndpointTypeDualProtocol
     else if t = ''wangsu_openai'' then EndpointTypeOpenAI
     else if t = ''wangsu_claude'' then EndpointTypeClaude
     else if t = ''wangsu_gemini'' then EndpointTypeGemini
     else if t = ''wangsu_openai_image'' \<or> t = ''wangsu_openai_image_edit'' then EndpointTypeOpenAIImage
     else t)"

datatype protocol_type = ProtocolOpenAIChat | ProtocolOpenAIResponses | ProtocolAnthropicMessages
  | ProtocolGemini | ProtocolOpenAIImage

section \<open>Configuration records\<close>

record model_mapping =
  mmUpstream :: string
  mmFallback :: string

record config_target =
  ctName :: string
  ctEndpointType :: string
  ctEndpoint :: string
  ctAPIKey :: string
  ctAPIKeys :: "string list"
  ctKeyResetTime :: string
  ctPaused :: bool
  ctAllowBearer :: bool
  ctAuthMode :: string
  ctImageOperation :: string
  ctModelMappings :: "model_mapping list"
  ctSSEAutoAggregate :: "bool option"
  ctOpenAIPrefix :: string
  ctAnthropicPrefix :: string
  ctSupportsResponses :: bool
  ctCustomHeaders :: "(string \<times> string) list"
  ctCustomBody :: "(string \<times> json) list"

record config =
  cfgBind :: string
  cfgRequestTimeoutSeconds :: int
  cfgTargets :: "config_target list"
  cfgDBPath :: string
  cfgCookieName :: string
  cfgSecret :: string
  cfgTTLSeconds :: int
  cfgLogLevel :: string
  cfgAccessLog :: string
  cfgErrorLog :: string

section \<open>Legacy targets\<close>

definition normalizeImageOperation :: "string \<Rightarrow> string" where
  "normalizeImageOperation op = to_lower (trim_space op)"

definition inferImageOperationFromEndpoint :: "string \<Rightarrow> string" where
  "inferImageOperationFromEndpoint e = (let e = to_lower e in
     if contains e ''variation'' then ImageOperationVariations
     else if contains e ''edit'' then ImageOperationEdits
     else ImageOperationGenerations)"

definition normalize_legacy :: "string \<Rightarrow> config_target \<Rightarrow> config_target" where
  "normalize_legacy raw t =
     (if raw = ''deepseek'' then
        (if trim_space (ctAnthropicPrefix t) = [] then t\<lparr>ctAnthropicPrefix := ''/anthropic''\<rparr> else t)
      else if raw = ''bailian'' \<or> raw = ''bailian_api'' then
        (let t1 = (if trim_space (ctOpenAIPrefix t) = [] then t\<lparr>ctOpenAIPrefix := ''/compatible-mode''\<rparr> else t);
             t2 = (if trim_space (ctAnthropicPrefix t1) = [] then t1\<lparr>ctAnthropicPrefix := ''/apps/anthropic''\<rparr> else t1)
         in t2\<lparr>ctSupportsResponses := True\<rparr>)
      else if raw = ''wangsu_openai_image'' then t\<lparr>ctImageOperation := ImageOperationGenerations\<rparr>
      else if raw = ''wangsu_openai_image_edit'' then t\<lparr>ctImageOperation := ImageOperationEdits\<rparr>
      else t)"

definition normalizeTargetForCompatibility :: "config_target \<Rightarrow> config_target" where
  "normalizeTargetForCompatibility t =
     (let raw = to_lower (trim_space (ctEndpointType t));
          t1 = normalize_legacy raw (t\<lparr>ctEndpointType := normalizeEndpointType (ctEndpointType t),
                 ctImageOperation := normalizeImageOperation (ctImageOperation t)\<rparr>)
      in if ctEndpointType t1 = EndpointTypeOpenAIImage \<and> ctImageOperation t1 = []
         then t1\<lparr>ctImageOperation := inferImageOperationFromEndpoint (ctEndpoint t1)\<rparr> else t1)"

section \<open>Validation\<close>

datatype target_problem = Invalid_endpoint_type string | Empty_name | Empty_endpoint | Missing_api_key
  | Empty_upstream nat | Duplicate_upstream nat string | Fallback_conflicts nat string
  | Duplicate_fallback nat string

datatype config_problem = Empty_bind | Bad_timeout | Target_problem nat target_problem | Empty_db_path
  | Empty_cookie_name | Empty_secret | Bad_ttl | Empty_log_level | Empty_access_log | Empty_error_log

definition require :: "bool \<Rightarrow> 'a \<Rightarrow> 'a list" where
  "require ok p = (if ok then [] else [p])"

text \<open>The loop over the mappings, with the sets of upstream and fallback names seen so far.\<close>

fun mapping_problems :: "nat \<Rightarrow> string set \<Rightarrow> string set \<Rightarrow> model_mapping list \<Rightarrow> target_problem list" where
  "mapping_problems j ups fbs [] = []"
| "mapping_problems j ups fbs (mm # mms) = (let up = trim_space (mmUpstream mm) in
     if up = [] then Empty_upstream j # mapping_problems (Suc j) ups fbs mms
     else let ul = to_lower up; ups' = insert ul ups; fb = trim_space (mmFallback mm); fl = to_lower fb in
       require (ul \<notin> ups) (Duplicate_upstream j up) @
       (if fb = [] then mapping_problems (Suc j) ups' fbs mms
        else require (fl \<notin> ups') (Fallback_conflicts j fb) @ require (fl \<notin> fbs) (Duplicate_fallback j fb) @
          mapping_problems (Suc j) ups' (insert fl fbs) mms))"

definition has_any_key :: "config_target \<Rightarrow> bool" where
  "has_any_key t = (trim_space (ctAPIKey t) \<noteq> [] \<or> (\<exists>k \<in> set (ctAPIKeys t). trim_space k \<noteq> []))"

definition target_problems :: "config_target \<Rightarrow> target_problem list" where
  "target_problems t =
     require (isValidEndpointType (normalizeEndpointType (ctEndpointType t))) (Invalid_endpoint_type (ctEndpointType t)) @
     require (trim_space (ctName t) \<noteq> []) Empty_name @
     require (trim_space (ctEndpoint t) \<noteq> []) Empty_endpoint @
     require (has_any_key t \<or> ctAllowBearer t) Missing_api_key @
     mapping_problems 0 {} {} (ctModelMappings t)"

definition validate_config :: "config \<Rightarrow> config_problem list \<times> config" where
  "validate_config c = (let ts = map normalizeTargetForCompatibility (cfgTargets c) in
     (require (trim_space (cfgBind c) \<noteq> []) Empty_bind @
      require (0 < cfgRequestTimeoutSeconds c) Bad_timeout @
      concat (map (\<lambda>(i, t). map (Target_problem i) (target_problems t)) (enumerate 0 ts)) @
      require (trim_space (cfgDBPath c) \<noteq> []) Empty_db_path @
      require (trim_space (cfgCookieName c) \<noteq> []) Empty_cookie_name @
      require (trim_space (cfgSecret c) \<noteq> []) Empty_secret @
      require (0 < cfgTTLSeconds c) Bad_ttl @
      require (trim_space (cfgLogLevel c) \<noteq> []) Empty_log_level @
      require (trim_space (cfgAccessLog c) \<noteq> []) Empty_access_log @
      require (trim_space (cfgErrorLog c) \<noteq> []) Empty_error_log,
      c\<lparr>cfgTargets := ts\<rparr>))"

definition defaultConfig :: config where
  "defaultConfig = \<lparr>cfgBind = ''0.0.0.0:8080'', cfgRequestTimeoutSeconds = 1800, cfgTargets = [],
     cfgDBPath = ''/var/lib/llms-proxy/llms-proxy.db'', cfgCookieName = ''llms_proxy_admin_session'',
     cfgSecret = ''change-me-on-first-login'', cfgTTLSeconds = 86400, cfgLogLevel = ''info'',
     cfgAccessLog = ''/var/log/llms-proxy/access.log'', cfgErrorLog = ''/var/log/llms-proxy/error.log''\<rparr>"

section \<open>Facts\<close>

lemma require_Nil [simp]: "require b p = [] \<longleftrightarrow> b"
  by (simp add: require_def)

lemma trim_space_lower_str: "trim_space (to_lower (trim_space s)) = to_lower (trim_space s)"
  by (simp add: trim_space_lower)

lemma trim_space_id: "s = [] \<or> \<not> is_space (hd s) \<and> \<not> is_space (last s) \<Longrightarrow> trim_space s = s"
  by (cases s rule: rev_cases) (auto simp: trim_space_def dropWhile_id hd_rev)

lemma norm_legacy_values:
  "to_lower (trim_space EndpointTypeAzureOpenAI) = EndpointTypeAzureOpenAI"
  "to_lower (trim_space EndpointTypeOpenAI) = EndpointTypeOpenAI"
  "to_lower (trim_space EndpointTypeClaude) = EndpointTypeClaude"
  "to_lower (trim_space EndpointTypeGemini) = EndpointTypeGemini"
  "to_lower (trim_space EndpointTypeOpenAIImage) = EndpointTypeOpenAIImage"
  "to_lower (trim_space EndpointTypeDualProtocol) = EndpointTypeDualProtocol"
  by code_simp+

lemma normalizeEndpointType_canonical:
  "to_lower (trim_space (normalizeEndpointType t)) = normalizeEndpointType t"
  by (simp add: normalizeEndpointType_def Let_def norm_legacy_values trim_space_lower_str)

lemma normalizeEndpointType_idem: "normalizeEndpointType (normalizeEndpointType t) = normalizeEndpointType t"
proof -
  let ?s = "normalizeEndpointType t"
  have "?s \<noteq> [] \<and> ?s \<notin> {''deepseek'', ''bailian'', ''bailian_api'', ''wangsu_openai'', ''wangsu_claude'',
      ''wangsu_gemini'', ''wangsu_openai_image'', ''wangsu_openai_image_edit''}"
    by (auto simp: normalizeEndpointType_def Let_def endpoint_type_defs)
  then show ?thesis
    by (subst normalizeEndpointType_def) (simp add: normalizeEndpointType_canonical Let_def)
qed

lemma normalizeEndpointType_legacy_free:
  "normalizeEndpointType t \<notin> {''deepseek'', ''bailian'', ''bailian_api'', ''wangsu_openai_image'', ''wangsu_openai_image_edit''}"
  by (auto simp: normalizeEndpointType_def Let_def endpoint_type_defs)

lemma normalize_legacy_frame [simp]:
  "ctEndpointType (normalize_legacy raw t) = ctEndpointType t" "ctName (normalize_legacy raw t) = ctName t"
  "ctEndpoint (normalize_legacy raw t) = ctEndpoint t" "ctAPIKey (normalize_legacy raw t) = ctAPIKey t"
  "ctAPIKeys (normalize_legacy raw t) = ctAPIKeys t" "ctAllowBearer (normalize_legacy raw t) = ctAllowBearer t"
  "ctModelMappings (normalize_legacy raw t) = ctModelMappings t"
  by (simp_all add: normalize_legacy_def Let_def)

lemma image_op_values:
  "normalizeImageOperation ImageOperationGenerations = ImageOperationGenerations"
  "normalizeImageOperation ImageOperationEdits = ImageOperationEdits"
  "normalizeImageOperation ImageOperationVariations = ImageOperationVariations"
  "normalizeImageOperation (normalizeImageOperation op) = normalizeImageOperation op"
  "inferImageOperationFromEndpoint e \<noteq> []"
  "normalizeImageOperation (inferImageOperationFromEndpoint e) = inferImageOperationFromEndpoint e"
proof -
  show v: "normalizeImageOperation ImageOperationGenerations = ImageOperationGenerations"
    "normalizeImageOperation ImageOperationEdits = ImageOperationEdits"
    "normalizeImageOperation ImageOperationVariations = ImageOperationVariations" by code_simp+
  show "normalizeImageOperation (normalizeImageOperation op) = normalizeImageOperation op"
    by (simp add: normalizeImageOperation_def trim_space_lower_str)
  show "inferImageOperationFromEndpoint e \<noteq> []"
    by (simp add: inferImageOperationFromEndpoint_def Let_def image_operation_defs)
  show "normalizeImageOperation (inferImageOperationFromEndpoint e) = inferImageOperationFromEndpoint e"
    by (simp add: inferImageOperationFromEndpoint_def Let_def v)
qed

lemma normalize_legacy_op: "normalizeImageOperation (ctImageOperation t) = ctImageOperation t \<Longrightarrow>
    normalizeImageOperation (ctImageOperation (normalize_legacy raw t)) = ctImageOperation (normalize_legacy raw t)"
  by (simp add: normalize_legacy_def Let_def image_op_values)

text \<open>
  C38: normalising a target is idempotent, so that validation, which writes the normalised target
  back, and the construction of the runtime targets, which normalises again, agree; and the
  endpoint type it leaves is canonical: lower case, trimmed, and not a legacy name.
\<close>

theorem normalizeTarget_idempotent:
  "normalizeTargetForCompatibility (normalizeTargetForCompatibility t) = normalizeTargetForCompatibility t \<and>
   normalizeEndpointType (ctEndpointType (normalizeTargetForCompatibility t)) = ctEndpointType (normalizeTargetForCompatibility t)"
proof -
  define u where "u = normalizeTargetForCompatibility t"
  have ty: "ctEndpointType u = normalizeEndpointType (ctEndpointType t)"
    by (simp add: u_def normalizeTargetForCompatibility_def Let_def)
  have raw: "to_lower (trim_space (ctEndpointType u)) = ctEndpointType u"
    by (simp add: ty normalizeEndpointType_canonical)
  have leg: "normalize_legacy (ctEndpointType u) x = x" for x
    using normalizeEndpointType_legacy_free[of "ctEndpointType t"] by (simp add: normalize_legacy_def ty)
  have op: "normalizeImageOperation (ctImageOperation u) = ctImageOperation u"
    by (simp add: u_def normalizeTargetForCompatibility_def Let_def image_op_values normalize_legacy_op)
  have im: "ctEndpointType u = EndpointTypeOpenAIImage \<Longrightarrow> ctImageOperation u \<noteq> []"
    unfolding u_def normalizeTargetForCompatibility_def Let_def
    by (simp add: image_op_values split: if_splits)
  have "u\<lparr>ctEndpointType := ctEndpointType u, ctImageOperation := ctImageOperation u\<rparr> = u" by simp
  then have "normalizeTargetForCompatibility u = u"
    using im by (auto simp: normalizeTargetForCompatibility_def Let_def raw leg op ty[symmetric] normalizeEndpointType_idem
        normalizeEndpointType_idem[of "ctEndpointType t", folded ty])
  then show ?thesis
    by (simp add: u_def[symmetric] ty normalizeEndpointType_idem)
qed

lemma normalizeTarget_frame [simp]:
  "ctName (normalizeTargetForCompatibility t) = ctName t"
  "ctEndpoint (normalizeTargetForCompatibility t) = ctEndpoint t"
  "ctAPIKey (normalizeTargetForCompatibility t) = ctAPIKey t"
  "ctAPIKeys (normalizeTargetForCompatibility t) = ctAPIKeys t"
  "ctAllowBearer (normalizeTargetForCompatibility t) = ctAllowBearer t"
  "ctModelMappings (normalizeTargetForCompatibility t) = ctModelMappings t"
  by (simp_all add: normalizeTargetForCompatibility_def Let_def)

lemma validate_target:
  assumes "fst (validate_config c) = []" "t \<in> set (cfgTargets c)"
  shows "target_problems (normalizeTargetForCompatibility t) = []"
proof -
  obtain i where i: "i < length (cfgTargets c)" "cfgTargets c ! i = t"
    using assms(2) by (auto simp: in_set_conv_nth)
  let ?ts = "map normalizeTargetForCompatibility (cfgTargets c)"
  have "\<forall>(j, u) \<in> set (enumerate 0 ?ts). target_problems u = []"
    using assms(1) by (auto simp: validate_config_def Let_def)
  moreover have "(i, normalizeTargetForCompatibility t) \<in> set (enumerate 0 ?ts)"
    using i by (auto simp: in_set_enumerate_eq)
  ultimately show ?thesis by blast
qed

text \<open>Validation accepts a fallback equal to a later upstream name, and rejects it in the other order.\<close>

lemma fallback_conflict_order:
  "mapping_problems 0 {} {} [\<lparr>mmUpstream = ''a'', mmFallback = ''b''\<rparr>, \<lparr>mmUpstream = ''b'', mmFallback = []\<rparr>] = [] \<and>
   mapping_problems 0 {} {} [\<lparr>mmUpstream = ''b'', mmFallback = []\<rparr>, \<lparr>mmUpstream = ''a'', mmFallback = ''b''\<rparr>] =
     [Fallback_conflicts 1 ''b'']"
  by code_simp

end
