(* ===== verification/Go_Http.thy ===== *)
theory Go_Http
  imports Prelude
begin

text \<open>
  HTTP headers as the proxy uses them: a list from names to values. Names are kept in lower case,
  where Go keeps their canonical capitalisation; both identify names up to the case of letters.
\<close>

type_synonym headers = "(string \<times> string list) list"

definition h_values :: "headers \<Rightarrow> string \<Rightarrow> string list" where
  "h_values h k = (case map_of h (to_lower k) of None \<Rightarrow> [] | Some vs \<Rightarrow> vs)"

definition h_get :: "headers \<Rightarrow> string \<Rightarrow> string" where
  "h_get h k = (case h_values h k of [] \<Rightarrow> [] | v # _ \<Rightarrow> v)"

definition h_set :: "headers \<Rightarrow> string \<Rightarrow> string \<Rightarrow> headers" where
  "h_set h k v = AList.update (to_lower k) [v] h"

definition h_add :: "headers \<Rightarrow> string \<Rightarrow> string \<Rightarrow> headers" where
  "h_add h k v = AList.update (to_lower k) (h_values h k @ [v]) h"

definition h_del :: "headers \<Rightarrow> string \<Rightarrow> headers" where
  "h_del h k = AList.delete (to_lower k) h"

lemma h_values_set [simp]: "h_values (h_set h k v) j = (if to_lower j = to_lower k then [v] else h_values h j)"
  by (simp add: h_values_def h_set_def update_conv')

lemma h_values_add [simp]:
  "h_values (h_add h k v) j = (if to_lower j = to_lower k then h_values h k @ [v] else h_values h j)"
  by (simp add: h_values_def h_add_def update_conv')

lemma h_values_del [simp]: "h_values (h_del h k) j = (if to_lower j = to_lower k then [] else h_values h j)"
  by (simp add: h_values_def h_del_def delete_conv')

lemma h_get_set [simp]: "h_get (h_set h k v) j = (if to_lower j = to_lower k then v else h_get h j)"
  by (simp add: h_get_def)

lemma h_get_del [simp]: "h_get (h_del h k) j = (if to_lower j = to_lower k then [] else h_get h j)"
  by (simp add: h_get_def)

lemma h_values_Nil [simp]: "h_values [] k = []"
  by (simp add: h_values_def)

end
