(* ===== verification/Routing.thy ===== *)
theory Routing
  imports Config_Types Go_Url Go_Http
begin

text \<open>
  From a client request to an upstream one: which endpoint types serve which paths
  (\<open>path_capability.go\<close>, \<open>protocol.go\<close>), the provider profiles with their path and credential
  strategies (\<open>provider_profile.go\<close>), the upstream URL (\<open>url.go\<close>) and the headers and body fields
  a target may add (\<open>custom_inject.go\<close>). The two Go interfaces are locales, interpreted on
  every implementation.
\<close>

section \<open>Path styles\<close>

definition isAnthropicStylePath :: "string \<Rightarrow> bool" where
  "isAnthropicStylePath p = (let pl = to_lower (trim_space p) in
     pl = ''/v1/messages'' \<or> has_prefix pl ''/v1/messages/'' \<or> has_prefix pl ''/v1/messages?'')"

definition isOpenAIResponsesStylePath :: "string \<Rightarrow> bool" where
  "isOpenAIResponsesStylePath p = (let pl = to_lower (trim_space p) in
     pl = ''/v1/responses'' \<or> has_prefix pl ''/v1/responses/'' \<or> has_prefix pl ''/v1/responses?'')"

definition isOpenAIImageStylePath :: "string \<Rightarrow> bool" where
  "isOpenAIImageStylePath p = (let pl = to_lower (trim_space p) in
     has_suffix pl ''/images/generations'' \<or> has_suffix pl ''/images/edits'' \<or> has_suffix pl ''/images/variations'')"

definition isGeminiStylePath :: "string \<Rightarrow> bool" where
  "isGeminiStylePath p = (let pl = to_lower (trim_space p) in
     (contains pl ''/models/'' \<and> contains pl '':generatecontent'') \<or>
     (contains pl ''/models/'' \<and> contains pl '':streamgeneratecontent''))"

definition pathHasAnySuffix :: "string \<Rightarrow> string list \<Rightarrow> bool" where
  "pathHasAnySuffix p sufs = (\<exists>suf \<in> set sufs. has_suffix p suf)"

datatype request_schema = SchemaOpenAICompat | SchemaOpenAIChat | SchemaOpenAIResponses | SchemaAnthropic

definition requestSchemaForPath :: "string \<Rightarrow> request_schema" where
  "requestSchemaForPath p = (let p = trim_space p in
     if isAnthropicStylePath p then SchemaAnthropic
     else if isOpenAIResponsesStylePath p then SchemaOpenAIResponses
     else if pathHasAnySuffix p [''/chat/completions''] then SchemaOpenAIChat
     else SchemaOpenAICompat)"

definition openAIImageSupportedPaths :: "string list" where
  "openAIImageSupportedPaths = [''/images/generations'', ''/images/edits'', ''/images/variations'']"

definition pathSupportedByEndpointType :: "string \<Rightarrow> string \<Rightarrow> bool" where
  "pathSupportedByEndpointType ep path = (let pl = to_lower path; schema = requestSchemaForPath pl in
     if ep = EndpointTypeOpenAI \<or> ep = EndpointTypeAzureOpenAI then schema \<noteq> SchemaAnthropic
     else if ep = EndpointTypeClaude then schema = SchemaAnthropic
     else if ep = EndpointTypeGemini then schema = SchemaOpenAICompat \<or> schema = SchemaOpenAIChat
     else if ep = EndpointTypeDualProtocol then
       schema = SchemaOpenAICompat \<or> schema = SchemaOpenAIChat \<or> schema = SchemaOpenAIResponses \<or> schema = SchemaAnthropic
     else if ep = EndpointTypeOpenAIImage then pathHasAnySuffix pl openAIImageSupportedPaths
     else schema \<noteq> SchemaAnthropic)"

definition openAIImageOperationSupportsPath :: "string \<Rightarrow> string \<Rightarrow> bool" where
  "openAIImageOperationSupportsPath op path = (let pl = to_lower path in
     if op = ImageOperationEdits then has_suffix pl ''/images/edits''
     else if op = ImageOperationVariations then has_suffix pl ''/images/variations''
     else if op = ImageOperationGenerations \<or> op = [] then has_suffix pl ''/images/generations''
     else False)"

definition resolveProtocol :: "string \<Rightarrow> protocol_type" where
  "resolveProtocol path = (let pl = to_lower (trim_space path) in
     if isAnthropicStylePath pl then ProtocolAnthropicMessages
     else if isOpenAIResponsesStylePath pl then ProtocolOpenAIResponses
     else if isOpenAIImageStylePath pl then ProtocolOpenAIImage
     else if isGeminiStylePath pl then ProtocolGemini
     else if pathHasAnySuffix pl [''/chat/completions''] then ProtocolOpenAIChat
     else ProtocolOpenAIChat)"

definition protocolSupportsPath :: "protocol_type \<Rightarrow> string \<Rightarrow> bool" where
  "protocolSupportsPath pr path = (let resolved = resolveProtocol path in
     case pr of
       ProtocolOpenAIChat \<Rightarrow> resolved = ProtocolOpenAIChat
     | ProtocolOpenAIResponses \<Rightarrow> resolved = ProtocolOpenAIResponses
     | ProtocolAnthropicMessages \<Rightarrow> resolved = ProtocolAnthropicMessages
     | ProtocolGemini \<Rightarrow> resolved = ProtocolGemini
     | ProtocolOpenAIImage \<Rightarrow> resolved = ProtocolOpenAIImage)"

section \<open>Joining paths\<close>

definition ensureLeadingSlash :: "string \<Rightarrow> string" where
  "ensureLeadingSlash p = (case p of [] \<Rightarrow> ''/'' | c # _ \<Rightarrow> if c \<noteq> CHR ''/'' then CHR ''/'' # p else p)"

definition mergePaths :: "string \<Rightarrow> string \<Rightarrow> string" where
  "mergePaths pre path =
     (if pre = [] then (if path = [] then ''/'' else path)
      else if path = [] \<or> path = ''/'' then pre
      else if has_prefix path (pre @ ''/'') \<or> path = pre then path
      else trim_right_char (CHR ''/'') pre @ ''/'' @ trim_left_char (CHR ''/'') path)"

definition deduplicateV1Path :: "string \<Rightarrow> string" where
  "deduplicateV1Path p = (case str_index p ''/v1/v1/'' of
     Some i \<Rightarrow> take (i + 1) p @ drop (i + 4) p
   | None \<Rightarrow> if has_suffix p ''/v1/v1'' then take (length p - 3) p else p)"

section \<open>Path mappers\<close>

datatype path_mapper = PassthroughPath | DualProtocolPath string string bool | TerminalURLPath

definition rewritePath :: "path_mapper \<Rightarrow> string \<Rightarrow> string \<Rightarrow> string" where
  "rewritePath m clientPath pre = (case m of
     PassthroughPath \<Rightarrow> mergePaths pre clientPath
   | DualProtocolPath openai anthropic _ \<Rightarrow>
       (let path = mergePaths pre clientPath in
        if isAnthropicStylePath clientPath then anthropic @ ensureLeadingSlash path
        else openai @ ensureLeadingSlash path)
   | TerminalURLPath \<Rightarrow> [])"

definition isTerminalURL :: "path_mapper \<Rightarrow> bool" where
  "isTerminalURL m = (m = TerminalURLPath)"

definition prepareEndpointPath :: "path_mapper \<Rightarrow> string \<Rightarrow> string" where
  "prepareEndpointPath m p = p"

section \<open>Credential strategies\<close>

datatype auth_strategy = BearerAuth | AnthropicAuth bool | GeminiAuth
  | BearerWithConditionalAnthropicVersion | AzureAuth bool string

definition with_default_version :: "headers \<Rightarrow> headers" where
  "with_default_version h = (if h_get h ''anthropic-version'' = [] then h_set h ''anthropic-version'' ''2023-06-01'' else h)"

definition injectAuth :: "auth_strategy \<Rightarrow> headers \<Rightarrow> string \<Rightarrow> string \<Rightarrow> headers" where
  "injectAuth a h apiKey clientPath = (case a of
     BearerAuth \<Rightarrow> h_set h ''Authorization'' (''Bearer '' @ apiKey)
   | AnthropicAuth bearerMode \<Rightarrow> with_default_version
       (if bearerMode then h_set h ''Authorization'' (''Bearer '' @ apiKey) else h_set h ''x-api-key'' apiKey)
   | GeminiAuth \<Rightarrow> h_set h ''x-goog-api-key'' apiKey
   | BearerWithConditionalAnthropicVersion \<Rightarrow>
       (let h' = h_set h ''Authorization'' (''Bearer '' @ apiKey)
        in if isAnthropicStylePath clientPath then with_default_version h' else h')
   | AzureAuth allowBearer azureAuthValue \<Rightarrow>
       (if allowBearer \<and> azureAuthValue \<noteq> [] then h_set h ''Authorization'' azureAuthValue
        else h_set h ''api-key'' apiKey))"

section \<open>Provider profiles\<close>

text \<open>The body policy keeps the multipart flag and whether the Azure sanitiser applies.\<close>

record provider_profile =
  ppEndpointType :: string
  ppProvider :: string
  ppProtocols :: "protocol_type list"
  ppAuth :: auth_strategy
  ppPath :: path_mapper
  ppSupportedPaths :: "string list option"
  ppPreserveMultipart :: bool
  ppSanitizeAzure :: bool

definition supportsProtocol :: "provider_profile \<Rightarrow> protocol_type \<Rightarrow> bool" where
  "supportsProtocol p pr = (pr \<in> set (ppProtocols p))"

definition profileSupportsPath :: "provider_profile \<Rightarrow> string \<Rightarrow> bool" where
  "profileSupportsPath p path =
     (if \<not> supportsProtocol p (resolveProtocol path) then False
      else case ppSupportedPaths p of None \<Rightarrow> True | Some sps \<Rightarrow> \<exists>sp \<in> set sps. has_suffix (to_lower path) sp)"

type_synonym provider_registry = "string \<rightharpoonup> provider_profile"

definition registry_register :: "provider_registry \<Rightarrow> provider_profile \<Rightarrow> provider_registry" where
  "registry_register r p = r(ppEndpointType p \<mapsto> p)"

definition profile :: "string \<Rightarrow> string \<Rightarrow> protocol_type list \<Rightarrow> auth_strategy \<Rightarrow> path_mapper \<Rightarrow> bool \<Rightarrow> bool \<Rightarrow> provider_profile" where
  "profile ep prov prots auth path multi san = \<lparr>ppEndpointType = ep, ppProvider = prov, ppProtocols = prots,
     ppAuth = auth, ppPath = path, ppSupportedPaths = None, ppPreserveMultipart = multi, ppSanitizeAzure = san\<rparr>"

definition defaultProviderRegistry :: provider_registry where
  "defaultProviderRegistry = foldl registry_register Map.empty [
     profile EndpointTypeOpenAI ''openai'' [ProtocolOpenAIChat, ProtocolOpenAIResponses, ProtocolOpenAIImage]
       BearerAuth PassthroughPath False False,
     profile EndpointTypeAzureOpenAI ''azure'' [ProtocolOpenAIChat, ProtocolOpenAIResponses, ProtocolOpenAIImage]
       (AzureAuth False []) PassthroughPath True True,
     profile EndpointTypeClaude ''anthropic'' [ProtocolAnthropicMessages] (AnthropicAuth False) PassthroughPath False False,
     profile EndpointTypeGemini ''google'' [ProtocolGemini] GeminiAuth PassthroughPath False False,
     profile EndpointTypeDualProtocol ''dual_protocol'' [ProtocolOpenAIChat, ProtocolAnthropicMessages]
       BearerWithConditionalAnthropicVersion (DualProtocolPath [] [] False) False False,
     profile EndpointTypeOpenAIImage ''openai_image'' [ProtocolOpenAIImage] BearerAuth TerminalURLPath True False]"

section \<open>Runtime targets\<close>

record target =
  tName :: string
  tEndpointType :: string
  tEndpoint :: go_url
  tAPIKey :: string
  tAPIKeys :: "string list"
  tKeyResetTime :: string
  tPaused :: bool
  tAllowBearer :: bool
  tAuthMode :: string
  tImageOperation :: string
  tModelMappings :: "model_mapping list"
  tSSEAutoAggregate :: bool
  tOpenAIPrefix :: string
  tAnthropicPrefix :: string
  tSupportsResponses :: bool
  tCustomHeaders :: "(string \<times> string) list"
  tCustomBody :: "(string \<times> json) list"
  tAllowedModelIdx :: "(string \<times> string) list"

definition supportsPath :: "target \<Rightarrow> string \<Rightarrow> bool" where
  "supportsPath t path =
     (if \<not> pathSupportedByEndpointType (tEndpointType t) path then False
      else if tEndpointType t = EndpointTypeOpenAIImage then openAIImageOperationSupportsPath (tImageOperation t) path
      else if tEndpointType t = EndpointTypeDualProtocol \<and> isOpenAIResponsesStylePath path \<and> \<not> tSupportsResponses t then False
      else True)"

section \<open>The upstream URL\<close>

definition isTerminalEndpointType :: "string \<Rightarrow> bool" where
  "isTerminalEndpointType ep = (ep = EndpointTypeOpenAIImage)"

definition isDeploymentBasedPath :: "string \<Rightarrow> bool" where
  "isDeploymentBasedPath p = contains (to_lower p) ''/deployments/''"

definition deleteQueryKeyCaseInsensitive :: "query_values \<Rightarrow> string \<Rightarrow> query_values" where
  "deleteQueryKeyCaseInsensitive q k = filter (\<lambda>(e, _). \<not> equal_fold e k) q"

definition stripped_keys :: "string list" where
  "stripped_keys = [''target'', ''api-version'', ''api_version'', ''api-key'', ''key'']"

definition normalizeForwardQuery :: "go_url \<Rightarrow> string" where
  "normalizeForwardQuery u =
     encode_query (foldl deleteQueryKeyCaseInsensitive (parse_query (uRawQuery u)) stripped_keys)"

definition appendAzureAPIVersion :: "string \<Rightarrow> string \<Rightarrow> string" where
  "appendAzureAPIVersion q v =
     (if q = [] then ''api-version='' @ queryEscape v else q @ ''&api-version='' @ queryEscape v)"

definition effective_mapper :: "target \<Rightarrow> provider_profile \<Rightarrow> path_mapper" where
  "effective_mapper t p = (if tEndpointType t = EndpointTypeDualProtocol
     then DualProtocolPath (tOpenAIPrefix t) (tAnthropicPrefix t) (tSupportsResponses t) else ppPath p)"

definition buildURL :: "provider_registry \<Rightarrow> target \<Rightarrow> go_url \<Rightarrow> go_url" where
  "buildURL reg t orig =
     (let fwd = (tEndpoint t)\<lparr>uRawQuery := []\<rparr>; pr = reg (tEndpointType t) in
      if (case pr of Some p \<Rightarrow> isTerminalURL (ppPath p) | None \<Rightarrow> isTerminalEndpointType (tEndpointType t))
      then fwd\<lparr>uRawQuery := normalizeForwardQuery orig\<rparr>
      else
        let (ep, path) = (case pr of
              Some p \<Rightarrow> (let m = effective_mapper t p in (prepareEndpointPath m (uPath fwd), rewritePath m (uPath orig) []))
            | None \<Rightarrow> (uPath fwd, mergePaths [] (uPath orig)));
            full = deduplicateV1Path (trim_right_char (CHR ''/'') ep @ ''/'' @ trim_left_char (CHR ''/'') path);
            q = normalizeForwardQuery orig
        in fwd\<lparr>uPath := full, uRawQuery :=
             (if tEndpointType t = EndpointTypeAzureOpenAI \<and> isDeploymentBasedPath full
              then appendAzureAPIVersion q ''2026-03-01-preview'' else q)\<rparr>)"

section \<open>Custom headers and body fields\<close>

definition customHeaderBlacklist :: "string list" where
  "customHeaderBlacklist = [''host'', ''content-length'', ''content-type'', ''transfer-encoding'', ''connection'',
     ''authorization'', ''api-key'', ''x-api-key'', ''x-goog-api-key'', ''x-proxy-target'', ''x-azure-target'',
     ''x-azure-authorization'', ''x-request-id'']"

definition customBodyFieldBlacklist :: "string list" where
  "customBodyFieldBlacklist = [''model'', ''messages'', ''stream'', ''n'', ''input'']"

text \<open>The first blacklisted name the iteration meets; \<open>None\<close> for the empty string of the source.\<close>

definition validateCustomHeaders :: "(string \<times> string) list \<Rightarrow> string option" where
  "validateCustomHeaders hs = find (\<lambda>k. to_lower k \<in> set customHeaderBlacklist) (map fst hs)"

definition validateCustomBody :: "(string \<times> json) list \<Rightarrow> string option" where
  "validateCustomBody fs = find (\<lambda>k. to_lower k \<in> set customBodyFieldBlacklist) (map fst fs)"

definition injectCustomHeaders :: "headers \<Rightarrow> (string \<times> string) list \<Rightarrow> headers" where
  "injectCustomHeaders h hs = foldl (\<lambda>h (k, v).
     if to_lower k \<in> set customHeaderBlacklist then h else h_set h k v) h hs"

text \<open>On the decoded body; a body that is not an object is returned as it is (see \<open>Forwarding\<close>).\<close>

definition inject_fields :: "(string \<times> json) list \<Rightarrow> (string \<times> json) list \<Rightarrow> (string \<times> json) list" where
  "inject_fields obj fs = foldl (\<lambda>obj (k, v).
     if to_lower k \<in> set customBodyFieldBlacklist then obj else AList.update k v obj) obj fs"

end
