(* ===== verification/Affinity.thy ===== *)
theory Affinity
  imports Prelude
begin

text \<open>
  The stickiness of a client and model to a target (\<open>internal/proxy/affinity.go\<close>): a map with a
  time to live, stated as the locale \<open>ttl_map\<close> and interpreted on the code's operations.
\<close>

definition affinityTTL_targets :: duration where "affinityTTL_targets = minutes 5"

record affinity_entry =
  aeTarget :: string
  aeLastUsed :: time

type_synonym affinity_map = "string \<rightharpoonup> affinity_entry"

definition affinityKey :: "string \<Rightarrow> string \<Rightarrow> string \<Rightarrow> string" where
  "affinityKey ip client model = ip @ ''|'' @ client @ '':'' @ model"

text \<open>
  \<open>Get\<close> reads under one lock and deletes an expired entry under a second one, where it checks the
  expiry again; the model takes the two as one step.
\<close>

definition affinity_get :: "affinity_map \<Rightarrow> string \<Rightarrow> time \<Rightarrow> string option \<times> affinity_map" where
  "affinity_get m k now = (case m k of None \<Rightarrow> (None, m)
     | Some e \<Rightarrow> if affinityTTL_targets < time_sub now (aeLastUsed e) then (None, m(k := None)) else (Some (aeTarget e), m))"

definition affinity_set :: "affinity_map \<Rightarrow> string \<Rightarrow> string \<Rightarrow> time \<Rightarrow> affinity_map" where
  "affinity_set m k t now = m(k \<mapsto> \<lparr>aeTarget = t, aeLastUsed = now\<rparr>)"

text \<open>The laws of a map whose entries live for a given time.\<close>

locale ttl_map =
  fixes get :: "'m \<Rightarrow> 'k \<Rightarrow> time \<Rightarrow> 'v option \<times> 'm" and set_at :: "'m \<Rightarrow> 'k \<Rightarrow> 'v \<Rightarrow> time \<Rightarrow> 'm"
    and ttl :: duration
  assumes get_set: "fst (get (set_at m k v t) k now) = (if now \<le> t + ttl then Some v else None)"
    and get_set_other: "j \<noteq> k \<Longrightarrow> fst (get (set_at m k v t) j now) = fst (get m j now)"
    and get_keeps: "fst (get (snd (get m k t)) j now) = (if fst (get m k t) = None \<and> j = k then None else fst (get m j now))"
begin

lemma last_set_wins:
  "t2 + ttl < now \<or> fst (get (set_at (set_at m k v1 t1) k v2 t2) k now) = Some v2"
  using get_set[of "set_at m k v1 t1" k v2 t2 now] by auto

text \<open>Reads of other keys never change what a key holds.\<close>

lemma reads_keep:
  assumes "k \<notin> set ks"
  shows "fst (get (foldl (\<lambda>m j. snd (get m j t)) m ks) k now) = fst (get m k now)"
  using assms by (induction ks arbitrary: m) (auto simp: get_keeps)

end

interpretation aff: ttl_map affinity_get affinity_set affinityTTL_targets
proof
  show "fst (affinity_get (affinity_set m k v t) k now) = (if now \<le> t + affinityTTL_targets then Some v else None)"
    for m k v t now
    using time_sub_gt[of affinityTTL_targets t now]
    by (auto simp: affinity_get_def affinity_set_def affinityTTL_targets_def time_units max_duration_def time_sub_def min_duration_def)
qed (auto simp: affinity_get_def affinity_set_def split: option.splits)

end
