(* ===== verification/Auth.thy ===== *)
theory Auth
  imports Go_Url Go_Http
begin

text \<open>
  Client authentication (\<open>internal/auth\<close>): the store that maps access keys to principals, access
  to targets, and the extraction of the access key from a request. A set held as a Go map with
  empty values is a set; the response of the middleware is its status.
\<close>

record client_config =
  ccName :: string
  ccAccessKey :: string
  ccAllowedTargets :: "string list"

record principal =
  prName :: string
  prAccessKey :: string
  prAllowAll :: bool
  prAllowedTargets :: "string set"
  prAllowedList :: "string list"

datatype load_error = Missing_access_key string | Empty_client_name | Duplicate_access_key string string

text \<open>A nil principal is \<open>None\<close>.\<close>

definition canAccess :: "principal option \<Rightarrow> string \<Rightarrow> bool" where
  "canAccess po t = (case po of None \<Rightarrow> False
     | Some p \<Rightarrow> prAllowAll p \<or> to_lower t \<in> prAllowedTargets p)"

fun add_allowed :: "string set \<times> string list \<Rightarrow> string \<Rightarrow> string set \<times> string list" where
  "add_allowed (s, l) t = (let t = to_lower (trim_space t) in
     if t = [] \<or> t \<in> s then (s, l) else (insert t s, l @ [t]))"

definition new_principal :: "string \<Rightarrow> string \<Rightarrow> string list \<Rightarrow> principal" where
  "new_principal name key targets = (let (s, l) = foldl add_allowed ({}, []) targets in
     \<lparr>prName = name, prAccessKey = key, prAllowAll = (targets = []), prAllowedTargets = s, prAllowedList = l\<rparr>)"

fun load_clients :: "(string \<rightharpoonup> principal) \<Rightarrow> (string \<rightharpoonup> string) \<Rightarrow> client_config list \<Rightarrow>
    load_error + (string \<rightharpoonup> principal)" where
  "load_clients m owners [] = Inr m"
| "load_clients m owners (c # cs) = (let key = trim_space (ccAccessKey c); name = trim_space (ccName c) in
     if key = [] then Inl (Missing_access_key (ccName c))
     else if name = [] then Inl Empty_client_name
     else case owners key of
       Some prev \<Rightarrow> Inl (Duplicate_access_key prev name)
     | None \<Rightarrow> load_clients (m(key \<mapsto> new_principal name key (ccAllowedTargets c))) (owners(key \<mapsto> name)) cs)"

text \<open>\<open>LoadFromConfig\<close> on the store's map: on an error the store keeps its clients.\<close>

definition loadFromConfig :: "(string \<rightharpoonup> principal) \<Rightarrow> client_config list \<Rightarrow> load_error option \<times> (string \<rightharpoonup> principal)" where
  "loadFromConfig store cs = (case load_clients Map.empty Map.empty cs of
     Inl e \<Rightarrow> (Some e, store) | Inr m \<Rightarrow> (None, m))"

definition authenticate_key :: "(string \<rightharpoonup> principal) \<Rightarrow> string \<Rightarrow> principal option" where
  "authenticate_key store key = store key"

section \<open>The access key of a request\<close>

fun extractAPIKeyFromPairs :: "string list \<Rightarrow> string" where
  "extractAPIKeyFromPairs [] = []"
| "extractAPIKeyFromPairs (p # ps) =
     (let (k, v, found) = cut_char (CHR ''='') p; key = trim_space k in
      if p = [] \<or> \<not> found then extractAPIKeyFromPairs ps
      else if \<not> equal_fold key ''api-key'' \<and> \<not> equal_fold key ''key'' then extractAPIKeyFromPairs ps
      else case unescape False (trim_space v) of
        None \<Rightarrow> extractAPIKeyFromPairs ps
      | Some d \<Rightarrow> if d \<noteq> [] then d else extractAPIKeyFromPairs ps)"

definition extractAPIKeyFromQuery :: "string \<Rightarrow> string" where
  "extractAPIKeyFromQuery raw = (if raw = [] then [] else extractAPIKeyFromPairs (split_char (CHR ''&'') raw))"

definition bearer_token :: "string \<Rightarrow> string" where
  "bearer_token h = (let (a, b, found) = cut_char (CHR '' '') h in
     if found \<and> equal_fold a ''Bearer'' then trim_space b else [])"

definition first_nonempty :: "string list \<Rightarrow> string" where
  "first_nonempty xs = (case find (\<lambda>x. x \<noteq> []) xs of None \<Rightarrow> [] | Some x \<Rightarrow> x)"

definition extractAccessKey :: "headers \<Rightarrow> string \<Rightarrow> string" where
  "extractAccessKey h rawQuery = first_nonempty
     [bearer_token (h_get h ''Authorization''), trim_space (h_get h ''api-key''),
      trim_space (h_get h ''x-api-key''), trim_space (h_get h ''x-goog-api-key''),
      extractAPIKeyFromQuery rawQuery]"

datatype auth_error = ErrMissingAuthorization | ErrInvalidCredential

definition authenticate :: "(string \<rightharpoonup> principal) \<Rightarrow> headers \<Rightarrow> string \<Rightarrow> auth_error + principal" where
  "authenticate store h rawQuery = (let token = extractAccessKey h rawQuery in
     if token = [] then Inl ErrMissingAuthorization
     else case authenticate_key store token of None \<Rightarrow> Inl ErrInvalidCredential | Some p \<Rightarrow> Inr p)"

section \<open>Properties\<close>

lemma foldl_add_allowed:
  assumes "distinct l" "set l = s"
  shows "fst (foldl add_allowed (s, l) ts) = s \<union> {to_lower (trim_space t) | t. t \<in> set ts \<and> trim_space t \<noteq> []}"
    "distinct (snd (foldl add_allowed (s, l) ts)) \<and>
      set (snd (foldl add_allowed (s, l) ts)) = fst (foldl add_allowed (s, l) ts)"
  using assms
proof (induction ts arbitrary: s l)
  case (Cons t ts)
  let ?t = "to_lower (trim_space t)"
  {
    case 1
    then show ?case
      using Cons.IH(1)[of l s] Cons.IH(1)[of "l @ [?t]" "insert ?t s"]
      by (auto simp: Let_def)
  next
    case 2
    then show ?case
      using Cons.IH(2)[of l s] Cons.IH(2)[of "l @ [?t]" "insert ?t s"]
      by (auto simp: Let_def)
  }
qed simp_all

lemma new_principal_access:
  "prAllowedTargets (new_principal n k ts) = {to_lower (trim_space t) | t. t \<in> set ts \<and> trim_space t \<noteq> []}"
  "prAllowAll (new_principal n k ts) = (ts = [])" "prName (new_principal n k ts) = n"
  "prAccessKey (new_principal n k ts) = k"
  using foldl_add_allowed[of "[]" "{}" ts] by (auto simp: new_principal_def split: prod.splits)

lemma load_clients_spec:
  "load_clients m owners cs = Inr r \<Longrightarrow> dom owners = dom m \<Longrightarrow>
     (\<forall>c \<in> set cs. trim_space (ccAccessKey c) \<noteq> [] \<and> trim_space (ccName c) \<noteq> []) \<and>
     distinct (map (\<lambda>c. trim_space (ccAccessKey c)) cs) \<and>
     (\<forall>c \<in> set cs. trim_space (ccAccessKey c) \<notin> dom m) \<and>
     (\<forall>k. r k = (case find (\<lambda>c. trim_space (ccAccessKey c) = k) cs of
        Some c \<Rightarrow> Some (new_principal (trim_space (ccName c)) k (ccAllowedTargets c)) | None \<Rightarrow> m k))"
proof (induction cs arbitrary: m owners)
  case (Cons c cs)
  let ?k = "trim_space (ccAccessKey c)" and ?n = "trim_space (ccName c)"
  let ?m = "m(?k \<mapsto> new_principal ?n ?k (ccAllowedTargets c))"
  have ne: "?k \<noteq> []" "?n \<noteq> []" "owners ?k = None" and
    rec: "load_clients ?m (owners(?k \<mapsto> ?n)) cs = Inr r"
    using Cons.prems(1) by (auto simp: Let_def split: if_splits option.splits)
  have "?k \<notin> dom m" using ne(3) Cons.prems(2) by (metis domIff)
  moreover have "dom (owners(?k \<mapsto> ?n)) = dom ?m" using Cons.prems(2) by simp
  note IH = Cons.IH[OF rec this]
  have "\<forall>d \<in> set cs. trim_space (ccAccessKey d) \<noteq> ?k" using IH by auto
  then have "find (\<lambda>d. trim_space (ccAccessKey d) = ?k) cs = None" by (simp add: find_None_iff)
  then show ?case
    using IH ne calculation by (auto split: option.splits)
qed simp

text \<open>
  After a successful load, a key authenticates exactly when it is the trimmed, non-empty access
  key of a configured client; the principal carries that client's name, and may access a target
  exactly when the client lists no targets or lists that target, up to case and surrounding space.
\<close>

theorem load_then_authenticate:
  assumes "loadFromConfig store cs = (None, store')" "authenticate_key store' key = Some p"
  shows "\<exists>c \<in> set cs. trim_space (ccAccessKey c) = key \<and> key \<noteq> [] \<and> prName p = trim_space (ccName c) \<and>
     (\<forall>t. canAccess (Some p) t \<longleftrightarrow> ccAllowedTargets c = [] \<or>
        (\<exists>a \<in> set (ccAllowedTargets c). trim_space a \<noteq> [] \<and> to_lower (trim_space a) = to_lower t)) \<and>
     (\<forall>d \<in> set cs. trim_space (ccAccessKey d) = key \<longrightarrow> trim_space (ccName d) = trim_space (ccName c))"
proof -
  have "load_clients Map.empty Map.empty cs = Inr store'"
    using assms(1) by (auto simp: loadFromConfig_def split: sum.splits)
  note spec = load_clients_spec[OF this]
  obtain c where c: "find (\<lambda>c. trim_space (ccAccessKey c) = key) cs = Some c"
      "p = new_principal (trim_space (ccName c)) key (ccAllowedTargets c)"
    using spec assms(2) by (auto simp: authenticate_key_def split: option.splits)
  have cin: "c \<in> set cs" "trim_space (ccAccessKey c) = key" using find_in_set[OF c(1)] by auto
  have "d = c" if "d \<in> set cs" "trim_space (ccAccessKey d) = key" for d
  proof -
    have "inj_on (\<lambda>c. trim_space (ccAccessKey c)) (set cs)" using spec by (simp add: distinct_map)
    then show ?thesis using that cin by (auto dest: inj_onD)
  qed
  moreover have "key \<noteq> []" using spec cin by auto
  ultimately have "\<forall>d \<in> set cs. trim_space (ccAccessKey d) = key \<longrightarrow> trim_space (ccName d) = trim_space (ccName c)" "key \<noteq> []"
    by blast+
  moreover have "canAccess (Some p) t \<longleftrightarrow> ccAllowedTargets c = [] \<or>
      (\<exists>a \<in> set (ccAllowedTargets c). trim_space a \<noteq> [] \<and> to_lower (trim_space a) = to_lower t)" for t
    unfolding canAccess_def c(2) by (auto simp: new_principal_access)
  moreover have "prName p = trim_space (ccName c)" by (simp add: c(2) new_principal_access)
  ultimately show ?thesis using cin by blast
qed

theorem load_then_authenticate_witness:
  "\<exists>c \<in> set [\<lparr>ccName = '' alice '', ccAccessKey = ''k1'', ccAllowedTargets = ['' Azure '']\<rparr>]. trim_space (ccName c) = ''alice''"
proof -
  let ?cs = "[\<lparr>ccName = '' alice '', ccAccessKey = ''k1'', ccAllowedTargets = ['' Azure '']\<rparr>]"
  have t: "trim_space ''k1'' = ''k1''" "trim_space '' alice '' = ''alice''" by code_simp+
  obtain store' where s: "loadFromConfig Map.empty ?cs = (None, store')"
    by (simp add: loadFromConfig_def Let_def t)
  have "authenticate_key store' ''k1'' = Some (new_principal ''alice'' ''k1'' ['' Azure ''])"
    using s by (auto simp: loadFromConfig_def Let_def t authenticate_key_def)
  from load_then_authenticate[OF s this] show ?thesis by (auto simp: t)
qed

end
