(* ===== verification/Targets.thy ===== *)
theory Targets
  imports Routing Affinity Auth Key_Pool
begin

text \<open>
  The targets of the proxy and the choice of one for a request (\<open>internal/proxy/target.go\<close>, with
  the model rules of \<open>sanitize.go\<close>). The two indexes of the service, by order and by name, share
  their states through pointers: here the order is a list and the names map to positions in it.
\<close>

section \<open>Target states\<close>

record target_state =
  tsTarget :: target
  tsMutedUntil :: time
  tsLastSuccess :: time
  tsLastFailure :: time
  tsConsecutiveFailure :: int
  tsTotalSuccess :: int
  tsTotalFailure :: int
  tsKeyPool :: "key_pool option"

definition newTargetState :: "target \<Rightarrow> time \<Rightarrow> target_state" where
  "newTargetState t now = \<lparr>tsTarget = t, tsMutedUntil = 0, tsLastSuccess = 0, tsLastFailure = 0,
     tsConsecutiveFailure = 0, tsTotalSuccess = 0, tsTotalFailure = 0,
     tsKeyPool = (if 1 < length (tAPIKeys t) then newKeyPool (tName t) (tAPIKeys t) (tKeyResetTime t) now else None)\<rparr>"

definition isMuted :: "target_state \<Rightarrow> time \<Rightarrow> bool" where
  "isMuted s now = (now < tsMutedUntil s)"

definition nextRetry :: "target_state \<Rightarrow> time" where
  "nextRetry s = tsMutedUntil s"

definition markFailure :: "target_state \<Rightarrow> time \<Rightarrow> duration \<Rightarrow> target_state" where
  "markFailure s now quiet = s\<lparr>tsLastFailure := now, tsConsecutiveFailure := tsConsecutiveFailure s + 1,
     tsTotalFailure := tsTotalFailure s + 1, tsMutedUntil := now + (if quiet \<le> 0 then seconds 60 else quiet)\<rparr>"

definition markSuccess :: "target_state \<Rightarrow> time \<Rightarrow> target_state" where
  "markSuccess s now = s\<lparr>tsLastSuccess := now, tsConsecutiveFailure := 0,
     tsTotalSuccess := tsTotalSuccess s + 1, tsMutedUntil := 0\<rparr>"

record target_stats =
  stMutedUntil :: time
  stLastSuccess :: time
  stLastFailure :: time
  stConsecutiveFailure :: int
  stTotalSuccess :: int
  stTotalFailure :: int

definition stats :: "target_state \<Rightarrow> target_stats" where
  "stats s = \<lparr>stMutedUntil = tsMutedUntil s, stLastSuccess = tsLastSuccess s, stLastFailure = tsLastFailure s,
     stConsecutiveFailure = tsConsecutiveFailure s, stTotalSuccess = tsTotalSuccess s, stTotalFailure = tsTotalFailure s\<rparr>"

section \<open>Model names\<close>

definition index_mapping :: "(string \<times> string) list \<Rightarrow> model_mapping \<Rightarrow> (string \<times> string) list" where
  "index_mapping idx m = (let up = to_lower (trim_space (mmUpstream m)); fb = to_lower (trim_space (mmFallback m)) in
     if up = [] then idx
     else let idx1 = AList.update up (mmUpstream m) idx in
       if fb \<noteq> [] \<and> map_of idx1 fb = None then AList.update fb (mmUpstream m) idx1 else idx1)"

definition buildModelIndex :: "model_mapping list \<Rightarrow> (string \<times> string) list" where
  "buildModelIndex ms = foldl index_mapping [] ms"

text \<open>The result and the flag of the source, as an option.\<close>

definition resolveUpstreamModel :: "target \<Rightarrow> string \<Rightarrow> string option" where
  "resolveUpstreamModel t model = (if tAllowedModelIdx t = [] then Some model
     else let key = to_lower (trim_space model) in
       if key = [] then None else map_of (tAllowedModelIdx t) key)"

definition modelAllowed :: "target \<Rightarrow> string \<Rightarrow> bool" where
  "modelAllowed t model = (resolveUpstreamModel t model \<noteq> None)"

datatype model_error = Model_required | Model_not_in_target

definition ensureModelAllowed :: "target \<Rightarrow> string \<Rightarrow> model_error + string" where
  "ensureModelAllowed t model = (if tAllowedModelIdx t = [] then Inr model
     else if trim_space model = [] then Inl Model_required
     else case resolveUpstreamModel t model of None \<Rightarrow> Inl Model_not_in_target | Some up \<Rightarrow> Inr up)"

section \<open>Building the targets\<close>

datatype build_error = Invalid_endpoint string | Missing_scheme_or_host string | Empty_target_name nat
  | No_credentials string | Duplicate_target string

definition add_key :: "string list \<Rightarrow> string \<Rightarrow> string list" where
  "add_key ks k = (let k = trim_space k in if k = [] \<or> k \<in> set ks then ks else ks @ [k])"

definition mergeKeys :: "string \<Rightarrow> string list \<Rightarrow> string list" where
  "mergeKeys primary ks = foldl add_key (if primary \<noteq> [] then [primary] else []) ks"

definition make_target :: "config_target \<Rightarrow> go_url \<Rightarrow> target" where
  "make_target c u = \<lparr>tName = trim_space (ctName c), tEndpointType = normalizeEndpointType (ctEndpointType c),
     tEndpoint = u, tAPIKey = trim_space (ctAPIKey c), tAPIKeys = mergeKeys (trim_space (ctAPIKey c)) (ctAPIKeys c),
     tKeyResetTime = ctKeyResetTime c, tPaused = ctPaused c, tAllowBearer = ctAllowBearer c,
     tAuthMode = ctAuthMode c, tImageOperation = normalizeImageOperation (ctImageOperation c),
     tModelMappings = ctModelMappings c, tSSEAutoAggregate = (ctSSEAutoAggregate c = None \<or> ctSSEAutoAggregate c = Some True),
     tOpenAIPrefix = ctOpenAIPrefix c, tAnthropicPrefix = ctAnthropicPrefix c,
     tSupportsResponses = ctSupportsResponses c, tCustomHeaders = ctCustomHeaders c, tCustomBody = ctCustomBody c,
     tAllowedModelIdx = buildModelIndex (ctModelMappings c)\<rparr>"

fun build_loop :: "nat \<Rightarrow> (string \<rightharpoonup> nat) \<Rightarrow> target_state list \<Rightarrow> time \<Rightarrow> config_target list \<Rightarrow>
    build_error + (string \<rightharpoonup> nat) \<times> target_state list" where
  "build_loop idx names order now [] = Inr (names, order)"
| "build_loop idx names order now (c0 # cs) = (let c = normalizeTargetForCompatibility c0 in
     case parse_url (trim_space (ctEndpoint c)) of
       None \<Rightarrow> Inl (Invalid_endpoint (ctName c))
     | Some u \<Rightarrow>
       if uScheme u = [] \<or> uHost u = [] then Inl (Missing_scheme_or_host (ctName c)) else
       let t = make_target c u; key = to_lower (tName t) in
       if tName t = [] then Inl (Empty_target_name idx)
       else if tAPIKeys t = [] \<and> \<not> tAllowBearer t then Inl (No_credentials (tName t))
       else if names key \<noteq> None then Inl (Duplicate_target (tName t))
       else build_loop (Suc idx) (names(key \<mapsto> length order)) (order @ [newTargetState t now]) now cs)"

definition buildTargetStates :: "config_target list \<Rightarrow> time \<Rightarrow> build_error + (string \<rightharpoonup> nat) \<times> target_state list" where
  "buildTargetStates cs now = build_loop 0 Map.empty [] now cs"

section \<open>The service's view of its targets\<close>

record proxy =
  pxOrder :: "target_state list"
  pxByName :: "string \<rightharpoonup> nat"
  pxAffinity :: affinity_map
  pxRR :: "64 word"

definition updateTargets :: "'a proxy_scheme \<Rightarrow> config_target list \<Rightarrow> time \<Rightarrow> build_error option \<times> 'a proxy_scheme" where
  "updateTargets px cs now = (case buildTargetStates cs now of
     Inl e \<Rightarrow> (Some e, px) | Inr (names, order) \<Rightarrow> (None, px\<lparr>pxByName := names, pxOrder := order\<rparr>))"

definition targetByName :: "'a proxy_scheme \<Rightarrow> string \<Rightarrow> nat option" where
  "targetByName px name = pxByName px (to_lower name)"

abbreviation the_state :: "'a proxy_scheme \<Rightarrow> nat \<Rightarrow> target_state" where
  "the_state px i \<equiv> pxOrder px ! i"

abbreviation the_target :: "'a proxy_scheme \<Rightarrow> nat \<Rightarrow> target" where
  "the_target px i \<equiv> tsTarget (the_state px i)"

definition anyTargetRequiresModel :: "'a proxy_scheme \<Rightarrow> bool" where
  "anyTargetRequiresModel px = (\<exists>s \<in> set (pxOrder px). tAllowedModelIdx (tsTarget s) \<noteq> [])"

text \<open>A nil set of allowed targets, \<open>None\<close>, admits every target.\<close>

definition open_to :: "string set option \<Rightarrow> string set \<Rightarrow> target \<Rightarrow> bool" where
  "open_to allowed attempted t = (\<not> tPaused t \<and> to_lower (tName t) \<notin> attempted \<and>
     (case allowed of None \<Rightarrow> True | Some a \<Rightarrow> to_lower (tName t) \<in> a))"

definition resolveAliasToUpstream :: "string \<Rightarrow> string set option \<Rightarrow> string set \<Rightarrow> target_state list \<Rightarrow> string" where
  "resolveAliasToUpstream model allowed attempted states = (if model = [] then model else
     let resolved = (\<lambda>s. if open_to allowed attempted (tsTarget s) then resolveUpstreamModel (tsTarget s) model else None) in
     case find (\<lambda>s. resolved s \<noteq> None \<and> resolved s \<noteq> Some []) states of
       None \<Rightarrow> model | Some s \<Rightarrow> the (resolved s))"

definition hasModelCandidateIgnoringPath :: "'a proxy_scheme \<Rightarrow> string set option \<Rightarrow> string set \<Rightarrow> string \<Rightarrow> bool" where
  "hasModelCandidateIgnoringPath px allowed attempted model =
     (\<exists>s \<in> set (pxOrder px). open_to allowed attempted (tsTarget s) \<and> modelAllowed (tsTarget s) model)"

section \<open>The weighted choice\<close>

definition eligible :: "'a proxy_scheme \<Rightarrow> string set option \<Rightarrow> string set \<Rightarrow> string \<Rightarrow> string \<Rightarrow> nat \<Rightarrow> bool" where
  "eligible px allowed attempted model path i = (let t = the_target px i in
     open_to allowed attempted t \<and> modelAllowed t model \<and> supportsPath t path)"

definition candidates :: "'a proxy_scheme \<Rightarrow> string set option \<Rightarrow> string set \<Rightarrow> string \<Rightarrow> string \<Rightarrow> nat list" where
  "candidates px allowed attempted model path =
     filter (eligible px allowed attempted model path) [0..<length (pxOrder px)]"

definition keyCount :: "target_state \<Rightarrow> nat" where
  "keyCount s = (if tAPIKeys (tsTarget s) \<noteq> [] then length (tAPIKeys (tsTarget s)) else 1)"

definition activeCount :: "target_state \<Rightarrow> nat" where
  "activeCount s = (case tsKeyPool s of None \<Rightarrow> keyCount s | Some p \<Rightarrow> activeKeyCount p)"

definition weights :: "'a proxy_scheme \<Rightarrow> nat list \<Rightarrow> (nat \<times> nat) list" where
  "weights px is = (if 0 < sum_list (map (\<lambda>i. activeCount (the_state px i)) is)
     then map (\<lambda>i. (i, activeCount (the_state px i))) is
     else map (\<lambda>i. (i, keyCount (the_state px i))) is)"

text \<open>Go's remainder truncates toward zero; the counter is converted to a signed integer first.\<close>

definition go_rem :: "int \<Rightarrow> int \<Rightarrow> int" where
  "go_rem a b = (if 0 \<le> a then a mod b else - ((- a) mod b))"

fun weighted_pick :: "(nat \<times> nat) list \<Rightarrow> int \<Rightarrow> int \<Rightarrow> nat option" where
  "weighted_pick [] k cum = None"
| "weighted_pick ((i, w) # ws) k cum = (if k < cum + int w then Some i else weighted_pick ws k (cum + int w))"

definition muted_better :: "'a proxy_scheme \<Rightarrow> nat option \<Rightarrow> nat \<Rightarrow> nat option" where
  "muted_better px m i = (case m of None \<Rightarrow> Some i
     | Some j \<Rightarrow> if nextRetry (the_state px i) < nextRetry (the_state px j) then Some i else m)"

fun scan_unmuted :: "'a proxy_scheme \<Rightarrow> time \<Rightarrow> nat option \<Rightarrow> nat list \<Rightarrow> nat option \<times> nat option" where
  "scan_unmuted px now m [] = (None, m)"
| "scan_unmuted px now m (i # is) = (if \<not> isMuted (the_state px i) now then (Some i, m)
     else scan_unmuted px now (muted_better px m i) is)"

definition findAvailableTargetWithModel :: "'a proxy_scheme \<Rightarrow> string set option \<Rightarrow> string set \<Rightarrow> string \<Rightarrow> string \<Rightarrow> time \<Rightarrow>
    (nat option \<times> nat option) \<times> 'a proxy_scheme" where
  "findAvailableTargetWithModel px allowed attempted model path now =
     (let cs = candidates px allowed attempted model path in
      if cs = [] then ((None, None), px) else
      let ws = weights px cs; total = sum_list (map snd ws);
          k = go_rem (sint (pxRR px)) (int total); px' = px\<lparr>pxRR := pxRR px + 1\<rparr> in
      case weighted_pick ws k 0 of
        Some i \<Rightarrow> if \<not> isMuted (the_state px i) now then ((Some i, None), px')
                  else (scan_unmuted px now (Some i) cs, px')
      | None \<Rightarrow> (scan_unmuted px now None cs, px'))"

definition findAvailableTarget :: "'a proxy_scheme \<Rightarrow> string set option \<Rightarrow> string set \<Rightarrow> time \<Rightarrow>
    (nat option \<times> nat option) \<times> 'a proxy_scheme" where
  "findAvailableTarget px allowed attempted now = findAvailableTargetWithModel px allowed attempted [] [] now"

section \<open>Selecting a target\<close>

datatype selection_kind = SelectionExplicit | SelectionAffinityHit | SelectionRoundRobin | SelectionFailover

datatype selection_error = Target_not_allowed | Unknown_target | Model_not_allowed | Requested_paused
  | Path_not_supported | Already_attempted | Requested_muted | All_muted time | No_alternative
  | No_path_for_model | Model_not_supported | No_target

definition selection_status :: "selection_error \<Rightarrow> nat" where
  "selection_status e = (case e of Target_not_allowed \<Rightarrow> 403 | Unknown_target \<Rightarrow> 400 | Model_not_allowed \<Rightarrow> 400
     | Requested_paused \<Rightarrow> 503 | Path_not_supported \<Rightarrow> 400 | Already_attempted \<Rightarrow> 503 | Requested_muted \<Rightarrow> 503
     | All_muted _ \<Rightarrow> 503 | No_alternative \<Rightarrow> 502 | No_path_for_model \<Rightarrow> 400 | Model_not_supported \<Rightarrow> 400 | No_target \<Rightarrow> 502)"

definition select_explicit :: "'a proxy_scheme \<Rightarrow> principal \<Rightarrow> string \<Rightarrow> string set \<Rightarrow> string \<Rightarrow> string \<Rightarrow> time \<Rightarrow>
    selection_error + nat" where
  "select_explicit px pr req attempted model path now =
     (if \<not> canAccess (Some pr) req then Inl Target_not_allowed else
      case targetByName px req of None \<Rightarrow> Inl Unknown_target
      | Some i \<Rightarrow> let t = the_target px i in
        if \<not> modelAllowed t model then Inl Model_not_allowed
        else if tPaused t then Inl Requested_paused
        else if \<not> supportsPath t path then Inl Path_not_supported
        else if to_lower (tName t) \<in> attempted then Inl Already_attempted
        else if isMuted (the_state px i) now then Inl Requested_muted
        else Inr i)"

text \<open>The remembered target, looked up under the alias and then under the upstream name.\<close>

definition affinity_lookup :: "'a proxy_scheme \<Rightarrow> principal \<Rightarrow> string \<Rightarrow> string set option \<Rightarrow> string set \<Rightarrow> string \<Rightarrow> time \<Rightarrow>
    string option \<times> 'a proxy_scheme" where
  "affinity_lookup px pr ip allowed attempted model now =
     (if attempted \<noteq> {} then (None, px) else
      let (r1, m1) = affinity_get (pxAffinity px) (affinityKey ip (prName pr) model) now; px1 = px\<lparr>pxAffinity := m1\<rparr> in
      if r1 \<noteq> None then (r1, px1) else
      let up = resolveAliasToUpstream model allowed attempted (pxOrder px) in
      if up = model then (None, px1) else
      let (r2, m2) = affinity_get m1 (affinityKey ip (prName pr) up) now in (r2, px\<lparr>pxAffinity := m2\<rparr>))"

definition affinity_target :: "'a proxy_scheme \<Rightarrow> string option \<Rightarrow> string set option \<Rightarrow> string \<Rightarrow> string \<Rightarrow> time \<Rightarrow> nat option" where
  "affinity_target px r allowed model path now = (case r of None \<Rightarrow> None
     | Some name \<Rightarrow> (case targetByName px name of None \<Rightarrow> None
       | Some i \<Rightarrow> let t = the_target px i in
         if (case allowed of None \<Rightarrow> True | Some a \<Rightarrow> to_lower (tName t) \<in> a) \<and> \<not> tPaused t \<and>
            \<not> isMuted (the_state px i) now \<and> modelAllowed t model \<and> supportsPath t path
         then Some i else None))"

definition selectTarget :: "'a proxy_scheme \<Rightarrow> principal \<Rightarrow> string \<Rightarrow> string \<Rightarrow> string set option \<Rightarrow> string set \<Rightarrow>
    string \<Rightarrow> string \<Rightarrow> time \<Rightarrow> (selection_error + nat \<times> selection_kind) \<times> 'a proxy_scheme" where
  "selectTarget px pr ip req allowed attempted model path now =
     (if req \<noteq> [] then
        ((case select_explicit px pr req attempted model path now of Inl e \<Rightarrow> Inl e | Inr i \<Rightarrow> Inr (i, SelectionExplicit)), px)
      else let (r, px1) = affinity_lookup px pr ip allowed attempted model now in
      case affinity_target px1 r allowed model path now of
        Some i \<Rightarrow> (Inr (i, SelectionAffinityHit), px1)
      | None \<Rightarrow> (let ((c, m), px2) = findAvailableTargetWithModel px1 allowed attempted model path now in
          case c of Some i \<Rightarrow> (Inr (i, if r \<noteq> None then SelectionFailover else SelectionRoundRobin), px2)
          | None \<Rightarrow>
            (case m of Some j \<Rightarrow> (Inl (All_muted (nextRetry (the_state px2 j))), px2)
             | None \<Rightarrow>
               if attempted \<noteq> {} then (Inl No_alternative, px2)
               else if model \<noteq> [] then
                 (Inl (if hasModelCandidateIgnoringPath px2 allowed attempted model then No_path_for_model
                       else Model_not_supported), px2)
               else (Inl No_target, px2))))"

end
