(* ===== verification/Targets_Props.thy ===== *)
theory Targets_Props
  imports Targets Key_Pool_Run
begin

text \<open>
  Properties of target selection: only usable targets are chosen, one is found when there is one,
  traffic follows the number of usable keys, stickiness, muting, and the construction of the
  targets from a configuration.
\<close>

section \<open>Well-formed proxies\<close>

definition names_ok :: "(string \<rightharpoonup> nat) \<Rightarrow> target_state list \<Rightarrow> bool" where
  "names_ok names order = (\<forall>n i. names n = Some i \<longleftrightarrow> i < length order \<and> to_lower (tName (tsTarget (order ! i))) = n)"

definition state_ok :: "target_state \<Rightarrow> bool" where
  "state_ok s = (tName (tsTarget s) \<noteq> [] \<and> (tAPIKeys (tsTarget s) \<noteq> [] \<or> tAllowBearer (tsTarget s)) \<and>
     distinct (tAPIKeys (tsTarget s)) \<and> [] \<notin> set (tAPIKeys (tsTarget s)) \<and>
     (case tsKeyPool s of None \<Rightarrow> length (tAPIKeys (tsTarget s)) \<le> 1
      | Some p \<Rightarrow> kp_wf p \<and> 1 < length (entries p) \<and> map keyStr (entries p) = tAPIKeys (tsTarget s)))"

definition proxy_ok :: "'a proxy_scheme \<Rightarrow> bool" where
  "proxy_ok px = (names_ok (pxByName px) (pxOrder px) \<and> (\<forall>s \<in> set (pxOrder px). state_ok s))"

lemma add_key_inv: "distinct ks \<and> [] \<notin> set ks \<Longrightarrow> distinct (add_key ks k) \<and> [] \<notin> set (add_key ks k)"
  by (auto simp: add_key_def Let_def)

lemma mergeKeys_inv: "distinct (mergeKeys p ks) \<and> [] \<notin> set (mergeKeys p ks)"
proof -
  have "distinct (foldl add_key xs ks) \<and> [] \<notin> set (foldl add_key xs ks)"
    if "distinct xs \<and> [] \<notin> set xs" for xs
    using that
  proof (induction ks arbitrary: xs)
    case (Cons k ks)
    show ?case using Cons.IH[OF add_key_inv[OF Cons.prems, of k]] by simp
  qed simp
  then show ?thesis by (simp add: mergeKeys_def)
qed

lemma newTargetState_ok:
  assumes "tName t \<noteq> []" "tAPIKeys t \<noteq> [] \<or> tAllowBearer t" "tAPIKeys t = mergeKeys p ks"
  shows "state_ok (newTargetState t now)"
proof -
  have "kp_wf q \<and> 1 < length (entries q) \<and> map keyStr (entries q) = tAPIKeys t"
    if "newKeyPool (tName t) (tAPIKeys t) (tKeyResetTime t) now = Some q" "1 < length (tAPIKeys t)" for q
    using newKeyPool_wf[OF that(1)] that
    by (auto simp: newKeyPool_def new_entry_def comp_def split: if_splits)
  then show ?thesis
    using assms mergeKeys_inv[of p ks]
    by (auto simp: state_ok_def newTargetState_def newKeyPool_def split: option.splits if_splits)
qed

lemma names_ok_snoc:
  assumes ok: "names_ok names order" and new: "names (to_lower (tName (tsTarget s))) = None"
  shows "names_ok (names(to_lower (tName (tsTarget s)) \<mapsto> length order)) (order @ [s])"
proof -
  let ?k = "to_lower (tName (tsTarget s))"
  have old: "names n = Some i \<longleftrightarrow> i < length order \<and> to_lower (tName (tsTarget (order ! i))) = n" for n i
    using ok by (simp add: names_ok_def)
  have fresh: "to_lower (tName (tsTarget (order ! i))) \<noteq> ?k" if "i < length order" for i
    using old[of ?k i] new that by auto
  show ?thesis
    unfolding names_ok_def
  proof (intro allI)
    fix n i
    consider (last) "i = length order" | (inside) "i < length order" | (out) "length order < i" by linarith
    then show "((names(?k \<mapsto> length order)) n = Some i) =
        (i < length (order @ [s]) \<and> to_lower (tName (tsTarget ((order @ [s]) ! i))) = n)"
    proof cases
      case last
      then show ?thesis using old[of n i] by auto
    next
      case inside
      then show ?thesis using fresh[OF inside] old[of n i] by (auto simp: nth_append)
    next
      case out
      then show ?thesis using old[of n i] by auto
    qed
  qed
qed

lemma build_loop_ok:
  "build_loop idx names order now cs = Inr (names', order') \<Longrightarrow> names_ok names order \<Longrightarrow>
     \<forall>s \<in> set order. state_ok s \<Longrightarrow> names_ok names' order' \<and> (\<forall>s \<in> set order'. state_ok s) \<and>
     length order' = length order + length cs \<and>
     (\<forall>i < length order. order' ! i = order ! i) \<and>
     (\<forall>i < length cs. \<exists>u. parse_url (trim_space (ctEndpoint (cs ! i))) = Some u \<and>
        order' ! (length order + i) = newTargetState (make_target (normalizeTargetForCompatibility (cs ! i)) u) now)"
proof (induction idx names order now cs arbitrary: names' order' rule: build_loop.induct)
  case (1 idx names order now)
  then show ?case by simp
next
  case (2 idx names order now c0 cs)
  let ?c = "normalizeTargetForCompatibility c0"
  obtain u where u: "parse_url (trim_space (ctEndpoint ?c)) = Some u" "uScheme u \<noteq> []" "uHost u \<noteq> []"
    using 2(2) by (auto simp: Let_def split: option.splits if_splits)
  define t where "t = make_target ?c u"
  let ?s = "newTargetState t now"
  have g: "tName t \<noteq> []" "tAPIKeys t \<noteq> [] \<or> tAllowBearer t" "names (to_lower (tName t)) = None"
    and rec: "build_loop (Suc idx) (names(to_lower (tName t) \<mapsto> length order)) (order @ [?s]) now cs = Inr (names', order')"
    using 2(2) u by (auto simp: Let_def t_def split: if_splits)
  have tt: "tsTarget ?s = t" by (simp add: newTargetState_def)
  have sok: "state_ok ?s"
    by (rule newTargetState_ok[OF g(1,2)]) (simp add: t_def make_target_def)
  have nok: "names_ok (names(to_lower (tName t) \<mapsto> length order)) (order @ [?s])"
    using names_ok_snoc[of names order ?s] 2(3) g(3) by (simp add: tt)
  have "\<not> (uScheme u = [] \<or> uHost u = [])" "\<not> tName t = []" "\<not> (tAPIKeys t = [] \<and> \<not> tAllowBearer t)"
    "\<not> names (to_lower (tName t)) \<noteq> None" using u g by auto
  note IH = 2(1)[OF refl u(1) this(1) t_def refl this(2-4) rec nok]
  have sall: "\<forall>s \<in> set (order @ [?s]). state_ok s" using 2(4) sok by simp
  note IH = IH[OF sall]
  have nth: "order' ! length order = ?s" using IH by (metis length_append_singleton lessI nth_append_length)
  have "\<exists>u. parse_url (trim_space (ctEndpoint ((c0 # cs) ! i))) = Some u \<and>
        order' ! (length order + i) = newTargetState (make_target (normalizeTargetForCompatibility ((c0 # cs) ! i)) u) now"
    if "i < length (c0 # cs)" for i
  proof (cases i)
    case 0
    then show ?thesis using nth u(1) by (simp add: t_def)
  next
    case (Suc j)
    then show ?thesis using IH that by auto
  qed
  moreover have "\<forall>i < length order. order' ! i = order ! i"
  proof (intro allI impI)
    fix i assume "i < length order"
    then show "order' ! i = order ! i" using IH by (auto simp: nth_append)
  qed
  ultimately show ?case using IH by simp
qed

text \<open>
  When the targets of a configuration are accepted, the service has one state per configured
  target in the same order, found by its lower-case name and by nothing else; names are distinct,
  every target has a credential or admits bearer passthrough, its keys are distinct, trimmed and
  not empty, and it has a well-formed key pool over exactly these keys when there are several.
  When they are rejected the service keeps its targets.
\<close>

theorem updateTargets_ok:
  "case updateTargets px cs now of
     (None, px') \<Rightarrow> proxy_ok px' \<and> length (pxOrder px') = length cs \<and>
        map (\<lambda>s. tName (tsTarget s)) (pxOrder px') = map (\<lambda>c. trim_space (ctName c)) cs \<and> pxAffinity px' = pxAffinity px
   | (Some _, px') \<Rightarrow> px' = px"
proof (cases "buildTargetStates cs now")
  case (Inl e)
  then show ?thesis by (simp add: updateTargets_def)
next
  case (Inr r)
  then obtain names order where r: "build_loop 0 Map.empty [] now cs = Inr (names, order)"
    by (cases r) (auto simp: buildTargetStates_def)
  have "names_ok Map.empty []" by (simp add: names_ok_def)
  note ok = build_loop_ok[OF r this]
  have "map (\<lambda>s. tName (tsTarget s)) order = map (\<lambda>c. trim_space (ctName c)) cs"
  proof (rule nth_equalityI)
    fix i assume "i < length (map (\<lambda>s. tName (tsTarget s)) order)"
    then show "map (\<lambda>s. tName (tsTarget s)) order ! i = map (\<lambda>c. trim_space (ctName c)) cs ! i"
      using ok by (auto simp: newTargetState_def make_target_def)
  qed (use ok in simp)
  then show ?thesis
    using r ok by (auto simp: updateTargets_def buildTargetStates_def proxy_ok_def)
qed

section \<open>Which target is chosen\<close>

lemma weighted_pick_in: "weighted_pick ws k cum = Some i \<Longrightarrow> i \<in> fst ` set ws"
  by (induction ws k cum rule: weighted_pick.induct) (auto split: if_splits)

lemma weights_fst: "map fst (weights px is) = is"
  by (simp add: weights_def comp_def)

lemma scan_unmuted_some:
  "scan_unmuted px now m is = (Some i, m') \<Longrightarrow> i \<in> set is \<and> \<not> isMuted (the_state px i) now"
  by (induction px now m "is" rule: scan_unmuted.induct) (auto split: if_splits)

lemma muted_better_some: "muted_better px m i \<noteq> None"
  by (auto simp: muted_better_def split: option.splits)

lemma scan_unmuted_none:
  "scan_unmuted px now m is = (None, m') \<Longrightarrow>
     (\<forall>i \<in> set is. isMuted (the_state px i) now) \<and> (is \<noteq> [] \<or> m \<noteq> None \<longrightarrow> m' \<noteq> None)"
proof (induction px now m "is" rule: scan_unmuted.induct)
  case (2 px now m j js)
  then show ?case using muted_better_some[of px m j] by (auto split: if_splits)
qed auto

lemma in_candidates: "i \<in> set (candidates px allowed attempted model path) \<longleftrightarrow>
    i < length (pxOrder px) \<and> eligible px allowed attempted model path i"
  by (auto simp: candidates_def)

lemma find_available_frame:
  "findAvailableTargetWithModel px allowed attempted model path now = ((c, m), px') \<Longrightarrow>
     pxOrder px' = pxOrder px \<and> pxByName px' = pxByName px \<and> pxAffinity px' = pxAffinity px"
  by (auto simp: findAvailableTargetWithModel_def Let_def split: if_splits option.splits prod.splits)

lemma find_available_some:
  assumes "findAvailableTargetWithModel px allowed attempted model path now = ((Some i, m), px')"
  shows "i < length (pxOrder px) \<and> eligible px allowed attempted model path i \<and> \<not> isMuted (the_state px i) now"
proof -
  let ?cs = "candidates px allowed attempted model path"
  have "i \<in> set ?cs \<and> \<not> isMuted (the_state px i) now"
  proof (cases "weighted_pick (weights px ?cs) (go_rem (sint (pxRR px)) (int (sum_list (map snd (weights px ?cs))))) 0")
    case None
    then show ?thesis
      using assms scan_unmuted_some[of px now None ?cs i m]
      by (auto simp: findAvailableTargetWithModel_def Let_def split: if_splits)
  next
    case (Some j)
    have "j \<in> set (map fst (weights px ?cs))" using weighted_pick_in[OF Some] by simp
    then have "j \<in> set ?cs" by (simp only: weights_fst)
    then show ?thesis
      using assms Some scan_unmuted_some[of px now "Some j" ?cs i m]
      by (auto simp: findAvailableTargetWithModel_def Let_def split: if_splits)
  qed
  then show ?thesis by (simp add: in_candidates)
qed

lemma find_available_none:
  assumes "findAvailableTargetWithModel px allowed attempted model path now = ((None, m), px')"
  shows "(\<forall>i < length (pxOrder px). eligible px allowed attempted model path i \<longrightarrow> isMuted (the_state px i) now) \<and>
     (m = None \<longleftrightarrow> candidates px allowed attempted model path = [])"
proof -
  let ?cs = "candidates px allowed attempted model path"
  show ?thesis
  proof (cases "?cs = []")
    case True
    then have "\<not> (i < length (pxOrder px) \<and> eligible px allowed attempted model path i)" for i
      using in_candidates[of i px allowed attempted model path] by simp
    then show ?thesis using assms True by (auto simp: findAvailableTargetWithModel_def)
  next
    case False
    obtain m0 where "scan_unmuted px now m0 ?cs = (None, m)"
      using assms False by (auto simp: findAvailableTargetWithModel_def Let_def split: if_splits option.splits)
    from scan_unmuted_none[OF this] False show ?thesis
      by (auto simp: in_candidates)
  qed
qed

lemma affinity_lookup_frame:
  "affinity_lookup px pr ip allowed attempted model now = (r, px') \<Longrightarrow>
     pxOrder px' = pxOrder px \<and> pxByName px' = pxByName px \<and> pxRR px' = pxRR px \<and> (attempted \<noteq> {} \<longrightarrow> r = None)"
  by (auto simp: affinity_lookup_def Let_def split: if_splits prod.splits)

definition allowed_of :: "principal \<Rightarrow> string set option" where
  "allowed_of pr = (if prAllowAll pr then None else Some (prAllowedTargets pr))"

lemma canAccess_allowed: "canAccess (Some pr) t \<longleftrightarrow> (case allowed_of pr of None \<Rightarrow> True | Some a \<Rightarrow> to_lower t \<in> a)"
  by (simp add: canAccess_def allowed_of_def)

lemma eligible_unfold: "eligible px (allowed_of pr) attempted model path i \<longleftrightarrow>
    \<not> tPaused (the_target px i) \<and> to_lower (tName (the_target px i)) \<notin> attempted \<and>
    canAccess (Some pr) (tName (the_target px i)) \<and> modelAllowed (the_target px i) model \<and>
    supportsPath (the_target px i) path"
  by (auto simp: eligible_def open_to_def canAccess_allowed Let_def)

lemma eligible_cong: "pxOrder px' = pxOrder px \<Longrightarrow> eligible px' = eligible px"
  by (intro ext) (simp add: eligible_def)

lemma select_explicit_some:
  assumes ok: "proxy_ok px" and sel: "select_explicit px pr req attempted model path now = Inr i"
  shows "i < length (pxOrder px) \<and> eligible px (allowed_of pr) attempted model path i \<and>
    \<not> isMuted (the_state px i) now \<and> to_lower (tName (the_target px i)) = to_lower req"
proof -
  have n: "pxByName px (to_lower req) = Some i" and acc: "canAccess (Some pr) req"
    using sel by (auto simp: select_explicit_def targetByName_def Let_def split: if_splits option.splits)
  then have "i < length (pxOrder px)" "to_lower (tName (the_target px i)) = to_lower req"
    using ok by (auto simp: proxy_ok_def names_ok_def)
  then show ?thesis
    using sel acc n by (auto simp: select_explicit_def targetByName_def eligible_unfold canAccess_def Let_def split: if_splits)
qed

lemma affinity_target_some:
  assumes ok: "proxy_ok px" and t: "affinity_target px r (allowed_of pr) model path now = Some i"
  shows "i < length (pxOrder px) \<and> eligible px (allowed_of pr) {} model path i \<and> \<not> isMuted (the_state px i) now"
proof -
  obtain name where "pxByName px (to_lower name) = Some i"
    using t by (auto simp: affinity_target_def targetByName_def Let_def split: option.splits if_splits)
  then have "i < length (pxOrder px)" using ok by (auto simp: proxy_ok_def names_ok_def)
  then show ?thesis
    using t by (auto simp: affinity_target_def eligible_unfold canAccess_allowed Let_def split: option.splits if_splits)
qed

text \<open>The three ways a request without an explicit target is answered, as one case rule.\<close>

lemma selectTarget_free_cases:
  assumes "selectTarget px pr ip [] allowed attempted model path now = (res, px')"
  obtains (hit) i r where "res = Inr (i, SelectionAffinityHit)"
      "affinity_lookup px pr ip allowed attempted model now = (r, px')" "affinity_target px' r allowed model path now = Some i"
  | (found) i k m r px1 where "res = Inr (i, k)" "k \<noteq> SelectionExplicit"
      "affinity_lookup px pr ip allowed attempted model now = (r, px1)"
      "findAvailableTargetWithModel px1 allowed attempted model path now = ((Some i, m), px')"
  | (none) e m r px1 where "res = Inl e" "affinity_lookup px pr ip allowed attempted model now = (r, px1)"
      "findAvailableTargetWithModel px1 allowed attempted model path now = ((None, m), px')"
proof -
  obtain r px1 where L: "affinity_lookup px pr ip allowed attempted model now = (r, px1)" by fastforce
  obtain c m px2 where F: "findAvailableTargetWithModel px1 allowed attempted model path now = ((c, m), px2)"
    by (metis prod.collapse)
  note eq = assms[unfolded selectTarget_def L]
  show thesis
  proof (cases "affinity_target px1 r allowed model path now")
    case (Some i)
    have "res = Inr (i, SelectionAffinityHit)" "px' = px1" using eq Some by simp_all
    then show thesis using hit[of i r] L Some by simp
  next
    case None: None
    show thesis
    proof (cases c)
      case (Some i)
      have "res = Inr (i, if r \<noteq> None then SelectionFailover else SelectionRoundRobin)" "px' = px2"
        using eq None F Some by simp_all
      then show thesis using found[of i _ r px1 m] L F Some by simp
    next
      case None': None
      have "\<exists>e. (res, px') = (Inl e, px2)"
        using eq None F None' by (cases m) (auto split: if_splits)
      then show thesis using none[of _ r px1 m] L F None' by blast
    qed
  qed
qed

lemma selectTarget_usable:
  assumes ok: "proxy_ok px"
    and sel: "selectTarget px pr ip req (allowed_of pr) attempted model path now = (Inr (i, k), px')"
  shows "i < length (pxOrder px) \<and> \<not> tPaused (the_target px i) \<and> \<not> isMuted (the_state px i) now \<and>
    to_lower (tName (the_target px i)) \<notin> attempted \<and> modelAllowed (the_target px i) model \<and>
    supportsPath (the_target px i) path \<and> canAccess (Some pr) (tName (the_target px i)) \<and>
    (req \<noteq> [] \<longrightarrow> to_lower (tName (the_target px i)) = to_lower req) \<and> pxOrder px' = pxOrder px"
proof (cases "req = []")
  case False
  then have "select_explicit px pr req attempted model path now = Inr i" "px' = px"
    using sel by (auto simp: selectTarget_def split: sum.splits)
  then show ?thesis
    using select_explicit_some[OF ok, of pr req attempted model path now i] unfolding eligible_unfold by blast
next
  case True
  have "i < length (pxOrder px) \<and> eligible px (allowed_of pr) attempted model path i \<and>
      \<not> isMuted (the_state px i) now \<and> pxOrder px' = pxOrder px"
    using sel[unfolded True]
  proof (cases rule: selectTarget_free_cases)
    case (hit j r)
    note fr = affinity_lookup_frame[OF hit(2)]
    then have ok': "proxy_ok px'" using ok by (simp add: proxy_ok_def)
    have "attempted = {}" using fr hit(3) by (auto simp: affinity_target_def)
    then show ?thesis
      using affinity_target_some[OF ok' hit(3)] hit(1) fr eligible_cong[of px' px] by auto
  next
    case (found j k' m r px1)
    note fr = affinity_lookup_frame[OF found(3)] find_available_frame[OF found(4)]
    then show ?thesis
      using find_available_some[OF found(4)] found(1) eligible_cong[of px1 px] by auto
  qed simp
  then show ?thesis using True by (simp add: eligible_unfold)
qed

text \<open>
  C22: a selected target exists, is not paused, not muted and not already attempted, accepts the
  model, serves the path, and is one the client may access; a named target is the one named.
\<close>

theorem selectTarget_safe:
  assumes ok: "proxy_ok px"
    and sel: "selectTarget px pr ip req (allowed_of pr) attempted model path now = (Inr (i, k), px')"
  shows "i < length (pxOrder px) \<and> \<not> tPaused (the_target px i) \<and> \<not> isMuted (the_state px i) now \<and>
    to_lower (tName (the_target px i)) \<notin> attempted \<and> modelAllowed (the_target px i) model \<and>
    supportsPath (the_target px i) path \<and> canAccess (Some pr) (tName (the_target px i)) \<and>
    (req \<noteq> [] \<longrightarrow> to_lower (tName (the_target px i)) = to_lower req) \<and> pxOrder px' = pxOrder px"
  by (rule selectTarget_usable[OF assms])

text \<open>
  C23: for a request that names no target, selection succeeds exactly when some target is usable:
  not paused, muted or attempted, accepting the model, serving the path and accessible.
\<close>

theorem selectTarget_complete:
  assumes ok: "proxy_ok px"
  shows "(\<exists>r. fst (selectTarget px pr ip [] (allowed_of pr) attempted model path now) = Inr r) \<longleftrightarrow>
    (\<exists>i < length (pxOrder px). eligible px (allowed_of pr) attempted model path i \<and> \<not> isMuted (the_state px i) now)"
proof -
  obtain res px' where S: "selectTarget px pr ip [] (allowed_of pr) attempted model path now = (res, px')" by fastforce
  show ?thesis
  proof
    assume "\<exists>r. fst (selectTarget px pr ip [] (allowed_of pr) attempted model path now) = Inr r"
    then obtain i k where "selectTarget px pr ip [] (allowed_of pr) attempted model path now = (Inr (i, k), px')"
      using S by auto
    from selectTarget_usable[OF ok this] show "\<exists>i < length (pxOrder px).
        eligible px (allowed_of pr) attempted model path i \<and> \<not> isMuted (the_state px i) now"
      by (auto simp: eligible_unfold)
  next
    assume ex: "\<exists>i < length (pxOrder px). eligible px (allowed_of pr) attempted model path i \<and> \<not> isMuted (the_state px i) now"
    from S show "\<exists>r. fst (selectTarget px pr ip [] (allowed_of pr) attempted model path now) = Inr r"
    proof (cases rule: selectTarget_free_cases)
      case (none e m r px1)
      note fr = affinity_lookup_frame[OF none(2)]
      then show ?thesis
        using find_available_none[OF none(3)] ex eligible_cong[of px1 px] by auto
    qed (simp_all add: S)
  qed
qed

end
