(* ===== verification/Routing_Props.thy ===== *)
theory Routing_Props
  imports Routing
begin

text \<open>
  The contracts of the two provider interfaces as locales, their interpretation on every
  implementation in the code, and the properties of path support, URL construction and header
  injection.
\<close>

section \<open>Path mappers\<close>

text \<open>A mapper that keeps the client path and only puts a prefix in front of it.\<close>

locale prefix_mapper =
  fixes rewrite :: "string \<Rightarrow> string \<Rightarrow> string" and base :: "string \<Rightarrow> string"
  assumes rewrite_prefix: "has_prefix p ''/'' \<Longrightarrow> rewrite p [] = base p @ p"

definition join_endpoint :: "string \<Rightarrow> string \<Rightarrow> string" where
  "join_endpoint ep path = trim_right_char (CHR ''/'') ep @ ''/'' @ trim_left_char (CHR ''/'') path"

lemma has_prefix_slash: "has_prefix p ''/'' \<longleftrightarrow> (\<exists>r. p = CHR ''/'' # r)"
  by (auto simp: has_prefix_def prefix_def)

context prefix_mapper
begin

text \<open>Joining the endpoint and the rewritten path keeps the client path at the end.\<close>

lemma join_keeps_client_path:
  assumes "p = CHR ''/'' # r" "\<not> has_prefix r ''/''"
  shows "has_suffix (join_endpoint ep (rewrite p [])) p"
proof -
  have rw: "rewrite p [] = base p @ p"
    using assms(1) by (intro rewrite_prefix) (simp add: has_prefix_slash)
  have r: "trim_left_char (CHR ''/'') r = r"
    using assms(2) by (cases r) (auto simp: trim_left_char_def has_prefix_def)
  show ?thesis
  proof (cases "\<forall>c \<in> set (base p). c = CHR ''/''")
    case True
    then have "trim_left_char (CHR ''/'') (base p @ p) = r"
      using r assms(1) by (simp add: trim_left_char_def dropWhile_append2)
    then show ?thesis
      using rw assms(1) by (auto simp: join_endpoint_def has_suffix_def suffix_def)
  next
    case False
    then have "trim_left_char (CHR ''/'') (base p @ p) = trim_left_char (CHR ''/'') (base p) @ p"
      by (auto simp: trim_left_char_def dropWhile_append1)
    then show ?thesis
      using rw by (auto simp: join_endpoint_def has_suffix_def suffix_def)
  qed
qed

end

lemma mergePaths_id: "has_prefix p ''/'' \<Longrightarrow> mergePaths [] p = p"
  by (auto simp: mergePaths_def has_prefix_slash)

lemma ensureLeadingSlash_id: "has_prefix p ''/'' \<Longrightarrow> ensureLeadingSlash p = p"
  by (auto simp: ensureLeadingSlash_def has_prefix_slash)

interpretation passthrough: prefix_mapper "rewritePath PassthroughPath" "\<lambda>_. []"
  by unfold_locales (simp add: rewritePath_def mergePaths_id)

interpretation dual: prefix_mapper "rewritePath (DualProtocolPath openai anthropic resp)"
    "\<lambda>p. if isAnthropicStylePath p then anthropic else openai" for openai anthropic resp
  by unfold_locales (simp add: rewritePath_def mergePaths_id ensureLeadingSlash_id)

section \<open>The upstream URL\<close>

lemma isTerminal_registry:
  "defaultProviderRegistry ep = Some p \<Longrightarrow> isTerminalURL (ppPath p) \<longleftrightarrow> ep = EndpointTypeOpenAIImage"
  by (auto simp: defaultProviderRegistry_def registry_register_def profile_def isTerminalURL_def
      endpoint_type_defs split: if_splits)

lemma effective_mapper_cases:
  assumes "defaultProviderRegistry (tEndpointType t) = Some p" "tEndpointType t \<noteq> EndpointTypeOpenAIImage"
  shows "effective_mapper t p = (if tEndpointType t = EndpointTypeDualProtocol
     then DualProtocolPath (tOpenAIPrefix t) (tAnthropicPrefix t) (tSupportsResponses t) else PassthroughPath)"
  using assms
  by (auto simp: effective_mapper_def defaultProviderRegistry_def registry_register_def profile_def
      endpoint_type_defs split: if_splits)

text \<open>The upstream path before the repair of a doubled version segment.\<close>

definition joined_path :: "target \<Rightarrow> string \<Rightarrow> string" where
  "joined_path t path = join_endpoint (uPath (tEndpoint t))
     (rewritePath (if tEndpointType t = EndpointTypeDualProtocol
        then DualProtocolPath (tOpenAIPrefix t) (tAnthropicPrefix t) (tSupportsResponses t) else PassthroughPath) path [])"

text \<open>
  The upstream URL keeps scheme and host of the endpoint; for an image target it is the
  endpoint's own path, and for every other registered type it is the endpoint path joined with the
  client path behind the target's prefix, with a doubled version segment reduced, so that without a
  doubling the client path is the end of the upstream path.
\<close>

theorem buildURL_shape:
  assumes reg: "defaultProviderRegistry (tEndpointType t) = Some p"
    and path: "uPath orig = CHR ''/'' # r" "\<not> has_prefix r ''/''"
  shows "let u = buildURL defaultProviderRegistry t orig in
     uScheme u = uScheme (tEndpoint t) \<and> uHost u = uHost (tEndpoint t) \<and>
     uPath u = (if tEndpointType t = EndpointTypeOpenAIImage then uPath (tEndpoint t)
                else deduplicateV1Path (joined_path t (uPath orig))) \<and>
     has_suffix (joined_path t (uPath orig)) (uPath orig)"
proof -
  have "has_suffix (joined_path t (uPath orig)) (uPath orig)"
    using path dual.join_keeps_client_path passthrough.join_keeps_client_path
    by (simp add: joined_path_def)
  moreover have "uPath (buildURL defaultProviderRegistry t orig) =
      (if tEndpointType t = EndpointTypeOpenAIImage then uPath (tEndpoint t)
       else deduplicateV1Path (joined_path t (uPath orig)))"
    using reg effective_mapper_cases[OF reg]
    by (simp add: buildURL_def isTerminal_registry[OF reg] prepareEndpointPath_def joined_path_def
        join_endpoint_def Let_def)
  moreover have "uScheme (buildURL defaultProviderRegistry t orig) = uScheme (tEndpoint t)"
    "uHost (buildURL defaultProviderRegistry t orig) = uHost (tEndpoint t)"
    using reg by (simp_all add: buildURL_def Let_def)
  ultimately show ?thesis by (simp add: Let_def)
qed

definition demo_target :: target where
  "demo_target = \<lparr>tName = ''bailian'', tEndpointType = EndpointTypeDualProtocol,
     tEndpoint = \<lparr>uScheme = ''https'', uHost = ''h'', uPath = ''/gw/'', uRawQuery = []\<rparr>,
     tAPIKey = ''sk-1'', tAPIKeys = [''sk-1'', ''sk-2''], tKeyResetTime = [], tPaused = False, tAllowBearer = False,
     tAuthMode = [], tImageOperation = [], tModelMappings = [], tSSEAutoAggregate = True,
     tOpenAIPrefix = ''/compatible-mode'', tAnthropicPrefix = ''/apps/anthropic'', tSupportsResponses = True,
     tCustomHeaders = [(''X-Api-Key'', ''evil''), (''X-Tier'', ''gold'')], tCustomBody = [], tAllowedModelIdx = []\<rparr>"

theorem buildURL_shape_witness:
  "uPath (buildURL defaultProviderRegistry demo_target \<lparr>uScheme = [], uHost = [], uPath = ''/v1/messages'', uRawQuery = []\<rparr>) =
     ''/gw/apps/anthropic/v1/messages'' \<and>
   uHost (buildURL defaultProviderRegistry demo_target \<lparr>uScheme = [], uHost = [], uPath = ''/v1/messages'', uRawQuery = []\<rparr>) = ''h''"
proof -
  let ?o = "\<lparr>uScheme = [], uHost = [], uPath = ''/v1/messages'', uRawQuery = []\<rparr>"
  obtain p where p: "defaultProviderRegistry (tEndpointType demo_target) = Some p"
    by (simp add: defaultProviderRegistry_def registry_register_def profile_def demo_target_def endpoint_type_defs)
  have "deduplicateV1Path (joined_path demo_target ''/v1/messages'') = ''/gw/apps/anthropic/v1/messages''" by code_simp
  moreover have "tEndpointType demo_target \<noteq> EndpointTypeOpenAIImage" "uHost (tEndpoint demo_target) = ''h''" by code_simp+
  ultimately show ?thesis
    using buildURL_shape[OF p, of ?o "''v1/messages''"] by (simp add: Let_def has_prefix_def)
qed

lemma str_index_append:
  assumes "\<not> sublist pat (a @ butlast pat)" "pat \<noteq> []"
  shows "str_index (a @ pat @ r) pat = Some (length a)"
  using assms
proof (induction a)
  case Nil
  then show ?case by (cases pat) (auto simp: prefix_def)
next
  case (Cons c a)
  have "\<not> sublist pat (a @ butlast pat)"
    using Cons.prems(1) by (auto simp: sublist_Cons_right)
  then have IH: "str_index (a @ pat @ r) pat = Some (length a)" using Cons by blast
  have "\<not> prefix pat ((c # a) @ pat @ r)"
  proof
    assume pre: "prefix pat ((c # a) @ pat @ r)"
    have "length pat \<le> length ((c # a) @ butlast pat)" using Cons.prems(2) by (simp add: Suc_le_eq)
    moreover have "prefix ((c # a) @ butlast pat) ((c # a) @ pat @ r)"
      using append_butlast_last_id[OF Cons.prems(2)] by (metis append.assoc append_Cons prefix_def)
    ultimately have "prefix pat ((c # a) @ butlast pat)"
      using pre prefix_length_prefix by blast
    then show False using Cons.prems(1) by (simp add: prefix_imp_sublist)
  qed
  then show ?case using IH by simp
qed

text \<open>
  An endpoint that already ends in the version segment and a client path that starts with it
  are joined with one such segment: of the first \<open>/v1/v1\<close> in the joined path exactly one is kept.
\<close>

theorem deduplicateV1_once:
  assumes "\<not> contains (a @ ''/v1/v1'') ''/v1/v1/''"
  shows "deduplicateV1Path (a @ ''/v1/v1/'' @ r) = a @ ''/v1/'' @ r \<and>
     deduplicateV1Path (a @ ''/v1/v1'') = a @ ''/v1''"
proof -
  have i: "str_index (a @ ''/v1/v1/'' @ r) ''/v1/v1/'' = Some (length a)"
    using assms by (intro str_index_append) (simp_all add: contains_def)
  have n: "str_index (a @ ''/v1/v1'') ''/v1/v1/'' = None"
    using assms by (simp add: str_index_None contains_def)
  have "suffix ''/v1/v1'' (a @ ''/v1/v1'')" by (simp add: suffix_def)
  then show ?thesis using i n by (simp add: deduplicateV1Path_def has_suffix_def)
qed

theorem deduplicateV1_once_witness:
  "deduplicateV1Path (''/gw'' @ ''/v1/v1/'' @ ''chat/completions'') = ''/gw/v1/chat/completions''"
proof -
  have "\<not> contains (''/gw'' @ ''/v1/v1'') ''/v1/v1/''" by code_simp
  from deduplicateV1_once[OF this, of "''chat/completions''"] show ?thesis by simp
qed

section \<open>The forwarded query\<close>

lemma foldl_delete: "foldl deleteQueryKeyCaseInsensitive q ks = filter (\<lambda>(e, _). \<forall>k \<in> set ks. \<not> equal_fold e k) q"
  by (induction ks arbitrary: q) (auto simp: deleteQueryKeyCaseInsensitive_def intro!: filter_cong)

lemma map_of_filter_key: "map_of (filter (\<lambda>(e, _). P e) q) k = (if P k then map_of q k else None)"
  by (induction q) auto

text \<open>
  C37: the query sent upstream decodes to the client's query without the parameters that steer or
  authenticate the proxy (target, api-version in both spellings, api-key, key, in any case of
  letters); every other parameter keeps all its values in order.
\<close>

theorem forward_query:
  "map_of (parse_query (normalizeForwardQuery u)) k =
     (if \<exists>s \<in> set stripped_keys. equal_fold k s then None else map_of (parse_query (uRawQuery u)) k)"
proof -
  let ?q = "filter (\<lambda>(e, _). \<forall>s \<in> set stripped_keys. \<not> equal_fold e s) (parse_query (uRawQuery u))"
  have "distinct (map fst ?q) \<and> (\<forall>(k, vs) \<in> set ?q. vs \<noteq> [])"
    using parse_query_wf[of "uRawQuery u"] by (auto simp: distinct_map_filter)
  then have "map_of (parse_query (encode_query ?q)) = map_of ?q"
    by (intro query_roundtrip) auto
  then show ?thesis
    by (simp add: normalizeForwardQuery_def foldl_delete map_of_filter_key)
qed

section \<open>Credentials\<close>

text \<open>
  An injector writes the credential into one of its own headers and leaves every other header
  alone, except for a default of the Anthropic version.
\<close>

locale auth_injector =
  fixes inject :: "headers \<Rightarrow> string \<Rightarrow> string \<Rightarrow> headers"
    and slot :: string and secret :: "string \<Rightarrow> string"
  assumes inject_slot: "h_values (inject h k p) slot = [secret k]"
    and inject_frame: "to_lower j \<noteq> to_lower slot \<Longrightarrow> to_lower j \<noteq> ''anthropic-version'' \<Longrightarrow>
      h_values (inject h k p) j = h_values h j"
    and inject_version: "h_get h ''anthropic-version'' \<noteq> [] \<Longrightarrow>
      h_values (inject h k p) ''anthropic-version'' = h_values h ''anthropic-version''"

lemma custom_blacklisted:
  "to_lower j \<in> set customHeaderBlacklist \<Longrightarrow> h_values (injectCustomHeaders h hs) j = h_values h j"
  unfolding injectCustomHeaders_def
proof (induction hs arbitrary: h)
  case (Cons x hs)
  obtain k v where x: "x = (k, v)" by fastforce
  show ?case
    using Cons by (cases "to_lower k \<in> set customHeaderBlacklist") (auto simp: x simp del: set_simps)
qed simp

context auth_injector
begin

lemma custom_keeps_credential:
  assumes "to_lower slot \<in> set customHeaderBlacklist"
  shows "h_values (injectCustomHeaders (inject h k p) hs) slot = [secret k]"
  using custom_blacklisted[OF assms] inject_slot by simp

lemma other_credentials:
  assumes "to_lower j \<in> set customHeaderBlacklist" "to_lower j \<noteq> to_lower slot" "to_lower j \<noteq> ''anthropic-version''"
  shows "h_values (injectCustomHeaders (inject h k p) hs) j = h_values h j"
  using custom_blacklisted[OF assms(1)] inject_frame[OF assms(2,3)] by simp

end

definition auth_slot :: "auth_strategy \<Rightarrow> string" where
  "auth_slot a = (case a of BearerAuth \<Rightarrow> ''Authorization'' | AnthropicAuth b \<Rightarrow> (if b then ''Authorization'' else ''x-api-key'')
     | GeminiAuth \<Rightarrow> ''x-goog-api-key'' | BearerWithConditionalAnthropicVersion \<Rightarrow> ''Authorization''
     | AzureAuth allow v \<Rightarrow> (if allow \<and> v \<noteq> [] then ''Authorization'' else ''api-key''))"

definition auth_secret :: "auth_strategy \<Rightarrow> string \<Rightarrow> string" where
  "auth_secret a k = (case a of BearerAuth \<Rightarrow> ''Bearer '' @ k | AnthropicAuth b \<Rightarrow> (if b then ''Bearer '' @ k else k)
     | GeminiAuth \<Rightarrow> k | BearerWithConditionalAnthropicVersion \<Rightarrow> ''Bearer '' @ k
     | AzureAuth allow v \<Rightarrow> (if allow \<and> v \<noteq> [] then v else k))"

lemma lower_names:
  "to_lower ''Authorization'' = ''authorization''" "to_lower ''x-api-key'' = ''x-api-key''"
  "to_lower ''x-goog-api-key'' = ''x-goog-api-key''" "to_lower ''api-key'' = ''api-key''"
  "to_lower ''anthropic-version'' = ''anthropic-version''"
  by code_simp+

lemma with_default_version_values: "h_values (with_default_version h) j =
    (if to_lower j = ''anthropic-version'' \<and> h_get h ''anthropic-version'' = [] then [''2023-06-01''] else h_values h j)"
  by (simp add: with_default_version_def lower_names)

interpretation auth: auth_injector "injectAuth a" "auth_slot a" "auth_secret a" for a
proof
  fix h k p j
  show "h_values (injectAuth a h k p) (auth_slot a) = [auth_secret a k]"
    by (cases a) (simp_all add: injectAuth_def auth_slot_def auth_secret_def with_default_version_values lower_names Let_def)
  show "h_values (injectAuth a h k p) j = h_values h j"
    if "to_lower j \<noteq> to_lower (auth_slot a)" "to_lower j \<noteq> ''anthropic-version''"
    using that by (cases a) (auto simp: injectAuth_def auth_slot_def with_default_version_values lower_names Let_def split: if_splits)
  show "h_values (injectAuth a h k p) ''anthropic-version'' = h_values h ''anthropic-version''"
    if "h_get h ''anthropic-version'' \<noteq> []"
    using that by (cases a) (auto simp: injectAuth_def with_default_version_values lower_names Let_def)
qed

lemma auth_slot_blacklisted: "to_lower (auth_slot a) \<in> set customHeaderBlacklist"
  by (cases a) (auto simp: auth_slot_def lower_names customHeaderBlacklist_def)

section \<open>Path support\<close>

lemma style_lower: "isAnthropicStylePath (trim_space (to_lower p)) = isAnthropicStylePath p"
  "isOpenAIResponsesStylePath (trim_space (to_lower p)) = isOpenAIResponsesStylePath p"
  by (simp_all add: isAnthropicStylePath_def isOpenAIResponsesStylePath_def trim_space_lower)

lemma styles_disjoint: "isAnthropicStylePath p \<Longrightarrow> \<not> isOpenAIResponsesStylePath p"
  by (auto simp: isAnthropicStylePath_def isOpenAIResponsesStylePath_def has_prefix_def Let_def)
    (drule (1) prefix_same_cases, simp)+

lemma schema_style:
  "requestSchemaForPath (to_lower p) = SchemaAnthropic \<longleftrightarrow> isAnthropicStylePath p"
  "requestSchemaForPath (to_lower p) = SchemaOpenAIResponses \<longleftrightarrow> isOpenAIResponsesStylePath p"
  using styles_disjoint[of p] by (auto simp: requestSchemaForPath_def style_lower Let_def)

text \<open>
  An Anthropic path is served only by Claude and dual-protocol targets, an OpenAI responses
  path never by Claude or Gemini, nor by a dual-protocol target that does not declare it, and an
  image target serves only the path of its own operation.
\<close>

theorem supportsPath_safe:
  assumes "supportsPath t path" "tEndpointType t \<in> set validEndpointTypes"
  shows "(isAnthropicStylePath path \<longrightarrow> tEndpointType t \<in> {EndpointTypeClaude, EndpointTypeDualProtocol, EndpointTypeOpenAIImage}) \<and>
    (isOpenAIResponsesStylePath path \<longrightarrow> tEndpointType t \<notin> {EndpointTypeClaude, EndpointTypeGemini} \<and>
       (tEndpointType t = EndpointTypeDualProtocol \<longrightarrow> tSupportsResponses t)) \<and>
    (tEndpointType t = EndpointTypeOpenAIImage \<longrightarrow> openAIImageOperationSupportsPath (tImageOperation t) path)"
proof -
  have sup: "pathSupportedByEndpointType (tEndpointType t) path"
    using assms(1) by (auto simp: supportsPath_def split: if_splits)
  have v: "tEndpointType t \<in> {EndpointTypeAzureOpenAI, EndpointTypeOpenAI, EndpointTypeClaude, EndpointTypeGemini,
      EndpointTypeOpenAIImage, EndpointTypeDualProtocol}"
    using assms(2) by (simp add: validEndpointTypes_def endpointTypes_def)
  have "isAnthropicStylePath path \<longrightarrow> tEndpointType t \<in> {EndpointTypeClaude, EndpointTypeDualProtocol, EndpointTypeOpenAIImage}"
    using sup v schema_style(1)[of path]
    by (auto simp: pathSupportedByEndpointType_def Let_def endpoint_type_defs)
  moreover have "isOpenAIResponsesStylePath path \<longrightarrow> tEndpointType t \<notin> {EndpointTypeClaude, EndpointTypeGemini}"
    using sup schema_style(2)[of path]
    by (auto simp: pathSupportedByEndpointType_def Let_def endpoint_type_defs)
  moreover have "isOpenAIResponsesStylePath path \<longrightarrow> tEndpointType t = EndpointTypeDualProtocol \<longrightarrow> tSupportsResponses t"
    using assms(1) by (auto simp: supportsPath_def endpoint_type_defs split: if_splits)
  moreover have "tEndpointType t = EndpointTypeOpenAIImage \<longrightarrow> openAIImageOperationSupportsPath (tImageOperation t) path"
    using assms(1) by (auto simp: supportsPath_def split: if_splits)
  ultimately show ?thesis by blast
qed

theorem supportsPath_safe_witness:
  "supportsPath demo_target ''/v1/responses'' \<and> tSupportsResponses demo_target"
proof
  show s: "supportsPath demo_target ''/v1/responses''" by code_simp
  have "tEndpointType demo_target \<in> set validEndpointTypes" "isOpenAIResponsesStylePath ''/v1/responses''"
    "tEndpointType demo_target = EndpointTypeDualProtocol" by code_simp+
  then show "tSupportsResponses demo_target" using supportsPath_safe[OF s] by blast
qed

text \<open>Every valid endpoint type has a provider profile, so the fallback of the URL builder is unused.\<close>

lemma registry_total: "ep \<in> set validEndpointTypes \<Longrightarrow> defaultProviderRegistry ep \<noteq> None"
  by (auto simp: validEndpointTypes_def endpointTypes_def defaultProviderRegistry_def registry_register_def
      profile_def endpoint_type_defs)

end
