(* ===== verification/Targets_Fair.thy ===== *)
theory Targets_Fair
  imports Targets_Props Routing_Props
begin

text \<open>
  The share of traffic, stickiness, muting, and model names: what the choice of a target means over
  several requests.
\<close>

section \<open>Weighted round robin\<close>

lemma card_pick:
  assumes "distinct (map fst ws)"
  shows "card {k. cum \<le> k \<and> k < cum + sum_list (map snd ws) \<and> weighted_pick ws (int k) (int cum) = Some i} =
    (case map_of ws i of None \<Rightarrow> 0 | Some w \<Rightarrow> w)"
  using assms
proof (induction ws arbitrary: cum)
  case (Cons x ws)
  obtain j w where x: "x = (j, w)" by fastforce
  let ?n = "sum_list (map snd ws)"
  let ?A = "{k. cum \<le> k \<and> k < cum + w \<and> j = i}"
  let ?B = "{k. cum + w \<le> k \<and> k < cum + w + ?n \<and> weighted_pick ws (int k) (int (cum + w)) = Some i}"
  have un: "{k. cum \<le> k \<and> k < cum + sum_list (map snd (x # ws)) \<and> weighted_pick (x # ws) (int k) (int cum) = Some i} = ?A \<union> ?B"
    by (auto simp: x split: if_splits)
  have card_un: "card (?A \<union> ?B) = card ?A + card ?B"
    by (intro card_Un_disjoint finite_subset[OF _ finite_lessThan[of "cum + w + ?n"]]) auto
  have card_A: "card ?A = (if j = i then w else 0)"
  proof -
    have "{k. cum \<le> k \<and> k < cum + w} = {cum..<cum + w}" by auto
    then show ?thesis by auto
  qed
  have "distinct (map fst ws)" using Cons.prems by simp
  then have card_B: "card ?B = (case map_of ws i of None \<Rightarrow> 0 | Some w \<Rightarrow> w)"
    by (rule Cons.IH)
  have "map_of ws j = None"
    using Cons.prems by (simp add: x map_of_eq_None_iff)
  then show ?case unfolding un card_un card_A card_B by (auto simp: x)
qed simp

lemma card_rotate:
  fixes n :: nat
  assumes "0 < n"
  shows "card {j. j < n \<and> P ((r + j) mod n)} = card {k. k < n \<and> P k}"
proof (rule bij_betw_same_card)
  let ?f = "\<lambda>j. (r + j) mod n"
  have inj: "inj_on ?f {..<n}"
  proof (rule inj_onI)
    fix x y assume x: "x \<in> {..<n}" and y: "y \<in> {..<n}" and same: "(r + x) mod n = (r + y) mod n"
    have undo: "(r + z + (n * r - r)) mod n = z mod n" for z
    proof -
      have "r + z + (n * r - r) = z + r * n" using assms by (cases n) simp_all
      then show ?thesis by (metis mod_mult_self1)
    qed
    have "(r + x + (n * r - r)) mod n = (r + y + (n * r - r)) mod n"
      by (rule mod_add_cong[OF same refl])
    then have "x mod n = y mod n" by (simp only: undo)
    then show "x = y" using x y by simp
  qed
  have img: "?f ` {..<n} = {..<n}"
    using inj by (intro endo_inj_surj) (auto simp: assms)
  show "bij_betw ?f {j. j < n \<and> P ((r + j) mod n)} {k. k < n \<and> P k}"
    unfolding bij_betw_def
  proof
    show "inj_on ?f {j. j < n \<and> P ((r + j) mod n)}"
      by (rule inj_on_subset[OF inj]) auto
    show "?f ` {j. j < n \<and> P ((r + j) mod n)} = {k. k < n \<and> P k}"
      using img assms by (auto simp: image_iff set_eq_iff) (metis lessThan_iff)
  qed
qed

lemma sint_small: "uint (w :: 64 word) < 2 ^ 63 \<Longrightarrow> sint w = uint w"
  unfolding sint_uint by (rule signed_take_bit_int_eq_self) (auto intro: order_trans[OF _ uint_ge_0])

lemma length_filter_upt: "length (filter P [0..<n]) = card {j. j < n \<and> P j}"
proof -
  have "{i. i < n \<and> P ([0..<n] ! i)} = {j. j < n \<and> P j}" by auto
  then show ?thesis by (simp add: length_filter_conv_card)
qed

lemma count_list_map: "count_list (map f xs) y = length (filter (\<lambda>j. f j = y) xs)"
  by (induction xs) auto

lemma sum_list_pos_iff: "0 < sum_list ns \<longleftrightarrow> (\<exists>n \<in> set ns. 0 < (n::nat))"
  by (induction ns) auto

lemma weights_pos: "is \<noteq> [] \<Longrightarrow> 0 < sum_list (map snd (weights px is))"
proof (cases "0 < sum_list (map (\<lambda>i. activeCount (the_state px i)) is)")
  case True
  then show ?thesis by (simp only: weights_def if_True map_map comp_def snd_conv)
next
  case False
  assume "is \<noteq> []"
  then have "0 < sum_list (map (\<lambda>i. keyCount (the_state px i)) is)"
    by (cases "is") (simp_all add: keyCount_def)
  then show ?thesis using False by (simp only: weights_def if_False map_map comp_def snd_conv)
qed

lemma weighted_pick_total:
  "0 \<le> cum \<Longrightarrow> k < cum + int (sum_list (map snd ws)) \<Longrightarrow> cum \<le> k \<Longrightarrow> weighted_pick ws k cum \<noteq> None"
  by (induction ws k cum rule: weighted_pick.induct) auto

lemma weights_rr: "weights (px\<lparr>pxRR := r\<rparr>) is = weights px is"
proof -
  have "pxOrder (px\<lparr>pxRR := r\<rparr>) = pxOrder px" by simp
  then show ?thesis by (simp only: weights_def)
qed

lemma candidates_rr: "candidates (px\<lparr>pxRR := r\<rparr>) = candidates px"
  by (intro ext) (simp add: candidates_def eligible_def[abs_def])

lemma find_available_unmuted:
  assumes cs: "candidates px allowed attempted model path = cs" "cs \<noteq> []"
    and unmuted: "\<forall>i \<in> set cs. \<not> isMuted (the_state px i) now" and r: "uint (pxRR px) < 2 ^ 63"
  shows "findAvailableTargetWithModel px allowed attempted model path now =
    ((weighted_pick (weights px cs) (uint (pxRR px) mod int (sum_list (map snd (weights px cs)))) 0, None),
     px\<lparr>pxRR := pxRR px + 1\<rparr>)"
proof -
  let ?W = "sum_list (map snd (weights px cs))" and ?k = "uint (pxRR px) mod int (sum_list (map snd (weights px cs)))"
  have k: "go_rem (sint (pxRR px)) (int ?W) = ?k"
    by (simp add: sint_small[OF r] go_rem_def)
  have "0 < int ?W" using weights_pos[OF cs(2), of px] by simp
  then have "weighted_pick (weights px cs) ?k 0 \<noteq> None"
    by (intro weighted_pick_total) simp_all
  then obtain i where i: "weighted_pick (weights px cs) ?k 0 = Some i" by blast
  then have "i \<in> set cs" using weighted_pick_in[OF i] weights_fst[of px cs] by (metis list.set_map)
  then show ?thesis
    using unmuted by (simp add: findAvailableTargetWithModel_def cs Let_def k i)
qed

text \<open>The choices of \<open>n\<close> consecutive requests.\<close>

fun choices :: "nat \<Rightarrow> 'a proxy_scheme \<Rightarrow> string set option \<Rightarrow> string \<Rightarrow> string \<Rightarrow> time \<Rightarrow> nat option list" where
  "choices 0 px allowed model path now = []"
| "choices (Suc n) px allowed model path now =
     (let ((c, m), px') = findAvailableTargetWithModel px allowed {} model path now in
      c # choices n px' allowed model path now)"

lemma choices_unmuted:
  assumes cs: "candidates px allowed {} model path = cs" "cs \<noteq> []"
    and unmuted: "\<forall>i \<in> set cs. \<not> isMuted (the_state px i) now" and r: "uint (pxRR px) + int n \<le> 2 ^ 63"
  shows "choices n px allowed model path now =
    map (\<lambda>j. weighted_pick (weights px cs) (int ((nat (uint (pxRR px)) + j) mod sum_list (map snd (weights px cs)))) 0) [0..<n]"
  using assms
proof (induction n arbitrary: px)
  case (Suc n)
  let ?px = "px\<lparr>pxRR := pxRR px + 1\<rparr>"
  have lt: "uint (pxRR px) < 2 ^ 63" using Suc.prems(4) by simp
  have up: "n = 0 \<or> uint (pxRR px + 1) = uint (pxRR px) + 1"
    by (cases "n = 0") (use Suc.prems(4) in \<open>simp_all add: uint_word_arith_bintrs take_bit_int_eq_self\<close>)
  have IH: "choices n ?px allowed model path now =
    map (\<lambda>j. weighted_pick (weights px cs) (int ((nat (uint (pxRR px)) + Suc j) mod sum_list (map snd (weights px cs)))) 0) [0..<n]"
  proof (cases "n = 0")
    case False
    then have up: "uint (pxRR px + 1) = uint (pxRR px) + 1" using up by simp
    have nat: "nat (uint (pxRR px) + 1) = Suc (nat (uint (pxRR px)))"
      using Suc_nat_eq_nat_zadd1[OF uint_ge_0[of "pxRR px"]] by (simp only: add.commute)
    then show ?thesis
      using Suc.IH[of ?px] Suc.prems by (simp add: candidates_rr weights_rr up nat del: nat_uint_eq)
  qed simp
  have int_mod: "uint (pxRR px) mod int W = int ((nat (uint (pxRR px)) + 0) mod W)" for W
    by (simp add: zmod_int)
  show ?case
    unfolding choices.simps find_available_unmuted[OF Suc.prems(1-3) lt] prod.case Let_def IH int_mod
    by (simp add: map_upt_Suc del: upt_Suc)
qed simp

text \<open>
  C24: over as many consecutive requests as the usable targets have active keys together, each
  usable target is chosen exactly as often as it has active keys, as long as none of them is muted
  and the request counter stays below two to the 63; if no key is active at all, the configured
  keys count instead.
\<close>

theorem weighted_fairness:
  assumes ok: "candidates px allowed {} model path = cs" "i \<in> set cs"
    and unmuted: "\<forall>j \<in> set cs. \<not> isMuted (the_state px j) now"
    and weight: "weight = (if \<exists>j \<in> set cs. 0 < activeCount (the_state px j) then activeCount else keyCount)"
    and cycle: "cycle = (\<Sum>j \<leftarrow> cs. weight (the_state px j))"
    and no_wrap: "uint (pxRR px) + int cycle \<le> 2 ^ 63"
  shows "count_list (choices cycle px allowed model path now) (Some i) = weight (the_state px i)"
proof -
  let ?ws = "weights px cs"
  have ws: "?ws = map (\<lambda>j. (j, weight (the_state px j))) cs"
    by (auto simp: weights_def weight sum_list_pos_iff)
  have tot: "sum_list (map snd ?ws) = cycle" by (simp add: ws cycle comp_def)
  have ne: "cs \<noteq> []" and dist: "distinct cs" using ok by (auto simp: candidates_def)
  have pos: "0 < cycle" using weights_pos[OF ne, of px] tot by simp
  let ?r = "nat (uint (pxRR px))"
  let ?pick = "\<lambda>k. weighted_pick ?ws (int k) (int 0) = Some i"
  have "count_list (choices cycle px allowed model path now) (Some i) =
      length (filter (\<lambda>j. ?pick ((?r + j) mod cycle)) [0..<cycle])"
    unfolding choices_unmuted[OF ok(1) ne unmuted no_wrap] tot
    by (simp only: count_list_map of_nat_0 int_ops(1))
  also have "\<dots> = card {j. j < cycle \<and> ?pick ((?r + j) mod cycle)}"
    by (rule length_filter_upt)
  also have "\<dots> = card {k. k < cycle \<and> ?pick k}" by (rule card_rotate[OF pos])
  also have "\<dots> = (case map_of ?ws i of None \<Rightarrow> 0 | Some w \<Rightarrow> w)"
    using card_pick[of ?ws 0 i] dist by (simp add: tot weights_fst)
  also have "\<dots> = weight (the_state px i)" using ok(2) by (simp add: ws map_of_map_restrict)
  finally show ?thesis .
qed

section \<open>Stickiness\<close>

text \<open>
  Once a target has been remembered for a client's address, name and model, requests of that
  client for that model go to it during the next five minutes, as long as it may be used.
\<close>

theorem affinity_sticky:
  assumes ok: "proxy_ok px" and i: "i < length (pxOrder px)"
    and use: "eligible px (allowed_of pr) {} model path i" "\<not> isMuted (the_state px i) now"
    and remembered: "px' = px\<lparr>pxAffinity := affinity_set (pxAffinity px) (affinityKey ip (prName pr) model) (tName (the_target px i)) t\<rparr>"
    and recent: "now \<le> t + minutes 5"
  shows "selectTarget px' pr ip [] (allowed_of pr) {} model path now = (Inr (i, SelectionAffinityHit), px')"
proof -
  let ?k = "affinityKey ip (prName pr) model" and ?n = "tName (the_target px i)"
  have "fst (affinity_get (pxAffinity px') ?k now) = Some ?n"
    using aff.get_set[of "pxAffinity px" ?k ?n t now] recent by (simp add: remembered affinityTTL_targets_def)
  then have get: "affinity_get (pxAffinity px') ?k now = (Some ?n, pxAffinity px')"
    by (auto simp: affinity_get_def split: option.splits if_splits)
  have same: "px'\<lparr>pxAffinity := pxAffinity px'\<rparr> = px'" by simp
  have look: "affinity_lookup px' pr ip (allowed_of pr) {} model now = (Some ?n, px')"
    by (simp add: affinity_lookup_def get same)
  have "targetByName px' ?n = Some i"
    using ok i by (simp add: proxy_ok_def names_ok_def targetByName_def remembered)
  moreover have "the_state px' i = the_state px i" by (simp add: remembered)
  ultimately have "affinity_target px' (Some ?n) (allowed_of pr) model path now = Some i"
    using use by (simp add: affinity_target_def eligible_def open_to_def Let_def)
  then show ?thesis by (simp add: selectTarget_def look)
qed

section \<open>Model names\<close>

abbreviation upstream_key :: "model_mapping \<Rightarrow> string" where
  "upstream_key m \<equiv> to_lower (trim_space (mmUpstream m))"

abbreviation fallback_key :: "model_mapping \<Rightarrow> string" where
  "fallback_key m \<equiv> to_lower (trim_space (mmFallback m))"

lemma trim_lower_Nil: "trim_space s = [] \<longleftrightarrow> to_lower (trim_space s) = []"
  by simp

lemma mapping_problems_snoc:
  "mapping_problems j U F (ms @ [m]) = [] \<Longrightarrow> mapping_problems j U F ms = [] \<and> upstream_key m \<noteq> [] \<and>
     upstream_key m \<notin> U \<union> upstream_key ` set ms \<and>
     (fallback_key m \<noteq> [] \<longrightarrow> fallback_key m \<notin> F \<union> fallback_key ` set ms)"
proof (induction ms arbitrary: j U F)
  case Nil
  then show ?case by (auto simp: Let_def split: if_splits)
next
  case (Cons x ms)
  let ?F = "if trim_space (mmFallback x) = [] then F else insert (fallback_key x) F"
  have x: "trim_space (mmUpstream x) \<noteq> []"
    and rec: "mapping_problems (Suc j) (insert (upstream_key x) U) ?F (ms @ [m]) = []"
    using Cons.prems by (auto simp: Let_def split: if_splits)
  note IH = Cons.IH[OF rec]
  have "mapping_problems j U F (x # ms) = []"
    using Cons.prems x IH by (auto simp: Let_def split: if_splits)
  then show ?case using IH by (auto split: if_splits)
qed

lemma trim_to_lower [simp]: "to_lower (trim_space s) = to_lower [] \<longleftrightarrow> trim_space s = []"
  by simp

lemma index_mapping_map:
  assumes "upstream_key m \<noteq> []"
  shows "map_of (index_mapping idx m) k = (if k = upstream_key m then Some (mmUpstream m)
    else if fallback_key m \<noteq> [] \<and> k = fallback_key m \<and> map_of idx k = None then Some (mmUpstream m)
    else map_of idx k)"
  using assms by (auto simp: index_mapping_def Let_def update_conv')

definition named :: "(model_mapping \<Rightarrow> string) \<Rightarrow> string \<Rightarrow> model_mapping list \<Rightarrow> model_mapping option" where
  "named f k ms = find (\<lambda>m. f m = k) ms"

lemma named_snoc: "named f k (ms @ [m]) = (if k \<in> f ` set ms then named f k ms else if f m = k then Some m else None)"
  by (induction ms) (auto simp: named_def)

lemma named_None: "named f k ms = None \<longleftrightarrow> k \<notin> f ` set ms"
  by (auto simp: named_def find_None_iff)

lemma model_index_spec:
  "mapping_problems 0 {} {} ms = [] \<Longrightarrow> map_of (buildModelIndex ms) k = (if k = [] then None else
     map_option mmUpstream (case named upstream_key k ms of Some m \<Rightarrow> Some m | None \<Rightarrow> named fallback_key k ms))"
proof (induction ms arbitrary: k rule: rev_induct)
  case Nil
  then show ?case by (simp add: buildModelIndex_def named_def)
next
  case (snoc m ms)
  note p = mapping_problems_snoc[OF snoc.prems]
  note IH = snoc.IH[OF conjunct1[OF p]]
  have step: "buildModelIndex (ms @ [m]) = index_mapping (buildModelIndex ms) m" by (simp add: buildModelIndex_def)
  have up: "upstream_key m \<noteq> []" "named upstream_key (upstream_key m) ms = None"
    and fb: "fallback_key m \<noteq> [] \<Longrightarrow> named fallback_key (fallback_key m) ms = None"
    using p by (auto simp: named_None)
  show ?case
  proof (cases "k = upstream_key m")
    case True
    then have "k \<notin> upstream_key ` set ms" using up(2) unfolding named_None by simp
    then show ?thesis using True up(1) unfolding step index_mapping_map[OF up(1)] named_snoc by simp
  next
    case other: False
    then have u: "named upstream_key k (ms @ [m]) = named upstream_key k ms"
      unfolding named_snoc by (simp add: named_None[THEN iffD2])
    show ?thesis
    proof (cases "fallback_key m \<noteq> [] \<and> k = fallback_key m")
      case True
      then have f: "named fallback_key k ms = None" "named fallback_key k (ms @ [m]) = Some m"
        using fb unfolding named_snoc by (simp_all add: named_None)
      show ?thesis
        using True other unfolding step index_mapping_map[OF up(1)] IH u f
        by (cases "named upstream_key k ms") simp_all
    next
      case False
      show ?thesis
      proof (cases "k = []")
        case True
        then show ?thesis using other False unfolding step index_mapping_map[OF up(1)] IH by auto
      next
        case ne: False
        then have f: "named fallback_key k (ms @ [m]) = named fallback_key k ms"
          using False unfolding named_snoc by (auto simp: named_None[THEN iffD2])
        show ?thesis
          using False other ne unfolding step index_mapping_map[OF up(1)] IH u f by auto
      qed
    qed
  qed
qed

text \<open>
  For a target of a validated configuration that lists models, a model name, up to case and
  surrounding space, stands for an upstream model exactly when it is that model's own name, or it is
  its fallback name and no mapping has it as its own name; any other name is refused, and so is an
  empty one.
\<close>

theorem validated_model_names:
  assumes valid: "target_problems c = []" and t: "t = make_target c u" and some: "ctModelMappings c \<noteq> []"
  shows "ensureModelAllowed t model =
    (if trim_space model = [] then Inl Model_required else
     case find (\<lambda>m. upstream_key m = to_lower (trim_space model)) (ctModelMappings c) of
       Some m \<Rightarrow> Inr (mmUpstream m)
     | None \<Rightarrow> (case find (\<lambda>m. fallback_key m = to_lower (trim_space model)) (ctModelMappings c) of
         Some m \<Rightarrow> Inr (mmUpstream m) | None \<Rightarrow> Inl Model_not_in_target))"
proof -
  let ?ms = "ctModelMappings c" and ?k = "to_lower (trim_space model)"
  have mp: "mapping_problems 0 {} {} ?ms = []" using valid by (simp add: target_problems_def)
  note spec = model_index_spec[OF mp]
  have idx: "tAllowedModelIdx t = buildModelIndex ?ms" by (simp add: t make_target_def)
  obtain m ms where ms: "?ms = ms @ [m]" using some by (cases ?ms rule: rev_cases) auto
  have "upstream_key m \<noteq> []" using mapping_problems_snoc[OF mp[unfolded ms]] by blast
  moreover have "named upstream_key (upstream_key m) ?ms \<noteq> None" unfolding named_None by (simp add: ms)
  ultimately have "map_of (buildModelIndex ?ms) (upstream_key m) \<noteq> None" unfolding spec by auto
  then have ne: "buildModelIndex ?ms \<noteq> []" by auto
  show ?thesis
    unfolding named_def[symmetric]
    by (auto simp: ensureModelAllowed_def resolveUpstreamModel_def idx ne spec split: option.splits)
qed

section \<open>A proxy with two targets\<close>

definition demo_other :: target where
  "demo_other = demo_target\<lparr>tName := ''other'', tAPIKey := ''sk-3'', tAPIKeys := [''sk-3'']\<rparr>"

definition demo_proxy :: proxy where
  "demo_proxy = \<lparr>pxOrder = [newTargetState demo_target 0, newTargetState demo_other 0],
     pxByName = Map.empty(''bailian'' \<mapsto> 0, ''other'' \<mapsto> 1), pxAffinity = Map.empty, pxRR = 5\<rparr>"

lemma demo_states:
  "tsTarget (newTargetState demo_target 0) = demo_target" "tsTarget (newTargetState demo_other 0) = demo_other"
  "tsMutedUntil (newTargetState demo_target 0) = 0" "tsMutedUntil (newTargetState demo_other 0) = 0"
  by (simp_all add: newTargetState_def)

lemma demo_names: "to_lower (tName demo_target) = ''bailian''" "to_lower (tName demo_other) = ''other''"
  by code_simp+

lemma demo_proxy_ok: "proxy_ok demo_proxy"
proof -
  have merge: "tAPIKeys demo_target = mergeKeys ''sk-1'' [''sk-2'']" "tAPIKeys demo_other = mergeKeys ''sk-3'' []"
    by code_simp+
  have "tName demo_target \<noteq> []" "tAPIKeys demo_target \<noteq> []" "tName demo_other \<noteq> []" "tAPIKeys demo_other \<noteq> []"
    by code_simp+
  then have states: "state_ok (newTargetState demo_target 0)" "state_ok (newTargetState demo_other 0)"
    using merge by (auto intro: newTargetState_ok)
  have "names_ok Map.empty []" by (simp add: names_ok_def)
  from names_ok_snoc[OF this, of "newTargetState demo_target 0"]
  have "names_ok [''bailian'' \<mapsto> 0] [newTargetState demo_target 0]"
    by (simp add: demo_states demo_names)
  from names_ok_snoc[OF this, of "newTargetState demo_other 0"]
  have "names_ok [''bailian'' \<mapsto> 0, ''other'' \<mapsto> 1] [newTargetState demo_target 0, newTargetState demo_other 0]"
    by (simp add: demo_states demo_names)
  then show ?thesis using states by (simp add: proxy_ok_def demo_proxy_def)
qed

lemma demo_candidates: "candidates demo_proxy None {} ''m'' ''/v1/messages'' = [0, 1]"
proof -
  have "supportsPath demo_target ''/v1/messages''" "supportsPath demo_other ''/v1/messages''"
    "\<not> tPaused demo_target" "\<not> tPaused demo_other" "tAllowedModelIdx demo_target = []" "tAllowedModelIdx demo_other = []"
    by code_simp+
  then have "eligible demo_proxy None {} ''m'' ''/v1/messages'' i" if "i = 0 \<or> i = 1" for i
    using that by (auto simp: eligible_def demo_proxy_def demo_states open_to_def modelAllowed_def resolveUpstreamModel_def Let_def)
  then show ?thesis by (simp add: candidates_def demo_proxy_def upt_rec)
qed

lemma demo_unmuted: "i \<in> {0, 1} \<Longrightarrow> \<not> isMuted (the_state demo_proxy i) 9"
  by (auto simp: isMuted_def demo_proxy_def demo_states)

definition demo_principal :: principal where
  "demo_principal = new_principal ''alice'' ''k'' []"

lemma demo_allowed: "allowed_of demo_principal = None"
  by (simp add: allowed_of_def demo_principal_def new_principal_access)

theorem weighted_fairness_witness:
  "count_list (choices 3 demo_proxy None ''m'' ''/v1/messages'' 9) (Some 0) = 2"
proof -
  have count: "activeCount (the_state demo_proxy 0) = 2" "activeCount (the_state demo_proxy 1) = 1"
    by code_simp+
  have "count_list (choices 3 demo_proxy None ''m'' ''/v1/messages'' 9) (Some 0) = activeCount (the_state demo_proxy 0)"
    by (rule weighted_fairness[OF demo_candidates _ _ _ _ , where weight = activeCount])
      (simp_all add: demo_unmuted count count[simplified] del: One_nat_def, simp add: demo_proxy_def)
  then show ?thesis by (simp only: count)
qed

theorem selectTarget_safe_witness:
  "\<exists>i k px'. selectTarget demo_proxy demo_principal ''ip'' [] None {} ''m'' ''/v1/messages'' 9 = (Inr (i, k), px') \<and>
     supportsPath (the_target demo_proxy i) ''/v1/messages'' \<and> pxOrder px' = pxOrder demo_proxy"
proof -
  have um: "\<forall>i \<in> set [0, 1]. \<not> isMuted (the_state demo_proxy i) 9" using demo_unmuted by simp
  have ws: "weights demo_proxy [0, 1] = [(0, 2), (1, 1)]" by code_simp
  have "findAvailableTargetWithModel demo_proxy None {} ''m'' ''/v1/messages'' 9 = ((Some 1, None), demo_proxy\<lparr>pxRR := pxRR demo_proxy + 1\<rparr>)"
    using find_available_unmuted[OF demo_candidates _ um] unfolding ws by (simp add: demo_proxy_def)
  moreover have resolve: "resolveUpstreamModel demo_target ''m'' = Some ''m''" "open_to None {} demo_target" by code_simp+
  have "affinity_lookup demo_proxy demo_principal ''ip'' None {} ''m'' 9 = (None, demo_proxy)"
    using resolve by (simp add: affinity_lookup_def demo_proxy_def affinity_get_def resolveAliasToUpstream_def demo_states)
  ultimately have "selectTarget demo_proxy demo_principal ''ip'' [] None {} ''m'' ''/v1/messages'' 9 =
      (Inr (1, SelectionRoundRobin), demo_proxy\<lparr>pxRR := pxRR demo_proxy + 1\<rparr>)"
    by (simp add: selectTarget_def affinity_target_def)
  then show ?thesis
    using selectTarget_safe[OF demo_proxy_ok, of demo_principal "''ip''" "[]" "{}" "''m''" "''/v1/messages''" 9 1] by (auto simp: demo_allowed)
qed

theorem selectTarget_complete_witness:
  "\<exists>r. fst (selectTarget demo_proxy demo_principal ''ip'' [] (allowed_of demo_principal) {} ''m'' ''/v1/messages'' 9) = Inr r"
proof -
  have "0 \<in> set (candidates demo_proxy None {} ''m'' ''/v1/messages'')" by (simp add: demo_candidates)
  then show ?thesis
    unfolding selectTarget_complete[OF demo_proxy_ok] using demo_unmuted[of 0]
    by (auto simp: in_candidates demo_allowed)
qed

theorem affinity_sticky_witness:
  "fst (selectTarget (demo_proxy\<lparr>pxAffinity := affinity_set Map.empty (affinityKey ''ip'' ''alice'' ''m'') ''bailian'' 7\<rparr>)
     demo_principal ''ip'' [] None {} ''m'' ''/v1/messages'' 9) = Inr (0, SelectionAffinityHit)"
proof -
  have c: "0 \<in> set (candidates demo_proxy (allowed_of demo_principal) {} ''m'' ''/v1/messages'')"
    by (simp add: demo_candidates demo_allowed)
  have n: "tName (the_target demo_proxy 0) = ''bailian''" "pxAffinity demo_proxy = Map.empty" "prName demo_principal = ''alice''"
    by (simp_all add: demo_proxy_def demo_states demo_principal_def new_principal_access, simp add: demo_target_def)
  have um: "\<not> isMuted (the_state demo_proxy 0) 9" using demo_unmuted by simp
  from affinity_sticky[OF demo_proxy_ok _ _ um refl, of demo_principal "''m''" "''/v1/messages''" 7 "''ip''"] c show ?thesis
    unfolding in_candidates by (simp add: n demo_allowed minutes_def)
qed

definition demo_models :: "model_mapping list" where
  "demo_models = [\<lparr>mmUpstream = ''GPT-5'', mmFallback = ''mini''\<rparr>, \<lparr>mmUpstream = ''Mini'', mmFallback = ''big''\<rparr>]"

definition demo_config_target :: config_target where
  "demo_config_target = \<lparr>ctName = ''azure'', ctEndpointType = EndpointTypeOpenAI, ctEndpoint = ''https://h'',
     ctAPIKey = ''sk'', ctAPIKeys = [], ctKeyResetTime = [], ctPaused = False, ctAllowBearer = False,
     ctAuthMode = [], ctImageOperation = [], ctModelMappings = demo_models, ctSSEAutoAggregate = None,
     ctOpenAIPrefix = [], ctAnthropicPrefix = [], ctSupportsResponses = False, ctCustomHeaders = [], ctCustomBody = []\<rparr>"

definition demo_url :: go_url where
  "demo_url = \<lparr>uScheme = ''https'', uHost = ''h'', uPath = [], uRawQuery = []\<rparr>"

theorem validated_model_names_witness:
  "ensureModelAllowed (make_target demo_config_target demo_url) '' MINI'' = Inr ''Mini'' \<and>
   ensureModelAllowed (make_target demo_config_target demo_url) ''big'' = Inr ''Mini'' \<and>
   ensureModelAllowed (make_target demo_config_target demo_url) ''gpt-4'' = Inl Model_not_in_target"
proof -
  have valid: "target_problems demo_config_target = []" by code_simp
  have ms: "ctModelMappings demo_config_target = demo_models" "demo_models \<noteq> []"
    by (simp_all add: demo_config_target_def demo_models_def)
  have k: "trim_space ''GPT-5'' = ''GPT-5''" "trim_space ''Mini'' = ''Mini''" "to_lower ''GPT-5'' = ''gpt-5''" "to_lower ''Mini'' = ''mini''"
    "trim_space ''mini'' = ''mini''" "trim_space ''big'' = ''big''" "to_lower ''mini'' = ''mini''" "to_lower ''big'' = ''big''"
    "trim_space '' MINI'' = ''MINI''" "to_lower ''MINI'' = ''mini''" "trim_space ''gpt-4'' = ''gpt-4''" "to_lower ''gpt-4'' = ''gpt-4''"
    by code_simp+
  show ?thesis
    using validated_model_names[OF valid refl, of demo_url, unfolded ms, OF ms(2)] by (simp add: demo_models_def k)
qed

end
