(* ===== verification/Bodies.thy ===== *)
theory Bodies
  imports Auth Key_Pool Go_Json Routing
begin

text \<open>
  Requests and their bodies: the model a request asks for and the whitelist of an Azure body
  (\<open>sanitize.go\<close>), the fields a target adds (\<open>custom_inject.go\<close>), the replacement of a model's alias in
  path and body (\<open>forward.go\<close>), and the conversion of a multipart form to JSON
  (\<open>multipart_convert.go\<close>). A body is its bytes; the media type and the multipart form are read by
  the functions of the first section, which take lines to end in CR LF and parts not to be encoded.
\<close>

record request =
  rqMethod :: string
  rqURL :: go_url
  rqHeader :: headers
  rqBody :: string
  rqBodyError :: bool
  rqRemoteAddr :: string
  rqPrincipal :: "principal option"
  rqId :: string
  rqContentLength :: int

section \<open>Media types and multipart forms\<close>

definition is_token_char :: "char \<Rightarrow> bool" where
  "is_token_char c = (32 < code c \<and> code c < 127 \<and> c \<notin> set ''()<>@,;:/[]?='' \<and> c \<noteq> quote \<and> c \<noteq> backslash)"

text \<open>A quoted value: a backslash quotes a special character and stands for itself otherwise.\<close>

fun quoted_value :: "string \<Rightarrow> (string \<times> string) option" where
  "quoted_value [] = None"
| "quoted_value (c # cs) = (if c = quote then Some ([], cs)
     else if c = char_of (10::nat) \<or> c = char_of (13::nat) then None
     else if c = backslash then (case cs of [] \<Rightarrow> None
       | d # ds \<Rightarrow> if d \<in> set ''()<>@,;:/[]?='' \<or> d = quote \<or> d = backslash
                   then map_option (apfst ((#) d)) (quoted_value ds) else map_option (apfst ((#) c)) (quoted_value cs))
     else map_option (apfst ((#) c)) (quoted_value cs))"

definition skip_space :: "string \<Rightarrow> string" where
  "skip_space s = dropWhile is_space s"

fun media_params :: "nat \<Rightarrow> string \<Rightarrow> (string \<times> string) list \<Rightarrow> (string \<times> string) list option" where
  "media_params 0 s ps = None"
| "media_params (Suc n) s ps = (case skip_space s of [] \<Rightarrow> Some ps | c # cs \<Rightarrow>
     if c \<noteq> CHR '';'' then None else
     let t = skip_space cs; k = to_lower (takeWhile is_token_char t); u = skip_space (dropWhile is_token_char t) in
     if t = [] then Some ps
     else if k = [] \<or> u = [] \<or> hd u \<noteq> CHR ''='' \<or> map_of ps k \<noteq> None then None
     else let v = skip_space (tl u) in
       (if v \<noteq> [] \<and> hd v = quote then (case quoted_value (tl v) of None \<Rightarrow> None | Some (x, r) \<Rightarrow> media_params n r (ps @ [(k, x)]))
        else let x = takeWhile is_token_char v in
          if x = [] then None else media_params n (dropWhile is_token_char v) (ps @ [(k, x)])))"

definition parse_media_type :: "string \<Rightarrow> (string \<times> (string \<times> string) list) option" where
  "parse_media_type s = (let base = takeWhile (\<lambda>c. c \<noteq> CHR '';'') s; ty = to_lower (trim_space base);
      (a, b, slash) = cut_char (CHR ''/'') ty in
     if a = [] \<or> \<not> list_all is_token_char a \<or> slash \<and> (b = [] \<or> \<not> list_all is_token_char b) then None
     else map_option (Pair ty) (media_params (Suc (length s)) (drop (length base) s) []))"

record form_part =
  fpFormName :: string
  fpFileName :: string
  fpContentType :: string
  fpData :: string

definition crlf :: string where "crlf = [char_of (13::nat), char_of (10::nat)]"

text \<open>The headers of a part, up to the empty line.\<close>

fun part_headers :: "nat \<Rightarrow> string \<Rightarrow> headers \<Rightarrow> (headers \<times> string) option" where
  "part_headers 0 s h = None"
| "part_headers (Suc n) s h = (case str_index s crlf of None \<Rightarrow> None | Some i \<Rightarrow>
     let line = take i s; rest = drop (i + 2) s in
     if line = [] then Some (h, rest)
     else let (k, v, colon) = cut_char (CHR '':'') line in
       if \<not> colon \<or> k = [] then None else part_headers n rest (h_add h k (trim_space v)))"

definition base_name :: "string \<Rightarrow> string" where
  "base_name p = (if p = [] then ''.'' else let t = trim_right_char (CHR ''/'') p in
     if t = [] then ''/'' else rev (takeWhile (\<lambda>c. c \<noteq> CHR ''/'') (rev t)))"

definition make_part :: "headers \<Rightarrow> string \<Rightarrow> form_part" where
  "make_part h d = (let cd = parse_media_type (h_get h ''Content-Disposition'');
      param = (\<lambda>k. case cd of None \<Rightarrow> [] | Some (_, ps) \<Rightarrow> (case map_of ps k of None \<Rightarrow> [] | Some v \<Rightarrow> v)) in
     \<lparr>fpFormName = (if (case cd of Some (ty, _) \<Rightarrow> ty = ''form-data'' | None \<Rightarrow> False) then param ''name'' else []),
      fpFileName = (if param ''filename'' = [] then [] else base_name (param ''filename'')),
      fpContentType = h_get h ''Content-Type'', fpData = d\<rparr>)"

text \<open>The parts after a delimiter, and whether the form ended properly.\<close>

fun form_parts :: "nat \<Rightarrow> string \<Rightarrow> string \<Rightarrow> form_part list \<times> bool" where
  "form_parts 0 delim s = ([], False)"
| "form_parts (Suc n) delim s =
     (if has_prefix s ''--'' then ([], True)
      else case str_index s crlf of None \<Rightarrow> ([], False) | Some i \<Rightarrow>
        if \<not> list_all is_space (take i s) then ([], False) else
        (case part_headers (length s) (drop (i + 2) s) [] of None \<Rightarrow> ([], False) | Some (h, r) \<Rightarrow>
          (case str_index (crlf @ r) delim of None \<Rightarrow> ([], False) | Some j \<Rightarrow>
            let (ps, ok) = form_parts n delim (drop (j + length delim) (crlf @ r))
            in (make_part h (drop 2 (take j (crlf @ r))) # ps, ok))))"

definition read_form :: "string \<Rightarrow> string \<Rightarrow> form_part list \<times> bool" where
  "read_form boundary body = (let delim = crlf @ ''--'' @ boundary in
     case str_index (crlf @ body) delim of None \<Rightarrow> ([], False)
     | Some i \<Rightarrow> form_parts (Suc (length body)) delim (drop (i + length delim) (crlf @ body)))"

section \<open>The model of a request\<close>

definition isListEndpoint :: "string \<Rightarrow> bool" where
  "isListEndpoint path = (to_lower path \<in> {''/openai/deployments'', ''/openai/models'', ''/models'', ''/v1/models''})"

definition before_char :: "char \<Rightarrow> string \<Rightarrow> string" where
  "before_char c s = takeWhile (\<lambda>x. x \<noteq> c) s"

definition query_pair_ok :: "string \<Rightarrow> bool" where
  "query_pair_ok p = (p = [] \<or> CHR '';'' \<notin> set p \<and>
     (let (k, v, _) = cut_char (CHR ''='') p in queryUnescape k \<noteq> None \<and> queryUnescape v \<noteq> None))"

text \<open>\<open>url.ParseQuery\<close> fails when some pair is malformed.\<close>

definition parse_query_strict :: "string \<Rightarrow> query_values option" where
  "parse_query_strict s = (if list_all query_pair_ok (split_char (CHR ''&'') s) then Some (parse_query s) else None)"

definition query_get :: "query_values \<Rightarrow> string \<Rightarrow> string" where
  "query_get q k = (case map_of q k of Some (v # _) \<Rightarrow> v | _ \<Rightarrow> [])"

definition extractMultipartModel :: "string \<Rightarrow> string \<Rightarrow> string" where
  "extractMultipartModel body boundary = (case find (\<lambda>p. equal_fold (fpFormName p) ''model'') (fst (read_form boundary body)) of
     None \<Rightarrow> [] | Some p \<Rightarrow> trim_space (take 1024 (fpData p)))"

definition path_model :: "string \<Rightarrow> string option" where
  "path_model path = (case str_index path ''/deployments/'' of
     Some i \<Rightarrow> Some (trim_space (before_char (CHR ''/'') (drop (i + 13) path)))
   | None \<Rightarrow> (case str_index path ''/models/'' of
       Some i \<Rightarrow> (let m = trim_space (before_char (CHR ''/'') (before_char (CHR '':'') (drop (i + 8) path))) in
                  if m \<noteq> [] then Some m else None)
     | None \<Rightarrow> None))"

definition body_model :: "request \<Rightarrow> string \<Rightarrow> string" where
  "body_model r body = (let ct = to_lower (trim_space (h_get (rqHeader r) ''Content-Type''));
      form = (if contains ct ''application/x-www-form-urlencoded'' then
                (case parse_query_strict body of Some q \<Rightarrow> trim_space (query_get q ''model'') | None \<Rightarrow> []) else []);
      multi = (if contains ct ''multipart/form-data'' then
                (case parse_media_type (h_get (rqHeader r) ''Content-Type'') of
                   Some (_, ps) \<Rightarrow> (let b = trim_space (case map_of ps ''boundary'' of None \<Rightarrow> [] | Some b \<Rightarrow> b) in
                     if b \<noteq> [] then extractMultipartModel body b else [])
                 | None \<Rightarrow> []) else []) in
     if form \<noteq> [] then form else if multi \<noteq> [] then multi
     else case decode_map body of
       Some (Some ms) \<Rightarrow> (case map_of ms ''model'' of Some (JStr m) \<Rightarrow> trim_space m | _ \<Rightarrow> [])
     | _ \<Rightarrow> [])"

definition extractModel :: "request \<Rightarrow> string \<Rightarrow> string" where
  "extractModel r body = (let path = to_lower (uPath (rqURL r)) in
     if isListEndpoint path then []
     else case path_model path of Some m \<Rightarrow> m
     | None \<Rightarrow> if body \<noteq> [] then body_model r body else [])"

section \<open>The Azure whitelist\<close>

definition toFieldSet :: "string list \<Rightarrow> string set" where
  "toFieldSet fs = set (filter (\<lambda>f. f \<noteq> []) (map (\<lambda>f. to_lower (trim_space f)) fs))"

definition azureChatCompletionsFieldWhitelist :: "string list" where
  "azureChatCompletionsFieldWhitelist = [''audio'', ''data_sources'', ''frequency_penalty'', ''function_call'',
     ''functions'', ''logit_bias'', ''logprobs'', ''max_completion_tokens'', ''max_tokens'', ''messages'', ''metadata'',
     ''modalities'', ''model'', ''n'', ''parallel_tool_calls'', ''prediction'', ''presence_penalty'', ''prompt_cache_key'',
     ''reasoning_effort'', ''response_format'', ''seed'', ''stop'', ''store'', ''stream'', ''stream_options'',
     ''temperature'', ''tool_choice'', ''tools'', ''top_logprobs'', ''top_p'', ''user'', ''user_security_context'']"

definition azureResponsesFieldWhitelist :: "string list" where
  "azureResponsesFieldWhitelist = [''background'', ''include'', ''input'', ''instructions'', ''max_output_tokens'',
     ''max_tool_calls'', ''metadata'', ''model'', ''parallel_tool_calls'', ''previous_response_id'', ''prompt'',
     ''prompt_cache_key'', ''reasoning'', ''store'', ''stream'', ''temperature'', ''text'', ''tool_choice'', ''tools'',
     ''top_logprobs'', ''top_p'', ''truncation'', ''user'']"

definition azureEmbeddingsFieldWhitelist :: "string list" where
  "azureEmbeddingsFieldWhitelist = [''dimensions'', ''encoding_format'', ''input'', ''model'', ''user'']"

definition whitelistForPath :: "string \<Rightarrow> string list option" where
  "whitelistForPath path = (let p = to_lower (trim_space path) in
     if p = [] then None
     else if has_suffix p ''/chat/completions'' then Some azureChatCompletionsFieldWhitelist
     else if has_suffix p ''/responses'' then Some azureResponsesFieldWhitelist
     else if has_suffix p ''/embeddings'' then Some azureEmbeddingsFieldWhitelist
     else None)"

definition field_allowed :: "string list \<Rightarrow> string \<Rightarrow> bool" where
  "field_allowed wl k = (to_lower (trim_space k) \<in> toFieldSet wl)"

text \<open>The body to send, and the names that were stripped, in order.\<close>

definition sanitizeRequestBodyForAzure :: "request \<Rightarrow> string \<Rightarrow> string \<times> string list" where
  "sanitizeRequestBodyForAzure r body =
     (if body = [] \<or> rqMethod r \<notin> {''POST'', ''PUT'', ''PATCH''} then (body, [])
      else case whitelistForPath (uPath (rqURL r)) of None \<Rightarrow> (body, [])
      | Some wl \<Rightarrow> (case decode_raw_map body of None \<Rightarrow> (body, [])
          | Some ms \<Rightarrow> let stripped = filter (\<lambda>k. \<not> field_allowed wl k) (map fst ms) in
              if stripped = [] then (body, [])
              else (enc_raw_map (filter (\<lambda>(k, _). field_allowed wl k) ms), map fst (sort_keys (map (\<lambda>k. (k, ())) stripped)))))"

definition normalizeAllowed :: "string list \<Rightarrow> string set" where
  "normalizeAllowed xs = set (filter (\<lambda>x. x \<noteq> []) (map (\<lambda>x. to_lower (trim_space x)) xs))"

section \<open>Fields a target adds\<close>

text \<open>
  A body that is JSON \<open>null\<close> leaves the decoded map nil, and the first assignment to it panics:
  the result is \<open>None\<close>.
\<close>

definition injectCustomBody :: "string \<Rightarrow> (string \<times> json) list \<Rightarrow> string option" where
  "injectCustomBody body added =
     (if added = [] \<or> body = [] then Some body
      else case decode_map body of None \<Rightarrow> Some body
      | Some (Some ms) \<Rightarrow> Some (enc_json (JObj (inject_fields ms added)))
      | Some None \<Rightarrow> if \<exists>f \<in> set added. to_lower (fst f) \<notin> set customBodyFieldBlacklist then None else Some ''null'')"

section \<open>The alias of a model\<close>

definition replace_segment :: "string \<Rightarrow> nat \<Rightarrow> nat \<Rightarrow> string \<Rightarrow> string \<Rightarrow> string option" where
  "replace_segment path start len upstream model = (let seg = take len (drop start path) in
     if seg \<noteq> [] \<and> equal_fold seg model then Some (take start path @ upstream @ drop (start + len) path) else None)"

definition deployment_path :: "string \<Rightarrow> string \<Rightarrow> string \<Rightarrow> string option" where
  "deployment_path path upstream model = (case str_index (to_lower path) ''/deployments/'' of None \<Rightarrow> None
     | Some i \<Rightarrow> let rest = drop (i + 13) path in
         replace_segment path (i + 13) (length (before_char (CHR ''/'') rest)) upstream model)"

definition gemini_path :: "string \<Rightarrow> string \<Rightarrow> string \<Rightarrow> string option" where
  "gemini_path path upstream model = (case str_index (to_lower path) ''/models/'' of None \<Rightarrow> None
     | Some i \<Rightarrow> let rest = drop (i + 8) path; colon = length (before_char (CHR '':'') rest);
           slash = length (before_char (CHR ''/'') rest) in
         replace_segment path (i + 8) (if colon < length rest \<and> (slash = length rest \<or> colon < slash) then colon
            else if slash < length rest then slash else length rest) upstream model)"

definition replaceModelInURLPath :: "string \<Rightarrow> string \<Rightarrow> string \<Rightarrow> string" where
  "replaceModelInURLPath path upstream model =
     (if equal_fold upstream model \<or> path = [] then path
      else case deployment_path path upstream model of Some p \<Rightarrow> p
      | None \<Rightarrow> (case gemini_path path upstream model of Some p \<Rightarrow> p | None \<Rightarrow> path))"

definition toLowByte :: "char \<Rightarrow> char" where
  "toLowByte b = (if 65 \<le> code b \<and> code b \<le> 90 then char_of (code b + 32) else b)"

definition isTokenByte :: "char \<Rightarrow> bool" where
  "isTokenByte b = (97 \<le> code b \<and> code b \<le> 122 \<or> 65 \<le> code b \<and> code b \<le> 90 \<or> 48 \<le> code b \<and> code b \<le> 57 \<or>
     b \<in> set ''-_./:'')"

text \<open>The loop over the bytes; \<open>prev\<close> is the byte before the current position.\<close>

function (sequential) replace_loop :: "string \<Rightarrow> string \<Rightarrow> char option \<Rightarrow> string \<Rightarrow> string" where
  "replace_loop new old prev [] = []"
| "replace_loop new old prev (c # cs) =
     (if length (c # cs) < length old then c # cs
      else if old = [] then c # replace_loop new old (Some c) cs
      else if map toLowByte (take (length old) (c # cs)) = old \<and>
         \<not> (prev \<noteq> None \<and> isTokenByte (the prev)) \<and>
         \<not> (length old < length (c # cs) \<and> isTokenByte ((c # cs) ! length old))
      then new @ replace_loop new old (Some (last (take (length old) (c # cs)))) (drop (length old) (c # cs))
      else c # replace_loop new old (Some c) cs)"
  by pat_completeness auto
termination
  by (relation "measure (\<lambda>(_, _, _, s). length s)") auto

definition replaceModelInBytesInsensitive :: "string \<Rightarrow> string \<Rightarrow> string \<Rightarrow> string" where
  "replaceModelInBytesInsensitive data new old =
     (if old = [] \<or> equal_fold old new then data else replace_loop new (to_lower old) None data)"

definition replaceModelInBody :: "string \<Rightarrow> string \<Rightarrow> string \<Rightarrow> string" where
  "replaceModelInBody body upstream model =
     (if equal_fold upstream model \<or> body = [] then body else replaceModelInBytesInsensitive body upstream model)"

section \<open>From a multipart form to JSON\<close>

definition imageEndpointSuffixes :: "string list" where
  "imageEndpointSuffixes = [''/images/edits'', ''/images/variations'']"

definition needsMultipartConvert :: "request \<Rightarrow> bool" where
  "needsMultipartConvert r = (contains (to_lower (h_get (rqHeader r) ''Content-Type'')) ''multipart/form-data'' \<and>
     (\<exists>suf \<in> set imageEndpointSuffixes. has_suffix (to_lower (uPath (rqURL r))) suf))"

definition detectMimeType :: "string \<Rightarrow> string" where
  "detectMimeType f = (let f = to_lower f in
     if has_suffix f ''.png'' then ''image/png''
     else if has_suffix f ''.jpg'' \<or> has_suffix f ''.jpeg'' then ''image/jpeg''
     else if has_suffix f ''.gif'' then ''image/gif''
     else if has_suffix f ''.webp'' then ''image/webp''
     else ''application/octet-stream'')"

definition b64_char :: "nat \<Rightarrow> char" where
  "b64_char n = (if n < 26 then char_of (65 + n) else if n < 52 then char_of (71 + n)
     else if n < 62 then char_of (n - 4) else if n = 62 then CHR ''+'' else CHR ''/'')"

fun base64 :: "string \<Rightarrow> string" where
  "base64 [] = []"
| "base64 [a] = [b64_char (code a div 4), b64_char (code a mod 4 * 16), CHR ''='', CHR ''='']"
| "base64 [a, b] = [b64_char (code a div 4), b64_char (code a mod 4 * 16 + code b div 16), b64_char (code b mod 16 * 4), CHR ''='']"
| "base64 (a # b # c # s) = b64_char (code a div 4) # b64_char (code a mod 4 * 16 + code b div 16) #
     b64_char (code b mod 16 * 4 + code c div 64) # b64_char (code c mod 64) # base64 s"

fun nat_digits :: "nat \<Rightarrow> string" where
  "nat_digits n = (if n < 10 then [char_of (48 + n)] else nat_digits (n div 10) @ [char_of (48 + n mod 10)])"

definition int_literal :: "int \<Rightarrow> string" where
  "int_literal i = (if i < 0 then CHR ''-'' # nat_digits (nat (- i)) else nat_digits (nat i))"

definition text_value :: "string \<Rightarrow> string \<Rightarrow> json" where
  "text_value k v = (case (if k = ''n'' then atoi v else None) of Some i \<Rightarrow> JNum (int_literal i) | None \<Rightarrow> JStr v)"

definition data_uri :: "form_part \<Rightarrow> string" where
  "data_uri p = ''data:'' @ (if fpContentType p = [] then detectMimeType (fpFileName p) else fpContentType p) @
     '';base64,'' @ base64 (fpData p)"

text \<open>The text fields, then the file fields, which win when a name is used for both.\<close>

definition text_fields :: "form_part list \<Rightarrow> (string \<times> json) list" where
  "text_fields ps = foldl (\<lambda>fs p. if fpFileName p = [] then
       AList.update (fpFormName p) (text_value (fpFormName p) (trim_space (take 65536 (fpData p)))) fs else fs) [] ps"

definition file_fields :: "form_part list \<Rightarrow> (string \<times> string list) list" where
  "file_fields ps = foldl (\<lambda>fs p. if fpFileName p \<noteq> [] then
       AList.update (fpFormName p) ((case map_of fs (fpFormName p) of None \<Rightarrow> [] | Some us \<Rightarrow> us) @ [data_uri p]) fs else fs) [] ps"

definition file_value :: "string list \<Rightarrow> json" where
  "file_value us = (if length us = 1 then JStr (hd us) else JArr (map JStr us))"

definition form_payload :: "form_part list \<Rightarrow> (string \<times> json) list" where
  "form_payload ps = foldl (\<lambda>a (k, us). AList.update k (file_value us) a) (text_fields ps) (file_fields ps)"

definition convertMultipartToJSON :: "request \<Rightarrow> string \<Rightarrow> string option" where
  "convertMultipartToJSON r body =
     (if body = [] then None
      else case parse_media_type (h_get (rqHeader r) ''Content-Type'') of None \<Rightarrow> None
      | Some (_, ps) \<Rightarrow> (case map_of ps ''boundary'' of None \<Rightarrow> None
          | Some b \<Rightarrow> if b = [] then None else
              let (parts, ok) = read_form b body in if ok then Some (enc_json (JObj (form_payload parts))) else None))"

end
