(* ===== verification/Usage_Tokens.thy ===== *)
theory Usage_Tokens
  imports Bodies
begin

text \<open>
  What the proxy reads from a response: the token counts of JSON and event-stream bodies
  (\<open>usage.go\<close>), the tail of the body it keeps for them, and the assembly of an event stream into one
  JSON answer (\<open>sse_aggregate.go\<close>). A JSON number is converted to an integer by cutting off its
  exact value, which is Go's conversion of the float for values up to two to the 53.
\<close>

section \<open>Numbers\<close>

definition exponent_value :: "string \<Rightarrow> int" where
  "exponent_value s = (case s of [] \<Rightarrow> 0 | c # cs \<Rightarrow>
     if c = CHR ''-'' then - digits_val cs else if c = CHR ''+'' then digits_val cs else digits_val s)"

definition num_trunc :: "string \<Rightarrow> int" where
  "num_trunc s = (let (sg, t) = (case s of c # r \<Rightarrow> if c = CHR ''-'' then (-1, r) else (1, s) | [] \<Rightarrow> (1, []));
      (mant, ex, _) = (case cut_char (CHR ''e'') t of (a, b, True) \<Rightarrow> (a, b, True) | _ \<Rightarrow> cut_char (CHR ''E'') t);
      (ip, fp, _) = cut_char (CHR ''.'') mant; d = digits_val (ip @ fp); e = exponent_value ex - int (length fp) in
     sg * (if 0 \<le> e then d * 10 ^ nat e else d div 10 ^ nat (- e)))"

definition readInt64 :: "json option \<Rightarrow> int" where
  "readInt64 v = (case v of Some (JNum s) \<Rightarrow> num_trunc s
     | Some (JStr s) \<Rightarrow> (case atoi (trim_space s) of Some i \<Rightarrow> i | None \<Rightarrow> 0) | _ \<Rightarrow> 0)"

definition readString :: "json option \<Rightarrow> string" where
  "readString v = (case v of Some (JStr s) \<Rightarrow> trim_space s | _ \<Rightarrow> [])"

section \<open>Token counts\<close>

record usage_tokens =
  utInput :: int
  utOutput :: int
  utCached :: int
  utCacheCreation :: int

definition no_tokens :: usage_tokens where
  "no_tokens = \<lparr>utInput = 0, utOutput = 0, utCached = 0, utCacheCreation = 0\<rparr>"

type_synonym json_map = "(string \<times> json) list"

definition readField :: "json_map \<Rightarrow> string list \<Rightarrow> int option" where
  "readField m names = (case find (\<lambda>n. map_of m n \<noteq> None) names of None \<Rightarrow> None | Some n \<Rightarrow> Some (readInt64 (map_of m n)))"

definition obj_member :: "json_map \<Rightarrow> string \<Rightarrow> json_map option" where
  "obj_member m k = (case map_of m k of Some (JObj o') \<Rightarrow> Some o' | _ \<Rightarrow> None)"

definition details_cached :: "json_map \<Rightarrow> string \<Rightarrow> int option" where
  "details_cached m k = (case obj_member m k of None \<Rightarrow> None | Some d \<Rightarrow> readField d [''cached_tokens''])"

definition first_of :: "'a option \<Rightarrow> 'a option \<Rightarrow> 'a option" where
  "first_of a b = (if a = None then b else a)"

definition parseUsageMap :: "json_map \<Rightarrow> usage_tokens option" where
  "parseUsageMap m = (let input = readField m [''input_tokens'', ''prompt_tokens'', ''promptTokenCount''];
      output = readField m [''output_tokens'', ''completion_tokens'', ''candidatesTokenCount''];
      direct = readField m [''cached_tokens'', ''cachedContentTokenCount''];
      cached = (if direct \<noteq> None then direct
        else first_of (details_cached m ''prompt_tokens_details'') (details_cached m ''input_tokens_details''));
      cacheRead = readInt64 (map_of m ''cache_read_input_tokens'');
      creation = readInt64 (map_of m ''cache_creation_input_tokens'');
      cacheAny = 0 < cacheRead \<or> 0 < creation;
      val = (\<lambda>v. case v of Some i \<Rightarrow> i | None \<Rightarrow> 0) in
     if input = None \<and> output = None \<and> cached = None \<and> \<not> cacheAny then None
     else Some \<lparr>utInput = val input, utOutput = val output,
       utCached = (if cacheAny \<and> val cached < cacheRead then cacheRead else val cached),
       utCacheCreation = (if cacheAny then creation else 0)\<rparr>)"

definition usage_in :: "json_map option \<Rightarrow> string \<Rightarrow> usage_tokens option" where
  "usage_in m k = (case m of None \<Rightarrow> None | Some m \<Rightarrow> (case obj_member m k of None \<Rightarrow> None | Some u \<Rightarrow> parseUsageMap u))"

definition model_in :: "string \<Rightarrow> json_map option \<Rightarrow> string" where
  "model_in model m = (if model \<noteq> [] then model else case m of None \<Rightarrow> model | Some m \<Rightarrow> to_lower (readString (map_of m ''model'')))"

text \<open>The counts and the model of one payload; \<open>None\<close> when no counts were found.\<close>

definition parseUsageFromPayload :: "json_map \<Rightarrow> (usage_tokens \<times> string) option" where
  "parseUsageFromPayload p = (let m0 = to_lower (readString (map_of p ''model''));
      m1 = (if m0 = [] then to_lower (readString (map_of p ''modelVersion'')) else m0);
      resp = obj_member p ''response''; m2 = model_in m1 resp;
      msg = obj_member p ''message''; m3 = model_in m2 msg in
     case usage_in (Some p) ''usage'' of Some u \<Rightarrow> Some (u, m1) | None \<Rightarrow>
     (case usage_in (Some p) ''usageMetadata'' of Some u \<Rightarrow> Some (u, m1) | None \<Rightarrow>
     (case usage_in resp ''usage'' of Some u \<Rightarrow> Some (u, m2) | None \<Rightarrow>
     (case usage_in msg ''usage'' of Some u \<Rightarrow> Some (u, m3) | None \<Rightarrow>
      if map_of p ''prompt_tokens'' \<noteq> None
      then Some (no_tokens\<lparr>utInput := readInt64 (map_of p ''prompt_tokens''), utOutput := readInt64 (map_of p ''completion_tokens'')\<rparr>, m3)
      else None))))"

definition max_tokens :: "usage_tokens \<Rightarrow> usage_tokens \<Rightarrow> usage_tokens" where
  "max_tokens a b = \<lparr>utInput = max (utInput a) (utInput b), utOutput = max (utOutput a) (utOutput b),
     utCached = max (utCached a) (utCached b), utCacheCreation = max (utCacheCreation a) (utCacheCreation b)\<rparr>"

definition is_data_line :: "string \<Rightarrow> bool" where
  "is_data_line l = (5 \<le> length l \<and> to_lower (take 5 l) = ''data:'')"

definition chunk_usage :: "string \<Rightarrow> (usage_tokens \<times> string) option" where
  "chunk_usage line = (let chunk = trim_space (drop 5 line) in
     if chunk = [] \<or> chunk = ''[DONE]'' then None
     else case decode_map chunk of Some (Some p) \<Rightarrow> parseUsageFromPayload p | _ \<Rightarrow> None)"

definition merge_chunk :: "(usage_tokens \<times> string) option \<Rightarrow> string \<Rightarrow> (usage_tokens \<times> string) option" where
  "merge_chunk acc line = (case chunk_usage line of None \<Rightarrow> acc
     | Some (u, m) \<Rightarrow> (let (u0, m0) = (case acc of None \<Rightarrow> (no_tokens, []) | Some a \<Rightarrow> a) in
         Some (max_tokens u0 u, if m \<noteq> [] then m else m0)))"

text \<open>The lines from the last, at most ten data lines of them.\<close>

definition extractUsageFromSSE :: "string \<Rightarrow> (usage_tokens \<times> string) option" where
  "extractUsageFromSSE body = foldl merge_chunk None
     (take 10 (filter is_data_line (map trim_space (rev (split_char (char_of (10::nat)) body)))))"

definition extractUsageTokens :: "string \<Rightarrow> string \<Rightarrow> (usage_tokens \<times> string) option" where
  "extractUsageTokens contentType body0 = (let body = trim_space body0; ct = to_lower (trim_space contentType) in
     if body = [] then None
     else if contains ct ''text/event-stream'' \<or> has_prefix body ''data:'' then extractUsageFromSSE body
     else case decode_map body of Some (Some p) \<Rightarrow> parseUsageFromPayload p | _ \<Rightarrow> None)"

text \<open>The writer that keeps the last bytes.\<close>

definition capture_write :: "int \<Rightarrow> string \<Rightarrow> string \<Rightarrow> string" where
  "capture_write limit buf p = (if limit \<le> 0 then buf else
     let b = buf @ p in if limit < int (length b) then drop (length b - nat limit) b else b)"

section \<open>Event streams\<close>

definition is_ws :: "char \<Rightarrow> bool" where
  "is_ws c = (code c \<in> {32, 9, 10, 13})"

text \<open>The value after the first occurrence of the quoted word \<open>stream\<close> in the text.\<close>

definition extractStreamField :: "string \<Rightarrow> bool option" where
  "extractStreamField body0 = (let body = trim_space body0 in
     if body = [] \<or> hd body \<noteq> CHR ''{'' then None
     else case str_index body (enc_str ''stream'') of None \<Rightarrow> None
     | Some i \<Rightarrow> let rest = dropWhile is_ws (drop (i + 8) body) in
       if rest = [] \<or> hd rest \<noteq> CHR '':'' then None
       else let v = dropWhile is_ws (tl rest) in
         if has_prefix v ''true'' then Some True else if has_prefix v ''false'' then Some False else None)"

definition shouldAggregateSSE :: "target \<Rightarrow> string \<Rightarrow> string \<Rightarrow> bool" where
  "shouldAggregateSSE t requestBody ct = (tSSEAutoAggregate t \<and>
     (tEndpointType t = EndpointTypeAzureOpenAI \<or> tEndpointType t = EndpointTypeOpenAI) \<and>
     extractStreamField requestBody \<noteq> Some True \<and> contains (to_lower (trim_space ct)) ''text/event-stream'')"

record sse_usage =
  suPrompt :: int
  suCompletion :: int
  suTotal :: int

record sse_choice =
  scRole :: string
  scContent :: string
  scFinish :: "string option"

record sse_chunk =
  skId :: string
  skCreated :: int
  skModel :: string
  skChoices :: "sse_choice list"
  skUsage :: "sse_usage option"

text \<open>
  Decoding into a struct: a field takes the members whose name is its own up to case, the last one
  that is not null, and a member of the wrong type makes the whole decoding fail.
\<close>

definition field_members :: "json_map \<Rightarrow> string \<Rightarrow> json list" where
  "field_members m name = filter (\<lambda>v. v \<noteq> JNull) (map snd (filter (\<lambda>(k, _). equal_fold k name) m))"

definition last_field :: "(json \<Rightarrow> 'a option) \<Rightarrow> 'a \<Rightarrow> json_map \<Rightarrow> string \<Rightarrow> 'a option" where
  "last_field dec zero m name = (let vs = field_members m name in
     if \<exists>v \<in> set vs. dec v = None then None else if vs = [] then Some zero else dec (last vs))"

definition as_string :: "json \<Rightarrow> string option" where
  "as_string v = (case v of JStr s \<Rightarrow> Some s | _ \<Rightarrow> None)"

definition as_int :: "json \<Rightarrow> int option" where
  "as_int v = (case v of JNum s \<Rightarrow> atoi s | _ \<Rightarrow> None)"

definition as_object :: "json \<Rightarrow> json_map option" where
  "as_object v = (case v of JObj m \<Rightarrow> Some m | _ \<Rightarrow> None)"

definition decode_delta :: "json \<Rightarrow> (string \<times> string) option" where
  "decode_delta v = (case as_object v of None \<Rightarrow> None | Some m \<Rightarrow>
     (case (last_field as_string [] m ''role'', last_field as_string [] m ''content'') of
        (Some r, Some c) \<Rightarrow> Some (r, c) | _ \<Rightarrow> None))"

definition decode_choice :: "json \<Rightarrow> sse_choice option" where
  "decode_choice v = (if v = JNull then Some \<lparr>scRole = [], scContent = [], scFinish = None\<rparr> else
     case as_object v of None \<Rightarrow> None | Some m \<Rightarrow>
     (case (last_field as_int 0 m ''index'', last_field decode_delta ([], []) m ''delta'',
            last_field (\<lambda>v. map_option Some (as_string v)) None m ''finish_reason'') of
        (Some _, Some (r, c), Some f) \<Rightarrow> Some \<lparr>scRole = r, scContent = c, scFinish = f\<rparr> | _ \<Rightarrow> None))"

definition all_some :: "'a option list \<Rightarrow> 'a list option" where
  "all_some xs = (if None \<in> set xs then None else Some (map the xs))"

definition decode_choices :: "json \<Rightarrow> sse_choice list option" where
  "decode_choices v = (case v of JArr xs \<Rightarrow> all_some (map decode_choice xs) | _ \<Rightarrow> None)"

definition decode_usage :: "json \<Rightarrow> sse_usage option option" where
  "decode_usage v = (case as_object v of None \<Rightarrow> None | Some m \<Rightarrow>
     (case (last_field as_int 0 m ''prompt_tokens'', last_field as_int 0 m ''completion_tokens'', last_field as_int 0 m ''total_tokens'') of
        (Some p, Some c, Some t) \<Rightarrow> Some (Some \<lparr>suPrompt = p, suCompletion = c, suTotal = t\<rparr>) | _ \<Rightarrow> None))"

definition decode_chunk :: "string \<Rightarrow> sse_chunk option" where
  "decode_chunk s = (case decode_json s of
     Some (JObj m) \<Rightarrow>
       (case (last_field as_string [] m ''id'', last_field as_string [] m ''object'', last_field as_int 0 m ''created'',
              last_field as_string [] m ''model'', last_field decode_choices [] m ''choices'', last_field decode_usage None m ''usage'') of
          (Some i, Some _, Some cr, Some mo, Some ch, Some u) \<Rightarrow>
            Some \<lparr>skId = i, skCreated = cr, skModel = mo, skChoices = ch, skUsage = u\<rparr>
        | _ \<Rightarrow> None)
   | Some JNull \<Rightarrow> Some \<lparr>skId = [], skCreated = 0, skModel = [], skChoices = [], skUsage = None\<rparr>
   | _ \<Rightarrow> None)"

section \<open>Aggregation\<close>

record sse_state =
  ssId :: string
  ssModel :: string
  ssCreated :: int
  ssRole :: string
  ssParts :: "string list"
  ssFinish :: string
  ssUsage :: "sse_usage option"
  ssCount :: nat

definition sse_init :: sse_state where
  "sse_init = \<lparr>ssId = [], ssModel = [], ssCreated = 0, ssRole = [], ssParts = [], ssFinish = [], ssUsage = None, ssCount = 0\<rparr>"

definition add_choice :: "sse_state \<Rightarrow> sse_choice \<Rightarrow> sse_state" where
  "add_choice s c = s\<lparr>ssRole := (if scRole c \<noteq> [] \<and> ssRole s = [] then scRole c else ssRole s),
     ssParts := (if scContent c \<noteq> [] then ssParts s @ [scContent c] else ssParts s),
     ssFinish := (case scFinish c of Some f \<Rightarrow> if f \<noteq> [] then f else ssFinish s | None \<Rightarrow> ssFinish s)\<rparr>"

definition add_chunk :: "sse_state \<Rightarrow> sse_chunk \<Rightarrow> sse_state" where
  "add_chunk s k = (let s1 = s\<lparr>ssCount := Suc (ssCount s), ssId := (if ssId s = [] then skId k else ssId s),
       ssModel := (if ssModel s = [] then skModel k else ssModel s),
       ssCreated := (if ssCreated s = 0 then skCreated k else ssCreated s)\<rparr>;
       s2 = (case skChoices k of [] \<Rightarrow> s1 | c # _ \<Rightarrow> add_choice s1 c) in
     case skUsage k of None \<Rightarrow> s2 | Some u \<Rightarrow> s2\<lparr>ssUsage := Some u\<rparr>)"

definition data_text :: "string \<Rightarrow> string option" where
  "data_text line = (if \<not> has_prefix line ''data:'' then None else
     let d = trim_space (drop 5 line) in if d = [] \<or> d = ''[DONE]'' then None else Some d)"

definition line_chunk :: "string \<Rightarrow> sse_chunk option" where
  "line_chunk line = (case data_text line of None \<Rightarrow> None | Some d \<Rightarrow> decode_chunk d)"

definition drop_cr :: "string \<Rightarrow> string" where
  "drop_cr l = (if l \<noteq> [] \<and> last l = char_of (13::nat) then butlast l else l)"

text \<open>The lines of the scanner, which stops at a line of two megabytes or more.\<close>

definition scan_lines :: "string \<Rightarrow> string list" where
  "scan_lines body = map drop_cr (takeWhile (\<lambda>l. int (length l) < 2097152) (split_char (char_of (10::nat)) body))"

definition sse_chunks :: "string \<Rightarrow> sse_chunk list" where
  "sse_chunks body = List.map_filter line_chunk (scan_lines body)"

datatype sse_error = Sse_empty | Sse_no_chunks | Sse_no_content

definition sse_message :: "sse_state \<Rightarrow> json_map" where
  "sse_message s = [(''id'', JStr (ssId s)), (''object'', JStr ''chat.completion''),
     (''created'', JNum (int_literal (ssCreated s))), (''model'', JStr (ssModel s)),
     (''choices'', JArr [JObj [(''index'', JNum ''0''),
        (''message'', JObj [(''role'', JStr (if ssRole s = [] then ''assistant'' else ssRole s)), (''content'', JStr (concat (ssParts s)))]),
        (''finish_reason'', JStr (if ssFinish s = [] then ''stop'' else ssFinish s))]])] @
     (case ssUsage s of None \<Rightarrow> [] | Some u \<Rightarrow> [(''usage'', JObj [(''prompt_tokens'', JNum (int_literal (suPrompt u))),
        (''completion_tokens'', JNum (int_literal (suCompletion u))), (''total_tokens'', JNum (int_literal (suTotal u)))])])"

definition aggregateSSEResponse :: "string \<Rightarrow> sse_error + string" where
  "aggregateSSEResponse body0 = (let body = trim_space body0; s = foldl add_chunk sse_init (sse_chunks body) in
     if body = [] then Inl Sse_empty
     else if ssCount s = 0 then Inl Sse_no_chunks
     else if ssParts s = [] then Inl Sse_no_content
     else Inr (enc_json (JObj (sse_message s))))"

end
