(* ===== verification/Go_Json_Props.thy ===== *)
theory Go_Json_Props
  imports Go_Json "HOL-Library.Multiset"
begin

text \<open>
  Encoding a value and decoding the text gives the value back, with the keys of its objects in
  order; what the decoder returns is well-formed.
\<close>

section \<open>Strings\<close>

lemma char_code_eq: "c = char_of n \<longleftrightarrow> code c = n" if "n < 256" for n :: nat
  using that by (auto simp: code_def take_bit_nat_eq_self)

lemmas quote_simps = quote_def backslash_def

lemma unhex_low: "n < 16 \<Longrightarrow> unhex (hex_low n) = Some n"
  by (simp add: unhex_def hex_low_def code_def Let_def take_bit_nat_eq_self)

lemma hex_value_low: "m < 16 \<Longrightarrow> n < 16 \<Longrightarrow> hex_value (CHR ''0'') (CHR ''0'') (hex_low m) (hex_low n) = Some (m * 16 + n)"
proof -
  have "unhex (CHR ''0'') = Some 0" by code_simp
  then show "m < 16 \<Longrightarrow> n < 16 \<Longrightarrow> ?thesis" by (simp add: hex_value_def unhex_low)
qed

lemma parse_str_escape: "simple_escape e = Some x \<Longrightarrow> parse_str (backslash # e # s) = map_option (apfst ((#) x)) (parse_str s)"
  by (simp add: quote_simps)

lemma parse_str_unicode:
  assumes "hex_value a b c d = Some n" "n < 55296"
  shows "parse_str (backslash # CHR ''u'' # a # b # c # d # s) = map_option (apfst ((@) (utf8 n))) (parse_str s)"
proof -
  have "simple_escape (CHR ''u'') = None" by code_simp
  then show ?thesis using assms by (simp add: quote_simps)
qed

lemma parse_str_plain: "c \<noteq> quote \<Longrightarrow> c \<noteq> backslash \<Longrightarrow> 32 \<le> code c \<Longrightarrow>
    parse_str (c # s) = map_option (apfst ((#) c)) (parse_str s)"
  by simp

lemma short_escape_back: "short_escape c = Some e \<Longrightarrow> simple_escape e = Some c"
proof -
  have esc: "simple_escape quote = Some quote" "simple_escape backslash = Some backslash"
    "simple_escape (CHR ''n'') = Some (char_of (10::nat))" "simple_escape (CHR ''r'') = Some (char_of (13::nat))"
    "simple_escape (CHR ''t'') = Some (char_of (9::nat))" "simple_escape (CHR ''b'') = Some (char_of (8::nat))"
    "simple_escape (CHR ''f'') = Some (char_of (12::nat))" by code_simp+
  assume "short_escape c = Some e"
  then show ?thesis using esc unfolding short_escape_def by (auto simp only: split: if_splits)
qed

lemma short_escape_None: "short_escape c = None \<Longrightarrow> c \<noteq> quote \<and> c \<noteq> backslash"
  by (auto simp: short_escape_def)

lemma parse_enc_char: "parse_str (enc_char c @ s) = map_option (apfst ((#) c)) (parse_str s)"
proof -
  consider (simple) e where "enc_char c = [backslash, e]" "simple_escape e = Some c"
    | (hex) "enc_char c = [backslash, CHR ''u'', CHR ''0'', CHR ''0'', hex_low (code c div 16), hex_low (code c mod 16)]" "code c < 128"
    | (plain) "enc_char c = [c]" "c \<noteq> quote" "c \<noteq> backslash" "32 \<le> code c"
  proof (cases "short_escape c")
    case (Some e)
    then show ?thesis using that(1) short_escape_back by (simp add: enc_char_def)
  next
    case None
    have html: "code (CHR ''<'') < 128" "code (CHR ''>'') < 128" "code (CHR ''&'') < 128" by code_simp+
    show ?thesis
    proof (cases "code c < 32 \<or> c \<in> {CHR ''<'', CHR ''>'', CHR ''&''}")
      case True
      then have "code c < 128" using html by auto
      then show ?thesis using that(2) None True by (simp add: enc_char_def)
    next
      case False
      then show ?thesis using that(3) None short_escape_None[OF None] by (simp add: enc_char_def)
    qed
  qed
  then show ?thesis
  proof cases
    case simple
    then show ?thesis by (simp only: append_Cons append_Nil parse_str_escape)
  next
    case hex
    have "code c div 16 < 16" using hex(2) by simp
    then have "hex_value (CHR ''0'') (CHR ''0'') (hex_low (code c div 16)) (hex_low (code c mod 16)) = Some (code c)"
      by (simp add: hex_value_low)
    moreover have "utf8 (code c) = [c]" using hex(2) by (simp add: utf8_def code_def)
    ultimately have "parse_str (backslash # CHR ''u'' # CHR ''0'' # CHR ''0'' # hex_low (code c div 16) # hex_low (code c mod 16) # s) =
        map_option (apfst ((@) [c])) (parse_str s)"
      using parse_str_unicode[of "CHR ''0''" "CHR ''0''" "hex_low (code c div 16)" "hex_low (code c mod 16)" "code c" s] hex(2) by simp
    moreover have "(@) [c] = (#) c" by auto
    ultimately show ?thesis by (simp only: hex(1) append_Cons append_Nil)
  next
    case plain
    then show ?thesis using parse_str_plain[of c s] by (simp only: append_Cons append_Nil) blast
  qed
qed

lemma code_char_of: "n < 256 \<Longrightarrow> code (char_of (n::nat)) = n"
  by (simp add: code_def take_bit_nat_eq_self)

lemma separators:
  "hex_value (CHR ''2'') (CHR ''0'') (CHR ''2'') (hex_low (code (char_of (168::nat)) - 160)) = Some 8232"
  "hex_value (CHR ''2'') (CHR ''0'') (CHR ''2'') (hex_low (code (char_of (169::nat)) - 160)) = Some 8233"
  "utf8 8232 = [char_of (226::nat), char_of (128::nat), char_of (168::nat)]"
  "utf8 8233 = [char_of (226::nat), char_of (128::nat), char_of (169::nat)]"
proof -
  have "unhex (CHR ''2'') = Some 2" "unhex (CHR ''0'') = Some 0" by code_simp+
  then show "hex_value (CHR ''2'') (CHR ''0'') (CHR ''2'') (hex_low (code (char_of (168::nat)) - 160)) = Some 8232"
    "hex_value (CHR ''2'') (CHR ''0'') (CHR ''2'') (hex_low (code (char_of (169::nat)) - 160)) = Some 8233"
    using unhex_low[of 8] unhex_low[of 9] code_char_of[of 168] code_char_of[of 169] by (simp_all add: hex_value_def)
qed (simp_all add: utf8_def)

lemma parse_enc_body: "parse_str (enc_body s @ quote # r) = Some (s, r)"
proof (induction s rule: enc_body.induct)
  case 1
  then show ?case by simp
next
  case (2 c cs)
  show ?case
  proof (cases "c = char_of (226::nat) \<and> (take 2 cs = [char_of (128::nat), char_of (168::nat)] \<or> take 2 cs = [char_of (128::nat), char_of (169::nat)])")
    case True
    then obtain d ds where cs: "cs = char_of (128::nat) # d # ds" and d: "d = char_of (168::nat) \<or> d = char_of (169::nat)"
      by (cases cs; cases "tl cs") auto
    obtain n where hx: "hex_value (CHR ''2'') (CHR ''0'') (CHR ''2'') (hex_low (code d - 160)) = Some n"
      "utf8 n = [char_of (226::nat), char_of (128::nat), d]" and small: "n < 55296"
      using d separators by (elim disjE) fastforce+
    have "parse_str (enc_body (c # cs) @ quote # r) =
        map_option (apfst ((@) [char_of (226::nat), char_of (128::nat), d])) (parse_str (enc_body ds @ quote # r))"
      using True parse_str_unicode[OF hx(1) small] hx(2) by (simp add: cs)
    then show ?thesis using 2(1)[OF True] True by (simp add: cs)
  next
    case False
    have "enc_body (c # cs) = enc_char c @ enc_body cs" unfolding enc_body.simps if_not_P[OF False] ..
    then show ?thesis using 2(2)[OF False] by (simp only: append_assoc parse_enc_char) (simp add: apfst_def)
  qed
qed

lemma parse_enc_str: "parse_str (tl (enc_str s) @ r) = Some (s, r)" "hd (enc_str s) = quote" "enc_str s \<noteq> []"
  by (simp_all add: enc_str_def parse_enc_body)

section \<open>Objects\<close>

lemma dedup_id: "distinct (map fst ms) \<Longrightarrow> dedup ms = ms"
proof -
  have "distinct (map fst (xs @ ms)) \<Longrightarrow> foldl (\<lambda>a (k, v). AList.update k v a) xs ms = xs @ ms" for xs
  proof (induction ms arbitrary: xs)
    case (Cons m ms)
    obtain k v where m: "m = (k, v)" by fastforce
    have "k \<notin> fst ` set xs" using Cons.prems by (auto simp: m)
    then have "AList.update k v xs = xs @ [m]" by (induction xs) (auto simp: m)
    then show ?case using Cons.IH[of "xs @ [m]"] Cons.prems by (simp add: m)
  qed simp
  from this[of "[]"] show "distinct (map fst ms) \<Longrightarrow> ?thesis" by (simp add: dedup_def)
qed

lemma dedup_distinct: "distinct (map fst (dedup ms))"
proof -
  have "distinct (map fst xs) \<Longrightarrow> distinct (map fst (foldl (\<lambda>a (k, v). AList.update k v a) xs ms))" for xs
    by (induction ms arbitrary: xs) (auto simp: distinct_update)
  then show ?thesis by (simp add: dedup_def)
qed

lemma set_dedup: "set (dedup ms) \<subseteq> set (ms :: (string \<times> 'a) list)"
proof -
  have upd: "set (AList.update k v xs) \<subseteq> insert (k, v) (set xs)" for k :: string and v :: 'a and xs
    by (induction xs) auto
  have "set (foldl (\<lambda>a (k, v). AList.update k v a) xs ms) \<subseteq> set xs \<union> set ms" for xs
  proof (induction ms arbitrary: xs)
    case (Cons m ms)
    obtain k v where m: "m = (k, v)" by fastforce
    show ?case using Cons.IH[of "AList.update k v xs"] upd[of k v xs] by (auto simp: m)
  qed simp
  from this[of "[]"] show ?thesis by (simp add: dedup_def)
qed

lemma insert_key_map: "insert_key (k, f v) (map (\<lambda>(k, v). (k, f v)) xs) = map (\<lambda>(k, v). (k, f v)) (insert_key (k, v) xs)"
  by (induction xs) auto

lemma sort_keys_map: "sort_keys (map (\<lambda>(k, v). (k, f v)) xs) = map (\<lambda>(k, v). (k, f v)) (sort_keys xs)"
  unfolding sort_keys_def by (induction xs) (auto simp: insert_key_map)

lemma length_sort_keys [simp]: "length (sort_keys xs) = length xs"
proof -
  have "length (insert_key x ys) = Suc (length ys)" for x :: "string \<times> 'a" and ys
    by (induction ys) auto
  then show ?thesis unfolding sort_keys_def by (induction xs) auto
qed

lemma mset_sort_keys: "mset (sort_keys xs) = mset xs"
proof -
  have "mset (insert_key x ys) = add_mset x (mset ys)" for x :: "string \<times> 'a" and ys
    by (induction ys) auto
  then show ?thesis unfolding sort_keys_def by (induction xs) auto
qed

lemma sort_keys_distinct: "distinct (map fst (sort_keys xs)) = distinct (map fst xs)"
  using mset_sort_keys[of xs] by (metis mset_eq_imp_distinct_iff mset_map)

lemma map_of_sort_keys: "distinct (map fst xs) \<Longrightarrow> map_of (sort_keys xs) = map_of xs"
  by (rule map_of_inject_set[THEN iffD2]) (simp_all add: sort_keys_distinct)

section \<open>Values\<close>

fun json_ok :: "json \<Rightarrow> bool" where
  "json_ok (JNum s) = (valid_number s \<and> (\<forall>c \<in> set s. is_num_char c))"
| "json_ok (JArr xs) = (\<forall>x \<in> set xs. json_ok x)"
| "json_ok (JObj ms) = (distinct (map fst ms) \<and> (\<forall>(k, v) \<in> set ms. json_ok v))"
| "json_ok _ = True"

fun norm_json :: "json \<Rightarrow> json" where
  "norm_json (JArr xs) = JArr (map norm_json xs)"
| "norm_json (JObj ms) = JObj (sort_keys (map (\<lambda>(k, v). (k, norm_json v)) ms))"
| "norm_json j = j"

definition stop :: "string \<Rightarrow> bool" where
  "stop r = (r = [] \<or> hd r \<in> {CHR '','', CHR '']'', CHR ''}''})"

lemma skip_ws_id: "s = [] \<or> \<not> is_json_space (hd s) \<Longrightarrow> skip_ws s = s"
  unfolding skip_ws_def by (rule dropWhile_id)

lemma skip_ws_Cons: "\<not> is_json_space c \<Longrightarrow> skip_ws (c # s) = c # s"
  by (simp add: skip_ws_def)

lemma not_space: "\<not> is_json_space quote" "\<not> is_json_space (CHR ''{'')" "\<not> is_json_space (CHR ''['')"
  "\<not> is_json_space (CHR '','')" "\<not> is_json_space (CHR '']'')" "\<not> is_json_space (CHR ''}'')" "\<not> is_json_space (CHR '':'')"
  "\<not> is_json_space (CHR ''n'')" "\<not> is_json_space (CHR ''t'')" "\<not> is_json_space (CHR ''f'')"
  by code_simp+

lemma quote_char: "quote \<noteq> CHR '']''" "quote \<noteq> CHR ''}''" "quote \<noteq> CHR ''{''" "quote \<noteq> CHR ''[''"
  "quote \<noteq> CHR ''n''" "quote \<noteq> CHR ''t''" "quote \<noteq> CHR ''f''"
  by code_simp+

lemma not_num: "\<not> is_num_char (CHR '','')" "\<not> is_num_char (CHR '']'')" "\<not> is_num_char (CHR ''}'')"
  "\<not> is_num_char (CHR ''{'')" "\<not> is_num_char (CHR ''['')" "\<not> is_num_char quote" "\<not> is_num_char (CHR ''n'')"
  "\<not> is_num_char (CHR ''t'')" "\<not> is_num_char (CHR ''f'')"
  by code_simp+

lemma num_not_space: "is_num_char c \<Longrightarrow> \<not> is_json_space c"
proof -
  have "code (CHR ''-'') = 45" "code (CHR ''+'') = 43" "code (CHR ''.'') = 46" "code (CHR ''e'') = 101" "code (CHR ''E'') = 69"
    by code_simp+
  then show "is_num_char c \<Longrightarrow> ?thesis" by (auto simp: is_num_char_def is_json_space_def)
qed

lemma valid_number_nonempty: "valid_number s \<Longrightarrow> s \<noteq> []"
  by (auto simp: valid_number_def digits_def cut_char_def Let_def split: if_splits)

text \<open>The text of a value starts with a character that is neither a space nor a closing bracket.\<close>

lemma enc_json_first:
  assumes "json_ok j"
  shows "enc_json j \<noteq> [] \<and> \<not> is_json_space (hd (enc_json j)) \<and> hd (enc_json j) \<notin> {CHR '']'', CHR ''}''}"
proof (cases j)
  case (JNum s)
  then have "s \<noteq> []" "is_num_char (hd s)" using assms valid_number_nonempty by auto
  then show ?thesis using num_not_space not_num JNum by auto
qed (use not_space quote_char in \<open>auto simp: enc_str_def\<close>)

lemma parse_number_enc:
  assumes "valid_number s" "\<forall>c \<in> set s. is_num_char c" "stop r"
  shows "parse_number (s @ r) = Some (JNum s, r)"
proof -
  have "takeWhile is_num_char (s @ r) = s"
    using assms(2,3) not_num by (cases r) (auto simp: stop_def takeWhile_append)
  then show ?thesis using assms(1) by (simp add: parse_number_def)
qed

definition reads_back :: "json \<Rightarrow> bool" where
  "reads_back j = (\<forall>n r. stop r \<longrightarrow> 2 * length (enc_json j) \<le> n \<longrightarrow> parse_val n (enc_json j @ r) = Some (norm_json j, r))"

lemma reads_backD: "reads_back j \<Longrightarrow> stop r \<Longrightarrow> 2 * length (enc_json j) \<le> n \<Longrightarrow>
    parse_val n (enc_json j @ r) = Some (norm_json j, r)"
  by (simp add: reads_back_def)

lemma stop_simps [simp]: "stop (CHR '','' # r)" "stop (CHR '']'' # r)" "stop (CHR ''}'' # r)" "stop []"
  by (simp_all add: stop_def)

lemma commas_simps: "commas [x] = x" "xs \<noteq> [] \<Longrightarrow> commas (x # xs) = x @ CHR '','' # commas xs"
  by (cases xs; simp add: commas_def)+

lemma skip_ws_enc: "json_ok j \<Longrightarrow> skip_ws (enc_json j @ r) = enc_json j @ r"
  using enc_json_first[of j] by (intro skip_ws_id) simp

lemma parse_elems_enc:
  assumes "xs \<noteq> []" "\<forall>x \<in> set xs. json_ok x \<and> reads_back x" "2 * length (commas (map enc_json xs)) + 1 \<le> n"
  shows "parse_elems n (commas (map enc_json xs) @ CHR '']'' # r) = Some (map norm_json xs, r)"
  using assms
proof (induction xs arbitrary: n)
  case (Cons x xs)
  from Cons.prems(3) obtain m where n: "n = Suc m" by (cases n) auto
  have x: "json_ok x" "reads_back x" using Cons.prems(2) by auto
  show ?case
  proof (cases "xs = []")
    case True
    have "parse_val m (enc_json x @ CHR '']'' # r) = Some (norm_json x, CHR '']'' # r)"
      using Cons.prems(3) by (intro reads_backD[OF x(2)]) (simp_all add: True n commas_simps)
    then show ?thesis by (simp add: True n commas_simps skip_ws_enc[OF x(1)] skip_ws_Cons not_space)
  next
    case False
    let ?rest = "commas (map enc_json xs) @ CHR '']'' # r"
    have "parse_val m (enc_json x @ CHR '','' # ?rest) = Some (norm_json x, CHR '','' # ?rest)"
      using Cons.prems(3) by (intro reads_backD[OF x(2)]) (simp_all add: False n commas_simps)
    moreover have "parse_elems m ?rest = Some (map norm_json xs, r)"
      using Cons.prems False by (intro Cons.IH) (simp_all add: n commas_simps)
    ultimately show ?thesis
      by (simp add: False n commas_simps skip_ws_enc[OF x(1)] skip_ws_Cons not_space)
  qed
qed simp

abbreviation enc_member :: "string \<times> json \<Rightarrow> string" where
  "enc_member m \<equiv> enc_str (fst m) @ CHR '':'' # enc_json (snd m)"

lemma enc_member_first: "enc_member m @ r = quote # enc_body (fst m) @ quote # CHR '':'' # enc_json (snd m) @ r"
  by (simp add: enc_str_def)

lemma parse_members_enc:
  assumes "ms \<noteq> []" "\<forall>m \<in> set ms. json_ok (snd m) \<and> reads_back (snd m)" "2 * length (commas (map enc_member ms)) + 1 \<le> n"
  shows "parse_members n (commas (map enc_member ms) @ CHR ''}'' # r) = Some (map (apsnd norm_json) ms, r)"
  using assms
proof (induction ms arbitrary: n)
  case (Cons m ms)
  from Cons.prems(3) obtain f where n: "n = Suc f" by (cases n) auto
  have m: "json_ok (snd m)" "reads_back (snd m)" using Cons.prems(2) by auto
  have step: "parse_members n (enc_member m @ c # t) = (if c = CHR ''}'' then Some ([apsnd norm_json m], t)
      else map_option (apfst ((#) (apsnd norm_json m))) (parse_members f t))"
    if "c = CHR ''}'' \<or> c = CHR '',''" "2 * length (enc_json (snd m)) \<le> f" for c t
  proof -
    have "parse_val f (enc_json (snd m) @ c # t) = Some (norm_json (snd m), c # t)"
      using that by (intro reads_backD[OF m(2)]) auto
    moreover have "skip_ws (c # t) = c # t" using that(1) by (auto simp: skip_ws_Cons not_space)
    ultimately show ?thesis
      using that(1) unfolding enc_member_first n
      by (auto simp: skip_ws_Cons not_space parse_enc_body skip_ws_enc[OF m(1)] apsnd_def map_prod_def split: prod.splits)
  qed
  show ?case
  proof (cases "ms = []")
    case True
    then show ?thesis using step[of "CHR ''}''" r] Cons.prems(3) by (simp add: n commas_simps)
  next
    case False
    have "parse_members f (commas (map enc_member ms) @ CHR ''}'' # r) = Some (map (apsnd norm_json) ms, r)"
      using Cons.prems False by (intro Cons.IH) (simp_all add: n commas_simps)
    then show ?thesis
      using False step[of "CHR '',''" "commas (map enc_member ms) @ CHR ''}'' # r"] Cons.prems(3) by (simp add: n commas_simps)
  qed
qed simp

lemma enc_json_obj: "enc_json (JObj ms) = CHR ''{'' # commas (map enc_member (sort_keys ms)) @ ''}''"
  by (simp only: enc_json.simps sort_keys_map map_map) (simp add: comp_def split_def)

lemma norm_json_obj: "norm_json (JObj ms) = JObj (map (apsnd norm_json) (sort_keys ms))"
  by (simp only: norm_json.simps sort_keys_map) (simp add: apsnd_def map_prod_def split_def)

lemma json_reads_back: "json_ok j \<Longrightarrow> reads_back j"
proof (induction j)
  case (JObj ms)
  have len: "sort_keys ms = [] \<longleftrightarrow> ms = []" by (metis length_0_conv length_sort_keys)
  have all: "\<forall>m \<in> set (sort_keys ms). json_ok (snd m) \<and> reads_back (snd m)"
    using JObj by (auto simp: snds.simps)
  show ?case
    unfolding reads_back_def
  proof (intro allI impI)
    fix n r assume r: "stop r" and n: "2 * length (enc_json (JObj ms)) \<le> n"
    obtain f where f: "n = Suc f" using n by (cases n) (auto simp: enc_json_obj)
    show "parse_val n (enc_json (JObj ms) @ r) = Some (norm_json (JObj ms), r)"
    proof (cases "ms = []")
      case True
      then show ?thesis by (simp add: f sort_keys_def commas_def skip_ws_Cons not_space)
    next
      case False
      have "parse_members f (commas (map enc_member (sort_keys ms)) @ CHR ''}'' # r) = Some (map (apsnd norm_json) (sort_keys ms), r)"
        using n False len by (intro parse_members_enc[OF _ all]) (simp_all add: f enc_json_obj del: enc_json.simps)
      moreover obtain t where "commas (map enc_member (sort_keys ms)) = quote # t"
        using False len by (cases "sort_keys ms"; cases "tl (sort_keys ms)") (auto simp: commas_simps enc_str_def)
      moreover have "dedup (map (apsnd norm_json) (sort_keys ms)) = map (apsnd norm_json) (sort_keys ms)"
        using JObj.prems by (intro dedup_id) (simp add: sort_keys_distinct)
      ultimately show ?thesis
        using quote_char by (simp add: f enc_json_obj norm_json_obj skip_ws_Cons not_space del: enc_json.simps norm_json.simps)
    qed
  qed
next
  case (JArr xs)
  show ?case
    unfolding reads_back_def
  proof (intro allI impI)
    fix n r assume r: "stop r" and n: "2 * length (enc_json (JArr xs)) \<le> n"
    obtain f where f: "n = Suc f" using n by (cases n) auto
    have all: "\<forall>x \<in> set xs. json_ok x \<and> reads_back x" using JArr by auto
    show "parse_val n (enc_json (JArr xs) @ r) = Some (norm_json (JArr xs), r)"
    proof (cases xs)
      case Nil
      then show ?thesis by (simp add: f commas_def skip_ws_Cons not_space)
    next
      case (Cons x ys)
      have "parse_elems f (commas (map enc_json xs) @ CHR '']'' # r) = Some (map norm_json xs, r)"
        using n Cons by (intro parse_elems_enc[OF _ all]) (simp_all add: f)
      moreover obtain c t where "commas (map enc_json xs) = c # t" "\<not> is_json_space c" "c \<noteq> CHR '']''"
        using enc_json_first[of x] all Cons
        by (cases "enc_json x"; cases ys) (auto simp: commas_simps)
      ultimately show ?thesis by (simp add: f skip_ws_Cons)
    qed
  qed
next
  case (JStr s)
  have "parse_val n (enc_json (JStr s) @ r) = Some (JStr s, r)" if "2 * length (enc_json (JStr s)) \<le> n" for n r
    using that quote_char by (cases n) (auto simp: enc_str_def parse_enc_body)
  then show ?case by (simp add: reads_back_def)
next
  case (JNum s)
  have "parse_val n (s @ r) = Some (JNum s, r)" if st: "stop r" "2 * length s \<le> n" for n r
  proof -
    have ne: "s \<noteq> []" "is_num_char (hd s)" using JNum valid_number_nonempty by auto
    then obtain m where "n = Suc m" using st by (cases n) auto
    then show ?thesis using ne not_num JNum st parse_number_enc[of s r] by (cases s) auto
  qed
  then show ?case by (simp add: reads_back_def)
next
  case (JBool b)
  have "parse_val n (enc_json (JBool b) @ r) = Some (JBool b, r)" if "2 * length (enc_json (JBool b)) \<le> n" for n r
    using that quote_char by (cases n; cases b) (auto simp: parse_word_def after_prefix_def has_prefix_def)
  then show ?case by (simp add: reads_back_def)
next
  case JNull
  have "parse_val n (enc_json JNull @ r) = Some (JNull, r)" if "2 * length (enc_json JNull) \<le> n" for n r
    using that quote_char by (cases n) (auto simp: parse_word_def after_prefix_def has_prefix_def)
  then show ?case by (simp add: reads_back_def)
qed

lemma decode_encode: "json_ok j \<Longrightarrow> decode_json (enc_json j) = Some (norm_json j)"
  using reads_backD[OF json_reads_back, of j "[]" "2 * length (enc_json j) + 2"] skip_ws_enc[of j "[]"]
  by (simp add: decode_json_def skip_ws_def)

lemma parse_number_ok: "parse_number s = Some (j, r) \<Longrightarrow> json_ok j"
  by (auto simp: parse_number_def Let_def split: if_splits dest: set_takeWhileD)

lemma parse_word_ok: "parse_word s = Some (j, r) \<Longrightarrow> json_ok j"
  by (auto simp: parse_word_def split: option.splits)

lemma parse_members_cases:
  assumes "parse_members (Suc n) s = Some (ms, r)"
  obtains s' k t cs v u where "skip_ws s = quote # s'" "parse_str s' = Some (k, t)" "skip_ws t = CHR '':'' # cs"
    "parse_val n (skip_ws cs) = Some (v, u)" "ms = [(k, v)]"
  | s' k t cs v u ds ms' where "skip_ws s = quote # s'" "parse_str s' = Some (k, t)" "skip_ws t = CHR '':'' # cs"
    "parse_val n (skip_ws cs) = Some (v, u)" "skip_ws u = CHR '','' # ds" "parse_members n ds = Some (ms', r)" "ms = (k, v) # ms'"
  using assms by (auto split: option.splits list.splits if_splits prod.splits)

lemma parse_ok:
  "parse_val n s = Some (j, r) \<Longrightarrow> json_ok j"
  "parse_elems n s = Some (xs, r) \<Longrightarrow> \<forall>x \<in> set xs. json_ok x"
  "parse_members n s = Some (ms, r) \<Longrightarrow> \<forall>m \<in> set ms. json_ok (snd m)"
proof (induction n s and n s and n s arbitrary: j r and xs r and ms r rule: parse_val_parse_elems_parse_members.induct)
  case (2 n s)
  obtain c cs where s: "s = c # cs" using 2(3) by (cases s) auto
  show ?case
  proof (cases "c = CHR ''{'' \<or> c = CHR ''[''")
    case False
    then show ?thesis using 2(3) by (auto simp: s parse_number_ok parse_word_ok split: if_splits)
  next
    case True
    then consider "j = JObj []" | "j = JArr []"
      | ms where "c = CHR ''{''" "\<not> (skip_ws cs \<noteq> [] \<and> hd (skip_ws cs) = CHR ''}'')" "parse_members n cs = Some (ms, r)" "j = JObj (dedup ms)"
      | xs where "c \<noteq> CHR ''{''" "c = CHR ''[''" "\<not> (skip_ws cs \<noteq> [] \<and> hd (skip_ws cs) = CHR '']'')" "parse_elems n cs = Some (xs, r)" "j = JArr xs"
      using 2(3) by (elim disjE) (simp_all add: s split: if_splits, fastforce+)
    then show ?thesis
    proof cases
      case (3 ms)
      then have "\<forall>m \<in> set ms. json_ok (snd m)" using 2(1)[OF s] by blast
      then have "\<forall>m \<in> set (dedup ms). json_ok (snd m)" using set_dedup[of ms] by blast
      then show ?thesis using 3 dedup_distinct by auto
    next
      case (4 xs)
      then show ?thesis using 2(2)[OF s] by auto
    qed simp_all
  qed
next
  case (4 n s)
  then show ?case by (auto split: option.splits list.splits if_splits prod.splits)
next
  case (6 n s)
  from 6(3) show ?case
  proof (cases rule: parse_members_cases)
    case (1 s' k t cs v u)
    have "json_ok v" by (rule 6(1)[OF 1(1) _ 1(2) refl 1(3) _ 1(4)]) simp_all
    then show ?thesis by (simp add: 1(5))
  next
    case (2 s' k t cs v u ds ms')
    have "json_ok v" by (rule 6(1)[OF 2(1) _ 2(2) refl 2(3) _ 2(4)]) simp_all
    moreover have "\<forall>m \<in> set ms'. json_ok (snd m)"
      by (rule 6(2)[OF 2(1) _ 2(2) refl 2(3) _ 2(4) refl 2(5) _ _ 2(6)]) simp_all
    ultimately show ?thesis by (simp add: 2(7))
  qed
qed simp_all

lemma decode_ok: "decode_json s = Some j \<Longrightarrow> json_ok j"
  by (auto simp del: parse_val.simps simp: decode_json_def dest: parse_ok(1) split: option.splits if_splits)

end
