(* ===== verification/Bodies_Props.thy ===== *)
theory Bodies_Props
  imports Bodies Go_Json_Props
begin

text \<open>
  What happens to a body on its way: a target's fields never touch the protected ones, an alias is
  replaced token by token, and the rewritten path names the upstream model.
\<close>

section \<open>Fields a target adds\<close>

lemma decode_map_obj: "decode_map s = Some (Some ms) \<longleftrightarrow> decode_json s = Some (JObj ms)"
  by (auto simp: decode_map_def split: option.splits json.splits)

lemma decode_map_enc: "json_ok (JObj ms) \<Longrightarrow> decode_map (enc_json (JObj ms)) = Some (Some (sort_keys (map (\<lambda>(k, v). (k, norm_json v)) ms)))"
  by (simp only: decode_map_obj decode_encode norm_json.simps)

lemma inject_fields_distinct: "distinct (map fst ms) \<Longrightarrow> distinct (map fst (inject_fields ms fs))"
  unfolding inject_fields_def by (induction fs arbitrary: ms) (auto simp: distinct_update)

lemma inject_fields_map:
  assumes "distinct (map fst fs)"
  shows "map_of (inject_fields ms fs) k = (if to_lower k \<in> set customBodyFieldBlacklist then map_of ms k
    else case map_of fs k of Some v \<Rightarrow> Some v | None \<Rightarrow> map_of ms k)"
  using assms
proof (induction fs arbitrary: ms)
  case (Cons f fs)
  obtain j v where f: "f = (j, v)" by fastforce
  have "map_of fs j = None" using Cons.prems by (simp add: f map_of_eq_None_iff)
  then show ?case
    using Cons.IH[of "if to_lower j \<in> set customBodyFieldBlacklist then ms else AList.update j v ms"] Cons.prems
    by (auto simp: f inject_fields_def update_conv' split: option.splits)
qed (simp add: inject_fields_def)

lemma inject_fields_ok:
  assumes "json_ok (JObj ms)" "\<forall>f \<in> set fs. json_ok (snd f)"
  shows "json_ok (JObj (inject_fields ms fs))"
proof -
  have upd: "set (AList.update k v xs) \<subseteq> insert (k, v) (set xs)" for k :: string and v :: json and xs
    by (induction xs) auto
  have "\<forall>m \<in> set (inject_fields ms fs). json_ok (snd m)"
    using assms unfolding inject_fields_def
  proof (induction fs arbitrary: ms)
    case (Cons f fs)
    obtain j v where f: "f = (j, v)" by fastforce
    let ?ms = "if to_lower j \<in> set customBodyFieldBlacklist then ms else AList.update j v ms"
    have "json_ok (JObj ?ms)"
      using Cons.prems upd[of j v ms] by (auto simp: f distinct_update)
    then show ?case using Cons.IH[of ?ms] Cons.prems(2) by (simp add: f)
  qed auto
  then show ?thesis using inject_fields_distinct[of ms fs] assms(1) by auto
qed


definition demo_body :: string where
  "demo_body = CHR ''{'' # enc_str ''model'' @ '':'' @ enc_str ''m'' @ '','' @ enc_str ''top_p'' @ '':1}''"


section \<open>The alias of a model\<close>

text \<open>The tokens of a text: the longest runs of token bytes, and each other byte for itself.\<close>

function (sequential) tokens :: "string \<Rightarrow> string list" where
  "tokens [] = []"
| "tokens (c # cs) = (if isTokenByte c then takeWhile isTokenByte (c # cs) # tokens (dropWhile isTokenByte (c # cs))
     else [c] # tokens cs)"
  by pat_completeness auto
termination
  by (relation "measure length") (auto simp: le_imp_less_Suc length_dropWhile_le)

lemma replace_loop_short: "length s < length old \<Longrightarrow> replace_loop new old prev s = s"
  by (cases s) auto

lemma toLowByte_token: "isTokenByte (toLowByte c) = isTokenByte c"
proof -
  have "code (char_of (code c + 32)) = code c + 32" if "code c \<le> 90"
    using that by (simp add: code_def take_bit_nat_eq_self)
  then show ?thesis by (auto simp: isTokenByte_def toLowByte_def)
qed

lemma replace_loop_inside:
  assumes "old \<noteq> []" "isTokenByte p" "\<forall>c \<in> set t. isTokenByte c"
  shows "\<exists>q. isTokenByte q \<and> replace_loop new old (Some p) (t @ rest) = t @ replace_loop new old (Some q) rest"
  using assms(2,3)
proof (induction t arbitrary: p)
  case Nil
  then show ?case by auto
next
  case (Cons c t)
  show ?case
  proof (cases "length (c # t @ rest) < length old")
    case True
    then have "replace_loop new old (Some p) (c # t @ rest) = c # t @ rest" "replace_loop new old (Some p) rest = rest"
      by (simp_all add: replace_loop_short)
    then show ?thesis using Cons.prems(1) by auto
  next
    case False
    have step: "replace_loop new old (Some p) (c # t @ rest) = c # replace_loop new old (Some c) (t @ rest)"
      using False assms(1) Cons.prems(1) by simp
    obtain q where "isTokenByte q" "replace_loop new old (Some c) (t @ rest) = t @ replace_loop new old (Some q) rest"
      using Cons.IH[of c] Cons.prems(2) by auto
    then show ?thesis using step by auto
  qed
qed

lemma replace_loop_token:
  assumes old: "old \<noteq> []" "\<forall>c \<in> set old. isTokenByte c" and prev: "prev = None \<or> \<not> isTokenByte (the prev)"
    and t: "t \<noteq> []" "\<forall>c \<in> set t. isTokenByte c" and rest: "rest = [] \<or> \<not> isTokenByte (hd rest)"
  shows "\<exists>q. replace_loop new old prev (t @ rest) = (if map toLowByte t = old then new else t) @ replace_loop new old (Some q) rest"
proof (cases "map toLowByte t = old")
  case True
  then have len: "length old = length t" by auto
  obtain c cs where t': "t = c # cs" using t(1) by (cases t) auto
  have nxt: "\<not> (length old < length (t @ rest) \<and> isTokenByte ((t @ rest) ! length old))"
    using rest by (auto simp: len nth_append hd_conv_nth)
  have "take (length old) (t @ rest) = t" "drop (length old) (t @ rest) = rest" by (simp_all add: len)
  moreover have "\<not> length (t @ rest) < length old" by (simp add: len)
  ultimately have "replace_loop new old prev (t @ rest) = new @ replace_loop new old (Some (last t)) rest"
    using True old(1) prev nxt unfolding t' append_Cons replace_loop.simps by (simp only: if_True if_False simp_thms) auto
  then show ?thesis using True by auto
next
  case False
  obtain c cs where t': "t = c # cs" using t(1) by (cases t) auto
  show ?thesis
  proof (cases "length (t @ rest) < length old")
    case True
    then have "replace_loop new old prev (t @ rest) = t @ rest" "replace_loop new old (Some c) rest = rest"
      by (simp_all add: replace_loop_short)
    then show ?thesis using False by (intro exI[of _ c]) simp
  next
    case long: False
    have "\<not> (map toLowByte (take (length old) (t @ rest)) = old \<and>
        \<not> (length old < length (t @ rest) \<and> isTokenByte ((t @ rest) ! length old)))"
    proof
      assume a: "map toLowByte (take (length old) (t @ rest)) = old \<and>
        \<not> (length old < length (t @ rest) \<and> isTokenByte ((t @ rest) ! length old))"
      consider "length old < length t" | "length old = length t" | "length t < length old" by linarith
      then show False
      proof cases
        case 1
        then show False using a t(2) by (auto simp: nth_append)
      next
        case 2
        then show False using a False by auto
      next
        case 3
        then obtain d ds where "rest = d # ds" using long by (cases rest) auto
        moreover have "toLowByte ((t @ rest) ! length t) = old ! length t"
          using a 3 long by (metis (no_types, lifting) length_map length_take min.absorb2 not_le nth_map nth_take less_imp_le)
        ultimately show False
          using rest old(2) 3 toLowByte_token[of d] by (metis list.sel(1) list.distinct(1) nth_append_length nth_mem)
      qed
    qed
    then have "replace_loop new old prev (t @ rest) = c # replace_loop new old (Some c) (cs @ rest)"
      using long old(1) unfolding t' append_Cons replace_loop.simps by auto
    moreover obtain q where "replace_loop new old (Some c) (cs @ rest) = cs @ replace_loop new old (Some q) rest"
      using replace_loop_inside[OF old(1), of c cs new rest] t(2) by (auto simp: t')
    ultimately show ?thesis using False by (auto simp: t')
  qed
qed

lemma replace_loop_other:
  assumes old: "old \<noteq> []" "\<forall>c \<in> set old. isTokenByte c" and c: "\<not> isTokenByte c"
  shows "replace_loop new old prev (c # cs) = c # replace_loop new old (Some c) cs"
proof (cases "length (c # cs) < length old")
  case True
  then show ?thesis by (simp add: replace_loop_short)
next
  case False
  obtain d ds where "old = d # ds" using old(1) by (cases old) auto
  then have "map toLowByte (take (length old) (c # cs)) \<noteq> old"
    using old(2) c toLowByte_token[of c] by auto
  then show ?thesis using False old(1) by simp
qed

lemma replace_loop_tokens:
  assumes old: "old \<noteq> []" "\<forall>c \<in> set old. isTokenByte c"
  shows "prev = None \<or> \<not> isTokenByte (the prev) \<or> s = [] \<or> \<not> isTokenByte (hd s) \<Longrightarrow>
    replace_loop new old prev s = concat (map (\<lambda>t. if map toLowByte t = old then new else t) (tokens s))"
proof (induction s arbitrary: prev rule: length_induct)
  case (1 s)
  show ?case
  proof (cases s)
    case (Cons c cs)
    show ?thesis
    proof (cases "isTokenByte c")
      case True
      let ?t = "takeWhile isTokenByte s" and ?r = "dropWhile isTokenByte s"
      have s: "s = ?t @ ?r" by simp
      have r: "?r = [] \<or> \<not> isTokenByte (hd ?r)" using hd_dropWhile_not by blast
      have t: "?t \<noteq> []" "\<forall>c \<in> set ?t. isTokenByte c" using True by (auto simp: Cons dest: set_takeWhileD)
      have prev: "prev = None \<or> \<not> isTokenByte (the prev)" using 1(2) True by (auto simp: Cons)
      obtain q where q: "replace_loop new old prev (?t @ ?r) = (if map toLowByte ?t = old then new else ?t) @ replace_loop new old (Some q) ?r"
        using replace_loop_token[OF old prev t r] by blast
      have "length ?r < length s" using True by (simp add: Cons le_imp_less_Suc length_dropWhile_le)
      then have "replace_loop new old (Some q) ?r = concat (map (\<lambda>t. if map toLowByte t = old then new else t) (tokens ?r))"
        using 1(1) r by blast
      moreover have "tokens s = ?t # tokens ?r" using True by (simp add: Cons)
      ultimately show ?thesis using q by (simp only: takeWhile_dropWhile_id list.map concat.simps)
    next
      case False
      have "[toLowByte c] \<noteq> old" using old(2) toLowByte_token[of c] False by auto
      moreover have "replace_loop new old (Some c) cs = concat (map (\<lambda>t. if map toLowByte t = old then new else t) (tokens cs))"
        using 1(1) False by (simp add: Cons)
      ultimately show ?thesis
        using replace_loop_other[OF old False, of new prev cs] False by (simp add: Cons)
    qed
  qed simp
qed



end
