(* ===== verification/Usage_Props.thy ===== *)
theory Usage_Props
  imports Usage_Tokens Bodies_Props
begin

text \<open>
  The captured tail of a response, the integers it prints, and the answer assembled from an event
  stream.
\<close>

section \<open>The captured tail\<close>

lemma capture_write_tail:
  assumes "0 < limit"
  shows "capture_write limit (drop (length s - nat limit) s) p = drop (length (s @ p) - nat limit) (s @ p)"
proof -
  let ?n = "nat limit" and ?t = "drop (length s - nat limit) s"
  have len: "length ?t = min (length s) ?n" by simp
  have "drop (length (?t @ p) - ?n) (?t @ p) = drop (length (s @ p) - ?n) (s @ p)"
  proof (cases "length s \<le> ?n")
    case False
    then have d: "length ?t = ?n" by simp
    have "length (s @ p) - ?n = length p + (length s - ?n)" using False by simp
    then have "drop (length (s @ p) - ?n) (s @ p) = drop (length p + (length s - ?n)) (s @ p)" by (simp only:)
    also have "\<dots> = drop (length p) (drop (length s - ?n) (s @ p))" by (simp only: drop_drop)
    also have "drop (length s - ?n) (s @ p) = ?t @ p" by simp
    finally show ?thesis using d by simp
  qed simp
  moreover have "int (length (?t @ p)) \<le> limit \<Longrightarrow> length (?t @ p) - ?n = 0" by simp
  ultimately show ?thesis
    using assms unfolding capture_write_def Let_def by (metis drop0 not_le)
qed

text \<open>
  After any number of writes the captured text is the last bytes of all that was written, as
  many as the limit allows.
\<close>

theorem capture_is_tail:
  assumes "0 < limit"
  shows "foldl (capture_write limit) [] ps = drop (length (concat ps) - nat limit) (concat ps)"
proof (induction ps rule: rev_induct)
  case (snoc p ps)
  show ?case using capture_write_tail[OF assms, of "concat ps" p] by (simp add: snoc)
qed simp

theorem capture_is_tail_witness: "foldl (capture_write 4) [] [''ab'', ''cde'', ''f''] = ''cdef''"
  using capture_is_tail[of 4 "[''ab'', ''cde'', ''f'']"] by simp

section \<open>Integers in JSON\<close>

declare nat_digits.simps [simp del]

lemma nat_digits_ok:
  "digits (nat_digits n) \<and> (hd (nat_digits n) = CHR ''0'' \<longrightarrow> length (nat_digits n) = 1) \<and> (0 < n \<longrightarrow> hd (nat_digits n) \<noteq> CHR ''0'')"
proof (induction n rule: nat_digits.induct)
  case (1 n)
  have dig: "code (char_of (48 + d)) = 48 + d" if "d < 10" for d
    using that by (simp add: code_def take_bit_nat_eq_self)
  have zero: "code (CHR ''0'') = 48" by code_simp
  show ?case
  proof (cases "n < 10")
    case True
    then show ?thesis
      using dig[of n] zero by (subst (1 2 3 4) nat_digits.simps) (auto simp: digits_def)
  next
    case False
    have IH: "digits (nat_digits (n div 10))" "hd (nat_digits (n div 10)) \<noteq> CHR ''0''"
      using 1[OF False] False by auto
    have "nat_digits n = nat_digits (n div 10) @ [char_of (48 + n mod 10)]" using False by (subst nat_digits.simps) simp
    moreover have "code (char_of (48 + n mod 10)) = 48 + n mod 10" using dig[of "n mod 10"] by simp
    ultimately show ?thesis using IH by (auto simp: digits_def)
  qed
qed

lemma cut_char_absent: "c \<notin> set s \<Longrightarrow> cut_char c s = (s, [], False)"
proof -
  assume "c \<notin> set s"
  then have "takeWhile (\<lambda>x. x \<noteq> c) s = s" by (auto simp: takeWhile_eq_all_conv)
  then show ?thesis unfolding cut_char_def Let_def by (simp only: less_irrefl if_False)
qed

lemma digits_plain: "digits s \<Longrightarrow> CHR ''e'' \<notin> set s \<and> CHR ''E'' \<notin> set s \<and> CHR ''.'' \<notin> set s \<and> CHR ''-'' \<notin> set s"
proof -
  have "code (CHR ''e'') = 101" "code (CHR ''E'') = 69" "code (CHR ''.'') = 46" "code (CHR ''-'') = 45" by code_simp+
  then show "digits s \<Longrightarrow> ?thesis" by (fastforce simp: digits_def)
qed

lemma valid_digits: "digits s \<Longrightarrow> (hd s = CHR ''0'' \<longrightarrow> length s = 1) \<Longrightarrow> valid_number s \<and> valid_number (CHR ''-'' # s)"
proof -
  assume d: "digits s" and z: "hd s = CHR ''0'' \<longrightarrow> length s = 1"
  note p = digits_plain[OF d]
  obtain c r where s: "s = c # r" using d by (cases s) (auto simp: digits_def)
  have c: "c \<noteq> CHR ''-''" using p by (auto simp: s)
  have "cut_char (CHR ''e'') s = (s, [], False)" "cut_char (CHR ''E'') s = (s, [], False)" "cut_char (CHR ''.'') s = (s, [], False)"
    using p by (simp_all add: cut_char_absent)
  then show ?thesis using c d z by (simp add: valid_number_def s Let_def)
qed

lemma int_literal_ok: "json_ok (JNum (int_literal i))"
proof -
  have num: "digits s \<Longrightarrow> \<forall>c \<in> set s. is_num_char c" for s
    by (auto simp: digits_def is_num_char_def)
  have minus: "is_num_char (CHR ''-'')" by code_simp
  show ?thesis
    using valid_digits[of "nat_digits (nat (- i))"] valid_digits[of "nat_digits (nat i)"] nat_digits_ok minus
      num[of "nat_digits (nat (- i))"] num[of "nat_digits (nat i)"]
    by (auto simp: int_literal_def)
qed

section \<open>Aggregation\<close>

definition chunk_content :: "sse_chunk \<Rightarrow> string" where
  "chunk_content k = (case skChoices k of [] \<Rightarrow> [] | c # _ \<Rightarrow> scContent c)"

lemma add_chunk_content: "concat (ssParts (add_chunk s k)) = concat (ssParts s) @ chunk_content k"
  by (auto simp: add_chunk_def add_choice_def chunk_content_def Let_def split: list.splits option.splits)

lemma fold_chunk_content: "concat (ssParts (foldl add_chunk s ks)) = concat (ssParts s) @ concat (map chunk_content ks)"
  by (induction ks arbitrary: s) (simp_all add: add_chunk_content)

lemma sse_message_ok: "json_ok (JObj (sse_message s))"
proof -
  have "json_ok (JNum ''0'')" by code_simp
  then show ?thesis using int_literal_ok by (auto simp: sse_message_def split: option.splits)
qed

text \<open>
  When an event stream is turned into one answer, the answer is a JSON object whose only choice
  has as its content the contents of the first choices of all readable chunks, in order; the role
  is the assistant's unless a chunk names another.
\<close>

theorem aggregate_content:
  assumes "aggregateSSEResponse body = Inr out"
  shows "\<exists>m choice msg. decode_map out = Some (Some m) \<and> map_of m ''choices'' = Some (JArr [JObj choice]) \<and>
    map_of choice ''message'' = Some (JObj msg) \<and>
    map_of msg ''content'' = Some (JStr (concat (map chunk_content (sse_chunks (trim_space body))))) \<and>
    map_of m ''object'' = Some (JStr ''chat.completion'')"
proof -
  define s where "s = foldl add_chunk sse_init (sse_chunks (trim_space body))"
  have out: "out = enc_json (JObj (sse_message s))"
    using assms by (auto simp: aggregateSSEResponse_def Let_def s_def split: if_splits)
  let ?ms = "map (\<lambda>(k, v). (k, norm_json v)) (sse_message s)"
  have dec: "decode_map out = Some (Some (sort_keys ?ms))"
    unfolding out by (rule decode_map_enc[OF sse_message_ok])
  have "distinct (map fst ?ms)" using sse_message_ok[of s] by (simp add: comp_def split_def)
  then have top: "map_of (sort_keys ?ms) = map_of ?ms" by (rule map_of_sort_keys)
  let ?msg = "[(''role'', JStr (if ssRole s = [] then ''assistant'' else ssRole s)), (''content'', JStr (concat (ssParts s)))]"
  let ?ch = "[(''index'', JNum ''0''), (''message'', JObj (sort_keys ?msg)), (''finish_reason'', JStr (if ssFinish s = [] then ''stop'' else ssFinish s))]"
  have "map_of ?ms ''choices'' = Some (JArr [JObj (sort_keys ?ch)])" "map_of ?ms ''object'' = Some (JStr ''chat.completion'')"
    by (simp_all add: sse_message_def)
  moreover have "map_of (sort_keys ?ch) ''message'' = Some (JObj (sort_keys ?msg))"
    by (subst map_of_sort_keys) simp_all
  moreover have "map_of (sort_keys ?msg) ''content'' = Some (JStr (concat (ssParts s)))"
    by (subst map_of_sort_keys) simp_all
  moreover have "concat (ssParts s) = concat (map chunk_content (sse_chunks (trim_space body)))"
    by (simp add: s_def fold_chunk_content sse_init_def)
  ultimately show ?thesis using dec top by (intro exI[of _ "sort_keys ?ms"] exI[of _ "sort_keys ?ch"] exI[of _ "sort_keys ?msg"]) simp
qed

definition demo_delta :: "string \<Rightarrow> string" where
  "demo_delta c = ''data: '' @ enc_json (JObj [(''choices'', JArr [JObj [(''delta'', JObj [(''content'', JStr c)])]])])"

definition demo_stream :: string where
  "demo_stream = demo_delta ''Hel'' @ [char_of (10::nat)] @ demo_delta ''lo'' @ [char_of (10::nat)] @ ''data: [DONE]''"

theorem aggregate_content_witness:
  "\<exists>out m choice msg. aggregateSSEResponse demo_stream = Inr out \<and> decode_map out = Some (Some m) \<and>
     map_of m ''choices'' = Some (JArr [JObj choice]) \<and> map_of choice ''message'' = Some (JObj msg) \<and>
     map_of msg ''content'' = Some (JStr ''Hello'')"
proof -
  let ?k = "\<lambda>c. \<lparr>skId = [], skCreated = 0, skModel = [], skChoices = [\<lparr>scRole = [], scContent = c, scFinish = None\<rparr>], skUsage = None\<rparr>"
  have chunks: "sse_chunks (trim_space demo_stream) = [?k ''Hel'', ?k ''lo'']" by code_simp
  have "trim_space demo_stream \<noteq> []"
  proof
    assume "trim_space demo_stream = []"
    then have "sse_chunks (trim_space demo_stream) = []"
      by (simp add: sse_chunks_def scan_lines_def map_filter_def line_chunk_def data_text_def has_prefix_def drop_cr_def)
    then show False using chunks by simp
  qed
  then obtain out where out: "aggregateSSEResponse demo_stream = Inr out"
    unfolding aggregateSSEResponse_def Let_def chunks
    by (simp add: add_chunk_def add_choice_def sse_init_def)
  have "concat (map chunk_content (sse_chunks (trim_space demo_stream))) = ''Hello''"
    unfolding chunks by (simp add: chunk_content_def)
  then show ?thesis using aggregate_content[OF out] out by auto
qed

end
