(* ===== verification/Trace.thy ===== *)
theory Trace
  imports Auth Key_Pool Bodies
begin

text \<open>
  The records of finished requests: the trace store with its ring of the last records
  (\<open>internal/tracestore\<close>), the masking of secrets in what is recorded (\<open>forward.go\<close>) and the entries
  of the error log (\<open>internal/errorlog\<close>). The trace files on disk, with their rotation, are the two
  arguments \<open>diskGet\<close> and \<open>diskList\<close>; the records handed to the disk writer are the store's queue.
\<close>

section \<open>Masking\<close>

definition isSensitiveTraceHeader :: "string \<Rightarrow> bool \<Rightarrow> bool" where
  "isSensitiveTraceHeader key includeSetCookie = (let k = to_lower key in
     if k \<in> set [''authorization'', ''api-key'', ''x-api-key'', ''x-goog-api-key'', ''x-azure-authorization'',
       ''proxy-authorization'', ''cookie''] then True
     else if k = ''set-cookie'' then includeSetCookie else False)"

definition isSensitiveTraceQuery :: "string \<Rightarrow> bool" where
  "isSensitiveTraceQuery key = (to_lower key \<in> set [''api-key'', ''api_key'', ''apikey'', ''key'', ''access_token'', ''token''])"

definition decodedTraceQueryKey :: "string \<Rightarrow> string" where
  "decodedTraceQueryKey key = (case queryUnescape key of None \<Rightarrow> key | Some d \<Rightarrow> d)"

definition mask_part :: "string \<Rightarrow> string" where
  "mask_part part = (let key = fst (cut_char (CHR ''='') part) in
     if isSensitiveTraceQuery key \<or> isSensitiveTraceQuery (decodedTraceQueryKey key) then key @ ''=***'' else part)"

definition sanitizeTraceInvalidRawQuery :: "string \<Rightarrow> string" where
  "sanitizeTraceInvalidRawQuery raw = join_char (CHR ''&'') (map mask_part (split_char (CHR ''&'') raw))"

definition mask_values :: "query_values \<Rightarrow> query_values" where
  "mask_values q = map (\<lambda>(k, vs). (k, if isSensitiveTraceQuery k then [''***''] else vs)) q"

definition sanitizeTraceRawQuery :: "string \<Rightarrow> string" where
  "sanitizeTraceRawQuery raw = (if raw = [] then []
     else case parse_query_strict raw of None \<Rightarrow> sanitizeTraceInvalidRawQuery raw | Some q \<Rightarrow> encode_query (mask_values q))"

definition trace_headers :: "bool \<Rightarrow> headers \<Rightarrow> (string \<times> string) list" where
  "trace_headers resp h = map (\<lambda>(k, _). (k, if isSensitiveTraceHeader k resp then ''***'' else h_get h k)) h"

section \<open>The trace store\<close>

record trace_record =
  trTraceID :: string
  trTimestamp :: time
  trClientName :: string
  trClientIP :: string
  trClientAccessKey :: string
  trMethod :: string
  trPath :: string
  trQueryParams :: string
  trRequestHeaders :: "(string \<times> string) list"
  trTarget :: string
  trEndpointType :: string
  trModel :: string
  trKeyIndex :: int
  trKeyMask :: string
  trUpstreamURL :: string
  trUpstreamRequestID :: string
  trUpstreamStatus :: int
  trUpstreamHeaders :: "(string \<times> string) list"
  trStatusCode :: int
  trDurationMS :: int
  trRequestBody :: string
  trResponseBody :: string

record trace_config =
  tcEnabled :: bool
  tcRingBufferSize :: nat
  tcMaxBodySize :: nat
  tcDiskPath :: string
  tcDiskMaxSizeMB :: nat
  tcDiskMaxBackups :: nat
  tcDiskTTLHours :: nat
  tcChannelBuffer :: nat

text \<open>The defaults of the service for the values that are zero.\<close>

definition trace_defaults :: "trace_config \<Rightarrow> trace_config" where
  "trace_defaults c = c\<lparr>tcRingBufferSize := (if tcRingBufferSize c = 0 then 1000 else tcRingBufferSize c),
     tcMaxBodySize := (if tcMaxBodySize c = 0 then 524288 else tcMaxBodySize c),
     tcDiskPath := (if tcDiskPath c = [] then ''/var/lib/llms-proxy/trace.log'' else tcDiskPath c),
     tcDiskMaxSizeMB := (if tcDiskMaxSizeMB c = 0 then 500 else tcDiskMaxSizeMB c),
     tcDiskMaxBackups := (if tcDiskMaxBackups c = 0 then 10 else tcDiskMaxBackups c),
     tcDiskTTLHours := (if tcDiskTTLHours c = 0 then 120 else tcDiskTTLHours c),
     tcChannelBuffer := (if tcChannelBuffer c = 0 then 500 else tcChannelBuffer c)\<rparr>"

record trace_store =
  rbCfg :: trace_config
  rbRing :: "string \<rightharpoonup> trace_record"
  rbKeys :: "string list"
  rbHead :: nat
  rbQueue :: "trace_record list"
  rbTotalRecords :: int
  rbDroppedRecords :: int

definition new_trace_store :: "trace_config \<Rightarrow> trace_store" where
  "new_trace_store c = \<lparr>rbCfg = c, rbRing = Map.empty, rbKeys = (if tcEnabled c then replicate (tcRingBufferSize c) [] else []),
     rbHead = 0, rbQueue = [], rbTotalRecords = 0, rbDroppedRecords = 0\<rparr>"

definition cut_bodies :: "nat \<Rightarrow> trace_record \<Rightarrow> trace_record" where
  "cut_bodies n r = (if 0 < n then r\<lparr>trRequestBody := take n (trRequestBody r), trResponseBody := take n (trResponseBody r)\<rparr> else r)"

definition trace_record_step :: "trace_store \<Rightarrow> trace_record \<Rightarrow> trace_store" where
  "trace_record_step s r0 = (if \<not> tcEnabled (rbCfg s) then s else
     let r = cut_bodies (tcMaxBodySize (rbCfg s)) r0; old = rbKeys s ! rbHead s;
         ring = (rbRing s)(trTraceID r \<mapsto> r);
         full = tcChannelBuffer (rbCfg s) \<le> length (rbQueue s) in
     s\<lparr>rbRing := (if old \<noteq> [] then ring(old := None) else ring), rbKeys := (rbKeys s)[rbHead s := trTraceID r],
       rbHead := (rbHead s + 1) mod length (rbKeys s), rbTotalRecords := rbTotalRecords s + 1,
       rbQueue := (if full then rbQueue s else rbQueue s @ [r]),
       rbDroppedRecords := rbDroppedRecords s + (if full then 1 else 0)\<rparr>)"

text \<open>The disk writer takes the oldest record of the queue.\<close>

definition disk_step :: "trace_store \<Rightarrow> trace_record option \<times> trace_store" where
  "disk_step s = (case rbQueue s of [] \<Rightarrow> (None, s) | r # rs \<Rightarrow> (Some r, s\<lparr>rbQueue := rs\<rparr>))"

definition trace_get :: "(string \<Rightarrow> trace_record option) \<Rightarrow> trace_store \<Rightarrow> string \<Rightarrow> trace_record option" where
  "trace_get diskGet s i = (if \<not> tcEnabled (rbCfg s) then None else
     case rbRing s i of Some r \<Rightarrow> Some r | None \<Rightarrow> if tcDiskPath (rbCfg s) = [] then None else diskGet i)"

text \<open>The keys of the ring from the newest on, up to an empty one.\<close>

definition newest_keys :: "trace_store \<Rightarrow> nat \<Rightarrow> string list" where
  "newest_keys s k = (let n = length (rbKeys s); start = (rbHead s + n - 1) mod n in
     takeWhile (\<lambda>key. key \<noteq> []) (map (\<lambda>i. rbKeys s ! ((start + n - i) mod n)) [0..<min k n]))"

definition new_ids :: "trace_record list \<Rightarrow> trace_record list \<Rightarrow> trace_record list" where
  "new_ids rs ds = filter (\<lambda>d. trTraceID d \<notin> trTraceID ` set rs) ds"

definition trace_list :: "(nat \<Rightarrow> nat \<Rightarrow> trace_record list) \<Rightarrow> trace_store \<Rightarrow> int \<Rightarrow> int \<Rightarrow> trace_record list" where
  "trace_list diskList s offset0 limit0 = (if \<not> tcEnabled (rbCfg s) \<or> limit0 \<le> 0 then [] else
     let offset = nat offset0; limit = nat limit0;
         disk = (\<lambda>o' l. if tcDiskPath (rbCfg s) = [] then [] else diskList o' l);
         mem = List.map_filter (rbRing s) (newest_keys s (offset + limit)) in
     if length mem \<le> offset then disk offset limit
     else let rs = take limit (drop offset mem) in
       if length rs < limit then rs @ take (limit - length rs) (new_ids rs (disk (offset + length mem) (limit - length rs)))
       else rs)"

section \<open>The error log\<close>

datatype error_kind = KindUpstream4xx | KindUpstream5xx | KindUpstreamNetErr | KindProxyPanic | KindTargetPoolEmpty

record error_entry =
  eeTraceID :: string
  eeKind :: error_kind
  eeMethod :: string
  eePath :: string
  eeClientIP :: string
  eeTarget :: string
  eeEndpointType :: string
  eeUpstreamURL :: string
  eeUpstreamFullURL :: string
  eeUpstreamStatus :: int
  eeDurationMS :: int
  eeReqBytes :: int
  eeRespBytes :: int
  eeRespExcerpt :: string

text \<open>An entry as it is written: its excerpt cut to 1024 bytes. Its level is always error.\<close>

definition errorlog_write :: "error_entry list \<Rightarrow> error_entry \<Rightarrow> error_entry list" where
  "errorlog_write lg e = lg @ [e\<lparr>eeRespExcerpt := take 1024 (eeRespExcerpt e)\<rparr>]"

end
