(* ===== verification/Forward.thy ===== *)
theory Forward
  imports Targets Trace
begin

text \<open>
  One attempt to forward a request to a target (\<open>forwardRequest\<close> and what it uses in
  \<open>internal/proxy/forward.go\<close>): the choice of a key with the wake-up of exhausted ones, the request
  that is sent, the classification of transport errors, and the detection of exhausted keys in the
  answer. The network is a record of functions over a world of its own; time passes when a request
  is sent or the program sleeps. Log lines are not modelled.
\<close>

section \<open>The world outside\<close>

record out_request =
  orMethod :: string
  orURL :: go_url
  orHost :: string
  orHeader :: headers
  orBody :: string
  orTimeout :: duration

text \<open>
  An answer with its whole body; \<open>rsBroken\<close> says that reading the body fails at its end, and \<open>rsURL\<close>
  is the URL of the request it answers, after redirects.
\<close>

record response =
  rsStatus :: int
  rsHeader :: headers
  rsBody :: string
  rsBroken :: bool
  rsURL :: "go_url option"

datatype transport_error = Tr_deadline | Tr_canceled | Tr_timeout | Tr_other

text \<open>\<open>netGunzip n s\<close> is the first \<open>n\<close> bytes of what the gzip data decompresses to.\<close>

record 'w net =
  netNow :: "'w \<Rightarrow> time"
  netDo :: "'w \<Rightarrow> out_request \<Rightarrow> (transport_error + response) \<times> 'w"
  netSleep :: "'w \<Rightarrow> duration \<Rightarrow> 'w"
  netGunzip :: "nat \<Rightarrow> string \<Rightarrow> string option"

text \<open>\<open>URL.String\<close> for a URL with a host.\<close>

definition path_escape :: "string \<Rightarrow> string" where
  "path_escape p = (if p = ''*'' then p else concat (map (\<lambda>c. if unreserved c \<or> c \<in> set ''$&+,/:;=@'' then [c]
     else [CHR ''%'', hex_digit (code c div 16), hex_digit (code c mod 16)]) p))"

definition url_string :: "go_url \<Rightarrow> string" where
  "url_string u = (if uScheme u \<noteq> [] then uScheme u @ '':'' else []) @ (if uHost u \<noteq> [] then ''//'' @ uHost u else []) @
     (if uHost u \<noteq> [] \<and> uPath u \<noteq> [] then ensureLeadingSlash (path_escape (uPath u)) else path_escape (uPath u)) @
     (if uRawQuery u \<noteq> [] then ''?'' @ uRawQuery u else [])"

definition valid_method :: "string \<Rightarrow> bool" where
  "valid_method m = list_all (\<lambda>c. is_token_char c \<and> c \<notin> set ''{}'') m"

text \<open>The URL of \<open>http.NewRequest\<close>: the method must be a token and the URL must parse.\<close>

definition new_request_url :: "string \<Rightarrow> string \<Rightarrow> go_url option" where
  "new_request_url method raw = (if valid_method method then parse_url raw else None)"

section \<open>Small helpers\<close>

definition hopHeaders :: "string list" where
  "hopHeaders = [''connection'', ''proxy-connection'', ''keep-alive'', ''proxy-authenticate'', ''proxy-authorization'',
     ''te'', ''trailers'', ''transfer-encoding'', ''upgrade'']"

definition copyHeaders :: "headers \<Rightarrow> headers \<Rightarrow> headers" where
  "copyHeaders dst src = foldl (\<lambda>d (k, vs). if to_lower k \<in> set hopHeaders then d else foldl (\<lambda>d v. h_add d k v) d vs) dst src"

definition split_host :: "string \<Rightarrow> string option" where
  "split_host s = (if CHR '':'' \<notin> set s then None else
     let i = length s - 1 - length (takeWhile (\<lambda>c. c \<noteq> CHR '':'') (rev s)) in
     if hd s = CHR ''['' then
       (let e = length (takeWhile (\<lambda>c. c \<noteq> CHR '']'') s) in
        if e = length s \<or> e + 1 \<noteq> i \<or> CHR ''['' \<in> set (tl s) \<or> CHR '']'' \<in> set (drop (e + 1) s) then None
        else Some (take (e - 1) (tl s)))
     else if CHR '':'' \<in> set (take i s) \<or> CHR ''['' \<in> set s \<or> CHR '']'' \<in> set s then None
     else Some (take i s))"

definition clientIP :: "request \<Rightarrow> string" where
  "clientIP r = (let xff = h_get (rqHeader r) ''X-Forwarded-For''; comma = length (before_char (CHR '','') xff) in
     if xff \<noteq> [] then (if 0 < comma \<and> comma < length xff then trim_space (take comma xff) else trim_space xff)
     else case split_host (rqRemoteAddr r) of None \<Rightarrow> rqRemoteAddr r | Some h \<Rightarrow> h)"

definition stripURLQuery :: "string \<Rightarrow> string" where
  "stripURLQuery raw = before_char (CHR ''?'') raw"

definition classifyTransportError :: "transport_error \<Rightarrow> int" where
  "classifyTransportError e = (case e of Tr_deadline \<Rightarrow> 504 | Tr_canceled \<Rightarrow> 504 | Tr_timeout \<Rightarrow> 504 | Tr_other \<Rightarrow> 502)"

definition isUpstreamFailureStatus :: "int \<Rightarrow> bool" where
  "isUpstreamFailureStatus c = (500 \<le> c \<or> c = 408 \<or> c = 429)"

text \<open>The strategy of a target: for Azure and Claude it depends on the target and the request.\<close>

definition resolveAuthStrategy :: "provider_registry \<Rightarrow> target \<Rightarrow> request \<Rightarrow> auth_strategy option" where
  "resolveAuthStrategy reg t r = (case reg (tEndpointType t) of None \<Rightarrow> None
     | Some p \<Rightarrow> Some (if tEndpointType t = EndpointTypeAzureOpenAI
           then AzureAuth (tAllowBearer t) (trim_space (h_get (rqHeader r) ''X-Azure-Authorization''))
         else if tEndpointType t = EndpointTypeClaude then AnthropicAuth (tAuthMode t = ''bearer'')
         else ppAuth p))"

section \<open>Exhausted keys\<close>

text \<open>The error code of a key an answer shows to be of no use; \<open>None\<close> when the key is not to blame.\<close>

definition isKeyExhausted :: "int \<Rightarrow> string \<Rightarrow> string option" where
  "isKeyExhausted status body = (let lower = to_lower body in
     if 200 \<le> status \<and> status < 300 then None
     else if status = 401 \<and> (contains lower ''invalid api key'' \<or> contains lower ''invalid api-key'' \<or>
       contains lower ''invalid_api_key'' \<or> contains lower ''invalid access token'' \<or> contains lower ''invalid x-api-key'' \<or>
       contains lower ''token expired'' \<or> contains lower ''access denied due to invalid subscription key'' \<or>
       contains lower ''incorrect api key'') then Some ''invalid_token''
     else if status = 400 \<and> (contains body ''API_KEY_INVALID'' \<or> contains body ''API key not valid'') then Some ''invalid_token''
     else if status = 402 then Some ''billing_error''
     else if contains body (enc_str ''Arrearage'') \<or> contains body (enc_str ''code'' @ '':'' @ enc_str ''Arrearage'') \<or>
       contains body (enc_str ''code'' @ '': '' @ enc_str ''Arrearage'') then Some ''Arrearage''
     else if contains body ''AccessDenied.Unpurchased'' then Some ''AccessDenied.Unpurchased''
     else if contains body ''AllocationQuota.FreeTierOnly'' then Some ''free_tier_exhausted''
     else if contains lower ''exceeded your quota'' \<or> contains lower ''you exceeded your current quota'' \<or>
       contains lower ''resource_exhausted'' \<or> contains lower ''quota has been exhausted'' \<or> contains lower ''token-plan quota'' \<or>
       contains body (enc_str ''code'' @ '':'' @ enc_str ''QuotaExceeded'') \<or> contains body ''PrepaidBillOverdue'' \<or>
       contains body ''PostpaidBillOverdue'' \<or> contains body ''CommodityNotPurchased'' then Some ''quota_exceeded''
     else if contains lower ''account disabled'' \<or> contains lower ''account suspended'' \<or>
       contains lower ''account has been deactivated'' then Some ''account_disabled''
     else None)"

section \<open>Probing keys\<close>

definition buildProbeURL :: "provider_registry \<Rightarrow> target \<Rightarrow> string" where
  "buildProbeURL reg t = (let base = url_string (tEndpoint t); ep = tEndpointType t in
     if ep = EndpointTypeOpenAI then base @ ''/v1/models''
     else if ep = EndpointTypeDualProtocol then
       url_string (buildURL reg t \<lparr>uScheme = [], uHost = [], uPath = ''/v1/models'', uRawQuery = []\<rparr>)
     else if ep = EndpointTypeClaude then base @ ''/v1/models''
     else if ep = EndpointTypeGemini then base @ ''/v1beta/models''
     else if ep = EndpointTypeAzureOpenAI then base
     else base @ ''/v1/models'')"

definition probe_headers :: "target \<Rightarrow> string \<Rightarrow> headers" where
  "probe_headers t apiKey = (let ep = tEndpointType t in
     if ep = EndpointTypeOpenAI \<or> ep = EndpointTypeDualProtocol then h_set [] ''Authorization'' (''Bearer '' @ apiKey)
     else if ep = EndpointTypeClaude then
       (if tAuthMode t = ''bearer'' then h_set [] ''Authorization'' (''Bearer '' @ apiKey) else h_set [] ''x-api-key'' apiKey)
     else if ep = EndpointTypeGemini then h_set [] ''x-goog-api-key'' apiKey
     else if ep = EndpointTypeAzureOpenAI then h_set [] ''api-key'' apiKey
     else h_set [] ''Authorization'' (''Bearer '' @ apiKey))"

definition probeKey :: "'w net \<Rightarrow> provider_registry \<Rightarrow> target \<Rightarrow> key_pool \<Rightarrow> int \<Rightarrow> 'w \<Rightarrow> bool \<times> 'w" where
  "probeKey net reg t p i w = (if \<not> valid_index p i then (False, w) else
     let url = buildProbeURL reg t in
     if url = [] then (False, w) else
     case new_request_url ''GET'' url of None \<Rightarrow> (False, w)
     | Some u \<Rightarrow> (case netDo net w \<lparr>orMethod = ''GET'', orURL = u, orHost = uHost u,
           orHeader = probe_headers t (keyStr (entries p ! nat i)), orBody = [], orTimeout = seconds 5\<rparr> of
         (Inl _, w') \<Rightarrow> (False, w') | (Inr resp, w') \<Rightarrow> (rsStatus resp = 200, w')))"

fun probe_keys :: "'w net \<Rightarrow> provider_registry \<Rightarrow> target \<Rightarrow> nat list \<Rightarrow> key_pool \<Rightarrow> 'w \<Rightarrow> int \<times> key_pool \<times> 'w" where
  "probe_keys net reg t [] p w = (-1, p, w)"
| "probe_keys net reg t (i # is) p w = (let (ok, w1) = probeKey net reg t p (int i) w in
     if ok then (int i, snd (markRecovered p (int i)), w1) else probe_keys net reg t is p w1)"

definition wakeUpProbe :: "'w net \<Rightarrow> provider_registry \<Rightarrow> target \<Rightarrow> key_pool \<Rightarrow> 'w \<Rightarrow> int \<times> key_pool \<times> 'w" where
  "wakeUpProbe net reg t p w = probe_keys net reg t (getProbeableExhaustedKeys p (netNow net w)) p w"

section \<open>Choosing a key\<close>

definition affinity_id :: "request \<Rightarrow> string" where
  "affinity_id r = clientIP r @ ''|'' @ (case rqPrincipal r of None \<Rightarrow> [] | Some pr \<Rightarrow> prAccessKey pr)"

definition choose_key :: "'w net \<Rightarrow> provider_registry \<Rightarrow> target \<Rightarrow> string \<Rightarrow> key_pool \<Rightarrow> 'w \<Rightarrow>
    (string \<times> int) option \<times> key_pool \<times> 'w" where
  "choose_key net reg t aid p w =
     (let ((selected, idx), p1) = selectKeyForClient p aid (netNow net w) in
      if selected \<noteq> [] then (Some (selected, idx), p1, w) else
      let (started, p2) = tryWakeUp p1 (netNow net w) in
      if \<not> started then (None, p2, w) else
      let (recovered, p3, w1) = wakeUpProbe net reg t p2 w; p4 = wakeUpComplete p3 (netNow net w1) in
      if recovered < 0 then (None, p4, w1) else
      let ((selected, idx), p5) = selectKeyForClient p4 aid (netNow net w1) in
      (if selected \<noteq> [] then Some (selected, idx) else None, p5, w1))"

section \<open>The request that is sent\<close>

definition upstream_headers :: "auth_strategy \<Rightarrow> request \<Rightarrow> target \<Rightarrow> string \<Rightarrow> headers" where
  "upstream_headers auth r t apiKey =
     (let h = h_del (h_del (h_del (h_del (copyHeaders [] (rqHeader r)) ''Authorization'') ''X-Proxy-Target'')
            ''X-Azure-Authorization'') ''api-key'';
          h' = injectAuth auth h apiKey (uPath (rqURL r)) in
      if tCustomHeaders t \<noteq> [] then injectCustomHeaders h' (tCustomHeaders t) else h')"

datatype forward_reason = All_keys_exhausted | Bad_request_url | Unsupported_endpoint_type
  | Missing_azure_credential | Transport transport_error

record forward_error =
  feStatus :: int
  feRetryable :: bool
  feReason :: forward_reason
  feStartedAt :: time
  feUpstreamURL :: string
  feUpstreamFullURL :: string

text \<open>The part of \<open>forwardRequest\<close> from the URL to the answer, with the key that was chosen.\<close>

definition send_request :: "'w net \<Rightarrow> provider_registry \<Rightarrow> duration \<Rightarrow> request \<Rightarrow> target \<Rightarrow> string \<Rightarrow> string \<Rightarrow> time \<Rightarrow> 'w \<Rightarrow>
    (forward_error + response) \<times> 'w" where
  "send_request net reg timeout r t apiKey body startedAt w =
     (let full = url_string (buildURL reg t (rqURL r));
          err = (\<lambda>status retry reason. Inl \<lparr>feStatus = status, feRetryable = retry, feReason = reason,
            feStartedAt = startedAt, feUpstreamURL = stripURLQuery full, feUpstreamFullURL = full\<rparr>) in
      case new_request_url (rqMethod r) full of None \<Rightarrow> (err 400 False Bad_request_url, w)
      | Some u \<Rightarrow>
        (case resolveAuthStrategy reg t r of None \<Rightarrow> (err 500 False Unsupported_endpoint_type, w)
         | Some auth \<Rightarrow>
           if tEndpointType t = EndpointTypeAzureOpenAI \<and>
              (\<not> tAllowBearer t \<or> trim_space (h_get (rqHeader r) ''X-Azure-Authorization'') = []) \<and> apiKey = []
           then (err 400 False Missing_azure_credential, w)
           else (case netDo net w \<lparr>orMethod = rqMethod r, orURL = u, orHost = uHost (tEndpoint t),
                orHeader = upstream_headers auth r t apiKey, orBody = body, orTimeout = timeout\<rparr> of
               (Inl e, w') \<Rightarrow> (err (classifyTransportError e) (e \<noteq> Tr_deadline \<and> e \<noteq> Tr_canceled) (Transport e), w')
             | (Inr resp, w') \<Rightarrow> (Inr resp, w'))))"

text \<open>An error answer of a pooled key is cut, and may exhaust the key.\<close>

definition plain_body :: "'w net \<Rightarrow> nat \<Rightarrow> response \<Rightarrow> string \<Rightarrow> string" where
  "plain_body net n resp body = (if equal_fold (h_get (rsHeader resp) ''Content-Encoding'') ''gzip''
     then (case netGunzip net n body of None \<Rightarrow> body | Some d \<Rightarrow> d) else body)"

definition check_exhaustion :: "'w net \<Rightarrow> response \<Rightarrow> int \<Rightarrow> key_pool \<Rightarrow> time \<Rightarrow> response \<times> key_pool" where
  "check_exhaustion net resp ki p now = (if ki < 0 \<or> rsStatus resp < 400 then (resp, p) else
     let cut = take 4096 (rsBody resp); text = plain_body net 8192 resp cut in
     (resp\<lparr>rsBody := cut, rsBroken := False\<rparr>,
      (case isKeyExhausted (rsStatus resp) text of None \<Rightarrow> p | Some c \<Rightarrow> markExhaustedWithError p ki c text now)))"

text \<open>The outcome, the index of the key, the state of the target and the world.\<close>

definition forwardRequest :: "'w net \<Rightarrow> provider_registry \<Rightarrow> duration \<Rightarrow> request \<Rightarrow> target_state \<Rightarrow> string \<Rightarrow> 'w \<Rightarrow>
    (forward_error + response) \<times> int \<times> target_state \<times> 'w" where
  "forwardRequest net reg timeout r ts body w =
     (let t = tsTarget ts; startedAt = netNow net w in
      case tsKeyPool ts of
        None \<Rightarrow> (let (res, w1) = send_request net reg timeout r t (tAPIKey t) body startedAt w in (res, -1, ts, w1))
      | Some p \<Rightarrow>
        (case choose_key net reg t (affinity_id r) p w of
           (None, p1, w1) \<Rightarrow> (Inl \<lparr>feStatus = 503, feRetryable = False, feReason = All_keys_exhausted,
              feStartedAt = startedAt, feUpstreamURL = [], feUpstreamFullURL = []\<rparr>, -1, ts\<lparr>tsKeyPool := Some p1\<rparr>, w1)
         | (Some (apiKey, ki), p1, w1) \<Rightarrow>
           let p2 = acquireInFlight p1 ki in
           (case send_request net reg timeout r t apiKey body startedAt w1 of
              (Inl e, w2) \<Rightarrow> (Inl e, ki, ts\<lparr>tsKeyPool := Some (releaseInFlight p2 ki)\<rparr>, w2)
            | (Inr resp, w2) \<Rightarrow> let (resp', p3) = check_exhaustion net resp ki p2 (netNow net w2) in
                (Inr resp', ki, ts\<lparr>tsKeyPool := Some p3\<rparr>, w2))))"

text \<open>Closing the body of an answer gives the key's place back.\<close>

definition close_body :: "target_state \<Rightarrow> int \<Rightarrow> target_state" where
  "close_body ts ki = ts\<lparr>tsKeyPool := map_option (\<lambda>p. releaseInFlight p ki) (tsKeyPool ts)\<rparr>"

definition handleForwardError :: "target_state \<Rightarrow> duration \<Rightarrow> time \<Rightarrow> target_state" where
  "handleForwardError ts quiet now = markFailure ts now quiet"

end
