(* ===== verification/Catalog.thy ===== *)
theory Catalog
  imports Prelude
begin

text \<open>
  The catalogue of models (\<open>internal/catalog\<close>) from its decoded records, and the table of costs
  built from it and the configured costs (\<open>internal/costutil\<close>). A pointer into the entries of the
  catalogue is the entry; a float is a real number.
\<close>

record cost =
  coInput :: real
  coOutput :: real
  coCachedInput :: real
  coCacheRead :: real

record model_entry =
  meEndpointType :: string
  meModel :: string
  meDisplayName :: string
  meAliases :: "string list"
  meCapabilities :: "string list"
  meDefaultCost :: "cost option"
  meContextWindow :: int
  meMaxOutputTokens :: int
  meMaxInputTokens :: int
  meModelFamily :: string

record catalog =
  catEntries :: "model_entry list"
  catIndex :: "string \<rightharpoonup> model_entry"
  catAliasIndex :: "string \<rightharpoonup> string"

definition catalog_key :: "string \<Rightarrow> string \<Rightarrow> string" where
  "catalog_key ep m = ep @ '':'' @ m"

definition add_alias :: "string \<Rightarrow> string \<Rightarrow> (string \<rightharpoonup> string) \<Rightarrow> string \<Rightarrow> (string \<rightharpoonup> string)" where
  "add_alias ep model ix alias = (let a = to_lower (trim_space alias) in
     if a \<noteq> [] \<and> a \<noteq> model then ix(catalog_key ep a \<mapsto> model) else ix)"

definition add_entry :: "catalog \<Rightarrow> model_entry \<Rightarrow> catalog" where
  "add_entry c e0 = (let e = e0\<lparr>meModel := to_lower (trim_space (meModel e0)), meEndpointType := to_lower (trim_space (meEndpointType e0))\<rparr>
     in c\<lparr>catEntries := catEntries c @ [e], catIndex := (catIndex c)(catalog_key (meEndpointType e) (meModel e) \<mapsto> e),
          catAliasIndex := foldl (add_alias (meEndpointType e) (meModel e)) (catAliasIndex c) (meAliases e)\<rparr>)"

definition newFromData :: "model_entry list \<Rightarrow> catalog" where
  "newFromData es = foldl add_entry \<lparr>catEntries = [], catIndex = Map.empty, catAliasIndex = Map.empty\<rparr> es"

definition lookup :: "catalog \<Rightarrow> string \<Rightarrow> string \<Rightarrow> model_entry option" where
  "lookup c endpointType model = (let ep = to_lower (trim_space endpointType); m = to_lower (trim_space model); key = catalog_key ep m in
     case catIndex c key of Some e \<Rightarrow> Some e | None \<Rightarrow>
       (case catAliasIndex c key of Some canonical \<Rightarrow> catIndex c (catalog_key ep canonical) | None \<Rightarrow> None))"

definition lookupDefaultCost :: "catalog \<Rightarrow> string \<Rightarrow> string \<Rightarrow> cost option" where
  "lookupDefaultCost c endpointType model = (case lookup c endpointType model of None \<Rightarrow> None | Some e \<Rightarrow> meDefaultCost e)"

definition listByEndpointType :: "catalog \<Rightarrow> string \<Rightarrow> model_entry list" where
  "listByEndpointType c endpointType = filter (\<lambda>e. meEndpointType e = to_lower (trim_space endpointType)) (catEntries c)"

definition resolveAlias :: "catalog \<Rightarrow> string \<Rightarrow> string \<Rightarrow> string" where
  "resolveAlias c endpointType model = (let m = to_lower (trim_space model) in
     case catAliasIndex c (catalog_key (to_lower (trim_space endpointType)) m) of Some canonical \<Rightarrow> canonical | None \<Rightarrow> m)"

section \<open>The table of costs\<close>

record model_cost =
  mcModel :: string
  mcCost :: cost

type_synonym cost_table = "string \<rightharpoonup> cost"

definition catalog_layer :: "cost_table \<Rightarrow> model_entry \<Rightarrow> cost_table" where
  "catalog_layer t e = (case meDefaultCost e of None \<Rightarrow> t
     | Some r \<Rightarrow> if meModel e = [] then t else t(to_lower (trim_space (meModel e)) \<mapsto> r))"

definition custom_layer :: "cost_table \<Rightarrow> model_cost \<Rightarrow> cost_table" where
  "custom_layer t c = (let m = to_lower (trim_space (mcModel c)) in if m = [] then t else t(m \<mapsto> mcCost c))"

definition toCostTable :: "model_cost list \<Rightarrow> catalog option \<Rightarrow> cost_table" where
  "toCostTable costs cat = foldl custom_layer
     (case cat of None \<Rightarrow> Map.empty | Some c \<Rightarrow> foldl catalog_layer Map.empty (catEntries c)) costs"

text \<open>
  The price of a model is the last cost configured for it, up to case and surrounding space; a
  model without one has the price of its last catalogue entry with a price, whatever the endpoint
  type of that entry.
\<close>

theorem cost_layers:
  assumes "m \<noteq> []"
  shows "toCostTable costs cat m =
    (case find (\<lambda>c. to_lower (trim_space (mcModel c)) = m) (rev costs) of
       Some c \<Rightarrow> Some (mcCost c)
     | None \<Rightarrow> (case cat of None \<Rightarrow> None | Some c \<Rightarrow>
         (case find (\<lambda>e. meDefaultCost e \<noteq> None \<and> to_lower (trim_space (meModel e)) = m) (rev (catEntries c)) of
            Some e \<Rightarrow> meDefaultCost e | None \<Rightarrow> None)))"
proof -
  have base: "foldl catalog_layer Map.empty es m =
      (case find (\<lambda>e. meDefaultCost e \<noteq> None \<and> to_lower (trim_space (meModel e)) = m) (rev es) of
         Some e \<Rightarrow> meDefaultCost e | None \<Rightarrow> None)" for es
  proof (induction es rule: rev_induct)
    case (snoc e es)
    have "to_lower (trim_space (meModel e)) = m \<Longrightarrow> meModel e \<noteq> []" using assms by auto
    then show ?case using snoc by (auto simp: catalog_layer_def split: option.splits)
  qed simp
  have custom: "foldl custom_layer t costs m =
      (case find (\<lambda>c. to_lower (trim_space (mcModel c)) = m) (rev costs) of Some c \<Rightarrow> Some (mcCost c) | None \<Rightarrow> t m)" for t
    using assms by (induction costs rule: rev_induct) (auto simp: custom_layer_def Let_def)
  show ?thesis
    unfolding toCostTable_def custom by (simp add: base split: option.splits)
qed

definition demo_cost :: "real \<Rightarrow> cost" where
  "demo_cost r = \<lparr>coInput = r, coOutput = 2 * r, coCachedInput = 0, coCacheRead = 0\<rparr>"

definition demo_entry :: model_entry where
  "demo_entry = \<lparr>meEndpointType = ''openai'', meModel = '' GPT-5 '', meDisplayName = [], meAliases = [''gpt5''],
     meCapabilities = [], meDefaultCost = Some (demo_cost 3), meContextWindow = 0, meMaxOutputTokens = 0,
     meMaxInputTokens = 0, meModelFamily = []\<rparr>"

theorem cost_layers_witness:
  "toCostTable [\<lparr>mcModel = ''Gpt-5'', mcCost = demo_cost 5\<rparr>] (Some (newFromData [demo_entry])) ''gpt-5'' = Some (demo_cost 5) \<and>
   toCostTable [] (Some (newFromData [demo_entry])) ''gpt-5'' = Some (demo_cost 3)"
proof -
  have m: "to_lower (trim_space ''Gpt-5'') = ''gpt-5''" "to_lower (trim_space '' GPT-5 '') = ''gpt-5''"
    "to_lower (trim_space ''gpt-5'') = ''gpt-5''" by code_simp+
  have e: "catEntries (newFromData [demo_entry]) = [demo_entry\<lparr>meModel := ''gpt-5'', meEndpointType := to_lower (trim_space ''openai'')\<rparr>]"
    by (simp add: newFromData_def add_entry_def Let_def demo_entry_def m)
  show ?thesis
    using cost_layers[of "''gpt-5''" "[\<lparr>mcModel = ''Gpt-5'', mcCost = demo_cost 5\<rparr>]" "Some (newFromData [demo_entry])"]
      cost_layers[of "''gpt-5''" "[]" "Some (newFromData [demo_entry])"]
    by (simp add: m e) (simp add: demo_entry_def)
qed

text \<open>A name found in the catalogue resolves through its alias only when it is not a model itself.\<close>

lemma lookup_direct: "catIndex c (catalog_key (to_lower (trim_space ep)) (to_lower (trim_space m))) = Some e \<Longrightarrow> lookup c ep m = Some e"
  by (simp add: lookup_def Let_def)

end
