(* ===== verification/Usage_Agg.thy ===== *)
theory Usage_Agg
  imports Catalog Civil_Time Bodies
begin

text \<open>
  The usage store (\<open>internal/usage/types.go\<close>, \<open>internal/nosql/usage.go\<close>, \<open>usage_agg.go\<close>): the events and
  the cells that add them up by the hour. The database is the two buckets; the key of a cell is its
  hour, as the number of hours since the zero time, and the rest of the key as the text it is. The
  key's hour has a fixed width in the store, so that keys sort by hour first, as they do here.
\<close>

section \<open>Events, costs and totals\<close>

record usage_event =
  ueTimestamp :: time
  ueClientName :: string
  ueEndpointType :: string
  ueModel :: string
  ueInput :: int
  ueOutput :: int
  ueCached :: int
  ueCacheCreation :: int
  ueRequestID :: string
  ueTarget :: string
  uePath :: string
  ueStatus :: int

record usage_filter =
  ufFrom :: "time option"
  ufTo :: "time option"
  ufClientName :: string
  ufModel :: string

record totals =
  toRequests :: int
  toInput :: int
  toOutput :: int
  toCached :: int
  toCacheCreation :: int
  toCost :: real

definition zero_totals :: totals where
  "zero_totals = \<lparr>toRequests = 0, toInput = 0, toOutput = 0, toCached = 0, toCacheCreation = 0, toCost = 0\<rparr>"

definition lookupCost :: "cost_table \<Rightarrow> string \<Rightarrow> cost option" where
  "lookupCost ct model = (let m = to_lower (trim_space model) in if m = [] then None else ct m)"

definition token_cost :: "cost \<Rightarrow> int \<Rightarrow> int \<Rightarrow> int \<Rightarrow> int \<Rightarrow> real" where
  "token_cost r input output cached creation =
     of_int input / 1000000 * coInput r + of_int output / 1000000 * coOutput r +
     of_int creation / 1000000 * coCachedInput r + of_int cached / 1000000 * coCacheRead r"

definition estimateEventCost :: "usage_event \<Rightarrow> cost_table \<Rightarrow> real" where
  "estimateEventCost e costs = (case lookupCost costs (ueModel e) of None \<Rightarrow> 0
     | Some r \<Rightarrow> token_cost r (ueInput e) (ueOutput e) (ueCached e) (ueCacheCreation e))"

definition addEventTotals :: "totals \<Rightarrow> usage_event \<Rightarrow> cost_table \<Rightarrow> totals" where
  "addEventTotals t e costs = \<lparr>toRequests = toRequests t + 1, toInput = toInput t + ueInput e,
     toOutput = toOutput t + ueOutput e, toCached = toCached t + ueCached e,
     toCacheCreation = toCacheCreation t + ueCacheCreation e, toCost = toCost t + estimateEventCost e costs\<rparr>"

definition usageFilterMatch :: "usage_event \<Rightarrow> usage_filter \<Rightarrow> string \<Rightarrow> string \<Rightarrow> bool" where
  "usageFilterMatch e f clientKey modelKey =
     ((case ufFrom f of None \<Rightarrow> True | Some a \<Rightarrow> a \<le> ueTimestamp e) \<and>
      (case ufTo f of None \<Rightarrow> True | Some b \<Rightarrow> ueTimestamp e \<le> b) \<and>
      (clientKey = [] \<or> ueClientName e = clientKey) \<and> (modelKey = [] \<or> to_lower (ueModel e) = modelKey))"

definition filterEvents :: "usage_event list \<Rightarrow> usage_filter \<Rightarrow> usage_event list" where
  "filterEvents es f = filter (\<lambda>e. usageFilterMatch e f (trim_space (ufClientName f)) (to_lower (trim_space (ufModel f)))) es"

definition normalizeGroupBy :: "string \<Rightarrow> string" where
  "normalizeGroupBy g = (let g = to_lower (trim_space g) in if g \<noteq> ''hour'' then ''day'' else g)"

definition hour_ns :: int where "hour_ns = 3600000000000"

definition hour_index :: "time \<Rightarrow> int" where
  "hour_index t = t div hour_ns"

definition bucketStartFor :: "time \<Rightarrow> string \<Rightarrow> time" where
  "bucketStartFor t g = (if g = ''hour'' then hour_index t * hour_ns else midnight 0 (day_at 0 t))"

definition stepDuration :: "string \<Rightarrow> duration" where
  "stepDuration g = (if g = ''hour'' then hours 1 else hours 24)"

section \<open>The hourly cells\<close>

record agg_cell =
  acRequests :: int
  acSuccess :: int
  acInput :: int
  acOutput :: int
  acCached :: int
  acCacheCreation :: int

definition zero_cell :: agg_cell where
  "zero_cell = \<lparr>acRequests = 0, acSuccess = 0, acInput = 0, acOutput = 0, acCached = 0, acCacheCreation = 0\<rparr>"

type_synonym agg_key = "int \<times> string"

definition or_unknown :: "string \<Rightarrow> string" where
  "or_unknown s = (if s = [] then ''unknown'' else s)"

definition aggKey :: "time \<Rightarrow> string \<Rightarrow> string \<Rightarrow> string \<Rightarrow> agg_key" where
  "aggKey t et client model = (hour_index t, to_lower (trim_space et) @ ''|'' @ or_unknown (trim_space client) @ ''|'' @
     or_unknown (to_lower (trim_space model)))"

text \<open>Splitting the rest of the key at its first two bars.\<close>

definition parseAggKey :: "agg_key \<Rightarrow> (time \<times> string \<times> string \<times> string) option" where
  "parseAggKey k = (case cut_char (CHR ''|'') (snd k) of
     (et, r, True) \<Rightarrow> (case cut_char (CHR ''|'') r of
        (client, model, True) \<Rightarrow> Some (fst k * hour_ns, et, client, model) | _ \<Rightarrow> None)
   | _ \<Rightarrow> None)"

definition isSuccessStatus :: "int \<Rightarrow> bool" where
  "isSuccessStatus c = (0 < c \<and> c < 500)"

record usage_db =
  udEvents :: "usage_event list"
  udAgg :: "(agg_key \<times> agg_cell) list"

definition bumpAgg :: "(agg_key \<times> agg_cell) list \<Rightarrow> usage_event \<Rightarrow> (agg_key \<times> agg_cell) list" where
  "bumpAgg agg e = (let key = aggKey (ueTimestamp e) (ueEndpointType e) (ueClientName e) (ueModel e);
       c = (case map_of agg key of None \<Rightarrow> zero_cell | Some c \<Rightarrow> c) in
     AList.update key \<lparr>acRequests = acRequests c + 1, acSuccess = acSuccess c + (if isSuccessStatus (ueStatus e) then 1 else 0),
       acInput = acInput c + ueInput e, acOutput = acOutput c + ueOutput e, acCached = acCached c + ueCached e,
       acCacheCreation = acCacheCreation c + ueCacheCreation e\<rparr> agg)"

definition clean_event :: "usage_event \<Rightarrow> time \<Rightarrow> usage_event" where
  "clean_event e now = e\<lparr>ueTimestamp := (if ueTimestamp e = 0 then now else ueTimestamp e),
     ueClientName := trim_space (ueClientName e), ueEndpointType := to_lower (trim_space (ueEndpointType e)),
     ueModel := to_lower (trim_space (ueModel e)), ueRequestID := trim_space (ueRequestID e),
     ueTarget := trim_space (ueTarget e), uePath := trim_space (uePath e)\<rparr>"

definition record_event :: "usage_db \<Rightarrow> usage_event \<Rightarrow> time \<Rightarrow> usage_db" where
  "record_event db e0 now = (let e = clean_event e0 now in
     db\<lparr>udEvents := udEvents db @ [e], udAgg := bumpAgg (udAgg db) e\<rparr>)"

section \<open>Reading the cells\<close>

text \<open>The cells of the hours from one time to another, with their keys taken apart.\<close>

definition aggIter :: "usage_db \<Rightarrow> time \<Rightarrow> time \<Rightarrow> ((time \<times> string \<times> string \<times> string) \<times> agg_cell) list" where
  "aggIter db a b = List.map_filter (\<lambda>(k, c). if hour_index a \<le> fst k \<and> fst k \<le> hour_index b
     then map_option (\<lambda>p. (p, c)) (parseAggKey k) else None) (udAgg db)"

definition count_requests :: "usage_db \<Rightarrow> time \<Rightarrow> time \<Rightarrow> int \<times> int" where
  "count_requests db a b = foldl (\<lambda>(t, s) (_, c). (t + acRequests c, s + acSuccess c)) (0, 0) (aggIter db a b)"

definition addCellToTotals :: "totals \<Rightarrow> agg_cell \<Rightarrow> real \<Rightarrow> totals" where
  "addCellToTotals t c cost = \<lparr>toRequests = toRequests t + acRequests c, toInput = toInput t + acInput c,
     toOutput = toOutput t + acOutput c, toCached = toCached t + acCached c,
     toCacheCreation = toCacheCreation t + acCacheCreation c, toCost = toCost t + cost\<rparr>"

definition aggCellCost :: "agg_cell \<Rightarrow> string \<Rightarrow> cost_table \<Rightarrow> real" where
  "aggCellCost c model costs = (case lookupCost costs model of None \<Rightarrow> 0
     | Some r \<Rightarrow> token_cost r (acInput c) (acOutput c) (acCached c) (acCacheCreation c))"

definition bucketStartFromHour :: "time \<Rightarrow> string \<Rightarrow> time" where
  "bucketStartFromHour h g = (if g = ''hour'' then h else midnight 0 (day_at 0 h))"

definition add_to :: "'k \<Rightarrow> agg_cell \<Rightarrow> real \<Rightarrow> ('k \<Rightarrow> totals option) \<Rightarrow> ('k \<Rightarrow> totals option)" where
  "add_to k c cost m = m(k \<mapsto> addCellToTotals (case m k of None \<Rightarrow> zero_totals | Some t \<Rightarrow> t) c cost)"

record agg_result =
  arTotals :: totals
  arBuckets :: "time \<rightharpoonup> totals"
  arByClient :: "string \<rightharpoonup> totals"
  arByModel :: "string \<rightharpoonup> totals"

text \<open>The result's lists are the maps in the order of their keys.\<close>

definition agg_visit :: "string \<Rightarrow> string \<Rightarrow> string \<Rightarrow> cost_table \<Rightarrow> agg_result \<Rightarrow>
    (time \<times> string \<times> string \<times> string) \<times> agg_cell \<Rightarrow> agg_result" where
  "agg_visit clientKey modelKey groupBy costs r v = (let ((hour, et, client, model), c) = v; cost = aggCellCost c model costs in
     if clientKey \<noteq> [] \<and> client \<noteq> clientKey \<or> modelKey \<noteq> [] \<and> model \<noteq> modelKey then r
     else \<lparr>arTotals = addCellToTotals (arTotals r) c cost,
       arBuckets = add_to (bucketStartFromHour hour groupBy) c cost (arBuckets r),
       arByClient = add_to (or_unknown client) c cost (arByClient r),
       arByModel = add_to (or_unknown model) c cost (arByModel r)\<rparr>)"

definition aggregate :: "usage_db \<Rightarrow> usage_filter \<Rightarrow> string \<Rightarrow> cost_table \<Rightarrow> time \<Rightarrow> agg_result" where
  "aggregate db f groupBy costs now =
     (let a = (case ufFrom f of None \<Rightarrow> 0 | Some a \<Rightarrow> a); b = (case ufTo f of None \<Rightarrow> now + hours 1 | Some b \<Rightarrow> b) in
      foldl (agg_visit (trim_space (ufClientName f)) (to_lower (trim_space (ufModel f))) (normalizeGroupBy groupBy) costs)
        \<lparr>arTotals = zero_totals, arBuckets = Map.empty, arByClient = Map.empty, arByModel = Map.empty\<rparr> (aggIter db a b))"

record summary_result =
  srLastHour :: totals
  srToday :: totals
  srYesterday :: totals
  srLast7Days :: totals
  srLast30Days :: totals

definition add_window :: "bool \<Rightarrow> totals \<Rightarrow> agg_cell \<Rightarrow> real \<Rightarrow> totals" where
  "add_window b t c cost = (if b then addCellToTotals t c cost else t)"

definition summary :: "usage_db \<Rightarrow> time \<Rightarrow> cost_table \<Rightarrow> summary_result" where
  "summary db now costs =
     (let todayStart = midnight 0 (day_at 0 now); lastHourStart = now - hours 1;
          yStart = midnight 0 (day_at 0 (add_date 0 now 0 0 (-1))); yEnd = yStart + hours 24;
          last7 = add_date 0 now 0 0 (-7); last30 = add_date 0 now 0 0 (-30);
          lh = foldl (\<lambda>t e. if now < ueTimestamp e \<or> ueTimestamp e < lastHourStart then t else addEventTotals t e costs)
                 zero_totals (udEvents db);
          step = (\<lambda>s ((hour, _, _, model), c). let cost = aggCellCost c model costs; ok = last30 \<le> hour \<and> hour \<le> now in
            s\<lparr>srLast30Days := add_window ok (srLast30Days s) c cost,
              srLast7Days := add_window (ok \<and> last7 \<le> hour) (srLast7Days s) c cost,
              srToday := add_window (ok \<and> todayStart \<le> hour) (srToday s) c cost,
              srYesterday := add_window (ok \<and> yStart \<le> hour \<and> hour < yEnd) (srYesterday s) c cost\<rparr>)
      in foldl step \<lparr>srLastHour = lh, srToday = zero_totals, srYesterday = zero_totals, srLast7Days = zero_totals,
           srLast30Days = zero_totals\<rparr> (aggIter db last30 now))"

text \<open>The cells of one client, grouped by endpoint type and model.\<close>

definition add_usage :: "agg_cell option \<Rightarrow> agg_cell \<Rightarrow> agg_cell" where
  "add_usage t c = (let t = (case t of None \<Rightarrow> zero_cell | Some t \<Rightarrow> t) in
     t\<lparr>acInput := acInput t + acInput c, acOutput := acOutput t + acOutput c,
       acCached := acCached t + acCached c, acCacheCreation := acCacheCreation t + acCacheCreation c\<rparr>)"

definition sumByClientRange :: "usage_db \<Rightarrow> string \<Rightarrow> time \<Rightarrow> time \<Rightarrow> (string \<times> agg_cell) list" where
  "sumByClientRange db client a b = (if hour_index b < hour_index a then []
     else foldl (\<lambda>m ((_, et, kClient, model), c). if kClient \<noteq> trim_space client then m
         else let g = et @ '':'' @ model in AList.update g (add_usage (map_of m g) c) m) [] (aggIter db a b))"

end
