(* ===== verification/Quota.thy ===== *)
theory Quota
  imports Usage_Agg
begin

text \<open>
  Quotas of clients in dollars by day, week and month (\<open>internal/quota\<close>): the periods, the counters
  in memory with their map of exceeded clients, and the evaluation from the usage store. The stores
  the manager reads are one record; a store that is nil, or a list of clients that fails, is \<open>None\<close>,
  and reading the usage store and the next reset of a known period do not fail. Dollars are real
  numbers. One operation reads the clock once.
\<close>

section \<open>Periods\<close>

datatype dimension = Daily | Weekly | Monthly

definition dimensions :: "dimension list" where
  "dimensions = [Daily, Weekly, Monthly]"

text \<open>Times are in UTC; the range of a period ends now.\<close>

definition periodStart :: "dimension \<Rightarrow> time \<Rightarrow> time" where
  "periodStart d now = (let n = day_at 0 now in case d of
     Daily \<Rightarrow> midnight 0 n
   | Weekly \<Rightarrow> (let offset = (weekday n + 6) mod 7 in midnight 0 (day_at 0 (add_date 0 now 0 0 (- offset))))
   | Monthly \<Rightarrow> midnight 0 (date_days (year_of n) (month_of n) 1))"

definition nextResetAt :: "dimension \<Rightarrow> time \<Rightarrow> time" where
  "nextResetAt d now = (let n = day_at 0 now in case d of
     Daily \<Rightarrow> midnight 0 (day_at 0 (add_date 0 now 0 0 1))
   | Weekly \<Rightarrow> (let offset = (weekday n + 6) mod 7 in midnight 0 (day_at 0 (add_date 0 now 0 0 (7 - offset))))
   | Monthly \<Rightarrow> midnight 0 (date_days (year_of n) (month_of n + 1) 1))"

section \<open>State\<close>

record quota_client =
  qcName :: string
  qcDaily :: real
  qcWeekly :: real
  qcMonthly :: real

definition limit_of :: "quota_client \<Rightarrow> dimension \<Rightarrow> real" where
  "limit_of c d = (case d of Daily \<Rightarrow> qcDaily c | Weekly \<Rightarrow> qcWeekly c | Monthly \<Rightarrow> qcMonthly c)"

definition no_quota :: "quota_client \<Rightarrow> bool" where
  "no_quota c = (qcDaily c \<le> 0 \<and> qcWeekly c \<le> 0 \<and> qcMonthly c \<le> 0)"

record quota_stores =
  qsClients :: "quota_client list option"
  qsUsage :: "usage_db option"
  qsCosts :: cost_table

record dim_counter =
  dcLimit :: real
  dcUsed :: real
  dcResetsAt :: time

type_synonym client_counters = "dimension \<rightharpoonup> dim_counter"

record exceeded_info =
  exDimension :: dimension
  exLimit :: real
  exUsed :: real
  exResetsAt :: time

record quota_manager =
  qmExceeded :: "string \<rightharpoonup> exceeded_info"
  qmCounters :: "string \<rightharpoonup> client_counters"

definition new_manager :: quota_manager where
  "new_manager = \<lparr>qmExceeded = Map.empty, qmCounters = Map.empty\<rparr>"

definition find_client :: "quota_stores \<Rightarrow> string \<Rightarrow> quota_client option" where
  "find_client st name = (case qsClients st of None \<Rightarrow> None | Some cs \<Rightarrow> find (\<lambda>c. qcName c = name) cs)"

definition over_limit :: "dim_counter \<Rightarrow> bool" where
  "over_limit dc = (0 < dcLimit dc \<and> dcLimit dc \<le> dcUsed dc)"

definition info_of :: "dimension \<Rightarrow> dim_counter \<Rightarrow> exceeded_info" where
  "info_of d dc = \<lparr>exDimension = d, exLimit = dcLimit dc, exUsed = dcUsed dc, exResetsAt = dcResetsAt dc\<rparr>"

text \<open>The first dimension over its limit, by day, week and month.\<close>

definition first_exceeded :: "client_counters \<Rightarrow> exceeded_info option" where
  "first_exceeded cc = (case find (\<lambda>d. case cc d of None \<Rightarrow> False | Some dc \<Rightarrow> over_limit dc) dimensions of
     None \<Rightarrow> None | Some d \<Rightarrow> Some (info_of d (the (cc d))))"

definition clear_client :: "quota_manager \<Rightarrow> string \<Rightarrow> quota_manager" where
  "clear_client m name = m\<lparr>qmExceeded := (qmExceeded m)(name := None), qmCounters := (qmCounters m)(name := None)\<rparr>"

section \<open>Evaluation from the store\<close>

text \<open>The model of a group is the part of its key after the first colon.\<close>

definition group_model :: "string \<Rightarrow> string" where
  "group_model g = (case cut_char (CHR '':'') g of (_, m, True) \<Rightarrow> m | _ \<Rightarrow> g)"

definition group_cost :: "cost_table \<Rightarrow> string \<times> agg_cell \<Rightarrow> real" where
  "group_cost costs g = (case lookupCost costs (group_model (fst g)) of None \<Rightarrow> 0
     | Some r \<Rightarrow> token_cost r (acInput (snd g)) (acOutput (snd g)) (acCached (snd g)) (acCacheCreation (snd g)))"

definition period_cost :: "usage_db \<Rightarrow> cost_table \<Rightarrow> string \<Rightarrow> time \<Rightarrow> time \<Rightarrow> real" where
  "period_cost db costs name a b = foldl (\<lambda>u g. u + group_cost costs g) 0 (sumByClientRange db name a b)"

definition eval_counters :: "usage_db \<Rightarrow> cost_table \<Rightarrow> quota_client \<Rightarrow> time \<Rightarrow> client_counters" where
  "eval_counters db costs c now = (\<lambda>d. if limit_of c d \<le> 0 then None
     else Some \<lparr>dcLimit = limit_of c d, dcUsed = period_cost db costs (qcName c) (periodStart d now) now,
                dcResetsAt = nextResetAt d now\<rparr>)"

definition evaluate :: "quota_stores \<Rightarrow> quota_manager \<Rightarrow> string \<Rightarrow> time \<Rightarrow> quota_manager" where
  "evaluate st m name now =
     (case (qsClients st, qsUsage st) of
        (Some cs, Some db) \<Rightarrow>
          (case find (\<lambda>c. qcName c = name) cs of
             None \<Rightarrow> clear_client m name
           | Some c \<Rightarrow> if no_quota c then clear_client m name else
               let cc = eval_counters db (qsCosts st) c now in
               m\<lparr>qmExceeded := (qmExceeded m)(name := first_exceeded cc), qmCounters := (qmCounters m)(name \<mapsto> cc)\<rparr>)
      | _ \<Rightarrow> m)"

definition list_with_quota :: "quota_stores \<Rightarrow> quota_client list" where
  "list_with_quota st = (case qsClients st of None \<Rightarrow> []
     | Some cs \<Rightarrow> filter (\<lambda>c. 0 < qcDaily c \<or> 0 < qcWeekly c \<or> 0 < qcMonthly c) cs)"

definition calibrateAll :: "quota_stores \<Rightarrow> quota_manager \<Rightarrow> time \<Rightarrow> quota_manager" where
  "calibrateAll st m now = foldl (\<lambda>m c. evaluate st m (qcName c) now) m (list_with_quota st)"

text \<open>The delay to the next full hour.\<close>

definition calibration_delay :: "time \<Rightarrow> duration" where
  "calibration_delay now = (let d = (hour_index now + 1) * hour_ns - now in if d \<le> 0 then seconds 1 else d)"

section \<open>Counting requests\<close>

definition computeCost :: "quota_stores \<Rightarrow> string \<Rightarrow> int \<Rightarrow> int \<Rightarrow> int \<Rightarrow> int \<Rightarrow> real" where
  "computeCost st model input output cached creation = (let m = to_lower (trim_space model) in
     if m = [] then 0 else case lookupCost (qsCosts st) m of None \<Rightarrow> 0 | Some r \<Rightarrow> token_cost r input output cached creation)"

definition config_counters :: "quota_client \<Rightarrow> time \<Rightarrow> client_counters" where
  "config_counters c now = (\<lambda>d. if limit_of c d \<le> 0 then None
     else Some \<lparr>dcLimit = limit_of c d, dcUsed = 0, dcResetsAt = nextResetAt d now\<rparr>)"

definition loadCountersFromConfig :: "quota_stores \<Rightarrow> quota_manager \<Rightarrow> string \<Rightarrow> time \<Rightarrow> client_counters option \<times> quota_manager" where
  "loadCountersFromConfig st m name now = (case find_client st name of None \<Rightarrow> (None, m)
     | Some c \<Rightarrow> if no_quota c then (None, m) else
         let cc = config_counters c now in (Some cc, m\<lparr>qmCounters := (qmCounters m)(name \<mapsto> cc)\<rparr>))"

definition refreshLimit :: "quota_stores \<Rightarrow> string \<Rightarrow> dimension \<Rightarrow> dim_counter \<Rightarrow> dim_counter" where
  "refreshLimit st name d dc = (case find_client st name of None \<Rightarrow> dc | Some c \<Rightarrow> dc\<lparr>dcLimit := limit_of c d\<rparr>)"

definition flip_counter :: "quota_stores \<Rightarrow> string \<Rightarrow> time \<Rightarrow> dimension \<Rightarrow> dim_counter \<Rightarrow> dim_counter" where
  "flip_counter st name now d dc = (if now < dcResetsAt dc then dc
     else refreshLimit st name d (dc\<lparr>dcUsed := 0, dcResetsAt := nextResetAt d now\<rparr>))"

definition add_cost :: "quota_stores \<Rightarrow> string \<Rightarrow> time \<Rightarrow> real \<Rightarrow> client_counters \<Rightarrow> client_counters" where
  "add_cost st name now cost cc = (\<lambda>d. case cc d of None \<Rightarrow> None
     | Some dc \<Rightarrow> (let dc = flip_counter st name now d dc in Some (dc\<lparr>dcUsed := dcUsed dc + cost\<rparr>)))"

definition ensure_counters :: "quota_stores \<Rightarrow> quota_manager \<Rightarrow> string \<Rightarrow> time \<Rightarrow> client_counters option \<times> quota_manager" where
  "ensure_counters st m name now = (case qmCounters m name of Some cc \<Rightarrow> (Some cc, m)
     | None \<Rightarrow> let m1 = evaluate st m name now in
         (case qmCounters m1 name of Some cc \<Rightarrow> (Some cc, m1) | None \<Rightarrow> loadCountersFromConfig st m1 name now))"

definition increment :: "quota_stores \<Rightarrow> quota_manager \<Rightarrow> string \<Rightarrow> string \<Rightarrow> int \<Rightarrow> int \<Rightarrow> int \<Rightarrow> int \<Rightarrow> time \<Rightarrow> quota_manager" where
  "increment st m name model input output cached creation now =
     (let cost = computeCost st model input output cached creation in
      if cost \<le> 0 then m else
      case ensure_counters st m name now of (None, m1) \<Rightarrow> m1
      | (Some cc, m1) \<Rightarrow> let cc' = add_cost st name now cost cc in
          m1\<lparr>qmCounters := (qmCounters m1)(name \<mapsto> cc'), qmExceeded := (qmExceeded m1)(name := first_exceeded cc')\<rparr>)"

section \<open>Admission\<close>

definition stale_counter :: "quota_stores \<Rightarrow> string \<Rightarrow> time \<Rightarrow> time \<Rightarrow> dimension \<Rightarrow> dim_counter \<Rightarrow> dim_counter" where
  "stale_counter st name now resetsAt d dc = (if dcResetsAt dc = resetsAt \<or> dcResetsAt dc \<le> now
     then refreshLimit st name d (dc\<lparr>dcUsed := 0, dcResetsAt := nextResetAt d now\<rparr>) else dc)"

definition check_quota :: "quota_stores \<Rightarrow> quota_manager \<Rightarrow> string \<Rightarrow> time \<Rightarrow> exceeded_info option \<times> quota_manager" where
  "check_quota st m name now = (case qmExceeded m name of None \<Rightarrow> (None, m)
     | Some info \<Rightarrow> if now < exResetsAt info then (Some info, m)
       else (None, m\<lparr>qmExceeded := (qmExceeded m)(name := None),
              qmCounters := (case qmCounters m name of None \<Rightarrow> qmCounters m
                | Some cc \<Rightarrow> (qmCounters m)(name \<mapsto> (\<lambda>d. map_option (stale_counter st name now (exResetsAt info) d) (cc d))))\<rparr>))"

record quota_status =
  qtQuotas :: "dimension \<rightharpoonup> dim_counter"
  qtExceeded :: "exceeded_info option"

definition quota_status :: "quota_stores \<Rightarrow> quota_manager \<Rightarrow> string \<Rightarrow> time \<Rightarrow> quota_status \<times> quota_manager" where
  "quota_status st m name now = (case qmCounters m name of
     Some cc \<Rightarrow> (let (info, m') = check_quota st m name now in (\<lparr>qtQuotas = cc, qtExceeded = info\<rparr>, m'))
   | None \<Rightarrow> (case find_client st name of None \<Rightarrow> (\<lparr>qtQuotas = Map.empty, qtExceeded = None\<rparr>, m)
      | Some c \<Rightarrow> let (info, m') = check_quota st m name now in
          (\<lparr>qtQuotas = (case qsUsage st of Some db \<Rightarrow> eval_counters db (qsCosts st) c now | None \<Rightarrow> config_counters c now),
            qtExceeded = info\<rparr>, m')))"

end
