(* ===== verification/Service.thy ===== *)
theory Service
  imports Forward Quota Usage_Tokens
begin

text \<open>
  The proxy service (\<open>internal/proxy/service.go\<close>, with the local model list of \<open>models.go\<close> and the
  answer's way back in \<open>forward.go\<close>): its state, the admission of a request, the loop over the keys of
  a target, the loop over targets, what is written to the client and what is recorded, and the
  operations of the administration. The usage recorder and the usage store of the quotas are one
  store, as \<open>cmd/proxy\<close> wires them. A request is handled from its start to its end: requests that
  run at the same time meet in the pools, whose methods are single steps. The two loops take a bound
  on their rounds and give \<open>None\<close> when it does not suffice.
\<close>

section \<open>State and answers\<close>

record service = proxy +
  svRegistry :: provider_registry
  svTimeout :: duration
  svQuiet :: duration
  svTotalRequests :: int
  svTotalSuccess :: int
  svTotalFailures :: int
  svTotalKeyRetries :: int
  svTotalTargetRetries :: int
  svActiveRequests :: int
  svStartTime :: time
  svQuota :: "quota_manager option"
  svStores :: quota_stores
  svCatalog :: "catalog option"
  svTrace :: trace_store
  svErrorLog :: "error_entry list"

text \<open>
  A body is bytes, or the text of one of the errors with values in it. \<open>Panicked\<close> is a handler that
  panics, which the middleware turns into a 500.
\<close>

datatype reply_body = Bytes string | Selection_text selection_error | Model_text model_error | Quota_text exceeded_info

record reply =
  rpStatus :: int
  rpHeader :: headers
  rpBody :: reply_body

datatype outcome = Replied reply | Panicked

definition http_error :: "reply_body \<Rightarrow> int \<Rightarrow> reply" where
  "http_error b status = \<lparr>rpStatus = status, rpHeader =
     [(''content-type'', [''text/plain; charset=utf-8'']), (''x-content-type-options'', [''nosniff''])], rpBody = b\<rparr>"

definition error_text :: "string \<Rightarrow> int \<Rightarrow> reply" where
  "error_text msg status = http_error (Bytes (msg @ [char_of (10::nat)])) status"

definition status_text :: "int \<Rightarrow> string" where
  "status_text c = (if c = 400 then ''Bad Request'' else if c = 500 then ''Internal Server Error''
     else if c = 502 then ''Bad Gateway'' else if c = 503 then ''Service Unavailable''
     else if c = 504 then ''Gateway Timeout'' else [])"

definition normalizeRequestTimeout :: "duration \<Rightarrow> duration" where
  "normalizeRequestTimeout t = (if t \<le> 0 then seconds 1800 else t)"

definition getRequestTimeout :: "service \<Rightarrow> duration" where
  "getRequestTimeout sv = (if svTimeout sv \<le> 0 then normalizeRequestTimeout 0 else svTimeout sv)"

text \<open>A failed and a successful request, as the counters see them.\<close>

definition count_failure :: "service \<Rightarrow> service" where
  "count_failure sv = sv\<lparr>svTotalFailures := svTotalFailures sv + 1\<rparr>"

definition count_success :: "service \<Rightarrow> service" where
  "count_success sv = sv\<lparr>svTotalSuccess := svTotalSuccess sv + 1\<rparr>"

definition put_state :: "service \<Rightarrow> nat \<Rightarrow> target_state \<Rightarrow> service" where
  "put_state sv i ts = sv\<lparr>pxOrder := (pxOrder sv)[i := ts]\<rparr>"

section \<open>Recording\<close>

definition recordUsageEvent :: "service \<Rightarrow> nat \<Rightarrow> request \<Rightarrow> int \<Rightarrow> string \<Rightarrow> string \<Rightarrow> string \<Rightarrow> int \<Rightarrow> time \<Rightarrow> service" where
  "recordUsageEvent sv i r status upstreamModel ct body ki now =
     (case (qsUsage (svStores sv), rqPrincipal r) of
        (Some db, Some pr) \<Rightarrow>
          (case extractUsageTokens ct body of None \<Rightarrow> sv
           | Some (tok, parsed) \<Rightarrow>
             let ts = the_state sv i; t = tsTarget ts;
                 ts' = (if ki < 0 then ts else
                   ts\<lparr>tsKeyPool := map_option (\<lambda>p. recordTokens p ki (utInput tok + utOutput tok) now) (tsKeyPool ts)\<rparr>);
                 m0 = to_lower (trim_space upstreamModel); m = (if m0 = [] then parsed else m0);
                 e = \<lparr>ueTimestamp = now, ueClientName = prName pr, ueEndpointType = tEndpointType t, ueModel = m,
                   ueInput = utInput tok, ueOutput = utOutput tok, ueCached = utCached tok,
                   ueCacheCreation = utCacheCreation tok, ueRequestID = rqId r, ueTarget = tName t,
                   uePath = uPath (rqURL r), ueStatus = status\<rparr>;
                 st = (svStores sv)\<lparr>qsUsage := Some (record_event db e now)\<rparr> in
             (put_state sv i ts')\<lparr>svStores := st, svQuota := map_option (\<lambda>q. increment st q (prName pr) m
                (utInput tok) (utOutput tok) (utCached tok) (utCacheCreation tok) now) (svQuota sv)\<rparr>)
      | _ \<Rightarrow> sv)"

definition milliseconds :: "duration \<Rightarrow> int" where
  "milliseconds d = d div 1000000"

definition writeUpstreamErrorLog :: "'w net \<Rightarrow> service \<Rightarrow> request \<Rightarrow> target \<Rightarrow> response \<Rightarrow> string \<Rightarrow> time \<Rightarrow> time \<Rightarrow> service" where
  "writeUpstreamErrorLog net sv r t resp body startedAt now = sv\<lparr>svErrorLog := errorlog_write (svErrorLog sv)
     \<lparr>eeTraceID = rqId r, eeKind = (if 500 \<le> rsStatus resp then KindUpstream5xx else KindUpstream4xx), eeMethod = rqMethod r,
      eePath = uPath (rqURL r), eeClientIP = clientIP r, eeTarget = tName t, eeEndpointType = tEndpointType t,
      eeUpstreamURL = stripURLQuery (url_string (tEndpoint t)),
      eeUpstreamFullURL = (case rsURL resp of None \<Rightarrow> [] | Some u \<Rightarrow> url_string u), eeUpstreamStatus = rsStatus resp,
      eeDurationMS = milliseconds (now - startedAt), eeReqBytes = rqContentLength r, eeRespBytes = int (length body),
      eeRespExcerpt = take 1024 (if equal_fold (h_get (rsHeader resp) ''Content-Encoding'') ''gzip''
        then (case netGunzip net 2048 body of None \<Rightarrow> body | Some d \<Rightarrow> d) else body)\<rparr>\<rparr>"

definition writeForwardErrorLog :: "service \<Rightarrow> request \<Rightarrow> target \<Rightarrow> forward_error \<Rightarrow> time \<Rightarrow> service" where
  "writeForwardErrorLog sv r t fe now = sv\<lparr>svErrorLog := errorlog_write (svErrorLog sv)
     \<lparr>eeTraceID = rqId r, eeKind = KindUpstreamNetErr, eeMethod = rqMethod r, eePath = uPath (rqURL r),
      eeClientIP = clientIP r, eeTarget = tName t, eeEndpointType = tEndpointType t, eeUpstreamURL = feUpstreamURL fe,
      eeUpstreamFullURL = feUpstreamFullURL fe, eeUpstreamStatus = 0,
      eeDurationMS = (if feStartedAt fe = 0 then 0 else milliseconds (now - feStartedAt fe)),
      eeReqBytes = rqContentLength r, eeRespBytes = 0, eeRespExcerpt = []\<rparr>\<rparr>"

definition key_mask :: "target \<Rightarrow> int \<Rightarrow> string" where
  "key_mask t ki = (let keys = (if tAPIKeys t = [] \<and> tAPIKey t \<noteq> [] then [tAPIKey t] else tAPIKeys t) in
     if 0 \<le> ki \<and> ki < int (length keys) then maskAPIKey (keys ! nat ki) else [])"

definition recordTrace :: "'w net \<Rightarrow> service \<Rightarrow> request \<Rightarrow> target \<Rightarrow> response \<Rightarrow> string \<Rightarrow> string \<Rightarrow> time \<Rightarrow> int \<Rightarrow> string \<Rightarrow> time \<Rightarrow> service" where
  "recordTrace net sv r t resp reqBody respBody startedAt ki upstreamModel now = sv\<lparr>svTrace := trace_record_step (svTrace sv)
     \<lparr>trTraceID = rqId r, trTimestamp = startedAt,
      trClientName = (case rqPrincipal r of None \<Rightarrow> [] | Some p \<Rightarrow> prName p), trClientIP = clientIP r,
      trClientAccessKey = (case rqPrincipal r of None \<Rightarrow> [] | Some p \<Rightarrow> maskAPIKey (prAccessKey p)), trMethod = rqMethod r,
      trPath = uPath (rqURL r), trQueryParams = sanitizeTraceRawQuery (uRawQuery (rqURL r)),
      trRequestHeaders = trace_headers False (rqHeader r), trTarget = tName t, trEndpointType = tEndpointType t,
      trModel = upstreamModel, trKeyIndex = ki, trKeyMask = key_mask t ki,
      trUpstreamURL = (case rsURL resp of None \<Rightarrow> [] | Some u \<Rightarrow> url_string (u\<lparr>uRawQuery := sanitizeTraceRawQuery (uRawQuery u)\<rparr>)),
      trUpstreamRequestID = h_get (rsHeader resp) ''X-Request-Id'', trUpstreamStatus = rsStatus resp,
      trUpstreamHeaders = trace_headers True (rsHeader resp), trStatusCode = rsStatus resp,
      trDurationMS = milliseconds (now - startedAt), trRequestBody = reqBody,
      trResponseBody = (if respBody \<noteq> [] then plain_body net (tcMaxBodySize (rbCfg (svTrace sv))) resp respBody else respBody)\<rparr>\<rparr>"

section \<open>The answer's way back\<close>

definition proxy_headers :: "response \<Rightarrow> target \<Rightarrow> headers \<Rightarrow> headers" where
  "proxy_headers resp t h = (let h1 = h_set (h_set h ''X-Proxy-Target'' (tName t)) ''X-Azure-Target'' (tName t) in
     if h_get (rsHeader resp) ''X-Request-Id'' \<noteq> [] then h_set h1 ''X-Upstream-Request-Id'' (h_get (rsHeader resp) ''X-Request-Id'') else h1)"

definition write_aggregated :: "service \<Rightarrow> nat \<Rightarrow> request \<Rightarrow> response \<Rightarrow> string \<Rightarrow> string \<Rightarrow> int \<Rightarrow> time \<Rightarrow> reply \<times> service" where
  "write_aggregated sv i r resp agg upstreamModel ki now = (let t = the_target sv i;
       h = h_set (copyHeaders [] (rsHeader resp)) ''Content-Type'' ''application/json'';
       sv1 = count_success (put_state sv i (markSuccess (the_state sv i) now)) in
     (\<lparr>rpStatus = rsStatus resp, rpHeader = h_set (proxy_headers resp t h) ''X-SSE-Aggregated'' ''true'', rpBody = Bytes agg\<rparr>,
      recordUsageEvent sv1 i r (rsStatus resp) upstreamModel ''application/json'' agg ki now))"

definition write_plain :: "'w net \<Rightarrow> service \<Rightarrow> nat \<Rightarrow> request \<Rightarrow> response \<Rightarrow> string \<Rightarrow> string \<Rightarrow> time \<Rightarrow> int \<Rightarrow> time \<Rightarrow> reply \<times> service" where
  "write_plain net sv i r resp upstreamModel reqBody startedAt ki now = (let t = the_target sv i; ts = the_state sv i;
       sv1 = (if isUpstreamFailureStatus (rsStatus resp) then count_failure (put_state sv i (markFailure ts now (svQuiet sv)))
              else count_success (put_state sv i (markSuccess ts now)));
       captured = capture_write 2097152 [] (rsBody resp);
       sv2 = (if 200 \<le> rsStatus resp \<and> rsStatus resp < 300
              then recordUsageEvent sv1 i r (rsStatus resp) upstreamModel (h_get (rsHeader resp) ''Content-Type'') captured ki now else sv1);
       sv3 = (if 400 \<le> rsStatus resp then writeUpstreamErrorLog net sv2 r t resp captured startedAt now else sv2) in
     (\<lparr>rpStatus = rsStatus resp, rpHeader = proxy_headers resp t (copyHeaders [] (rsHeader resp)), rpBody = Bytes (rsBody resp)\<rparr>,
      recordTrace net sv3 r t resp reqBody captured startedAt ki upstreamModel now))"

text \<open>
  An event stream whose reading breaks off while it is aggregated has been consumed: what is passed
  on is empty. The body is closed at the end.
\<close>

definition writeResponse :: "'w net \<Rightarrow> service \<Rightarrow> nat \<Rightarrow> request \<Rightarrow> response \<Rightarrow> string \<Rightarrow> string \<Rightarrow> time \<Rightarrow> int \<Rightarrow> time \<Rightarrow> reply \<times> service" where
  "writeResponse net sv i r resp upstreamModel reqBody startedAt ki now =
     (let agg = 200 \<le> rsStatus resp \<and> rsStatus resp < 300 \<and>
            shouldAggregateSSE (the_target sv i) reqBody (h_get (rsHeader resp) ''Content-Type'');
          (rp, sv') = (if agg \<and> \<not> rsBroken resp then
              (case aggregateSSEResponse (rsBody resp) of
                 Inr a \<Rightarrow> write_aggregated sv i r resp a upstreamModel ki now
               | Inl _ \<Rightarrow> write_plain net sv i r resp upstreamModel reqBody startedAt ki now)
            else write_plain net sv i r (if agg then resp\<lparr>rsBody := []\<rparr> else resp) upstreamModel reqBody startedAt ki now) in
      (rp, put_state sv' i (close_body (the_state sv' i) ki)))"

end
