(* ===== verification/Serve.thy ===== *)
theory Serve
  imports Service
begin

text \<open>
  \<open>ServeHTTP\<close> (\<open>internal/proxy/service.go\<close>): the admission of a request with the local model list
  (\<open>models.go\<close>), the retries over the keys of a target, and the retries over targets.
\<close>

section \<open>The local list of models\<close>

definition unix_seconds :: "time \<Rightarrow> int" where
  "unix_seconds t = t div 1000000000 - 62135596800"

definition catalog_fields :: "catalog option \<Rightarrow> string \<Rightarrow> string \<Rightarrow> (string \<times> json) list" where
  "catalog_fields cat ep upstream = (case cat of None \<Rightarrow> [] | Some c \<Rightarrow> (case lookup c ep upstream of None \<Rightarrow> []
     | Some e \<Rightarrow> (if 0 < meContextWindow e then [(''context_length'', JNum (int_literal (meContextWindow e)))] else []) @
         (if 0 < meMaxOutputTokens e then [(''max_output_tokens'', JNum (int_literal (meMaxOutputTokens e)))] else []) @
         (if meCapabilities e \<noteq> [] then [(''capabilities'', JArr (map JStr (meCapabilities e)))] else [])))"

definition model_item :: "catalog option \<Rightarrow> target \<Rightarrow> string \<Rightarrow> time \<Rightarrow> (string \<times> json) list" where
  "model_item cat t upstream now = [(''object'', JStr ''model''), (''id'', JStr upstream), (''model'', JStr upstream),
     (''created'', JNum (int_literal (unix_seconds now))), (''owned_by'', JStr (''target:'' @ to_lower (trim_space (tName t))))] @
     catalog_fields cat (tEndpointType t) upstream"

definition listed :: "string set option \<Rightarrow> target \<Rightarrow> bool" where
  "listed targetFilter t = (\<not> tPaused t \<and> (case targetFilter of None \<Rightarrow> True | Some f \<Rightarrow> to_lower (trim_space (tName t)) \<in> f))"

text \<open>The upstream names in the order of the targets, each once up to case, with its item.\<close>

definition add_model :: "catalog option \<Rightarrow> time \<Rightarrow> (string \<times> (string \<times> json) list) list \<Rightarrow> target \<times> model_mapping \<Rightarrow>
    (string \<times> (string \<times> json) list) list" where
  "add_model cat now acc tm = (let upstream = trim_space (mmUpstream (snd tm)) in
     if upstream = [] \<or> (\<exists>x \<in> set acc. to_lower (fst x) = to_lower upstream) then acc
     else acc @ [(upstream, model_item cat (fst tm) upstream now)])"

definition local_models :: "service \<Rightarrow> string set option \<Rightarrow> time \<Rightarrow> (string \<times> (string \<times> json) list) list" where
  "local_models sv targetFilter now = foldl (add_model (svCatalog sv) now) []
     (concat (map (\<lambda>s. map (Pair (tsTarget s)) (tModelMappings (tsTarget s))) (filter (\<lambda>s. listed targetFilter (tsTarget s)) (pxOrder sv))))"

definition buildLocalDeployments :: "service \<Rightarrow> string set option \<Rightarrow> time \<Rightarrow> (string \<times> (string \<times> json) list) list" where
  "buildLocalDeployments sv targetFilter now =
     map snd (sort_keys (map (\<lambda>x. (to_lower (fst x), x)) (local_models sv targetFilter now)))"

definition model_list :: "(string \<times> (string \<times> json) list) list \<Rightarrow> string" where
  "model_list items = enc_json (JObj [(''object'', JStr ''list''), (''data'', JArr (map (JObj \<circ> snd) items)),
     (''first_id'', JStr (if items = [] then [] else fst (hd items))),
     (''last_id'', JStr (if items = [] then [] else fst (last items))), (''has_more'', JBool False)]) @ [char_of (10::nat)]"

definition requested_target :: "request \<Rightarrow> string" where
  "requested_target r = (let h = trim_space (h_get (rqHeader r) ''X-Proxy-Target'') in
     if h \<noteq> [] then h else trim_space (query_get (parse_query (uRawQuery (rqURL r))) ''target''))"

definition allowed_filter :: "principal \<Rightarrow> string set option" where
  "allowed_filter pr = (if prAllowAll pr then None else Some (prAllowedTargets pr))"

definition maybeHandleLocalList :: "service \<Rightarrow> request \<Rightarrow> principal \<Rightarrow> time \<Rightarrow> reply option" where
  "maybeHandleLocalList sv r pr now =
     (if rqMethod r \<noteq> ''GET'' \<or> \<not> isListEndpoint (to_lower (uPath (rqURL r))) then None else
      let req = requested_target r; list = (\<lambda>f. Some \<lparr>rpStatus = 200, rpHeader = [(''content-type'', [''application/json''])],
            rpBody = Bytes (model_list (buildLocalDeployments sv f now))\<rparr>) in
      if req = [] then list (allowed_filter pr)
      else if \<not> canAccess (Some pr) (to_lower req) then Some (error_text ''target not allowed'' 403)
      else if targetByName sv (to_lower req) = None then Some (error_text ''unknown target'' 400)
      else list (Some {to_lower req}))"

section \<open>Admission\<close>

text \<open>An answer at once with whether it counts as a success, or the client, its model and the service.\<close>

definition no_targets_reply :: reply where
  "no_targets_reply = \<lparr>rpStatus = 503, rpHeader = [(''content-type'', [''application/json''])],
     rpBody = Bytes (''{'' @ enc_str ''error'' @ '':'' @ enc_str ''no upstream targets configured, add targets via admin UI'' @ ''}'')\<rparr>"

definition quota_reply :: "exceeded_info \<Rightarrow> reply" where
  "quota_reply info = \<lparr>rpStatus = 429, rpHeader = [(''content-type'', [''application/json''])], rpBody = Quota_text info\<rparr>"

definition is_copilot_model :: "string \<Rightarrow> bool" where
  "is_copilot_model model = has_prefix model (to_lower ''Copilot '')"

definition admit :: "service \<Rightarrow> request \<Rightarrow> time \<Rightarrow> ((bool \<times> reply) + (principal \<times> string)) \<times> service" where
  "admit sv r now = (case rqPrincipal r of
       None \<Rightarrow> (Inl (False, error_text ''unauthorized'' 401), sv)
     | Some pr \<Rightarrow>
       if pxOrder sv = [] then (Inl (False, no_targets_reply), sv)
       else if rqBodyError r then (Inl (False, error_text ''failed to read request body'' 400), sv)
       else case maybeHandleLocalList sv r pr now of Some rp \<Rightarrow> (Inl (True, rp), sv)
       | None \<Rightarrow> let model = to_lower (extractModel r (rqBody r)) in
         if model = [] \<and> anyTargetRequiresModel sv
         then (Inl (False, error_text ''model required when model_mappings are configured'' 400), sv)
         else if is_copilot_model model then (Inr (pr, model), sv)
         else case svQuota sv of None \<Rightarrow> (Inr (pr, model), sv)
         | Some q \<Rightarrow> (let (info, q') = check_quota (svStores sv) q (prName pr) now; sv' = sv\<lparr>svQuota := Some q'\<rparr> in
             (case info of Some i \<Rightarrow> (Inl (False, quota_reply i), sv') | None \<Rightarrow> (Inr (pr, model), sv'))))"

section \<open>The loop over the keys of a target\<close>

record key_state =
  klState :: target_state
  klRateRetries :: nat
  klCode :: string
  klStreak :: nat
  klDesperation :: bool
  klRetries :: int

definition key_loop_start :: "target_state \<Rightarrow> key_state" where
  "key_loop_start ts = \<lparr>klState = ts, klRateRetries = 0, klCode = [], klStreak = 0, klDesperation = False, klRetries = 0\<rparr>"

datatype key_step = Stop "forward_error + response" int target_state int | Again key_state

definition backoff :: "response \<Rightarrow> nat \<Rightarrow> duration" where
  "backoff resp n = (case atoi (h_get (rsHeader resp) ''Retry-After'') of
     Some secs \<Rightarrow> if 0 < secs \<and> secs \<le> 10 then seconds secs else seconds (int n) | None \<Rightarrow> seconds (int n))"

text \<open>
  After an error answer of a pooled key: the streak of equal account-level failures is updated; two
  in a row stop the loop, and so does the lack of another key.
\<close>

definition next_key_step :: "key_state \<Rightarrow> response \<Rightarrow> int \<Rightarrow> target_state \<Rightarrow> key_pool \<Rightarrow> time \<Rightarrow> key_step" where
  "next_key_step kl resp ki ts p now =
     (let reason = exhaustReasonAt p ki; acc = isAccountLevelExhaustion reason;
          streak = (if \<not> acc then klStreak kl else if reason = klCode kl then klStreak kl + 1 else 1);
          ts1 = ts\<lparr>tsKeyPool := Some p\<rparr> in
      if acc \<and> 2 \<le> streak then Stop (Inr resp) ki ts1 (klRetries kl) else
      let ((nextKey, nextIdx), p2) = selectKey p now; ts2 = ts\<lparr>tsKeyPool := Some p2\<rparr> in
      if nextKey = [] \<or> nextIdx = ki then Stop (Inr resp) ki ts2 (klRetries kl)
      else Again (kl\<lparr>klState := close_body ts2 ki, klCode := (if acc then reason else klCode kl), klStreak := streak,
        klDesperation := (valid_index p2 nextIdx \<and> exhausted (entries p2 ! nat nextIdx)), klRetries := klRetries kl + 1\<rparr>))"

definition key_step :: "'w net \<Rightarrow> provider_registry \<Rightarrow> duration \<Rightarrow> request \<Rightarrow> string \<Rightarrow> key_state \<Rightarrow> 'w \<Rightarrow> key_step \<times> 'w" where
  "key_step net reg timeout r body kl w =
     (let (res, ki, ts, w1) = forwardRequest net reg timeout r (klState kl) body w in
      case res of Inl e \<Rightarrow> (Stop (Inl e) ki ts (klRetries kl), w1)
      | Inr resp \<Rightarrow>
        if rsStatus resp < 400 then
          (Stop res ki (if klDesperation kl \<and> 0 \<le> ki then ts\<lparr>tsKeyPool := map_option (\<lambda>p. snd (markRecovered p ki)) (tsKeyPool ts)\<rparr> else ts)
             (klRetries kl), w1)
        else if rsStatus resp = 429 \<and> klRateRetries kl < 2 then
          (Again (kl\<lparr>klState := close_body ts ki, klRateRetries := klRateRetries kl + 1, klRetries := klRetries kl + 1\<rparr>),
           netSleep net w1 (backoff resp (klRateRetries kl + 1)))
        else case tsKeyPool ts of None \<Rightarrow> (Stop res ki ts (klRetries kl), w1)
        | Some p \<Rightarrow>
          if ki < 0 then (Stop res ki ts (klRetries kl), w1)
          else if rsStatus resp = 429 then
            (let p1 = releaseInFlight (markRateLimited p ki (netNow net w1)) ki;
                 ((nextKey, _), p2) = selectNextActiveKey p1 ki (netNow net w1); ts2 = ts\<lparr>tsKeyPool := Some p2\<rparr> in
             if nextKey = [] then
               (let (res', ki', ts', w2) = forwardRequest net reg timeout r ts2 body w1 in (Stop res' ki' ts' (klRetries kl), w2))
             else (Again (kl\<lparr>klState := ts2, klRateRetries := 0, klRetries := klRetries kl + 1\<rparr>), w1))
          else (next_key_step kl resp ki ts p (netNow net w1), w1))"

fun key_loop :: "nat \<Rightarrow> 'w net \<Rightarrow> provider_registry \<Rightarrow> duration \<Rightarrow> request \<Rightarrow> string \<Rightarrow> key_state \<Rightarrow> 'w \<Rightarrow>
    ((forward_error + response) \<times> int \<times> target_state \<times> int \<times> 'w) option" where
  "key_loop 0 net reg timeout r body kl w = None"
| "key_loop (Suc n) net reg timeout r body kl w =
     (case key_step net reg timeout r body kl w of
        (Stop res ki ts retries, w') \<Rightarrow> Some (res, ki, ts, retries, w')
      | (Again kl', w') \<Rightarrow> key_loop n net reg timeout r body kl' w')"

section \<open>The loop over targets\<close>

text \<open>
  What the rounds share: the targets tried, the request with its path, and the bodies as the earlier
  rounds have left them.
\<close>

record round_state =
  slAttempted :: "string set"
  slRequest :: request
  slBody :: string
  slSanitized :: "string option"

definition rewrite_model :: "round_state \<Rightarrow> string \<Rightarrow> string \<Rightarrow> round_state" where
  "rewrite_model sl upstream model = (if upstream \<noteq> [] \<and> \<not> equal_fold upstream model then
     sl\<lparr>slRequest := (slRequest sl)\<lparr>rqURL := (rqURL (slRequest sl))\<lparr>uPath := replaceModelInURLPath (uPath (rqURL (slRequest sl))) upstream model\<rparr>\<rparr>,
        slBody := replaceModelInBody (slBody sl) upstream model\<rparr> else sl)"

definition sanitize_body :: "provider_profile option \<Rightarrow> round_state \<Rightarrow> string \<times> round_state" where
  "sanitize_body prof sl = (if (case prof of Some p \<Rightarrow> ppSanitizeAzure p | None \<Rightarrow> False) then
     (let b = (case slSanitized sl of Some s \<Rightarrow> s | None \<Rightarrow> fst (sanitizeRequestBodyForAzure (slRequest sl) (slBody sl))) in
      (b, sl\<lparr>slSanitized := Some b\<rparr>)) else (slBody sl, sl))"

text \<open>The body and the request for the target, before its own fields are added.\<close>

definition convert_body :: "provider_profile option \<Rightarrow> round_state \<Rightarrow> string \<Rightarrow> string \<times> request" where
  "convert_body prof sl forwardBody = (let r = slRequest sl in
     if (case prof of Some p \<Rightarrow> ppPreserveMultipart p | None \<Rightarrow> False) \<or> \<not> needsMultipartConvert r then (forwardBody, r)
     else case convertMultipartToJSON r (slBody sl) of None \<Rightarrow> (forwardBody, r)
     | Some b \<Rightarrow> (b, r\<lparr>rqHeader := h_set (rqHeader r) ''Content-Type'' ''application/json''\<rparr>))"

text \<open>The header is put back unless it was empty.\<close>

definition restore_type :: "request \<Rightarrow> request \<Rightarrow> request" where
  "restore_type orig r = (let ct = h_get (rqHeader orig) ''Content-Type'' in
     if rqHeader r = rqHeader orig \<or> ct = [] then r else r\<lparr>rqHeader := h_set (rqHeader r) ''Content-Type'' ct\<rparr>)"

definition prepare_body :: "service \<Rightarrow> target \<Rightarrow> string \<Rightarrow> string \<Rightarrow> round_state \<Rightarrow> string option \<times> request \<times> round_state" where
  "prepare_body sv t upstream model sl =
     (let sl1 = rewrite_model (sl\<lparr>slAttempted := insert (to_lower (tName t)) (slAttempted sl)\<rparr>) upstream model;
          prof = svRegistry sv (tEndpointType t); (fb, sl2) = sanitize_body prof sl1; (fb2, r2) = convert_body prof sl2 fb in
      (if tCustomBody t \<noteq> [] then injectCustomBody fb2 (tCustomBody t) else Some fb2, r2, sl2))"

text \<open>A round ends with an answer, or with another round after a retryable error.\<close>

datatype serve_step = Done outcome | Retry round_state

definition finish_round :: "'w net \<Rightarrow> service \<Rightarrow> nat \<Rightarrow> selection_kind \<Rightarrow> principal \<Rightarrow> string \<Rightarrow> string \<Rightarrow> string \<Rightarrow> time \<Rightarrow>
    request \<Rightarrow> round_state \<Rightarrow> (forward_error + response) \<Rightarrow> int \<Rightarrow> 'w \<Rightarrow> serve_step \<times> service" where
  "finish_round net sv i kind pr req upstream body startedAt r sl res ki w =
     (let t = the_target sv i; now = netNow net w in
      case res of
        Inl fe \<Rightarrow>
          (let status = (if feStatus fe = 0 then 502 else feStatus fe);
               sv1 = writeForwardErrorLog sv r t fe now in
           if feRetryable fe then
             (let sv2 = put_state sv1 i (handleForwardError (the_state sv1 i) (svQuiet sv1) now) in
              if req \<noteq> [] then (Done (Replied (error_text (status_text status) status)), count_failure sv2)
              else (Retry sl, sv2\<lparr>svTotalTargetRetries := svTotalTargetRetries sv2 + 1\<rparr>))
           else (Done (Replied (error_text (status_text status) status)), count_failure sv1))
      | Inr resp \<Rightarrow>
          (let (rp, sv1) = writeResponse net sv i r resp upstream body startedAt ki now in
           (Done (Replied rp), if kind = SelectionAffinityHit \<or> kind = SelectionRoundRobin
              then sv1\<lparr>pxAffinity := affinity_set (pxAffinity sv1) (affinityKey (clientIP r) (prName pr) upstream) (to_lower (tName t)) now\<rparr>
              else sv1)))"

definition serve_round :: "nat \<Rightarrow> 'w net \<Rightarrow> principal \<Rightarrow> string \<Rightarrow> string \<Rightarrow> round_state \<Rightarrow> service \<Rightarrow> 'w \<Rightarrow>
    (serve_step \<times> service \<times> 'w) option" where
  "serve_round fuel net pr req model sl sv w =
     (let (sel, sv1) = selectTarget sv pr (clientIP (slRequest sl)) req (allowed_filter pr) (slAttempted sl) model
            (uPath (rqURL (slRequest sl))) (netNow net w) in
      case sel of Inl e \<Rightarrow> Some (Done (Replied (http_error (Selection_text e) (int (selection_status e)))), count_failure sv1, w)
      | Inr (i, kind) \<Rightarrow>
        let t = the_target sv1 i in
        (case ensureModelAllowed t model of
           Inl e \<Rightarrow> Some (Done (Replied (http_error (Model_text e) 400)), count_failure sv1, w)
         | Inr upstream \<Rightarrow>
           (case prepare_body sv1 t upstream model sl of
              (None, _, _) \<Rightarrow> Some (Done Panicked, count_failure sv1, w)
            | (Some body, r, sl1) \<Rightarrow>
              (case key_loop fuel net (svRegistry sv1) (getRequestTimeout sv1) r body (key_loop_start (the_state sv1 i)) w of
                 None \<Rightarrow> None
               | Some (res, ki, ts, retries, w1) \<Rightarrow>
                 let sv2 = (put_state sv1 i ts)\<lparr>svTotalKeyRetries := svTotalKeyRetries sv1 + retries\<rparr>;
                     r1 = restore_type (slRequest sl1) r;
                     (step, sv3) = finish_round net sv2 i kind pr req upstream body (netNow net w) r1 (sl1\<lparr>slRequest := r1\<rparr>) res ki w1 in
                 Some (step, sv3, w1)))))"

fun serve_loop :: "nat \<Rightarrow> nat \<Rightarrow> 'w net \<Rightarrow> principal \<Rightarrow> string \<Rightarrow> string \<Rightarrow> round_state \<Rightarrow> service \<Rightarrow> 'w \<Rightarrow>
    (outcome \<times> service \<times> 'w) option" where
  "serve_loop 0 fuel net pr req model sl sv w = None"
| "serve_loop (Suc n) fuel net pr req model sl sv w =
     (case serve_round fuel net pr req model sl sv w of
        None \<Rightarrow> None
      | Some (Done out, sv', w') \<Rightarrow> Some (out, sv', w')
      | Some (Retry sl', sv', w') \<Rightarrow> serve_loop n fuel net pr req model sl' sv' w')"

definition begin_request :: "service \<Rightarrow> service" where
  "begin_request sv = sv\<lparr>svTotalRequests := svTotalRequests sv + 1, svActiveRequests := svActiveRequests sv + 1\<rparr>"

definition end_request :: "service \<Rightarrow> service" where
  "end_request sv = sv\<lparr>svActiveRequests := svActiveRequests sv - 1\<rparr>"

definition serveHTTP :: "nat \<Rightarrow> nat \<Rightarrow> 'w net \<Rightarrow> service \<Rightarrow> request \<Rightarrow> 'w \<Rightarrow> (outcome \<times> service \<times> 'w) option" where
  "serveHTTP targetFuel keyFuel net sv r w =
     (case admit (begin_request sv) r (netNow net w) of
        (Inl (ok, rp), sv1) \<Rightarrow> Some (Replied rp, end_request (if ok then count_success sv1 else count_failure sv1), w)
      | (Inr (pr, model), sv1) \<Rightarrow>
          map_option (\<lambda>(out, sv2, w'). (out, end_request sv2, w'))
            (serve_loop targetFuel keyFuel net pr (to_lower (requested_target r)) model
               \<lparr>slAttempted = {}, slRequest = r, slBody = rqBody r, slSanitized = None\<rparr> sv1 w))"

end
