(* ===== verification/Forward_Props.thy ===== *)
theory Forward_Props
  imports Forward Routing_Props Targets_Props
begin

text \<open>
  Properties of one forwarded request: the credentials it carries, and what a key pool keeps over the
  attempt, first of all its count of requests in flight.
\<close>

section \<open>Credentials\<close>

lemma header_names:
  "to_lower ''X-Proxy-Target'' = ''x-proxy-target''" "to_lower ''X-Azure-Authorization'' = ''x-azure-authorization''"
  by code_simp+


definition demo_request :: request where
  "demo_request = \<lparr>rqMethod = ''POST'', rqURL = \<lparr>uScheme = [], uHost = [], uPath = ''/v1/messages'', uRawQuery = []\<rparr>,
     rqHeader = [(''authorization'', [''Bearer client-key'']), (''x-api-key'', [''client-key'']), (''x-forwarded-for'', [''1.2.3.4, 5.6.7.8''])],
     rqBody = [], rqBodyError = False, rqRemoteAddr = ''9.9.9.9:80'', rqPrincipal = None, rqId = ''id'', rqContentLength = 0\<rparr>"


text \<open>The other two credential headers of a client do pass, unless the strategy writes them itself.\<close>

lemma client_api_key_passes:
  "h_values (upstream_headers BearerAuth demo_request demo_target ''sk-pool'') ''x-api-key'' = [''client-key'']"
  by code_simp

lemma clientIP_example: "clientIP demo_request = ''1.2.3.4''"
  by code_simp

section \<open>What an attempt keeps of the pool\<close>

text \<open>Well-formed again, with the same keys and the same counts of requests in flight.\<close>

definition pool_kept :: "key_pool \<Rightarrow> key_pool \<Rightarrow> bool" where
  "pool_kept p q = (kp_wf q \<and> inFlight q = inFlight p \<and> map keyStr (entries q) = map keyStr (entries p))"

lemma pool_keptD: "pool_kept p q \<Longrightarrow> kp_wf q" "pool_kept p q \<Longrightarrow> inFlight q = inFlight p"
  "pool_kept p q \<Longrightarrow> map keyStr (entries q) = map keyStr (entries p)"
  "pool_kept p q \<Longrightarrow> length (entries q) = length (entries p)"
  by (auto simp: pool_kept_def dest: map_eq_imp_length_eq)

lemma pool_kept_refl: "kp_wf p \<Longrightarrow> pool_kept p p"
  by (simp add: pool_kept_def)

lemma pool_kept_trans: "pool_kept p q \<Longrightarrow> pool_kept q r \<Longrightarrow> pool_kept p r"
  by (simp add: pool_kept_def)

lemma map_keyStr_upd: "(\<And>e. keyStr (f e) = keyStr e) \<Longrightarrow> map keyStr (entries (upd_entry p i f)) = map keyStr (entries p)"
  by (cases "i < length (entries p)") (simp_all add: upd_entry_def map_update list_update_same_conv list_update_beyond)

lemma sel_post_keys:
  assumes "sel_post now p ((k, i), q)"
  shows "inFlight q = inFlight p" "map keyStr (entries q) = map keyStr (entries p)"
    "i \<noteq> -1 \<Longrightarrow> valid_index p i \<and> k = keyStr (entries p ! nat i)" "i = -1 \<Longrightarrow> k = []"
proof -
  have len: "length (entries q) = length (entries p)" using assms by (simp add: sel_post_def)
  have "keyStr (entries q ! j) = keyStr (entries p ! j)" if "j < length (entries p)" for j
  proof -
    have "core (entries q ! j) = core (entries p ! j) \<or> core (entries q ! j) = core (recover (entries p ! j))"
      using assms that by (auto simp: sel_post_def)
    then show ?thesis using core_eq_fields(2)[of "entries q ! j"] by fastforce
  qed
  with len show "map keyStr (entries q) = map keyStr (entries p)" by (simp add: list_eq_iff_nth_eq)
  show "inFlight q = inFlight p" using assms by (simp add: sel_post_def)
  show "i \<noteq> -1 \<Longrightarrow> valid_index p i \<and> k = keyStr (entries p ! nat i)" "i = -1 \<Longrightarrow> k = []"
    using assms by (auto simp: sel_post_def)
qed

lemma selectKeyForClient_kept:
  assumes wf: "kp_wf p" and sel: "selectKeyForClient p c now = ((k, i), q)"
  shows "pool_kept p q" "k \<noteq> [] \<Longrightarrow> valid_index p i"
proof -
  have "sel_post now p ((k, i), q) \<and> kp_wf q \<or>
     (i \<noteq> -1 \<longrightarrow> valid_index p i) \<and> (i = -1 \<longrightarrow> k = []) \<and> q = p"
  proof (cases "c = []")
    case False
    then show ?thesis using selectKeyForClient_post_wf[OF wf, of c now] sel by auto
  next
    case True
    then have s: "selectKey p now = ((k, i), q)"
      using sel kp_wfD(1)[OF wf] by (simp add: selectKeyForClient_def)
    show ?thesis
    proof (cases "\<exists>e \<in> set (entries p). usable now e")
      case True
      then show ?thesis using selectKey_cases(1,2)[OF wf, of now] s by auto
    next
      case False
      then have "selectKey p now = (case desperation p now of Some i \<Rightarrow> (keyAt p i, p) | None \<Rightarrow> (no_key, p))"
        by (rule selectKey_cases(3)[OF wf])
      then show ?thesis
        using s desperation_spec(1)[of p now] by (auto simp: keyAt_def valid_index_def split: option.splits)
    qed
  qed
  then show "pool_kept p q" "k \<noteq> [] \<Longrightarrow> valid_index p i"
    using sel_post_keys[of now p k i q] wf by (auto simp: pool_kept_def)
qed

lemma selectKey_kept:
  assumes wf: "kp_wf p" and sel: "selectKey p now = ((k, i), q)"
  shows "pool_kept p q"
proof -
  have "selectKeyForClient p [] now = ((k, i), q)"
    using sel kp_wfD(1)[OF wf] by (simp add: selectKeyForClient_def)
  then show ?thesis using selectKeyForClient_kept(1)[OF wf] by blast
qed

lemma selectNextActiveKey_kept:
  assumes wf: "kp_wf p" and sel: "selectNextActiveKey p a now = ((k, i), q)"
  shows "pool_kept p q"
  using selectNextActiveKey_post_wf[OF wf, of now a] sel sel_post_keys[of now p k i q] by (auto simp: pool_kept_def)

lemma markRecovered_kept: "kp_wf p \<Longrightarrow> pool_kept p (snd (markRecovered p i))"
  using kp_wf_recovered[of p i] by (auto simp: pool_kept_def markRecovered_def map_keyStr_upd)

lemma tryWakeUp_kept: "kp_wf p \<Longrightarrow> pool_kept p (snd (tryWakeUp p now))"
  using kp_wf_wake(1)[of p now] by (auto simp: pool_kept_def tryWakeUp_def)

lemma wakeUpComplete_kept: "kp_wf p \<Longrightarrow> pool_kept p (wakeUpComplete p now)"
  using kp_wf_wake(2)[of p now] by (simp add: pool_kept_def wakeUpComplete_def)

lemma exhaustion_outcome_pool: "\<exists>t. snd (snd (exhaustion_outcome p c now)) = p\<lparr>resetTime := t\<rparr>"
proof -
  have "snd (snd (exhaustion_outcome p c now)) = p \<or> (\<exists>t. snd (snd (exhaustion_outcome p c now)) = p\<lparr>resetTime := t\<rparr>)"
    by (auto simp: exhaustion_outcome_def Let_def)
  moreover have "p\<lparr>resetTime := resetTime p\<rparr> = p" by simp
  ultimately show ?thesis by metis
qed

lemma markExhausted_kept: "kp_wf p \<Longrightarrow> pool_kept p (markExhaustedWithError p i c b now)"
  using markExhausted_wf[of p i c b now] exhaustion_outcome_pool[of p c now]
  by (auto simp: pool_kept_def markExhaustedWithError_def map_keyStr_upd split: prod.splits)

lemma recordTokens_kept: "kp_wf p \<Longrightarrow> pool_kept p (recordTokens p i t now)"
  using kp_wf_record[of p i t now]
  by (auto simp: pool_kept_def recordTokens_def pruneExpiredSamplesLocked_def map_keyStr_upd prune_entry_def)

lemma probe_keys_kept: "kp_wf p \<Longrightarrow> probe_keys net reg t is p w = (i, q, w') \<Longrightarrow> pool_kept p q"
proof (induction "is" arbitrary: w)
  case (Cons k "is")
  then show ?case
    by (auto simp: Let_def markRecovered_kept split: prod.splits if_splits)
qed (simp add: pool_kept_refl)

lemma choose_key_kept:
  assumes wf: "kp_wf p" and ch: "choose_key net reg t aid p w = (res, q, w')"
  shows "pool_kept p q" "res = Some (k, i) \<Longrightarrow> valid_index p i"
proof -
  obtain k1 i1 p1 where s1: "selectKeyForClient p aid (netNow net w) = ((k1, i1), p1)" by (metis prod.collapse)
  note kept1 = selectKeyForClient_kept[OF wf s1]
  obtain st p2 where wu: "tryWakeUp p1 (netNow net w) = (st, p2)" by (metis prod.collapse)
  have kept2: "pool_kept p p2" using tryWakeUp_kept[OF pool_keptD(1)[OF kept1(1)], of "netNow net w"] kept1(1) wu
    by (auto intro: pool_kept_trans)
  obtain rc p3 w1 where wp: "wakeUpProbe net reg t p2 w = (rc, p3, w1)" by (metis prod.collapse)
  let ?p4 = "wakeUpComplete p3 (netNow net w1)"
  have "pool_kept p2 p3" using probe_keys_kept[OF pool_keptD(1)[OF kept2]] wp by (simp add: wakeUpProbe_def)
  then have kept4: "pool_kept p ?p4"
    using kept2 wakeUpComplete_kept pool_keptD(1) pool_kept_trans by metis
  obtain k5 i5 p5 where s5: "selectKeyForClient ?p4 aid (netNow net w1) = ((k5, i5), p5)" by (metis prod.collapse)
  note kept5 = selectKeyForClient_kept[OF pool_keptD(1)[OF kept4] s5]
  have "pool_kept p p5" using kept4 kept5(1) by (rule pool_kept_trans)
  moreover have "k5 \<noteq> [] \<Longrightarrow> valid_index p i5"
    using kept5(2) pool_keptD(4)[OF kept4] by (simp add: valid_index_def)
  ultimately show "pool_kept p q" "res = Some (k, i) \<Longrightarrow> valid_index p i"
    using ch kept1 kept2 kept4 by (auto simp: choose_key_def s1 wu wp s5 Let_def split: if_splits)
qed

section \<open>One more in flight\<close>

text \<open>The second pool is the first with one more request in flight on a key.\<close>

definition pool_held :: "key_pool \<Rightarrow> int \<Rightarrow> key_pool \<Rightarrow> bool" where
  "pool_held p i q = (kp_wf q \<and> valid_index p i \<and> inFlight q = (inFlight p)[nat i := inFlight p ! nat i + 1] \<and>
     map keyStr (entries q) = map keyStr (entries p))"

lemma acquire_held:
  assumes wf: "kp_wf p" and i: "valid_index p i"
  shows "pool_held p i (acquireInFlight p i)"
proof -
  have "nat i < length (inFlight p)" "\<not> i < 0" using i kp_wfD(2)[OF wf] by (auto simp: valid_index_def)
  then show ?thesis
    using kp_wf_acquire[OF wf, of i] i by (simp add: pool_held_def acquireInFlight_def)
qed

lemma held_kept: "pool_held p i q \<Longrightarrow> pool_kept q r \<Longrightarrow> pool_held p i r"
  by (simp add: pool_held_def pool_kept_def)

lemma kept_held: "pool_kept p q \<Longrightarrow> pool_held q i r \<Longrightarrow> pool_held p i r"
  using pool_keptD(4)[of p q] by (auto simp: pool_held_def pool_kept_def valid_index_def)

lemma release_kept:
  assumes wf: "kp_wf p" and h: "pool_held p i q"
  shows "pool_kept p (releaseInFlight q i)"
proof -
  have i: "nat i < length (inFlight p)" "\<not> i < 0" using h kp_wfD(2)[OF wf] by (auto simp: pool_held_def valid_index_def)
  moreover have "0 \<le> inFlight p ! nat i" using kp_wfD(3)[OF wf, of "nat i"] h by (auto simp: pool_held_def valid_index_def)
  moreover have "kp_wf (releaseInFlight q i)" using h kp_wf_release by (simp add: pool_held_def)
  ultimately show ?thesis using h by (auto simp: pool_kept_def pool_held_def releaseInFlight_def)
qed

text \<open>On target states: only the pool differs.\<close>

definition state_kept :: "target_state \<Rightarrow> target_state \<Rightarrow> bool" where
  "state_kept s s' = (tsTarget s' = tsTarget s \<and> (case tsKeyPool s of None \<Rightarrow> tsKeyPool s' = None
     | Some p \<Rightarrow> (\<exists>q. tsKeyPool s' = Some q \<and> pool_kept p q)))"

definition state_held :: "target_state \<Rightarrow> int \<Rightarrow> target_state \<Rightarrow> bool" where
  "state_held s i s' = (tsTarget s' = tsTarget s \<and> (case tsKeyPool s of None \<Rightarrow> tsKeyPool s' = None
     | Some p \<Rightarrow> (\<exists>q. tsKeyPool s' = Some q \<and> pool_held p i q)))"

lemma state_kept_refl: "state_ok s \<Longrightarrow> state_kept s s"
  by (auto simp: state_kept_def state_ok_def pool_kept_refl split: option.splits)

lemma state_kept_trans: "state_kept a b \<Longrightarrow> state_kept b c \<Longrightarrow> state_kept a c"
  by (auto simp: state_kept_def split: option.splits intro: pool_kept_trans)

lemma kept_held_state: "state_kept a b \<Longrightarrow> state_held b i c \<Longrightarrow> state_held a i c"
  by (auto simp: state_kept_def state_held_def split: option.splits intro: kept_held)

lemma state_kept_ok:
  assumes "state_ok a" "state_kept a b"
  shows "state_ok b"
proof (cases "tsKeyPool a")
  case None
  then show ?thesis using assms by (simp add: state_ok_def state_kept_def)
next
  case (Some p)
  then obtain q where q: "tsKeyPool b = Some q" "pool_kept p q" "tsTarget b = tsTarget a"
    using assms(2) by (auto simp: state_kept_def)
  then show ?thesis
    using assms(1) Some pool_keptD[OF q(2)] by (simp add: state_ok_def)
qed

lemma close_body_kept: "state_ok a \<Longrightarrow> state_held a i b \<Longrightarrow> state_kept a (close_body b i)"
  by (auto simp: state_kept_def state_held_def close_body_def state_ok_def split: option.splits intro: release_kept)

text \<open>
  The error of an attempt leaves no request in flight; an answer leaves one, on the key it used, until
  its body is closed.
\<close>

lemma forwardRequest_pool:
  assumes ok: "state_ok ts" and f: "forwardRequest net reg timeout r ts body w = (res, ki, ts', w')"
  shows "case res of Inl e \<Rightarrow> state_kept ts ts' | Inr resp \<Rightarrow> state_held ts ki ts'"
proof (cases "tsKeyPool ts")
  case None
  then show ?thesis
    using f by (auto simp: forwardRequest_def Let_def state_kept_def state_held_def split: prod.splits sum.splits)
next
  case (Some p)
  have wf: "kp_wf p" using ok Some by (simp add: state_ok_def)
  obtain c p1 w1 where ch: "choose_key net reg (tsTarget ts) (affinity_id r) p w = (c, p1, w1)" by (metis prod.collapse)
  note kept = choose_key_kept[OF wf ch]
  show ?thesis
  proof (cases c)
    case None
    then show ?thesis using f kept(1) Some by (auto simp: forwardRequest_def ch state_kept_def)
  next
    case (Some kk)
    obtain k i where c: "c = Some (k, i)" using Some by (cases kk) auto
    have wf1: "kp_wf p1" and v1: "valid_index p1 i"
      using pool_keptD[OF kept(1)] kept(2)[OF c] by (auto simp: valid_index_def)
    define p2 where "p2 = acquireInFlight p1 i"
    have h: "pool_held p i p2" using kept_held[OF kept(1) acquire_held[OF wf1 v1]] by (simp add: p2_def)
    have wf2: "kp_wf p2" using h by (simp add: pool_held_def)
    obtain sr w2 where sr: "send_request net reg timeout r (tsTarget ts) k body (netNow net w) w1 = (sr, w2)" by fastforce
    have ce: "pool_kept p2 (snd (check_exhaustion net resp i p2 now))" for resp now
      using pool_kept_refl[OF wf2] markExhausted_kept[OF wf2]
      by (auto simp: check_exhaustion_def Let_def split: option.splits)
    show ?thesis
    proof (cases sr)
      case (Inl e)
      then show ?thesis using f \<open>tsKeyPool ts = Some p\<close> release_kept[OF wf h]
        by (auto simp: forwardRequest_def ch c sr p2_def[symmetric] state_kept_def Let_def)
    next
      case (Inr resp)
      then show ?thesis using f \<open>tsKeyPool ts = Some p\<close> held_kept[OF h ce]
        by (auto simp: forwardRequest_def ch c sr p2_def[symmetric] state_held_def Let_def split: prod.splits)
          (metis snd_conv)+
    qed
  qed
qed

end
