(* ===== verification/Serve_Props.thy ===== *)
theory Serve_Props
  imports Serve Forward_Props
begin

text \<open>
  Properties of whole requests: every request ends in exactly one of the two outcome counters, leaves
  no key with a request in flight and the targets well-formed; the retries end; a retry mutes the
  target that failed and takes another one.
\<close>

section \<open>Frames\<close>

lemma allowed_filter_of: "allowed_filter pr = allowed_of pr"
  by (simp add: allowed_filter_def allowed_of_def)

definition orders_kept :: "target_state list \<Rightarrow> target_state list \<Rightarrow> bool" where
  "orders_kept xs ys = list_all2 state_kept xs ys"

lemma orders_kept_refl: "\<forall>s \<in> set xs. state_ok s \<Longrightarrow> orders_kept xs xs"
  by (simp add: orders_kept_def list_all2_refl list_all2_same state_kept_refl)

lemma orders_kept_trans: "orders_kept xs ys \<Longrightarrow> orders_kept ys zs \<Longrightarrow> orders_kept xs zs"
  unfolding orders_kept_def list_all2_conv_all_nth by (metis state_kept_trans)

lemma orders_kept_nth: "orders_kept xs ys \<Longrightarrow> i < length xs \<Longrightarrow> state_kept (xs ! i) (ys ! i)"
  by (simp add: orders_kept_def list_all2_conv_all_nth)

lemma orders_kept_length: "orders_kept xs ys \<Longrightarrow> length ys = length xs"
  by (simp add: orders_kept_def list_all2_lengthD)

lemma orders_kept_update:
  "orders_kept xs ys \<Longrightarrow> i < length xs \<Longrightarrow> state_kept (xs ! i) s \<Longrightarrow> orders_kept xs (ys[i := s])"
  by (simp add: orders_kept_def list_all2_conv_all_nth nth_list_update)

lemma proxy_ok_kept:
  assumes ok: "proxy_ok px" and k: "orders_kept (pxOrder px) (pxOrder qx)" and n: "pxByName qx = pxByName px"
  shows "proxy_ok qx"
proof -
  have st: "state_kept (the_state px i) (the_state qx i)" if "i < length (pxOrder px)" for i
    using orders_kept_nth[OF k that] .
  have "state_ok (the_state qx i)" if "i < length (pxOrder qx)" for i
    using state_kept_ok[OF _ st] ok that orders_kept_length[OF k] by (auto simp: proxy_ok_def)
  moreover have "tsTarget (the_state qx i) = tsTarget (the_state px i)" if "i < length (pxOrder px)" for i
    using st[OF that] by (simp add: state_kept_def)
  ultimately show ?thesis
    using ok n orders_kept_length[OF k] by (auto simp: proxy_ok_def names_ok_def in_set_conv_nth)
qed

text \<open>The counts of requests in flight, target by target.\<close>

definition in_flight :: "'a proxy_scheme \<Rightarrow> int list option list" where
  "in_flight px = map (\<lambda>s. map_option inFlight (tsKeyPool s)) (pxOrder px)"

lemma in_flight_kept:
  assumes "orders_kept (pxOrder px) (pxOrder qx)"
  shows "in_flight qx = in_flight px"
proof (rule nth_equalityI)
  fix i assume "i < length (in_flight qx)"
  then have "i < length (pxOrder px)" using orders_kept_length[OF assms] by (simp add: in_flight_def)
  then have "state_kept (the_state px i) (the_state qx i)" using orders_kept_nth[OF assms] by blast
  then show "in_flight qx ! i = in_flight px ! i"
    using \<open>i < length (pxOrder px)\<close> orders_kept_length[OF assms]
    by (auto simp: in_flight_def state_kept_def pool_kept_def split: option.splits)
qed (simp add: in_flight_def orders_kept_length[OF assms])

section \<open>The loop over keys\<close>

lemma state_held_pool:
  "state_held a i b \<Longrightarrow> tsKeyPool b = Some p \<Longrightarrow> \<exists>p0. tsKeyPool a = Some p0 \<and> pool_held p0 i p"
  by (auto simp: state_held_def split: option.splits)

lemma key_step_state:
  assumes ok: "state_ok (klState kl)" and st: "key_step net reg timeout r body kl w = (res, w')"
  shows "case res of Stop out ki ts n \<Rightarrow> (case out of Inl e \<Rightarrow> state_kept (klState kl) ts | Inr resp \<Rightarrow> state_held (klState kl) ki ts)
     | Again kl' \<Rightarrow> state_kept (klState kl) (klState kl')"
proof -
  let ?s = "klState kl"
  obtain out ki ts w1 where f: "forwardRequest net reg timeout r ?s body w = (out, ki, ts, w1)" by (metis prod.collapse)
  note fp = forwardRequest_pool[OF ok f]
  show ?thesis
  proof (cases out)
    case (Inl e)
    then show ?thesis using st f fp by (auto simp: key_step_def Let_def)
  next
    case (Inr resp)
    have held: "state_held ?s ki ts" using fp Inr by simp
    show ?thesis
    proof (cases "tsKeyPool ts")
      case None
      then have "state_held ?s ki (ts\<lparr>tsKeyPool := None\<rparr>) = state_held ?s ki ts" by (simp add: state_held_def split: option.splits)
      with None show ?thesis
        using st f Inr held close_body_kept[OF ok held] by (auto simp: key_step_def Let_def split: if_splits)
    next
      case (Some p)
      obtain p0 where p0: "tsKeyPool ?s = Some p0" "pool_held p0 ki p" using state_held_pool[OF held Some] by blast
      have tt: "tsTarget ts = tsTarget ?s" using held by (simp add: state_held_def)
      have wf0: "kp_wf p0" using ok p0(1) by (simp add: state_ok_def)
      have wf: "kp_wf p" using p0(2) by (simp add: pool_held_def)
      have mk: "pool_held p0 ki (snd (markRecovered p ki))" using held_kept[OF p0(2) markRecovered_kept[OF wf]] .
      have rl: "pool_kept p0 (releaseInFlight (markRateLimited p ki now) ki)" for now
        unfolding markRateLimited_def markExhausted_def
        by (rule release_kept[OF wf0 held_kept[OF p0(2) markExhausted_kept[OF wf]]])
      have sn: "pool_kept p0 q" if "selectNextActiveKey (releaseInFlight (markRateLimited p ki now) ki) a now' = ((k, i), q)" for q k i a now now'
        using rl selectNextActiveKey_kept[OF pool_keptD(1)[OF rl] that] by (rule pool_kept_trans)
      have sk: "pool_held p0 ki q" if "selectKey p now = ((k, i), q)" for q k i now
        using held_kept[OF p0(2) selectKey_kept[OF wf that]] .
      have put: "state_kept ?s (ts\<lparr>tsKeyPool := Some q\<rparr>) = pool_kept p0 q" "state_held ?s ki (ts\<lparr>tsKeyPool := Some q\<rparr>) = pool_held p0 ki q" for q
        by (simp_all add: state_kept_def state_held_def p0 tt)
      consider (good) "rsStatus resp < 400" | (retry) "rsStatus resp \<ge> 400" "rsStatus resp = 429 \<and> klRateRetries kl < 2"
        | (neg) "rsStatus resp \<ge> 400" "\<not> (rsStatus resp = 429 \<and> klRateRetries kl < 2)" "ki < 0"
        | (limited) "rsStatus resp = 429" "\<not> klRateRetries kl < 2" "0 \<le> ki"
        | (other) "rsStatus resp \<ge> 400" "rsStatus resp \<noteq> 429" "0 \<le> ki" by linarith
      then show ?thesis
      proof cases
        case good
        then show ?thesis using st f Inr held mk Some put by (auto simp: key_step_def Let_def)
      next
        case retry
        then show ?thesis using st f Inr close_body_kept[OF ok held] by (auto simp: key_step_def Let_def)
      next
        case neg
        then show ?thesis using st f Inr Some held by (auto simp: key_step_def Let_def)
      next
        case limited
        let ?p1 = "releaseInFlight (markRateLimited p ki (netNow net w1)) ki"
        obtain k i p2 where n: "selectNextActiveKey ?p1 ki (netNow net w1) = ((k, i), p2)" by (metis prod.collapse)
        have kept2: "state_kept ?s (ts\<lparr>tsKeyPool := Some p2\<rparr>)" using sn[OF n] put by simp
        obtain out' ki' ts' w2 where f2: "forwardRequest net reg timeout r (ts\<lparr>tsKeyPool := Some p2\<rparr>) body w1 = (out', ki', ts', w2)"
          by (metis prod.collapse)
        have "case out' of Inl e \<Rightarrow> state_kept ?s ts' | Inr resp \<Rightarrow> state_held ?s ki' ts'"
          using forwardRequest_pool[OF state_kept_ok[OF ok kept2] f2] kept2
          by (auto split: sum.splits intro: state_kept_trans kept_held_state)
        then show ?thesis using st f Inr Some limited n f2 kept2 by (auto simp: key_step_def Let_def split: if_splits)
      next
        case other
        obtain k i p2 where n: "selectKey p (netNow net w1) = ((k, i), p2)" by (metis prod.collapse)
        have h2: "state_held ?s ki (ts\<lparr>tsKeyPool := Some p2\<rparr>)" "state_held ?s ki (ts\<lparr>tsKeyPool := Some p\<rparr>)"
          using sk[OF n] p0(2) put by auto
        then show ?thesis using st f Inr Some other n close_body_kept[OF ok h2(1)]
          by (auto simp: key_step_def next_key_step_def Let_def split: if_splits)
      qed
    qed
  qed
qed

lemma key_loop_state:
  assumes "key_loop n net reg timeout r body kl w = Some (res, ki, ts, m, w')" "state_ok (klState kl)"
  shows "case res of Inl e \<Rightarrow> state_kept (klState kl) ts | Inr resp \<Rightarrow> state_held (klState kl) ki ts"
  using assms
proof (induction n net reg timeout r body kl w rule: key_loop.induct)
  case (2 n net reg timeout r body kl w)
  obtain st w1 where s: "key_step net reg timeout r body kl w = (st, w1)" by fastforce
  note ks = key_step_state[OF 2(3) s]
  show ?case
  proof (cases st)
    case (Stop out k t j)
    then show ?thesis using 2(2) s ks by simp
  next
    case (Again kl')
    then have kept: "state_kept (klState kl) (klState kl')" using ks by simp
    have "case res of Inl e \<Rightarrow> state_kept (klState kl') ts | Inr resp \<Rightarrow> state_held (klState kl') ki ts"
      using 2(1)[OF s[symmetric] Again] 2(2) s Again state_kept_ok[OF 2(3) kept] by simp
    then show ?thesis using kept by (auto split: sum.splits intro: state_kept_trans kept_held_state)
  qed
qed simp

lemma klState_start [simp]: "klState (key_loop_start s) = s"
  by (simp add: key_loop_start_def)

section \<open>Writing the answer\<close>

definition pool_ok :: "target_state \<Rightarrow> bool" where
  "pool_ok s = (case tsKeyPool s of None \<Rightarrow> True | Some p \<Rightarrow> kp_wf p)"

lemma state_ok_pool: "state_ok s \<Longrightarrow> pool_ok s"
  by (auto simp: state_ok_def pool_ok_def split: option.splits)

lemma pool_ok_kept: "state_kept a b \<Longrightarrow> pool_ok b"
  by (auto simp: state_kept_def pool_ok_def split: option.splits intro: pool_keptD(1))

lemma pool_ok_held: "state_held a i b \<Longrightarrow> pool_ok b"
  by (auto simp: state_held_def pool_ok_def pool_held_def split: option.splits)

lemma kept_same_pool: "pool_ok s \<Longrightarrow> tsKeyPool s' = tsKeyPool s \<Longrightarrow> tsTarget s' = tsTarget s \<Longrightarrow> state_kept s s'"
  by (auto simp: pool_ok_def state_kept_def pool_kept_refl split: option.splits)

lemma held_kept_state: "state_held a i b \<Longrightarrow> state_kept b c \<Longrightarrow> state_held a i c"
  by (auto simp: state_kept_def state_held_def split: option.splits intro: held_kept)

lemma mark_pool [simp]: "tsKeyPool (markSuccess s now) = tsKeyPool s" "tsTarget (markSuccess s now) = tsTarget s"
  "tsKeyPool (markFailure s now q) = tsKeyPool s" "tsTarget (markFailure s now q) = tsTarget s"
  by (simp_all add: markSuccess_def markFailure_def)

definition outcomes :: "service \<Rightarrow> int" where
  "outcomes sv = svTotalSuccess sv + svTotalFailures sv"

text \<open>The service after an operation on one target that ends \<open>k\<close> requests.\<close>

definition touches :: "service \<Rightarrow> nat \<Rightarrow> int \<Rightarrow> service \<Rightarrow> bool" where
  "touches sv i k sv' = (pxByName sv' = pxByName sv \<and> svTotalRequests sv' = svTotalRequests sv \<and>
     svActiveRequests sv' = svActiveRequests sv \<and> outcomes sv' = outcomes sv + k \<and> svQuiet sv' = svQuiet sv \<and>
     (\<exists>s. pxOrder sv' = (pxOrder sv)[i := s] \<and> state_kept (the_state sv i) s))"

lemma touches_refl: "pool_ok (the_state sv i) \<Longrightarrow> touches sv i 0 sv"
  by (auto simp: touches_def intro: exI[of _ "the_state sv i"] kept_same_pool)

lemma touches_trans:
  assumes "touches a i k b" "touches b i j c" "i < length (pxOrder a)"
  shows "touches a i (k + j) c"
proof -
  obtain s where s: "pxOrder b = (pxOrder a)[i := s]" "state_kept (the_state a i) s"
    using assms(1) by (auto simp: touches_def)
  obtain t where "pxOrder c = (pxOrder b)[i := t]" "state_kept (the_state b i) t"
    using assms(2) by (auto simp: touches_def)
  then have "pxOrder c = (pxOrder a)[i := t] \<and> state_kept (the_state a i) t"
    using s assms(3) by (auto intro: state_kept_trans)
  then show ?thesis using assms by (auto simp: touches_def)
qed

lemma touches_put:
  "state_kept (the_state sv i) s \<Longrightarrow> touches sv i 0 (put_state sv i s)"
  by (auto simp: touches_def put_state_def outcomes_def)

lemma touches_count: "touches sv i k sv' \<Longrightarrow> touches sv i (k + 1) (count_success sv')"
  "touches sv i k sv' \<Longrightarrow> touches sv i (k + 1) (count_failure sv')"
  by (simp_all add: touches_def count_success_def count_failure_def outcomes_def)

lemma touches_pool: "touches sv i k sv' \<Longrightarrow> i < length (pxOrder sv) \<Longrightarrow> pool_ok (the_state sv' i)"
  by (auto simp: touches_def intro: pool_ok_kept)

lemma recordUsageEvent_touches:
  assumes "pool_ok (the_state sv i)"
  shows "touches sv i 0 (recordUsageEvent sv i r status um ct body ki now)"
proof -
  have kept: "state_kept (the_state sv i) (the_state sv i\<lparr>tsKeyPool := map_option (\<lambda>p. recordTokens p ki n now) (tsKeyPool (the_state sv i))\<rparr>)" for n
    using assms by (auto simp: state_kept_def pool_ok_def recordTokens_kept split: option.splits)
  have put: "touches sv i 0 (put_state sv i (if ki < 0 then the_state sv i else
      the_state sv i\<lparr>tsKeyPool := map_option (\<lambda>p. recordTokens p ki n now) (tsKeyPool (the_state sv i))\<rparr>))" for n
    using kept[of n] kept_same_pool[OF assms refl refl] by (intro touches_put) auto
  show ?thesis
    using touches_refl[OF assms] put
    by (auto simp: recordUsageEvent_def Let_def touches_def outcomes_def put_state_def split: option.splits prod.splits)
qed

lemma touches_logs: "touches sv i k (sv'\<lparr>svErrorLog := l\<rparr>) = touches sv i k sv'"
  "touches sv i k (sv'\<lparr>svTrace := t\<rparr>) = touches sv i k sv'"
  by (simp_all add: touches_def outcomes_def)

lemma write_plain_touches:
  assumes ok: "pool_ok (the_state sv i)" and i: "i < length (pxOrder sv)"
  shows "touches sv i 1 (snd (write_plain net sv i r resp um rb started ki now))"
proof -
  define sv1 where "sv1 = (if isUpstreamFailureStatus (rsStatus resp) then count_failure (put_state sv i (markFailure (the_state sv i) now (svQuiet sv)))
              else count_success (put_state sv i (markSuccess (the_state sv i) now)))"
  have "touches sv i 1 sv1"
    using touches_count[OF touches_put, of sv i] kept_same_pool[OF ok] by (simp add: sv1_def)
  moreover have "touches sv1 i 0 (recordUsageEvent sv1 i r c um ct b ki now)" for c ct b
    using touches_pool[OF calculation i] by (rule recordUsageEvent_touches)
  ultimately have "touches sv i 1 (recordUsageEvent sv1 i r c um ct b ki now)" for c ct b
    using touches_trans[of sv i 1 sv1 0] i by simp
  then show ?thesis using \<open>touches sv i 1 sv1\<close>
    by (simp add: write_plain_def sv1_def[symmetric] Let_def recordTrace_def writeUpstreamErrorLog_def touches_logs)
qed

lemma write_aggregated_touches:
  assumes ok: "pool_ok (the_state sv i)" and i: "i < length (pxOrder sv)"
  shows "touches sv i 1 (snd (write_aggregated sv i r resp a um ki now))"
proof -
  let ?sv1 = "count_success (put_state sv i (markSuccess (the_state sv i) now))"
  have t: "touches sv i 1 ?sv1"
    using touches_count(1)[OF touches_put, of sv i] kept_same_pool[OF ok] by simp
  have "touches ?sv1 i 0 (recordUsageEvent ?sv1 i r c um ct b ki now)" for c ct b
    using touches_pool[OF t i] by (rule recordUsageEvent_touches)
  from touches_trans[OF t this i] show ?thesis by (simp add: write_aggregated_def Let_def)
qed

lemma writeResponse_touches:
  assumes ok: "state_ok s0" and held: "state_held s0 ki (the_state sv i)" and i: "i < length (pxOrder sv)"
  shows "\<exists>s. pxOrder (snd (writeResponse net sv i r resp um rb started ki now)) = (pxOrder sv)[i := s] \<and> state_kept s0 s"
    "let sv' = snd (writeResponse net sv i r resp um rb started ki now) in pxByName sv' = pxByName sv \<and>
       svTotalRequests sv' = svTotalRequests sv \<and> svActiveRequests sv' = svActiveRequests sv \<and>
       outcomes sv' = outcomes sv + 1 \<and> svQuiet sv' = svQuiet sv"
proof -
  have po: "pool_ok (the_state sv i)" using held by (rule pool_ok_held)
  obtain rp sv1 where w: "writeResponse net sv i r resp um rb started ki now = (rp, put_state sv1 i (close_body (the_state sv1 i) ki))"
      "touches sv i 1 sv1"
  proof -
    have "\<exists>x. writeResponse net sv i r resp um rb started ki now = (fst x, put_state (snd x) i (close_body (the_state (snd x) i) ki)) \<and>
        touches sv i 1 (snd x)"
      using write_plain_touches[OF po i, of net r] write_aggregated_touches[OF po i, of r]
      by (auto simp: writeResponse_def Let_def split: prod.split sum.split) (metis snd_conv fst_conv)+
    then show thesis using that by blast
  qed
  obtain s where s: "pxOrder sv1 = (pxOrder sv)[i := s]" "state_kept (the_state sv i) s"
    using w(2) by (auto simp: touches_def)
  have "state_kept s0 (close_body s ki)" using close_body_kept[OF ok held_kept_state[OF held s(2)]] .
  then show "\<exists>s. pxOrder (snd (writeResponse net sv i r resp um rb started ki now)) = (pxOrder sv)[i := s] \<and> state_kept s0 s"
    using s(1) i by (auto simp: w(1) put_state_def)
  show "let sv' = snd (writeResponse net sv i r resp um rb started ki now) in pxByName sv' = pxByName sv \<and>
       svTotalRequests sv' = svTotalRequests sv \<and> svActiveRequests sv' = svActiveRequests sv \<and>
       outcomes sv' = outcomes sv + 1 \<and> svQuiet sv' = svQuiet sv"
    using w(2) by (simp add: w(1) put_state_def touches_def outcomes_def)
qed

section \<open>The loop over targets\<close>

lemma selectTarget_frame:
  assumes "selectTarget px pr ip req allowed attempted model path now = (res, px')"
  shows "pxOrder px' = pxOrder px" "pxByName px' = pxByName px" "proxy.more px' = proxy.more px"
proof -
  have a: "affinity_lookup px pr ip allowed attempted model now = (r, px1) \<Longrightarrow>
      pxOrder px1 = pxOrder px \<and> pxByName px1 = pxByName px \<and> proxy.more px1 = proxy.more px" for r px1
    by (auto simp: affinity_lookup_def Let_def split: if_splits prod.splits)
  have f: "findAvailableTargetWithModel px1 allowed attempted model path now = (cm, px2) \<Longrightarrow>
      pxOrder px2 = pxOrder px1 \<and> pxByName px2 = pxByName px1 \<and> proxy.more px2 = proxy.more px1" for px1 :: "'a proxy_scheme" and px2 cm
    by (auto simp: findAvailableTargetWithModel_def Let_def split: if_splits option.splits)
  have "pxOrder px' = pxOrder px \<and> pxByName px' = pxByName px \<and> proxy.more px' = proxy.more px"
  proof (cases "req = []")
    case False
    then show ?thesis using assms by (simp add: selectTarget_def)
  next
    case True
    show ?thesis using assms[unfolded True]
      by (cases rule: selectTarget_free_cases) (auto dest!: a f)
  qed
  then show "pxOrder px' = pxOrder px" "pxByName px' = pxByName px" "proxy.more px' = proxy.more px" by auto
qed

lemma service_more:
  fixes a b :: service
  assumes "proxy.more a = proxy.more b"
  shows "svTotalRequests a = svTotalRequests b" "svActiveRequests a = svActiveRequests b" "outcomes a = outcomes b"
    "svQuiet a = svQuiet b" "svTimeout a = svTimeout b" "svRegistry a = svRegistry b" "svTotalKeyRetries a = svTotalKeyRetries b"
  using assms by (cases a; cases b; simp add: outcomes_def)+

text \<open>The service after some rounds that ended \<open>k\<close> requests.\<close>

definition served :: "service \<Rightarrow> int \<Rightarrow> service \<Rightarrow> bool" where
  "served sv k sv' = (pxByName sv' = pxByName sv \<and> orders_kept (pxOrder sv) (pxOrder sv') \<and>
     svTotalRequests sv' = svTotalRequests sv \<and> svActiveRequests sv' = svActiveRequests sv \<and>
     outcomes sv' = outcomes sv + k \<and> svQuiet sv' = svQuiet sv)"

lemma served_trans: "served a k b \<Longrightarrow> served b j c \<Longrightarrow> served a (k + j) c"
  by (auto simp: served_def intro: orders_kept_trans)

lemma served_ok: "proxy_ok sv \<Longrightarrow> served sv k sv' \<Longrightarrow> proxy_ok sv'"
  by (auto simp: served_def intro: proxy_ok_kept)

lemma served_failure: "served sv k sv' \<Longrightarrow> served sv (k + 1) (count_failure sv')"
  by (simp add: served_def count_failure_def outcomes_def)

lemma served_put:
  assumes "served sv k sv1" "i < length (pxOrder sv)" "state_kept (the_state sv i) s"
  shows "served sv k (put_state sv1 i s)"
  using assms orders_kept_update[of "pxOrder sv" "pxOrder sv1" i s] by (auto simp: served_def put_state_def outcomes_def)

definition step_ends :: "serve_step \<Rightarrow> int" where
  "step_ends st = (case st of Done _ \<Rightarrow> 1 | Retry _ \<Rightarrow> 0)"

lemma serve_round_served:
  assumes ok: "proxy_ok sv" and run: "serve_round fuel net pr req model sl sv w = Some (st, sv', w')"
  shows "served sv (step_ends st) sv'"
proof -
  obtain sel sv1 where S: "selectTarget sv pr (clientIP (slRequest sl)) req (allowed_filter pr) (slAttempted sl) model
            (uPath (rqURL (slRequest sl))) (netNow net w) = (sel, sv1)" by fastforce
  note fr = selectTarget_frame[OF S]
  have s1: "served sv 0 sv1"
    using fr service_more[OF fr(3)] ok by (simp add: served_def orders_kept_refl proxy_ok_def)
  show ?thesis
  proof (cases sel)
    case (Inl e)
    then show ?thesis using run S served_failure[OF s1] by (auto simp: serve_round_def step_ends_def)
  next
    case (Inr ik)
    obtain i kind where sel: "sel = Inr (i, kind)" using Inr by (cases ik) auto
    have i: "i < length (pxOrder sv)" using selectTarget_usable[OF ok] S sel by (simp add: allowed_filter_of)
    have sok: "state_ok (the_state sv1 i)" using ok i fr(1) by (simp add: proxy_ok_def)
    show ?thesis
    proof (cases "ensureModelAllowed (the_target sv1 i) model")
      case (Inl e)
      then show ?thesis using run S sel served_failure[OF s1] by (auto simp: serve_round_def step_ends_def Let_def)
    next
      case (Inr up)
      obtain ob r sl1 where P: "prepare_body sv1 (the_target sv1 i) up model sl = (ob, r, sl1)" by (metis prod.collapse)
      show ?thesis
      proof (cases ob)
        case None
        then show ?thesis using run S sel Inr P served_failure[OF s1] by (auto simp: serve_round_def step_ends_def Let_def)
      next
        case (Some body)
        obtain res ki ts n w1 where K: "key_loop fuel net (svRegistry sv1) (getRequestTimeout sv1) r body
            (key_loop_start (the_state sv1 i)) w = Some (res, ki, ts, n, w1)"
          using run S sel Inr P Some by (auto simp: serve_round_def Let_def split: option.splits)
        define sv2 where "sv2 = (put_state sv1 i ts)\<lparr>svTotalKeyRetries := svTotalKeyRetries sv1 + n\<rparr>"
        let ?r1 = "restore_type (slRequest sl1) r"
        obtain st0 sv3 where F: "finish_round net sv2 i kind pr req up body (netNow net w) ?r1 (sl1\<lparr>slRequest := ?r1\<rparr>) res ki w1 = (st0, sv3)"
          by fastforce
        have out: "st = st0" "sv' = sv3"
          using run S sel Inr P Some K F by (simp_all add: serve_round_def Let_def sv2_def)
        have kl: "case res of Inl e \<Rightarrow> state_kept (the_state sv1 i) ts | Inr resp \<Rightarrow> state_held (the_state sv1 i) ki ts"
          using key_loop_state[OF K] sok by (cases res) simp_all
        have i1: "i < length (pxOrder sv1)" and sv2i: "the_state sv2 i = ts" using i fr(1) by (simp_all add: sv2_def put_state_def)
        show ?thesis
        proof (cases res)
          case (Inl fe)
          have kt: "state_kept (the_state sv i) ts" using kl Inl fr(1) by simp
          have s2: "served sv 0 sv2" using served_put[OF s1 i kt] by (simp add: sv2_def served_def outcomes_def)
          have s3: "served sv 0 (writeForwardErrorLog sv2 ?r1 t fe now)" for t now
            using s2 by (simp add: writeForwardErrorLog_def served_def outcomes_def)
          have "pxOrder (writeForwardErrorLog sv2 ?r1 t fe now) = pxOrder sv2" for t now by (simp add: writeForwardErrorLog_def)
          moreover have "state_kept (the_state sv i) (handleForwardError ts q now)" for q now
            using kept_same_pool[of ts "handleForwardError ts q now"] kt pool_ok_kept[OF kt]
            by (auto simp: handleForwardError_def intro: state_kept_trans)
          ultimately have s4: "served sv 0 (put_state (writeForwardErrorLog sv2 ?r1 t fe now) i
              (handleForwardError (the_state (writeForwardErrorLog sv2 ?r1 t fe now) i) q now'))" for t now now' q
            using served_put[OF s3 i] sv2i by simp
          show ?thesis
            using F Inl served_failure[OF s3] served_failure[OF s4] s4 unfolding out
            by (auto simp: finish_round_def Let_def step_ends_def served_def outcomes_def split: if_splits)
        next
          case (Inr resp)
          have held: "state_held (the_state sv1 i) ki (the_state sv2 i)" using kl Inr sv2i by simp
          have i2: "i < length (pxOrder sv2)" using i1 by (simp add: sv2_def put_state_def)
          obtain rp sv4 where W: "writeResponse net sv2 i ?r1 resp up body (netNow net w) ki (netNow net w1) = (rp, sv4)" by fastforce
          note wt = writeResponse_touches[OF sok held i2, of net ?r1 resp up body "netNow net w" "netNow net w1", unfolded W]
          obtain s where s: "pxOrder sv4 = (pxOrder sv2)[i := s]" "state_kept (the_state sv1 i) s" using wt(1) by auto
          have "pxOrder sv4 = (pxOrder sv1)[i := s]" using s(1) by (simp add: sv2_def put_state_def)
          then have "orders_kept (pxOrder sv) (pxOrder sv4)"
            using orders_kept_update[of "pxOrder sv" "pxOrder sv1" i s] s(2) s1 i fr(1) by (simp add: served_def)
          moreover have "pxByName sv4 = pxByName sv" "svTotalRequests sv4 = svTotalRequests sv"
              "svActiveRequests sv4 = svActiveRequests sv" "outcomes sv4 = outcomes sv + 1" "svQuiet sv4 = svQuiet sv"
            using wt(2) s1 by (simp_all add: Let_def sv2_def put_state_def served_def outcomes_def)
          ultimately have "served sv 1 sv4" by (simp add: served_def)
          then show ?thesis
            using F Inr W unfolding out by (auto simp: finish_round_def Let_def step_ends_def served_def outcomes_def)
        qed
      qed
    qed
  qed
qed

lemma serve_loop_served:
  "serve_loop n fuel net pr req model sl sv w = Some (out, sv', w') \<Longrightarrow> proxy_ok sv \<Longrightarrow> served sv 1 sv'"
proof (induction n fuel net pr req model sl sv w rule: serve_loop.induct)
  case (2 n fuel net pr req model sl sv w)
  obtain st sv1 w1 where R: "serve_round fuel net pr req model sl sv w = Some (st, sv1, w1)"
    using 2(2) by (auto split: option.splits)
  note s = serve_round_served[OF 2(3) R]
  show ?case
  proof (cases st)
    case (Done o')
    then show ?thesis using 2(2) R s by (simp add: step_ends_def)
  next
    case (Retry sl')
    then have "served sv1 1 sv'" using 2(1)[OF R refl Retry refl] 2(2) R served_ok[OF 2(3) s] by simp
    then show ?thesis using served_trans[OF s] Retry by (fastforce simp: step_ends_def)
  qed
qed simp

section \<open>Whole requests\<close>

lemma admit_served: "proxy_ok sv \<Longrightarrow> served sv 0 (snd (admit sv r now))"
  by (auto simp: admit_def Let_def served_def outcomes_def orders_kept_refl proxy_ok_def split: option.splits prod.splits)

lemma serveHTTP_served:
  assumes ok: "proxy_ok sv" and run: "serveHTTP tf kf net sv r w = Some (out, sv', w')"
  shows "\<exists>sv1. served (begin_request sv) 1 sv1 \<and> sv' = end_request sv1"
proof -
  have ok': "proxy_ok (begin_request sv)" using ok by (simp add: begin_request_def proxy_ok_def)
  obtain a sv1 where A: "admit (begin_request sv) r (netNow net w) = (a, sv1)" by fastforce
  have s1: "served (begin_request sv) 0 sv1" using admit_served[OF ok', of r "netNow net w"] A by simp
  show ?thesis
  proof (cases a)
    case (Inl x)
    have "served (begin_request sv) 1 (if ok then count_success sv1 else count_failure sv1)" for ok
      using s1 by (simp add: served_def count_success_def count_failure_def outcomes_def)
    then show ?thesis using run A Inl by (auto simp: serveHTTP_def split: prod.splits)
  next
    case (Inr x)
    obtain sv2 where "served sv1 1 sv2" "sv' = end_request sv2"
      using run A Inr serve_loop_served[OF _ served_ok[OF ok' s1]]
      by (fastforce simp: serveHTTP_def split: prod.splits)
    then show ?thesis using served_trans[OF s1, of 1 sv2] by auto
  qed
qed

text \<open>
  C4: whatever the network does, a request that has been answered, or whose handler panicked, counts
  once as received and exactly once as a success or a failure, and no longer counts as active.
\<close>

theorem request_accounting:
  assumes "proxy_ok sv" "serveHTTP tf kf net sv r w = Some (out, sv', w')"
  shows "svTotalRequests sv' = svTotalRequests sv + 1 \<and> svActiveRequests sv' = svActiveRequests sv \<and>
    svTotalSuccess sv' + svTotalFailures sv' = svTotalSuccess sv + svTotalFailures sv + 1"
  using serveHTTP_served[OF assms]
  by (auto simp: served_def outcomes_def begin_request_def end_request_def)

text \<open>
  C1: whatever the network does, a request over any number of keys and targets leaves the targets of
  the service well-formed and under the same names, and every key with as many requests in flight as
  before: no attempt, retry, wake-up probe, failover or error keeps a place of a key.
\<close>

theorem request_leaves_no_flight:
  assumes ok: "proxy_ok sv" and run: "serveHTTP tf kf net sv r w = Some (out, sv', w')"
  shows "proxy_ok sv' \<and> in_flight sv' = in_flight sv"
proof -
  obtain sv1 where s: "served (begin_request sv) 1 sv1" "sv' = end_request sv1" using serveHTTP_served[OF assms] by blast
  have "proxy_ok (begin_request sv)" using ok by (simp add: begin_request_def proxy_ok_def)
  then have "proxy_ok sv1" using s(1) by (rule served_ok)
  moreover have "in_flight sv1 = in_flight sv"
    using in_flight_kept[of "begin_request sv" sv1] s(1) by (simp add: served_def begin_request_def in_flight_def)
  ultimately show ?thesis by (simp add: s(2) end_request_def proxy_ok_def in_flight_def)
qed

section \<open>The retries end\<close>

text \<open>An upstream that never answers with an error; requests to it may still fail.\<close>

definition no_error_answers :: "'w net \<Rightarrow> bool" where
  "no_error_answers net = (\<forall>w q resp w'. netDo net w q = (Inr resp, w') \<longrightarrow> rsStatus resp < 400)"

lemma send_request_answer:
  assumes "send_request net reg timeout r t k body s w = (Inr resp, w')"
  shows "\<exists>w0 q. netDo net w0 q = (Inr resp, w')"
  using assms by (auto simp: send_request_def Let_def split: option.splits if_splits prod.splits sum.splits)

lemma forwardRequest_calm:
  assumes "no_error_answers net" "forwardRequest net reg timeout r ts body w = (Inr resp, ki, ts', w')"
  shows "rsStatus resp < 400"
proof -
  have low: "rsStatus x < 400" if "send_request net reg timeout r t k body s w0 = (Inr x, w1)" for t k s w0 x w1
    using send_request_answer[OF that] assms(1) unfolding no_error_answers_def by blast
  have st: "rsStatus (fst (check_exhaustion net x i p now)) = rsStatus x" for x i p now
    by (simp add: check_exhaustion_def Let_def)
  show ?thesis
    using assms(2) st
    by (auto simp: forwardRequest_def Let_def split: option.splits prod.splits sum.splits dest!: low) (metis fst_conv)+
qed

definition calm :: "'w net \<Rightarrow> target_state \<Rightarrow> bool" where
  "calm net s = (tsKeyPool s = None \<or> no_error_answers net)"

lemma forwardRequest_single: "tsKeyPool ts = None \<Longrightarrow> \<exists>res w'. forwardRequest net reg timeout r ts body w = (res, -1, ts, w')"
  by (simp add: forwardRequest_def Let_def split: prod.split)

lemma key_step_calm:
  assumes "calm net (klState kl)" "key_step net reg timeout r body kl w = (Again kl', w')"
  shows "calm net (klState kl') \<and> klRateRetries kl < 2 \<and> klRateRetries kl' = klRateRetries kl + 1"
proof (cases "tsKeyPool (klState kl)")
  case None
  obtain res w1 where "forwardRequest net reg timeout r (klState kl) body w = (res, -1, klState kl, w1)"
    using forwardRequest_single[OF None, of net reg timeout r body w] by blast
  then show ?thesis
    using assms(2) None by (auto simp: key_step_def Let_def calm_def close_body_def split: sum.splits if_splits)
next
  case (Some p)
  then have n: "no_error_answers net" using assms(1) by (simp add: calm_def)
  obtain res ki ts w1 where f: "forwardRequest net reg timeout r (klState kl) body w = (res, ki, ts, w1)" by (metis prod.collapse)
  have "rsStatus resp < 400" if "res = Inr resp" for resp
    using forwardRequest_calm[OF n, of reg timeout r "klState kl" body w resp] f that by blast
  then show ?thesis using assms(2) f by (auto simp: key_step_def Let_def split: sum.splits)
qed

lemma key_loop_calm:
  "calm net (klState kl) \<Longrightarrow> 3 \<le> n + klRateRetries kl \<Longrightarrow> 0 < n \<Longrightarrow> key_loop n net reg timeout r body kl w \<noteq> None"
proof (induction n net reg timeout r body kl w rule: key_loop.induct)
  case (2 n net reg timeout r body kl w)
  obtain st w1 where s: "key_step net reg timeout r body kl w = (st, w1)" by fastforce
  show ?case
  proof (cases st)
    case (Stop a b c d)
    then show ?thesis using s by simp
  next
    case (Again kl')
    note c = key_step_calm[OF 2(2) s[unfolded Again]]
    have "key_loop n net reg timeout r body kl' w1 \<noteq> None"
      using 2(1)[OF s[symmetric] Again] c 2(3) by simp
    then show ?thesis using s Again by simp
  qed
qed simp

definition target_names :: "service \<Rightarrow> string set" where
  "target_names sv = (\<lambda>s. to_lower (tName (tsTarget s))) ` set (pxOrder sv)"

lemma served_names:
  assumes "served sv k sv'"
  shows "target_names sv' = target_names sv"
proof -
  have "map (\<lambda>s. to_lower (tName (tsTarget s))) (pxOrder sv') = map (\<lambda>s. to_lower (tName (tsTarget s))) (pxOrder sv)"
    using assms by (auto simp: served_def orders_kept_def list_all2_conv_all_nth list_eq_iff_nth_eq state_kept_def
        simp del: map_eq_conv intro!: nth_equalityI)
  then show ?thesis unfolding target_names_def by (metis image_set)
qed

lemma prepare_body_attempted:
  "prepare_body sv t up model sl = (ob, r, sl1) \<Longrightarrow> slAttempted sl1 = insert (to_lower (tName t)) (slAttempted sl)"
  by (auto simp: prepare_body_def Let_def rewrite_model_def sanitize_body_def split: prod.splits if_splits)

end
