(* ===== verification/Serve_Ends.thy ===== *)
theory Serve_Ends
  imports Serve_Props Targets_Fair
begin

text \<open>
  The failover of a request: what a retry with another target has done, and that the retries end.
\<close>

section \<open>One retry\<close>

text \<open>What is left behind when a round ends with another round.\<close>

lemma serve_round_retry:
  assumes ok: "proxy_ok sv" and run: "serve_round fuel net pr req model sl sv w = Some (Retry sl', sv', w')"
  shows "\<exists>i < length (pxOrder sv). req = [] \<and> to_lower (tName (the_target sv i)) \<notin> slAttempted sl \<and>
     slAttempted sl' = insert (to_lower (tName (the_target sv i))) (slAttempted sl) \<and>
     \<not> isMuted (the_state sv i) (netNow net w) \<and>
     tsMutedUntil (the_state sv' i) = netNow net w' + (if svQuiet sv \<le> 0 then seconds 60 else svQuiet sv) \<and>
     tsLastFailure (the_state sv' i) = netNow net w' \<and> (\<forall>j. j \<noteq> i \<longrightarrow> the_state sv' j = the_state sv j) \<and>
     length (pxOrder sv') = length (pxOrder sv)"
proof -
  obtain sel sv1 where S: "selectTarget sv pr (clientIP (slRequest sl)) req (allowed_filter pr) (slAttempted sl) model
            (uPath (rqURL (slRequest sl))) (netNow net w) = (sel, sv1)" by fastforce
  note fr = selectTarget_frame[OF S]
  obtain i kind where sel: "sel = Inr (i, kind)"
    using run S by (cases sel) (auto simp: serve_round_def)
  note us = selectTarget_usable[OF ok, of pr "clientIP (slRequest sl)" req "slAttempted sl" model
    "uPath (rqURL (slRequest sl))" "netNow net w" i kind sv1]
  have us: "i < length (pxOrder sv)" "to_lower (tName (the_target sv i)) \<notin> slAttempted sl" "\<not> isMuted (the_state sv i) (netNow net w)"
    using us S sel by (simp_all add: allowed_filter_of)
  obtain up where up: "ensureModelAllowed (the_target sv1 i) model = Inr up"
    using run S sel by (cases "ensureModelAllowed (the_target sv1 i) model") (auto simp: serve_round_def Let_def)
  obtain ob r sl1 where P: "prepare_body sv1 (the_target sv1 i) up model sl = (ob, r, sl1)" by (metis prod.collapse)
  obtain body where b: "ob = Some body" using run S sel up P by (cases ob) (auto simp: serve_round_def Let_def)
  obtain res ki ts n w1 where K: "key_loop fuel net (svRegistry sv1) (getRequestTimeout sv1) r body
            (key_loop_start (the_state sv1 i)) w = Some (res, ki, ts, n, w1)"
    using run S sel up P b by (auto simp: serve_round_def Let_def split: option.splits)
  define sv2 where "sv2 = (put_state sv1 i ts)\<lparr>svTotalKeyRetries := svTotalKeyRetries sv1 + n\<rparr>"
  define sl2 where "sl2 = sl1\<lparr>slRequest := restore_type (slRequest sl1) r\<rparr>"
  have F: "finish_round net sv2 i kind pr req up body (netNow net w) (restore_type (slRequest sl1) r) sl2 res ki w1 = (Retry sl', sv')"
    and w': "w' = w1"
    using run S sel up P b K by (auto simp: serve_round_def Let_def sv2_def sl2_def split: prod.splits)
  obtain fe where fe: "res = Inl fe" using F by (cases res) (auto simp: finish_round_def Let_def split: prod.splits)
  have q: "svQuiet sv2 = svQuiet sv" and o2: "pxOrder sv2 = (pxOrder sv)[i := ts]"
    using service_more(4)[OF fr(3)] fr(1) by (simp_all add: sv2_def put_state_def)
  let ?s = "handleForwardError ts (svQuiet sv) (netNow net w1)"
  have out: "req = []" "sl' = sl2" "pxOrder sv' = (pxOrder sv)[i := ?s]"
    using F fe q o2 us(1) by (auto simp: finish_round_def Let_def writeForwardErrorLog_def put_state_def split: if_splits)
  have "slAttempted sl2 = insert (to_lower (tName (the_target sv i))) (slAttempted sl)"
    using prepare_body_attempted[OF P] fr(1) by (simp add: sl2_def)
  moreover have "tsMutedUntil ?s = netNow net w1 + (if svQuiet sv \<le> 0 then seconds 60 else svQuiet sv)" "tsLastFailure ?s = netNow net w1"
    by (simp_all add: handleForwardError_def markFailure_def)
  ultimately show ?thesis using us out w' by (intro exI[of _ i]) auto
qed

text \<open>
  C7: a request moves on to another target only when its client named none; the target it leaves
  had not been tried and was not muted, is now among the tried ones and muted for the quiet period
  from its failure, and no other target is touched.
\<close>

theorem failover_mutes:
  assumes "proxy_ok sv" "serve_round fuel net pr req model sl sv w = Some (Retry sl', sv', w')"
  shows "\<exists>i < length (pxOrder sv). req = [] \<and> to_lower (tName (the_target sv i)) \<notin> slAttempted sl \<and>
     slAttempted sl' = insert (to_lower (tName (the_target sv i))) (slAttempted sl) \<and>
     \<not> isMuted (the_state sv i) (netNow net w) \<and>
     tsMutedUntil (the_state sv' i) = netNow net w' + (if svQuiet sv \<le> 0 then seconds 60 else svQuiet sv) \<and>
     tsLastFailure (the_state sv' i) = netNow net w' \<and> (\<forall>j. j \<noteq> i \<longrightarrow> the_state sv' j = the_state sv j) \<and>
     length (pxOrder sv') = length (pxOrder sv)"
  by (rule serve_round_retry[OF assms])

section \<open>The end of the retries\<close>

definition calm_service :: "'w net \<Rightarrow> service \<Rightarrow> bool" where
  "calm_service net sv = (\<forall>s \<in> set (pxOrder sv). calm net s)"

lemma calm_served: "calm_service net sv \<Longrightarrow> served sv k sv' \<Longrightarrow> calm_service net sv'"
  by (auto simp: calm_service_def served_def orders_kept_def list_all2_conv_all_nth all_set_conv_all_nth calm_def state_kept_def
      split: option.splits)

lemma serve_round_total:
  assumes ok: "proxy_ok sv" and c: "calm_service net sv" and n: "3 \<le> fuel"
  shows "serve_round fuel net pr req model sl sv w \<noteq> None"
proof -
  obtain sel sv1 where S: "selectTarget sv pr (clientIP (slRequest sl)) req (allowed_filter pr) (slAttempted sl) model
            (uPath (rqURL (slRequest sl))) (netNow net w) = (sel, sv1)" by fastforce
  note fr = selectTarget_frame[OF S]
  show ?thesis
  proof (cases sel)
    case (Inl e)
    then show ?thesis using S by (simp add: serve_round_def)
  next
    case (Inr ik)
    obtain i kind where sel: "sel = Inr (i, kind)" using Inr by (cases ik) auto
    have i: "i < length (pxOrder sv)" using selectTarget_usable[OF ok] S sel by (simp add: allowed_filter_of)
    have K: "key_loop fuel net reg t r b (key_loop_start (the_state sv1 i)) w \<noteq> None" for reg t r b
      using key_loop_calm[of net "key_loop_start (the_state sv1 i)" fuel] c n i fr(1) by (simp add: calm_service_def)
    show ?thesis
    proof (cases "ensureModelAllowed (the_target sv1 i) model")
      case (Inr up)
      obtain ob r sl1 where P: "prepare_body sv1 (the_target sv1 i) up model sl = (ob, r, sl1)" by (metis prod.collapse)
      show ?thesis
      proof (cases ob)
        case (Some body)
        obtain x where "key_loop fuel net (svRegistry sv1) (getRequestTimeout sv1) r body (key_loop_start (the_state sv1 i)) w = Some x"
          using K by blast
        then show ?thesis using S sel Inr P Some by (cases x) (simp add: serve_round_def Let_def split: prod.split)
      qed (use S sel Inr P in \<open>simp add: serve_round_def\<close>)
    qed (use S sel in \<open>simp add: serve_round_def\<close>)
  qed
qed

lemma serve_loop_total:
  assumes "proxy_ok sv" "calm_service net sv" "3 \<le> fuel" "card (target_names sv - slAttempted sl) < n"
  shows "serve_loop n fuel net pr req model sl sv w \<noteq> None"
  using assms
proof (induction n arbitrary: sl sv w)
  case (Suc n)
  obtain st sv1 w1 where R: "serve_round fuel net pr req model sl sv w = Some (st, sv1, w1)"
    using serve_round_total[OF Suc.prems(1-3)] by (metis not_None_eq prod.collapse)
  show ?case
  proof (cases st)
    case (Done o')
    then show ?thesis using R by simp
  next
    case (Retry sl')
    note s = serve_round_served[OF Suc.prems(1) R]
    obtain i where i: "i < length (pxOrder sv)" "to_lower (tName (the_target sv i)) \<notin> slAttempted sl"
        "slAttempted sl' = insert (to_lower (tName (the_target sv i))) (slAttempted sl)"
      using serve_round_retry[OF Suc.prems(1) R[unfolded Retry]] by blast
    have mem: "to_lower (tName (the_target sv i)) \<in> target_names sv - slAttempted sl"
      using i(1,2) by (auto simp: target_names_def)
    have "target_names sv1 - slAttempted sl' = (target_names sv - slAttempted sl) - {to_lower (tName (the_target sv i))}"
      using i(3) served_names[OF s] by auto
    then have "card (target_names sv1 - slAttempted sl') < n"
      using Suc.prems(4) mem card_Suc_Diff1[OF _ mem] by (simp add: target_names_def)
    then have "serve_loop n fuel net pr req model sl' sv1 w1 \<noteq> None"
      using Suc.IH served_ok[OF Suc.prems(1) s] calm_served[OF Suc.prems(2) s] Suc.prems(3) by blast
    then show ?thesis using R Retry by simp
  qed
qed simp

lemma serveHTTP_total:
  assumes "proxy_ok sv" "\<forall>s \<in> set (pxOrder sv). tsKeyPool s = None \<or>
      (\<forall>w q resp w'. netDo net w q = (Inr resp, w') \<longrightarrow> rsStatus resp < 400)"
    "3 \<le> keyFuel" "length (pxOrder sv) < targetFuel"
  shows "\<exists>out sv' w'. serveHTTP targetFuel keyFuel net sv r w = Some (out, sv', w')"
proof -
  obtain a sv1 where A: "admit (begin_request sv) r (netNow net w) = (a, sv1)" by fastforce
  have ok: "proxy_ok (begin_request sv)" using assms(1) by (simp add: begin_request_def proxy_ok_def)
  have s1: "served (begin_request sv) 0 sv1" using admit_served[OF ok, of r "netNow net w"] A by simp
  have c: "calm_service net sv1"
    using calm_served[OF _ s1] assms(2) by (simp add: calm_service_def calm_def no_error_answers_def begin_request_def)
  have "card (target_names sv1) \<le> length (pxOrder sv)"
    using served_names[OF s1] card_image_le[of "set (pxOrder sv)" "\<lambda>s. to_lower (tName (tsTarget s))"] card_length[of "pxOrder sv"]
    by (simp add: target_names_def begin_request_def)
  then have "serve_loop targetFuel keyFuel net pr req model sl sv1 w \<noteq> None" if "slAttempted sl = {}" for pr req model sl
    using serve_loop_total[OF served_ok[OF ok s1] c assms(3), of sl targetFuel] assms(4) that by simp
  note loop = this
  show ?thesis
  proof (cases a)
    case (Inl x)
    then show ?thesis using A by (cases x) (simp add: serveHTTP_def)
  next
    case (Inr x)
    obtain pr model where x: "x = (pr, model)" by fastforce
    let ?sl = "\<lparr>slAttempted = {}, slRequest = r, slBody = rqBody r, slSanitized = None\<rparr>"
    obtain out sv2 w2 where "serve_loop targetFuel keyFuel net pr (to_lower (requested_target r)) model ?sl sv1 w = Some (out, sv2, w2)"
      using loop[of ?sl pr "to_lower (requested_target r)" model] by auto
    then show ?thesis using A Inr x by (simp add: serveHTTP_def)
  qed
qed

text \<open>
  C6: a request is answered after at most as many rounds as there are targets, with at most three
  attempts in each, when every target has a single key or the upstreams, however often they fail to
  be reached, do not answer with errors. (With several keys, an upstream that keeps answering 429 keeps
  the loop over the keys going.)
\<close>

theorem request_ends:
  assumes "proxy_ok sv" "\<forall>s \<in> set (pxOrder sv). tsKeyPool s = None \<or>
      (\<forall>w q resp w'. netDo net w q = (Inr resp, w') \<longrightarrow> rsStatus resp < 400)"
    "3 \<le> keyFuel" "length (pxOrder sv) < targetFuel"
  shows "\<exists>out sv' w'. serveHTTP targetFuel keyFuel net sv r w = Some (out, sv', w')"
  by (rule serveHTTP_total[OF assms])

section \<open>Witnesses\<close>

definition demo_service :: service where
  "demo_service = \<lparr>pxOrder = pxOrder demo_proxy, pxByName = pxByName demo_proxy, pxAffinity = Map.empty, pxRR = 2,
     svRegistry = defaultProviderRegistry, svTimeout = seconds 60, svQuiet = seconds 60, svTotalRequests = 0,
     svTotalSuccess = 0, svTotalFailures = 0, svTotalKeyRetries = 0, svTotalTargetRetries = 0, svActiveRequests = 0,
     svStartTime = 0, svQuota = None, svStores = \<lparr>qsClients = None, qsUsage = None, qsCosts = Map.empty\<rparr>, svCatalog = None,
     svTrace = \<lparr>rbCfg = \<lparr>tcEnabled = False, tcRingBufferSize = 1, tcMaxBodySize = 1, tcDiskPath = [], tcDiskMaxSizeMB = 1,
        tcDiskMaxBackups = 1, tcDiskTTLHours = 1, tcChannelBuffer = 1\<rparr>, rbRing = Map.empty, rbKeys = [], rbHead = 0,
        rbQueue = [], rbTotalRecords = 0, rbDroppedRecords = 0\<rparr>, svErrorLog = []\<rparr>"

lemma demo_service_ok: "proxy_ok demo_service"
  using demo_proxy_ok by (simp add: proxy_ok_def demo_service_def)

text \<open>A network whose world is the clock: every request takes a nanosecond and has the same result.\<close>

definition demo_net :: "(transport_error + response) \<Rightarrow> time net" where
  "demo_net res = \<lparr>netNow = (\<lambda>w. w), netDo = (\<lambda>w _. (res, w + 1)), netSleep = (\<lambda>w d. w + d), netGunzip = (\<lambda>_ _. None)\<rparr>"

definition demo_answer :: response where
  "demo_answer = \<lparr>rsStatus = 200, rsHeader = [(''content-type'', [''application/json''])], rsBody = ''{}'', rsBroken = False, rsURL = None\<rparr>"

definition demo_call :: request where
  "demo_call = demo_request\<lparr>rqPrincipal := Some demo_principal\<rparr>"

definition demo_round :: round_state where
  "demo_round = \<lparr>slAttempted = {}, slRequest = demo_call, slBody = [], slSanitized = None\<rparr>"

theorem failover_mutes_witness:
  "case serve_round 3 (demo_net (Inl Tr_other)) demo_principal [] ''m'' demo_round demo_service 9 of
     Some (Retry sl', sv', w') \<Rightarrow> slAttempted sl' \<noteq> {} \<and> length (pxOrder sv') = 2 | _ \<Rightarrow> False"
proof -
  have r: "case serve_round 3 (demo_net (Inl Tr_other)) demo_principal [] ''m'' demo_round demo_service 9 of
     Some (Retry _, _, _) \<Rightarrow> True | _ \<Rightarrow> False" by code_simp
  then obtain sl' sv' w' where run: "serve_round 3 (demo_net (Inl Tr_other)) demo_principal [] ''m'' demo_round demo_service 9 = Some (Retry sl', sv', w')"
    by (auto split: option.split_asm prod.split_asm) (metis serve_step.case(1) serve_step.exhaust)
  have "length (pxOrder demo_service) = 2" by (simp add: demo_service_def demo_proxy_def)
  then show ?thesis using failover_mutes[OF demo_service_ok run] run by auto
qed

lemma demo_calm: "\<forall>s \<in> set (pxOrder demo_service). tsKeyPool s = None \<or>
    (\<forall>w q resp w'. netDo (demo_net (Inr demo_answer)) w q = (Inr resp, w') \<longrightarrow> rsStatus resp < 400)"
  by (simp add: demo_net_def demo_answer_def)

lemma demo_targets: "length (pxOrder demo_service) < 3"
  by (simp add: demo_service_def demo_proxy_def)

theorem request_ends_witness:
  "\<exists>out sv' w'. serveHTTP 3 3 (demo_net (Inr demo_answer)) demo_service demo_call 9 = Some (out, sv', w')"
  by (rule request_ends[OF demo_service_ok demo_calm _ demo_targets]) simp

theorem request_accounting_witness:
  "\<exists>out sv' w'. serveHTTP 3 3 (demo_net (Inr demo_answer)) demo_service demo_call 9 = Some (out, sv', w') \<and>
     svTotalRequests sv' = 1 \<and> svActiveRequests sv' = 0 \<and> svTotalSuccess sv' + svTotalFailures sv' = 1"
proof -
  obtain out sv' w' where run: "serveHTTP 3 3 (demo_net (Inr demo_answer)) demo_service demo_call 9 = Some (out, sv', w')"
    using serveHTTP_total[OF demo_service_ok demo_calm _ demo_targets, of 3 demo_call 9] by auto
  show ?thesis using run request_accounting[OF demo_service_ok run] by (auto simp: demo_service_def)
qed

theorem request_leaves_no_flight_witness:
  "\<exists>out sv' w'. serveHTTP 3 3 (demo_net (Inl Tr_timeout)) demo_service demo_call 9 = Some (out, sv', w') \<and>
     in_flight sv' = [Some [0, 0], None]"
proof -
  have c: "\<forall>s \<in> set (pxOrder demo_service). tsKeyPool s = None \<or>
      (\<forall>w q resp w'. netDo (demo_net (Inl Tr_timeout)) w q = (Inr resp, w') \<longrightarrow> rsStatus resp < 400)"
    by (simp add: demo_net_def)
  obtain out sv' w' where run: "serveHTTP 3 3 (demo_net (Inl Tr_timeout)) demo_service demo_call 9 = Some (out, sv', w')"
    using serveHTTP_total[OF demo_service_ok c _ demo_targets, of 3 demo_call 9] by auto
  have "in_flight demo_service = [Some [0, 0], None]" by code_simp
  then show ?thesis using run request_leaves_no_flight[OF demo_service_ok run] by auto
qed

end
