(* ===== verification/Service_Admin.thy ===== *)
theory Service_Admin
  imports Serve
begin

text \<open>
  The construction of the service and its operations for the administration
  (\<open>internal/proxy/service.go\<close>): configuration, metrics, the health of targets and keys, blocking
  keys and waking them up.
\<close>

section \<open>Configuration\<close>

definition setRequestTimeout :: "service \<Rightarrow> duration \<Rightarrow> service" where
  "setRequestTimeout sv t = sv\<lparr>svTimeout := normalizeRequestTimeout t\<rparr>"

definition applyConfig :: "service \<Rightarrow> config \<Rightarrow> time \<Rightarrow> build_error option \<times> service" where
  "applyConfig sv cfg now = (case buildTargetStates (cfgTargets cfg) now of Inl e \<Rightarrow> (Some e, sv)
     | Inr (names, order) \<Rightarrow>
         (None, setRequestTimeout (sv\<lparr>pxByName := names, pxOrder := order\<rparr>) (seconds (cfgRequestTimeoutSeconds cfg))))"

text \<open>A service without recorder and quotas; the section of the trace store is not part of \<open>config\<close>.\<close>

definition newService :: "config \<Rightarrow> trace_config \<Rightarrow> catalog option \<Rightarrow> time \<Rightarrow> build_error + service" where
  "newService cfg trace cat now =
     (let sv = \<lparr>pxOrder = [], pxByName = Map.empty, pxAffinity = Map.empty, pxRR = 0, svRegistry = defaultProviderRegistry,
        svTimeout = normalizeRequestTimeout (seconds (cfgRequestTimeoutSeconds cfg)), svQuiet = seconds 60,
        svTotalRequests = 0, svTotalSuccess = 0, svTotalFailures = 0, svTotalKeyRetries = 0, svTotalTargetRetries = 0,
        svActiveRequests = 0, svStartTime = now, svQuota = None,
        svStores = \<lparr>qsClients = None, qsUsage = None, qsCosts = Map.empty\<rparr>, svCatalog = cat,
        svTrace = new_trace_store (trace_defaults trace), svErrorLog = []\<rparr> in
      case applyConfig sv cfg now of (Some e, _) \<Rightarrow> Inl e | (None, sv') \<Rightarrow> Inr sv')"

definition setUsageRecorder :: "service \<Rightarrow> usage_db option \<Rightarrow> service" where
  "setUsageRecorder sv db = sv\<lparr>svStores := (svStores sv)\<lparr>qsUsage := db\<rparr>\<rparr>"

definition setQuotaManager :: "service \<Rightarrow> quota_manager option \<Rightarrow> service" where
  "setQuotaManager sv q = sv\<lparr>svQuota := q\<rparr>"

section \<open>Metrics and health\<close>

record service_metrics =
  smTotalRequests :: int
  smTotalSuccess :: int
  smTotalFailures :: int
  smTotalRetries :: int
  smTotalKeyRetries :: int
  smTotalTargetRetries :: int
  smActiveRequests :: int
  smStartTime :: time

definition metricsSnapshot :: "service \<Rightarrow> service_metrics" where
  "metricsSnapshot sv = \<lparr>smTotalRequests = svTotalRequests sv, smTotalSuccess = svTotalSuccess sv,
     smTotalFailures = svTotalFailures sv, smTotalRetries = svTotalKeyRetries sv + svTotalTargetRetries sv,
     smTotalKeyRetries = svTotalKeyRetries sv, smTotalTargetRetries = svTotalTargetRetries sv,
     smActiveRequests = svActiveRequests sv, smStartTime = svStartTime sv\<rparr>"

record key_counts =
  kcTotal :: nat
  kcActive :: nat
  kcSubscription :: nat
  kcAPI :: nat
  kcRateLimited :: nat
  kcBlocked :: nat
  kcOther :: nat

definition no_keys :: key_counts where
  "no_keys = \<lparr>kcTotal = 0, kcActive = 0, kcSubscription = 0, kcAPI = 0, kcRateLimited = 0, kcBlocked = 0, kcOther = 0\<rparr>"

definition count_key :: "key_counts \<Rightarrow> key_status \<Rightarrow> key_counts" where
  "count_key c k =
     (if ksBlocked k then c\<lparr>kcBlocked := kcBlocked c + 1\<rparr>
      else if \<not> ksExhausted k then c\<lparr>kcActive := kcActive c + 1\<rparr>
      else if ksExhaustReason k = ''quota_exceeded_subscription'' then c\<lparr>kcSubscription := kcSubscription c + 1\<rparr>
      else if ksExhaustReason k = ''quota_exceeded_api'' then c\<lparr>kcAPI := kcAPI c + 1\<rparr>
      else if ksExhaustReason k = ''rate_limited'' then c\<lparr>kcRateLimited := kcRateLimited c + 1\<rparr>
      else c\<lparr>kcOther := kcOther c + 1\<rparr>)"

definition key_counts_of :: "target_state \<Rightarrow> time \<Rightarrow> key_counts" where
  "key_counts_of ts now = (case tsKeyPool ts of
     Some p \<Rightarrow> (let ks = pool_status p now in foldl count_key (no_keys\<lparr>kcTotal := length ks\<rparr>) ks)
   | None \<Rightarrow> if tAPIKey (tsTarget ts) \<noteq> [] then no_keys\<lparr>kcTotal := 1, kcActive := 1\<rparr> else no_keys)"

record target_status =
  taName :: string
  taEndpointType :: string
  taEndpoint :: string
  taPaused :: bool
  taMuted :: bool
  taStats :: target_stats
  taKeys :: key_counts

definition targetStatuses :: "service \<Rightarrow> time \<Rightarrow> target_status list" where
  "targetStatuses sv now = map (\<lambda>ts. let t = tsTarget ts in
     \<lparr>taName = tName t, taEndpointType = tEndpointType t, taEndpoint = url_string (tEndpoint t), taPaused = tPaused t,
      taMuted = isMuted ts now, taStats = stats ts, taKeys = key_counts_of ts now\<rparr>) (pxOrder sv)"

section \<open>Keys\<close>

datatype admin_error = No_key_pool string | Key_out_of_range int | Wake_up_not_possible

definition pool_of :: "service \<Rightarrow> string \<Rightarrow> (nat \<times> key_pool) option" where
  "pool_of sv name = (case pxByName sv (to_lower name) of None \<Rightarrow> None
     | Some i \<Rightarrow> map_option (Pair i) (tsKeyPool (the_state sv i)))"

definition put_pool :: "service \<Rightarrow> nat \<Rightarrow> key_pool \<Rightarrow> service" where
  "put_pool sv i p = put_state sv i ((the_state sv i)\<lparr>tsKeyPool := Some p\<rparr>)"

definition keyPoolStatus :: "service \<Rightarrow> string \<Rightarrow> time \<Rightarrow> key_status list" where
  "keyPoolStatus sv name now = (case pool_of sv name of None \<Rightarrow> [] | Some (_, p) \<Rightarrow> pool_status p now)"

definition block_key :: "service \<Rightarrow> string \<Rightarrow> int \<Rightarrow> admin_error option \<times> service" where
  "block_key sv name k = (case pool_of sv name of None \<Rightarrow> (Some (No_key_pool name), sv)
     | Some (i, p) \<Rightarrow> if \<not> valid_index p k then (Some (Key_out_of_range k), sv) else (None, put_pool sv i (blockKey p k)))"

definition unblock_key :: "service \<Rightarrow> string \<Rightarrow> int \<Rightarrow> admin_error option \<times> service" where
  "unblock_key sv name k = (case pool_of sv name of None \<Rightarrow> (Some (No_key_pool name), sv)
     | Some (i, p) \<Rightarrow> if \<not> valid_index p k then (Some (Key_out_of_range k), sv) else (None, put_pool sv i (unblockKey p k)))"

fun wake_keys :: "'w net \<Rightarrow> provider_registry \<Rightarrow> target \<Rightarrow> nat list \<Rightarrow> key_pool \<Rightarrow> 'w \<Rightarrow> nat \<times> key_pool \<times> 'w" where
  "wake_keys net reg t [] p w = (0, p, w)"
| "wake_keys net reg t (i # is) p w =
     (let (ok, w1) = probeKey net reg t p (int i) w;
          (recovered, p1) = (if ok then markRecovered p (int i) else (False, p));
          (n, p2, w2) = wake_keys net reg t is p1 w1 in (if recovered then Suc n else n, p2, w2))"

definition wakeUpKeys :: "'w net \<Rightarrow> service \<Rightarrow> string \<Rightarrow> 'w \<Rightarrow> (admin_error + nat) \<times> service \<times> 'w" where
  "wakeUpKeys net sv name w = (case pool_of sv name of None \<Rightarrow> (Inl (No_key_pool name), sv, w)
     | Some (i, p) \<Rightarrow>
        let (started, p1) = tryWakeUp p (netNow net w) in
        if \<not> started then (Inl Wake_up_not_possible, sv, w) else
        let (n, p2, w1) = wake_keys net (svRegistry sv) (the_target sv i) (getExhaustedKeys p1 (netNow net w)) p1 w in
        (Inr n, put_pool sv i (wakeUpComplete p2 (netNow net w1)), w1))"

section \<open>Properties\<close>

lemma count_key_total: "kcTotal (count_key c k) = kcTotal c \<and>
    kcActive (count_key c k) + kcSubscription (count_key c k) + kcAPI (count_key c k) + kcRateLimited (count_key c k) +
      kcBlocked (count_key c k) + kcOther (count_key c k) =
    Suc (kcActive c + kcSubscription c + kcAPI c + kcRateLimited c + kcBlocked c + kcOther c)"
  by (simp add: count_key_def)

lemma count_keys_total: "kcTotal (foldl count_key c ks) = kcTotal c \<and>
    kcActive (foldl count_key c ks) + kcSubscription (foldl count_key c ks) + kcAPI (foldl count_key c ks) +
      kcRateLimited (foldl count_key c ks) + kcBlocked (foldl count_key c ks) + kcOther (foldl count_key c ks) =
    length ks + (kcActive c + kcSubscription c + kcAPI c + kcRateLimited c + kcBlocked c + kcOther c)"
proof (induction ks arbitrary: c)
  case (Cons k ks)
  show ?case using Cons[of "count_key c k"] count_key_total[of c k] by simp
qed simp

text \<open>
  In the health report of a target the six classes of keys add up to the number of its keys, which
  is the size of its pool, and the class of active keys is exactly the count that weighs the target
  when one is selected, for a target with a pool.
\<close>

theorem target_key_counts:
  "let c = key_counts_of ts now in
     kcActive c + kcSubscription c + kcAPI c + kcRateLimited c + kcBlocked c + kcOther c = kcTotal c \<and>
     kcTotal c = (case tsKeyPool ts of Some p \<Rightarrow> length (entries p) | None \<Rightarrow> if tAPIKey (tsTarget ts) \<noteq> [] then 1 else 0) \<and>
     kcActive c = (case tsKeyPool ts of Some p \<Rightarrow> activeKeyCount p | None \<Rightarrow> kcTotal c)"
proof (cases "tsKeyPool ts")
  case (Some p)
  have "kcActive (foldl count_key c (map (\<lambda>i. key_status_of now cur i (entries p ! i)) is)) =
      kcActive c + length (filter (\<lambda>i. active (entries p ! i)) is)" for c cur "is"
    by (induction "is" arbitrary: c) (auto simp: count_key_def key_status_of_def active_def)
  moreover have "length (filter (\<lambda>i. active (entries p ! i)) [0..<length (entries p)]) = activeKeyCount p"
  proof -
    have "filter (\<lambda>i. active (entries p ! i)) [0..<length (entries p)] = filter (active \<circ> (!) (entries p)) [0..<length (entries p)]"
      by (simp add: o_def)
    then show ?thesis
      using length_map[of "(!) (entries p)" "filter (active \<circ> (!) (entries p)) [0..<length (entries p)]"]
      by (simp add: activeKeyCount_def filter_map[symmetric] map_nth)
  qed
  ultimately show ?thesis
    using Some count_keys_total[of "no_keys\<lparr>kcTotal := length (pool_status p now)\<rparr>" "pool_status p now"]
    by (auto simp: key_counts_of_def Let_def no_keys_def pool_status_def)
qed (simp add: key_counts_of_def no_keys_def)

end
