(* ===== verification/Quota_Props.thy ===== *)
theory Quota_Props
  imports Quota
begin

text \<open>
  The theorems on quotas: the periods partition time, the hourly cells price the recorded events,
  the counters in memory follow the store as long as they are kept, and a client over its limit is
  turned away until its reset.
\<close>

section \<open>Periods\<close>

definition first_day :: "dimension \<Rightarrow> int \<Rightarrow> int" where
  "first_day d n = (case d of Daily \<Rightarrow> n | Weekly \<Rightarrow> n - n mod 7 | Monthly \<Rightarrow> date_days (year_of n) (month_of n) 1)"

definition next_day :: "dimension \<Rightarrow> int \<Rightarrow> int" where
  "next_day d n = (case d of Daily \<Rightarrow> n + 1 | Weekly \<Rightarrow> n - n mod 7 + 7 | Monthly \<Rightarrow> date_days (year_of n) (month_of n + 1) 1)"

lemma day_at_shift: "day_at 0 (t + k * day_ns) = day_at 0 t + k"
  by (simp add: day_at_def)

lemma periodStart_first_day: "periodStart d t = midnight 0 (first_day d (day_at 0 t))"
  and nextResetAt_next_day: "nextResetAt d t = midnight 0 (next_day d (day_at 0 t))"
proof -
  have w: "(weekday n + 6) mod 7 = n mod 7" for n
    unfolding weekday_def by presburger
  have m: "day_at 0 (t - n mod 7 * day_ns) = day_at 0 t - n mod 7" for n
    using day_at_shift[of t "- (n mod 7)"] by simp
  have p: "day_at 0 (t + (7 - n mod 7) * day_ns) = day_at 0 t - n mod 7 + 7" for n
    using day_at_shift[of t "7 - n mod 7"] by simp
  show "periodStart d t = midnight 0 (first_day d (day_at 0 t))"
    by (cases d) (simp_all add: periodStart_def first_day_def Let_def w add_days m)
  show "nextResetAt d t = midnight 0 (next_day d (day_at 0 t))"
    using day_at_shift[of t 1]
    by (cases d) (simp_all add: nextResetAt_def next_day_def Let_def w add_days p)
qed

lemma month_around:
  "date_days (year_of n) (month_of n) 1 \<le> n" "n < date_days (year_of n) (month_of n + 1) 1"
proof -
  let ?y = "year_of n" and ?m = "month_of n"
  have n: "date_days ?y ?m 1 + (mday_of n - 1) = n"
    using date_days_shift[of ?y ?m 1 "mday_of n - 1"] date_of_day(5)[of n] by simp
  have "(?m - 1) mod 12 + 1 = ?m"
    using date_of_day(1,2)[of n] by simp
  then have "date_days ?y (?m + 1) 1 = date_days ?y ?m 1 + month_len ?y ?m"
    using date_next_month[of ?m ?y] date_of_day(1,2)[of n] by simp
  with n date_of_day(3,4)[of n] show "date_days ?y ?m 1 \<le> n" "n < date_days ?y (?m + 1) 1"
    by linarith+
qed

text \<open>A day from the first of a month to the first of the next is in that month.\<close>

lemma month_same:
  assumes "date_days (year_of n) (month_of n) 1 \<le> k" "k < date_days (year_of n) (month_of n + 1) 1"
  shows "year_of k = year_of n \<and> month_of k = month_of n"
proof -
  let ?y = "year_of n" and ?m = "month_of n"
  let ?d = "k - date_days ?y ?m 1 + 1"
  have m: "1 \<le> ?m" "?m \<le> 12" by (rule date_of_day)+
  then have "(?m - 1) mod 12 + 1 = ?m" by simp
  then have "?d \<le> month_len ?y ?m" "1 \<le> ?d"
    using assms date_next_month[OF m, of ?y] by simp_all
  note f = month_of_date(1,2)[OF m this(2,1)]
  have "date_days ?y ?m ?d = k"
    using date_days_shift[of ?y ?m 1 "k - date_days ?y ?m 1"] by (simp add: algebra_simps)
  with f show ?thesis by simp
qed

lemma first_day_le: "first_day d n \<le> n"
  using month_around(1)[of n] by (cases d) (simp_all add: first_day_def)

lemma less_next_day: "n < next_day d n"
proof (cases d)
  case Weekly
  have "n < n - n mod 7 + 7" by (simp add: add.commute)
  with Weekly show ?thesis by (simp add: next_day_def)
qed (use month_around(2)[of n] in \<open>simp_all add: next_day_def\<close>)

lemma same_period:
  assumes "first_day d n \<le> k" "k < next_day d n"
  shows "first_day d k = first_day d n \<and> next_day d k = next_day d n"
proof (cases d)
  case Weekly
  with assms have "k - k mod 7 = n - n mod 7"
    unfolding first_day_def next_day_def by simp presburger
  with Weekly show ?thesis by (simp add: first_day_def next_day_def)
qed (use assms month_same[of n k] in \<open>simp_all add: first_day_def next_day_def\<close>)

lemma next_day_first: "first_day d (next_day d n) = next_day d n"
proof (cases d)
  case Weekly
  have "(n - n mod 7 + 7) mod 7 = 0" by presburger
  with Weekly show ?thesis by (simp add: first_day_def next_day_def)
next
  case Monthly
  let ?y = "if month_of n = 12 then year_of n + 1 else year_of n"
  let ?m = "if month_of n = 12 then 1 else month_of n + 1"
  have m: "1 \<le> ?m" "?m \<le> 12" using date_of_day(1,2)[of n] by auto
  have e: "date_days (year_of n) (month_of n + 1) 1 = date_days ?y ?m 1"
    using date_of_day(1,2)[of n] by (simp add: date_days_def Let_def)
  have "1 \<le> month_len ?y ?m"
    using month_len_bounds[OF m, of ?y] by linarith
  note f = month_of_date(1,2)[OF m order_refl this]
  show ?thesis
    using f by (simp add: Monthly first_day_def next_day_def e)
qed (simp add: first_day_def next_day_def)

lemma period_contains: "periodStart d t \<le> t \<and> t < nextResetAt d t"
proof -
  have "periodStart d t \<le> midnight 0 (day_at 0 t)"
    by (simp add: periodStart_first_day first_day_le)
  then show ?thesis
    using midnight_at(1)[of 0 t]
    by (auto simp: nextResetAt_next_day midnight_after_iff less_next_day)
qed

lemma period_same:
  assumes "periodStart d t \<le> u" "u < nextResetAt d t"
  shows "periodStart d u = periodStart d t \<and> nextResetAt d u = nextResetAt d t"
proof -
  have "first_day d (day_at 0 t) \<le> day_at 0 u"
    using assms(1) midnight_after_iff[of u 0 "first_day d (day_at 0 t)"] by (simp add: periodStart_first_day not_less[symmetric])
  moreover have "day_at 0 u < next_day d (day_at 0 t)"
    using assms(2) by (simp add: nextResetAt_next_day midnight_after_iff)
  ultimately show ?thesis
    using same_period[of d "day_at 0 t" "day_at 0 u"] by (simp add: periodStart_first_day nextResetAt_next_day)
qed

lemma period_next: "periodStart d (nextResetAt d t) = nextResetAt d t"
  by (simp add: periodStart_first_day nextResetAt_next_day next_day_first)

text \<open>
  C40: The quota periods of every dimension partition time: an instant lies in its own period, its
  reset starts the next one, and the period of any instant is the same when computed from any other
  instant in it.
\<close>

theorem quota_periods:
  "periodStart d t \<le> t \<and> t < nextResetAt d t \<and> periodStart d (nextResetAt d t) = nextResetAt d t \<and>
   {u. periodStart d u = periodStart d t} = {periodStart d t..<nextResetAt d t}"
proof -
  have "u < nextResetAt d t" "periodStart d t \<le> u" if "periodStart d u = periodStart d t" for u
  proof -
    show "periodStart d t \<le> u" using period_contains[of d u] that by simp
    have c: "periodStart d u \<le> u \<and> u < nextResetAt d u" by (rule period_contains)
    have "nextResetAt d (periodStart d v) = nextResetAt d v" for v
      using period_same[of d v "periodStart d v"] period_contains[of d v] by simp
    from this[of u] this[of t] c that show "u < nextResetAt d t" by metis
  qed
  then have "u \<in> {u. periodStart d u = periodStart d t} \<longleftrightarrow> u \<in> {periodStart d t..<nextResetAt d t}" for u
    using period_same[of d t u] by (simp only: mem_Collect_eq atLeastLessThan_iff) blast
  then have "{u. periodStart d u = periodStart d t} = {periodStart d t..<nextResetAt d t}"
    by (rule set_eqI)
  then show ?thesis using period_contains period_next by blast
qed

section \<open>The price of the cells\<close>

lemma sum_update:
  fixes f :: "'k \<times> 'v \<Rightarrow> real"
  shows "sum_list (map f (AList.update k v xs)) =
    sum_list (map f xs) + f (k, v) - (case map_of xs k of None \<Rightarrow> 0 | Some w \<Rightarrow> f (k, w))"
  by (induction xs) auto

lemma foldl_sum: "foldl (\<lambda>u x. u + f x) a xs = a + sum_list (map f xs)" for a :: real
  by (induction xs arbitrary: a) auto

definition cell_plus :: "agg_cell \<Rightarrow> agg_cell \<Rightarrow> agg_cell" where
  "cell_plus a b = \<lparr>acRequests = acRequests a + acRequests b, acSuccess = acSuccess a + acSuccess b,
     acInput = acInput a + acInput b, acOutput = acOutput a + acOutput b, acCached = acCached a + acCached b,
     acCacheCreation = acCacheCreation a + acCacheCreation b\<rparr>"

definition cell_of :: "usage_event \<Rightarrow> agg_cell" where
  "cell_of e = \<lparr>acRequests = 1, acSuccess = (if isSuccessStatus (ueStatus e) then 1 else 0), acInput = ueInput e,
     acOutput = ueOutput e, acCached = ueCached e, acCacheCreation = ueCacheCreation e\<rparr>"

lemma group_cost_zero [simp]: "group_cost costs (g, zero_cell) = 0"
  by (simp add: group_cost_def token_cost_def zero_cell_def split: option.splits)

lemma group_cost_plus: "group_cost costs (g, cell_plus a b) = group_cost costs (g, a) + group_cost costs (g, b)"
  by (simp add: group_cost_def token_cost_def cell_plus_def algebra_simps add_divide_distrib split: option.splits)

lemma group_cost_add:
  "group_cost costs (g, add_usage t c) = (case t of None \<Rightarrow> 0 | Some w \<Rightarrow> group_cost costs (g, w)) + group_cost costs (g, c)"
  by (cases t) (simp_all add: group_cost_def token_cost_def add_usage_def zero_cell_def Let_def algebra_simps add_divide_distrib
      split: option.splits)

lemma bump_cell:
  "bumpAgg agg e = (let k = aggKey (ueTimestamp e) (ueEndpointType e) (ueClientName e) (ueModel e) in
     AList.update k (case map_of agg k of None \<Rightarrow> cell_of e | Some c \<Rightarrow> cell_plus c (cell_of e)) agg)"
  by (auto simp: bumpAgg_def Let_def cell_plus_def cell_of_def zero_cell_def split: option.splits)

text \<open>The price a client pays for one cell.\<close>

definition cell_price :: "cost_table \<Rightarrow> string \<Rightarrow> time \<Rightarrow> time \<Rightarrow> agg_key \<times> agg_cell \<Rightarrow> real" where
  "cell_price costs client a b kc = (if hour_index a \<le> fst (fst kc) \<and> fst (fst kc) \<le> hour_index b
     then (case parseAggKey (fst kc) of None \<Rightarrow> 0
       | Some (_, et, cl, model) \<Rightarrow> if cl = trim_space client then group_cost costs (et @ '':'' @ model, snd kc) else 0) else 0)"

lemma cell_price_plus: "cell_price costs client a b (k, cell_plus x y) = cell_price costs client a b (k, x) + cell_price costs client a b (k, y)"
  by (simp add: cell_price_def group_cost_plus split: option.splits)

lemma price_iter:
  "(\<Sum>((_, et, cl, model), c) \<leftarrow> aggIter \<lparr>udEvents = es, udAgg = agg\<rparr> a b.
      if cl = trim_space client then group_cost costs (et @ '':'' @ model, c) else 0) = sum_list (map (cell_price costs client a b) agg)"
proof (induction agg)
  case (Cons kc agg)
  then show ?case
    by (cases kc) (auto simp: aggIter_def map_filter_simps cell_price_def split: option.splits)
qed (simp add: aggIter_def map_filter_simps)

lemma price_groups:
  "sum_list (map (group_cost costs) (foldl (\<lambda>m ((_, et, kClient, model), c). if kClient \<noteq> trim_space client then m
         else let g = et @ '':'' @ model in AList.update g (add_usage (map_of m g) c) m) m cells)) =
   sum_list (map (group_cost costs) m) + (\<Sum>((_, et, cl, model), c) \<leftarrow> cells.
      if cl = trim_space client then group_cost costs (et @ '':'' @ model, c) else 0)"
proof (induction cells arbitrary: m)
  case (Cons x cells)
  obtain h et cl model c where x: "x = ((h, et, cl, model), c)" by (metis prod.collapse)
  show ?case
    by (simp add: x Cons.IH Let_def sum_update group_cost_add split: option.splits)
qed simp

lemma hour_index_mono: "a \<le> b \<Longrightarrow> hour_index a \<le> hour_index b"
  by (simp add: hour_index_def hour_ns_def zdiv_mono1)

lemma period_cost_cells: "period_cost db costs client a b = sum_list (map (cell_price costs client a b) (udAgg db))"
proof (cases "hour_index b < hour_index a")
  case True
  then have "cell_price costs client a b = (\<lambda>_. 0)"
    by (auto simp: cell_price_def)
  then show ?thesis
    using True by (simp add: period_cost_def sumByClientRange_def)
next
  case False
  have "aggIter db a b = aggIter \<lparr>udEvents = [], udAgg = udAgg db\<rparr> a b" by (simp add: aggIter_def)
  then show ?thesis
    using False price_groups[of costs client "[]" "aggIter db a b"]
    by (simp add: period_cost_def foldl_sum sumByClientRange_def price_iter)
qed

lemma period_cost_bump:
  "period_cost (db\<lparr>udAgg := bumpAgg agg e\<rparr>) costs client a b = period_cost (db\<lparr>udAgg := agg\<rparr>) costs client a b +
     cell_price costs client a b (aggKey (ueTimestamp e) (ueEndpointType e) (ueClientName e) (ueModel e), cell_of e)"
  by (simp add: period_cost_cells bump_cell Let_def sum_update cell_price_plus split: option.splits)

section \<open>The price of the events\<close>

text \<open>
  An event whose names leave the key of its cell readable: its endpoint type has neither of the
  separators, its client has no bar, and client and model are named.
\<close>

definition plain_event :: "usage_event \<Rightarrow> bool" where
  "plain_event e = (CHR ''|'' \<notin> set (ueEndpointType e) \<and> CHR '':'' \<notin> set (ueEndpointType e) \<and>
     CHR ''|'' \<notin> set (ueClientName e) \<and> trim_space (ueClientName e) \<noteq> [] \<and> trim_space (ueModel e) \<noteq> [])"

lemma cut_char_append: "c \<notin> set a \<Longrightarrow> cut_char c (a @ c # b) = (a, b, True)"
proof -
  assume "c \<notin> set a"
  then have "takeWhile (\<lambda>x. x \<noteq> c) (a @ c # b) = a" by (induction a) auto
  then show ?thesis by (simp add: cut_char_def)
qed

lemma set_trim: "set (trim_space s) \<subseteq> set s"
  by (auto simp: trim_space_def dest!: set_dropWhileD)

lemma lower_char_keeps: "lower_char x = c \<Longrightarrow> \<not> (97 \<le> (of_char c :: nat) \<and> (of_char c :: nat) \<le> 122) \<Longrightarrow> x = c"
  by (auto simp: lower_char_def split: if_splits)

lemma in_lower: "c \<in> set (to_lower s) \<Longrightarrow> \<not> (97 \<le> (of_char c :: nat) \<and> (of_char c :: nat) \<le> 122) \<Longrightarrow> c \<in> set s"
  using lower_char_keeps by (fastforce simp: to_lower_def)

lemma bar_code: "(of_char (CHR ''|'') :: nat) = 124" "(of_char (CHR '':'') :: nat) = 58"
  by (simp_all add: of_char_def)

lemma plain_clean: "plain_event e \<Longrightarrow> plain_event (clean_event e now)"
  using set_trim in_lower[of "CHR ''|''" "trim_space (ueEndpointType e)"] in_lower[of "CHR '':''" "trim_space (ueEndpointType e)"]
  by (auto simp: plain_event_def clean_event_def bar_code trim_space_lower)

lemma plain_key:
  assumes "plain_event e"
  shows "parseAggKey (aggKey t (ueEndpointType e) (ueClientName e) (ueModel e)) =
    Some (hour_index t * hour_ns, to_lower (trim_space (ueEndpointType e)), trim_space (ueClientName e), to_lower (trim_space (ueModel e)))"
proof -
  have "CHR ''|'' \<notin> set (to_lower (trim_space (ueEndpointType e)))" "CHR ''|'' \<notin> set (trim_space (ueClientName e))"
    using assms set_trim[of "ueClientName e"] set_trim[of "ueEndpointType e"] in_lower[of "CHR ''|''" "trim_space (ueEndpointType e)"]
    by (auto simp: plain_event_def bar_code)
  then show ?thesis
    using assms by (simp add: plain_event_def parseAggKey_def aggKey_def or_unknown_def cut_char_append)
qed

lemma plain_price:
  assumes "plain_event e"
  shows "cell_price costs client a b (aggKey (ueTimestamp e) (ueEndpointType e) (ueClientName e) (ueModel e), cell_of e) =
    (if hour_index a \<le> hour_index (ueTimestamp e) \<and> hour_index (ueTimestamp e) \<le> hour_index b \<and>
        trim_space (ueClientName e) = trim_space client then estimateEventCost e costs else 0)"
proof -
  have "CHR '':'' \<notin> set (to_lower (trim_space (ueEndpointType e)))"
    using assms set_trim[of "ueEndpointType e"] in_lower[of "CHR '':''" "trim_space (ueEndpointType e)"]
    by (auto simp: plain_event_def bar_code)
  then have g: "group_model (to_lower (trim_space (ueEndpointType e)) @ CHR '':'' # m) = m" for m
    by (simp add: group_model_def cut_char_append)
  have h: "fst (aggKey (ueTimestamp e) et cl m) = hour_index (ueTimestamp e)" for et cl m
    by (simp add: aggKey_def)
  have l: "lookupCost costs (to_lower (trim_space m)) = lookupCost costs m" for m
    by (simp add: lookupCost_def trim_space_lower)
  show ?thesis
    by (simp add: cell_price_def plain_key[OF assms] g h l group_cost_def cell_of_def estimateEventCost_def split: option.splits)
qed

definition no_usage :: usage_db where
  "no_usage = \<lparr>udEvents = [], udAgg = []\<rparr>"

text \<open>The store after a run of events, each recorded at its instant.\<close>

definition record_all :: "(usage_event \<times> time) list \<Rightarrow> usage_db" where
  "record_all es = foldl (\<lambda>db (e, now). record_event db e now) no_usage es"

lemma record_all_snoc: "record_all (es @ [(e, now)]) = record_event (record_all es) e now"
  by (simp add: record_all_def)

lemma record_price:
  assumes "plain_event e"
  shows "period_cost (record_event db e now) costs client a b = period_cost db costs client a b +
    (let e' = clean_event e now in
     if hour_index a \<le> hour_index (ueTimestamp e') \<and> hour_index (ueTimestamp e') \<le> hour_index b \<and>
        ueClientName e' = trim_space client then estimateEventCost e' costs else 0)"
proof -
  have n: "trim_space (ueClientName (clean_event e now)) = ueClientName (clean_event e now)"
    by (simp add: clean_event_def)
  have p: "period_cost (db\<lparr>udEvents := es, udAgg := agg\<rparr>) costs client a b = period_cost (db\<lparr>udAgg := agg\<rparr>) costs client a b"
    "period_cost (db\<lparr>udEvents := es\<rparr>) costs client a b = period_cost db costs client a b" for es agg
    by (simp_all add: period_cost_cells)
  show ?thesis
    by (simp add: record_event_def Let_def p period_cost_bump plain_price[OF plain_clean[OF assms]] n)
qed

lemma record_all_cost:
  assumes "\<forall>(e, now) \<in> set es. plain_event e"
  shows "period_cost (record_all es) costs client a b =
    (\<Sum>e \<leftarrow> filter (\<lambda>e. ueClientName e = trim_space client \<and> hour_index a \<le> hour_index (ueTimestamp e) \<and>
        hour_index (ueTimestamp e) \<le> hour_index b) (udEvents (record_all es)). estimateEventCost e costs)"
  using assms
proof (induction es rule: rev_induct)
  case Nil
  then show ?case by (simp add: record_all_def no_usage_def period_cost_cells)
next
  case (snoc x es)
  obtain e now where x: "x = (e, now)" by fastforce
  have pl: "plain_event e" using snoc.prems by (simp add: x)
  have ev: "udEvents (record_event db e now) = udEvents db @ [clean_event e now]" for db
    by (simp add: record_event_def Let_def)
  show ?case
    using snoc.IH snoc.prems by (simp add: x record_all_snoc record_price[OF pl] ev Let_def)
qed

text \<open>
  C10: what a client has used of its quota, computed from the hourly cells, is the sum of the
  costs of its events recorded from the hour of the period's start to the hour of its end.
\<close>

theorem period_cost_of_events:
  assumes "\<forall>(e, now) \<in> set es. plain_event e"
  shows "period_cost (record_all es) costs client a b =
    (\<Sum>e \<leftarrow> filter (\<lambda>e. ueClientName e = trim_space client \<and> hour_index a \<le> hour_index (ueTimestamp e) \<and>
        hour_index (ueTimestamp e) \<le> hour_index b) (udEvents (record_all es)). estimateEventCost e costs)"
  by (rule record_all_cost[OF assms])

section \<open>The counters in memory\<close>

definition up_to :: "usage_db \<Rightarrow> time \<Rightarrow> bool" where
  "up_to db t = (\<forall>k \<in> fst ` set (udAgg db). fst k \<le> hour_index t)"

lemma period_cost_later:
  assumes "up_to db t0" "t0 \<le> t"
  shows "period_cost db costs client a t = period_cost db costs client a t0"
proof -
  have "cell_price costs client a t kc = cell_price costs client a t0 kc" if "kc \<in> set (udAgg db)" for kc
    using assms(1) that hour_index_mono[OF assms(2)] by (force simp: up_to_def cell_price_def)
  then show ?thesis
    unfolding period_cost_cells by (metis (no_types, lifting) map_cong)
qed

lemma period_cost_none:
  assumes "up_to db t0" "hour_index t0 < hour_index a"
  shows "period_cost db costs client a b = 0"
proof -
  have "cell_price costs client a b kc = 0" if "kc \<in> set (udAgg db)" for kc
    using assms that by (force simp: up_to_def cell_price_def)
  then have "map (cell_price costs client a b) (udAgg db) = map (\<lambda>_. 0) (udAgg db)" by simp
  then show ?thesis
    unfolding period_cost_cells by (simp only: sum_list_0)
qed

lemma midnight_hour: "hour_index (midnight 0 n) * hour_ns = midnight 0 n"
proof -
  have "midnight 0 n = (24 * n) * hour_ns" by (simp add: midnight_def day_ns_def hour_ns_def)
  then show ?thesis by (simp only: hour_index_def) (simp add: hour_ns_def)
qed

text \<open>A period that begins at or after a reset begins in a later hour than any instant before it.\<close>

lemma next_period_later:
  assumes "nextResetAt d t0 \<le> t"
  shows "hour_index t0 < hour_index (periodStart d t)"
proof -
  have "nextResetAt d t0 \<le> periodStart d t"
  proof (rule ccontr)
    assume "\<not> nextResetAt d t0 \<le> periodStart d t"
    then have "periodStart d (nextResetAt d t0) = periodStart d t"
      using period_same[of d t "nextResetAt d t0"] assms period_contains[of d t] by linarith
    with \<open>\<not> _\<close> show False by (simp add: period_next)
  qed
  then have "t0 < hour_index (periodStart d t) * hour_ns"
    using period_contains[of d t0] by (simp add: periodStart_first_day midnight_hour)
  then show ?thesis
    by (simp add: hour_index_def hour_ns_def)
qed

lemma add_cost_follows:
  assumes e: "plain_event e" "ueTimestamp e = t" "trim_space (ueClientName e) = trim_space (qcName c)"
    and db: "up_to db t0" "t0 \<le> t" and c: "find_client st name = Some c"
  shows "add_cost st name t (estimateEventCost (clean_event e t) costs) (eval_counters db costs c t0) =
    eval_counters (record_event db e t) costs c t"
proof
  fix d
  have pc: "period_cost (record_event db e t) costs (qcName c) (periodStart d t) t =
      period_cost db costs (qcName c) (periodStart d t) t + estimateEventCost (clean_event e t) costs"
  proof -
    have "ueTimestamp (clean_event e t) = t" using e(2) by (simp add: clean_event_def)
    moreover have "ueClientName (clean_event e t) = trim_space (qcName c)" using e(3) by (simp add: clean_event_def)
    ultimately show ?thesis
      using hour_index_mono[of "periodStart d t" t] period_contains[of d t] by (simp add: record_price[OF e(1)] Let_def)
  qed
  show "add_cost st name t (estimateEventCost (clean_event e t) costs) (eval_counters db costs c t0) d =
    eval_counters (record_event db e t) costs c t d"
  proof (cases "t < nextResetAt d t0")
    case True
    then have "periodStart d t = periodStart d t0 \<and> nextResetAt d t = nextResetAt d t0"
      using period_same[of d t0 t] period_contains[of d t0] db(2) by linarith
    then show ?thesis
      using True pc period_cost_later[OF db] by (simp add: add_cost_def eval_counters_def flip_counter_def)
  next
    case False
    then show ?thesis
      using pc period_cost_none[OF db(1) next_period_later[of d t0 t]] c
      by (simp add: add_cost_def eval_counters_def flip_counter_def refreshLimit_def)
  qed
qed

lemma compute_estimate:
  "computeCost st (ueModel e) (ueInput e) (ueOutput e) (ueCached e) (ueCacheCreation e) = estimateEventCost (clean_event e t) (qsCosts st)"
  by (simp add: computeCost_def estimateEventCost_def clean_event_def lookupCost_def trim_space_lower Let_def split: option.split)

lemma find_client_name: "find_client st name = Some c \<Longrightarrow> qcName c = name"
  by (auto simp: find_client_def find_Some_iff split: option.splits)

definition count_event :: "quota_stores \<Rightarrow> quota_manager \<Rightarrow> string \<Rightarrow> usage_event \<Rightarrow> time \<Rightarrow> quota_manager" where
  "count_event st m name e now = increment st m name (ueModel e) (ueInput e) (ueOutput e) (ueCached e) (ueCacheCreation e) now"

text \<open>
  C9: counting an event that has just been recorded leaves the counters and the mark of the client
  as an evaluation from the store would, when the counters agreed with the store before, over resets
  of the periods as well.
\<close>

theorem counters_follow_store:
  assumes "plain_event e" "ueTimestamp e = t" "trim_space (ueClientName e) = trim_space name"
    and "qsUsage st = Some (record_event db e t)" "up_to db t0" "t0 \<le> t"
    and "find_client st name = Some c" "\<not> no_quota c" "0 < estimateEventCost (clean_event e t) (qsCosts st)"
    and "qmCounters m name = Some (eval_counters db (qsCosts st) c t0)"
  shows "count_event st m name e t = evaluate st m name t"
proof -
  have n: "trim_space (ueClientName e) = trim_space (qcName c)" using assms(3) find_client_name[OF assms(7)] by simp
  have f: "\<exists>cs. qsClients st = Some cs \<and> find (\<lambda>c. qcName c = name) cs = Some c"
    using assms(7) by (simp add: find_client_def split: option.splits)
  show ?thesis
    using assms(8,9,10) f add_cost_follows[OF assms(1,2) n assms(5,6,7), of "qsCosts st"]
    by (auto simp: count_event_def increment_def compute_estimate[of _ _ t] ensure_counters_def evaluate_def assms(4) Let_def)
qed

text \<open>Without counters, the evaluation that makes them sees the event already, and it is added again.\<close>

lemma event_counted_twice:
  assumes "find_client st name = Some c" "\<not> no_quota c" "qsUsage st = Some db" "qmCounters m name = None"
    and "0 < estimateEventCost (clean_event e t) (qsCosts st)" "0 < limit_of c d"
  shows "\<exists>cc dc. qmCounters (count_event st m name e t) name = Some cc \<and> cc d = Some dc \<and>
     dcUsed dc = period_cost db (qsCosts st) name (periodStart d t) t + estimateEventCost (clean_event e t) (qsCosts st)"
proof -
  have f: "\<exists>cs. qsClients st = Some cs \<and> find (\<lambda>c. qcName c = name) cs = Some c"
    using assms(1) by (simp add: find_client_def split: option.splits)
  show ?thesis
    using assms f find_client_name[OF assms(1)] period_contains[of d t]
    by (auto simp: count_event_def increment_def compute_estimate[of _ _ t] ensure_counters_def evaluate_def Let_def add_cost_def
        eval_counters_def flip_counter_def)
qed

section \<open>Witnesses\<close>

definition demo_event :: usage_event where
  "demo_event = \<lparr>ueTimestamp = 5, ueClientName = ''ann'', ueEndpointType = ''openai'', ueModel = ''GPT'', ueInput = 1000000,
     ueOutput = 0, ueCached = 0, ueCacheCreation = 0, ueRequestID = [], ueTarget = ''a'', uePath = ''/v1'', ueStatus = 200\<rparr>"

definition demo_costs :: cost_table where
  "demo_costs = [''gpt'' \<mapsto> \<lparr>coInput = 2, coOutput = 0, coCachedInput = 0, coCacheRead = 0\<rparr>]"

definition demo_client :: quota_client where
  "demo_client = \<lparr>qcName = ''ann'', qcDaily = 1, qcWeekly = 0, qcMonthly = 3\<rparr>"

definition demo_stores :: "usage_db \<Rightarrow> quota_stores" where
  "demo_stores db = \<lparr>qsClients = Some [demo_client], qsUsage = Some db, qsCosts = demo_costs\<rparr>"

lemma demo_plain: "plain_event demo_event"
  by code_simp

lemma demo_clean: "clean_event demo_event 5 = demo_event\<lparr>ueModel := ''gpt''\<rparr>"
proof -
  have "trim_space ''ann'' = ''ann''" "trim_space ''openai'' = ''openai''" "to_lower ''openai'' = ''openai''"
    "trim_space ''GPT'' = ''GPT''" "to_lower ''GPT'' = ''gpt''" "trim_space ''a'' = ''a''" "trim_space ''/v1'' = ''/v1''"
    by code_simp+
  then show ?thesis by (simp add: clean_event_def demo_event_def)
qed

lemma demo_estimate: "estimateEventCost (clean_event demo_event 5) demo_costs = 2"
proof -
  have "trim_space ''gpt'' = ''gpt''" "to_lower ''gpt'' = ''gpt''" by code_simp+
  then show ?thesis
    unfolding demo_clean by (simp add: estimateEventCost_def lookupCost_def demo_costs_def token_cost_def demo_event_def)
qed

theorem period_cost_of_events_witness: "period_cost (record_all [(demo_event, 5)]) demo_costs ''ann'' 0 10 = 2"
proof -
  have "trim_space ''ann'' = ''ann''" by code_simp
  moreover have "udEvents (record_all [(demo_event, 5)]) = [clean_event demo_event 5]"
    by (simp add: record_all_def record_event_def no_usage_def Let_def)
  ultimately show ?thesis
    using period_cost_of_events[of "[(demo_event, 5)]" demo_costs "''ann''" 0 10] demo_plain demo_estimate
    by (simp add: demo_clean) (simp add: demo_event_def hour_index_def hour_ns_def)
qed

theorem counters_follow_store_witness:
  "count_event (demo_stores (record_event no_usage demo_event 5))
     \<lparr>qmExceeded = Map.empty, qmCounters = [''ann'' \<mapsto> eval_counters no_usage demo_costs demo_client 1]\<rparr> ''ann'' demo_event 5 =
   evaluate (demo_stores (record_event no_usage demo_event 5))
     \<lparr>qmExceeded = Map.empty, qmCounters = [''ann'' \<mapsto> eval_counters no_usage demo_costs demo_client 1]\<rparr> ''ann'' 5"
proof (rule counters_follow_store[of demo_event 5 "''ann''" "demo_stores (record_event no_usage demo_event 5)" no_usage 1 demo_client])
  show "0 < estimateEventCost (clean_event demo_event 5) (qsCosts (demo_stores (record_event no_usage demo_event 5)))"
    by (simp add: demo_stores_def demo_estimate)
qed (simp_all add: demo_plain[unfolded demo_event_def] demo_stores_def find_client_def demo_client_def no_quota_def up_to_def no_usage_def demo_event_def)

end
