(* ===== verification/Quota_Serve.thy ===== *)
theory Quota_Serve
  imports Quota_Props Serve_Ends
begin

text \<open>
  The quotas at work in the service: a client over a limit is refused before anything is sent to an
  upstream, and what a reset of one period does to a client that is over another.
\<close>

lemma daily_reset_first: "nextResetAt Daily t \<le> nextResetAt d t"
  using less_next_day[of "day_at 0 t" d] by (simp add: nextResetAt_next_day next_day_def[of Daily])

lemma first_exceeded_some:
  assumes "cc d = Some dc" "over_limit dc"
  shows "\<exists>e de. first_exceeded cc = Some (info_of e de) \<and> cc e = Some de \<and> over_limit de"
proof -
  have "d \<in> set dimensions" by (cases d) (simp_all add: dimensions_def)
  then have "find (\<lambda>d. case cc d of None \<Rightarrow> False | Some dc \<Rightarrow> over_limit dc) dimensions \<noteq> None"
    using assms by (auto simp: find_None_iff intro: bexI[of _ d])
  then show ?thesis
    by (auto simp: first_exceeded_def dest!: find_in_set split: option.splits) blast
qed

text \<open>A marked client is refused with the mark as the reason.\<close>

lemma marked_refused:
  assumes "rqPrincipal r = Some pr" "svQuota sv = Some q" "qmExceeded q (prName pr) = Some info" "netNow net w < exResetsAt info"
    and "pxOrder sv \<noteq> []" "\<not> rqBodyError r" "maybeHandleLocalList (begin_request sv) r pr (netNow net w) = None"
    and "extractModel r (rqBody r) \<noteq> []" "\<not> is_copilot_model (to_lower (extractModel r (rqBody r)))"
  shows "serveHTTP tf kf net sv r w = Some (Replied (quota_reply info), end_request (count_failure (begin_request sv)), w)"
proof -
  have "(begin_request sv)\<lparr>svQuota := Some q\<rparr> = begin_request sv"
    using assms(2) by (simp add: begin_request_def)
  moreover have "svQuota (begin_request sv) = Some q" "pxOrder (begin_request sv) \<noteq> []"
    using assms(2,5) by (simp_all add: begin_request_def)
  ultimately have "admit (begin_request sv) r (netNow net w) = (Inl (False, quota_reply info), begin_request sv)"
    using assms by (simp add: admit_def check_quota_def Let_def)
  then show ?thesis by (simp add: serveHTTP_def)
qed

text \<open>
  C8: a client that is over one of its limits when its use is evaluated is refused with status 429
  until the end of that day at least; nothing is sent to an upstream and nothing but the counts of
  requests and failures changes.
\<close>

theorem over_quota_refused:
  assumes "rqPrincipal r = Some pr" "svQuota sv = Some (evaluate st m (prName pr) t)"
    and "find_client st (prName pr) = Some c" "qsUsage st = Some db" "0 < limit_of c d"
    and "limit_of c d \<le> period_cost db (qsCosts st) (prName pr) (periodStart d t) t" "netNow net w < nextResetAt Daily t"
    and "pxOrder sv \<noteq> []" "\<not> rqBodyError r" "maybeHandleLocalList (begin_request sv) r pr (netNow net w) = None"
    and "extractModel r (rqBody r) \<noteq> []" "\<not> is_copilot_model (to_lower (extractModel r (rqBody r)))"
  shows "\<exists>info. serveHTTP tf kf net sv r w = Some (Replied (quota_reply info), end_request (count_failure (begin_request sv)), w) \<and>
    exLimit info \<le> exUsed info"
proof -
  let ?cc = "eval_counters db (qsCosts st) c t"
  have f: "\<exists>cs. qsClients st = Some cs \<and> find (\<lambda>c. qcName c = prName pr) cs = Some c"
    using assms(3) by (simp add: find_client_def split: option.splits)
  have "\<not> no_quota c" using assms(5) by (cases d) (simp_all add: no_quota_def limit_of_def)
  then have q: "qmExceeded (evaluate st m (prName pr) t) (prName pr) = first_exceeded ?cc"
    using f assms(4) by (auto simp: evaluate_def Let_def)
  obtain dc where dc: "?cc d = Some dc" "over_limit dc"
    using assms(5,6) find_client_name[OF assms(3)] by (simp add: eval_counters_def over_limit_def)
  obtain e de where e: "first_exceeded ?cc = Some (info_of e de)" "?cc e = Some de" "over_limit de"
    using first_exceeded_some[of ?cc, OF dc] by blast
  have "netNow net w < exResetsAt (info_of e de)" "exLimit (info_of e de) \<le> exUsed (info_of e de)"
    using e(2,3) assms(7) daily_reset_first[of t e]
    by (auto simp: info_of_def eval_counters_def over_limit_def split: if_splits)
  then show ?thesis
    using marked_refused[OF assms(1,2) q[unfolded e(1)] _ assms(8-12)] by blast
qed

text \<open>
  At the reset of the period a client is marked for, the mark is dropped and the request admitted,
  also when another of its counters is over its limit.
\<close>

lemma reset_admits_over_limit:
  assumes "qmExceeded m name = Some info" "exResetsAt info \<le> now" "qmCounters m name = Some cc"
    and "cc d = Some dc" "over_limit dc" "now < dcResetsAt dc" "dcResetsAt dc \<noteq> exResetsAt info"
  shows "\<exists>m' cc'. check_quota st m name now = (None, m') \<and> qmCounters m' name = Some cc' \<and> cc' d = Some dc \<and> over_limit dc"
  using assms by (auto simp: check_quota_def stale_counter_def)

section \<open>Witness\<close>

definition quota_call :: request where
  "quota_call = demo_call\<lparr>rqBody := ''{'' @ enc_str ''model'' @ '':'' @ enc_str ''m'' @ ''}''\<rparr>"

definition alice_event :: usage_event where
  "alice_event = demo_event\<lparr>ueClientName := ''alice''\<rparr>"

definition alice_stores :: quota_stores where
  "alice_stores = \<lparr>qsClients = Some [demo_client\<lparr>qcName := ''alice''\<rparr>], qsUsage = Some (record_all [(alice_event, 5)]), qsCosts = demo_costs\<rparr>"

definition quota_service :: service where
  "quota_service = demo_service\<lparr>svQuota := Some (evaluate alice_stores new_manager ''alice'' 9)\<rparr>"

lemma alice_name: "prName demo_principal = ''alice''"
  by (simp add: demo_principal_def new_principal_def)

lemma alice_cost: "2 \<le> period_cost (record_all [(alice_event, 5)]) demo_costs ''alice'' (periodStart Daily 9) 9"
proof -
  have "plain_event alice_event" using demo_plain by (simp add: plain_event_def alice_event_def) code_simp
  moreover have "trim_space ''alice'' = ''alice''" by code_simp
  moreover have "clean_event alice_event 5 = (clean_event demo_event 5)\<lparr>ueClientName := ''alice''\<rparr>"
    using \<open>trim_space ''alice'' = ''alice''\<close> by (simp add: clean_event_def alice_event_def)
  moreover have "hour_index (periodStart Daily 9) = 0" by code_simp
  moreover have h: "ueTimestamp (clean_event demo_event 5) = 5" "hour_index 5 = 0" "hour_index 9 = 0"
    by (simp_all add: demo_clean) (simp_all add: demo_event_def hour_index_def hour_ns_def)
  moreover have "estimateEventCost (e\<lparr>ueClientName := x\<rparr>) cs = estimateEventCost e cs" for e cs x
    by (simp add: estimateEventCost_def split: option.split)
  ultimately show ?thesis
    using record_all_cost[of "[(alice_event, 5)]" demo_costs "''alice''" "periodStart Daily 9" 9] demo_estimate
      h by (simp add: record_all_def record_event_def no_usage_def Let_def)
qed

theorem over_quota_refused_witness:
  "\<exists>info. serveHTTP 3 3 (demo_net (Inr demo_answer)) quota_service quota_call 9 =
     Some (Replied (quota_reply info), end_request (count_failure (begin_request quota_service)), 9) \<and> exLimit info \<le> exUsed info"
proof (rule over_quota_refused[where pr = demo_principal and st = alice_stores and m = new_manager and t = 9 and d = Daily
      and c = "demo_client\<lparr>qcName := ''alice''\<rparr>" and db = "record_all [(alice_event, 5)]"])
  show "rqPrincipal quota_call = Some demo_principal" by (simp add: quota_call_def demo_call_def)
  show "svQuota quota_service = Some (evaluate alice_stores new_manager (prName demo_principal) 9)"
    by (simp add: quota_service_def alice_name)
  show "find_client alice_stores (prName demo_principal) = Some (demo_client\<lparr>qcName := ''alice''\<rparr>)"
    by (simp add: alice_stores_def find_client_def alice_name)
  show "limit_of (demo_client\<lparr>qcName := ''alice''\<rparr>) Daily \<le>
      period_cost (record_all [(alice_event, 5)]) (qsCosts alice_stores) (prName demo_principal) (periodStart Daily 9) 9"
    using alice_cost by (simp add: alice_stores_def alice_name limit_of_def demo_client_def)
  show "pxOrder quota_service \<noteq> []" by (simp add: quota_service_def demo_service_def demo_proxy_def)
  show "\<not> rqBodyError quota_call" by (simp add: quota_call_def demo_call_def demo_request_def)
  show "extractModel quota_call (rqBody quota_call) \<noteq> []" by code_simp
  show "\<not> is_copilot_model (to_lower (extractModel quota_call (rqBody quota_call)))" by code_simp
  show "maybeHandleLocalList (begin_request quota_service) quota_call demo_principal (netNow (demo_net (Inr demo_answer)) 9) = None"
    by (simp add: maybeHandleLocalList_def quota_call_def demo_call_def demo_request_def)
qed (simp_all add: alice_stores_def limit_of_def demo_client_def demo_net_def, code_simp)

end
