(* ===== verification/Trace_Props.thy ===== *)
theory Trace_Props
  imports Trace Go_Json_Props
begin

text \<open>
  The theorems on recorded requests: no secret of a query is recorded, and the ring holds the last
  records. The abstract contract of the ring is the list of all records, cut to its last ones.
\<close>

section \<open>Masked queries\<close>

definition query_vals :: "query_values \<Rightarrow> string \<Rightarrow> string list" where
  "query_vals q k = (case map_of q k of None \<Rightarrow> [] | Some vs \<Rightarrow> vs)"

lemma vals_add: "query_vals (add_value q k v) k' = query_vals q k' @ (if k' = k then [v] else [])"
  by (auto simp: query_vals_def map_of_add_value split: option.splits)

text \<open>What a part of the query adds to the values.\<close>

definition pair_of :: "string \<Rightarrow> (string \<times> string) option" where
  "pair_of s = (if CHR '';'' \<in> set s \<or> s = [] then None else
     let (k, v, _) = cut_char (CHR ''='') s in
     case (queryUnescape k, queryUnescape v) of (Some k', Some v') \<Rightarrow> Some (k', v') | _ \<Rightarrow> None)"

lemma parse_pair_of: "parse_pair q s = (case pair_of s of None \<Rightarrow> q | Some (k, v) \<Rightarrow> add_value q k v)"
  by (auto simp: parse_pair_def pair_of_def Let_def split: option.splits prod.splits)

lemma vals_fold:
  "query_vals (foldl parse_pair q ps) k = query_vals q k @ map snd (filter (\<lambda>p. fst p = k) (List.map_filter pair_of ps))"
proof (induction ps arbitrary: q)
  case (Cons p ps)
  then show ?case
    by (auto simp: parse_pair_of map_filter_simps vals_add split: option.splits)
qed (simp add: map_filter_simps)

lemma vals_parse: "query_vals (parse_query s) k =
    map snd (filter (\<lambda>p. fst p = k) (List.map_filter pair_of (split_char (CHR ''&'') s)))"
  using vals_fold[of "[]" "split_char (CHR ''&'') s" k] by (simp add: parse_query_def query_vals_def)

lemma cut_char_before: "CHR ''='' \<notin> set (fst (cut_char (CHR ''='') s))"
proof -
  let ?a = "takeWhile (\<lambda>x. x \<noteq> CHR ''='') s"
  have "?a = s" if "\<not> length ?a < length s"
    using that by (metis append_Nil2 append_eq_append_conv le_neq_implies_less length_takeWhile_le takeWhile_dropWhile_id)
  then show ?thesis
    by (auto simp: cut_char_def Let_def dest: set_takeWhileD)
qed

lemma cut_char_at_eq: "CHR ''='' \<notin> set a \<Longrightarrow> cut_char (CHR ''='') (a @ ''='' @ b) = (a, b, True)"
proof -
  assume "CHR ''='' \<notin> set a"
  then have "takeWhile (\<lambda>x. x \<noteq> CHR ''='') (a @ CHR ''='' # b) = a" by (induction a) auto
  then show ?thesis by (simp add: cut_char_def)
qed

lemma unescape_stars: "queryUnescape ''***'' = Some ''***''"
  by code_simp

text \<open>A part with a sensitive name is masked; any other part is left alone.\<close>

lemma pair_of_masked:
  "(case pair_of (mask_part s) of None \<Rightarrow> True | Some (k, v) \<Rightarrow>
      if isSensitiveTraceQuery k then v = ''***'' else pair_of s = Some (k, v)) \<and>
   (case pair_of s of None \<Rightarrow> True | Some (k, v) \<Rightarrow> isSensitiveTraceQuery k \<or> pair_of (mask_part s) = Some (k, v))"
proof -
  obtain k v b where c: "cut_char (CHR ''='') s = (k, v, b)" by (metis prod.collapse)
  have k: "CHR ''='' \<notin> set k" using cut_char_before[of s] c by simp
  show ?thesis
  proof (cases "isSensitiveTraceQuery k \<or> isSensitiveTraceQuery (decodedTraceQueryKey k)")
    case False
    then have m: "mask_part s = s" by (simp add: mask_part_def c)
    have "\<not> isSensitiveTraceQuery k'" if "pair_of s = Some (k', v')" for k' v'
      using that False c by (auto simp: pair_of_def decodedTraceQueryKey_def split: if_splits option.splits)
    then show ?thesis unfolding m by (auto split: option.splits)
  next
    case True
    then have m: "mask_part s = k @ ''=***''" by (simp add: mask_part_def c)
    have cm: "cut_char (CHR ''='') (k @ ''=***'') = (k, ''***'', True)"
      using cut_char_at_eq[OF k, of "''***''"] by simp
    have plain: "queryUnescape k = Some k" if "isSensitiveTraceQuery k"
    proof -
      have "to_lower k \<in> set [''api-key'', ''api_key'', ''apikey'', ''key'', ''access_token'', ''token'']"
        using that by (simp add: isSensitiveTraceQuery_def)
      then have "CHR ''%'' \<notin> set (to_lower k)" "CHR ''+'' \<notin> set (to_lower k)" by auto
      then have "CHR ''%'' \<notin> set k" "CHR ''+'' \<notin> set k"
        by (auto simp: to_lower_def lower_char_def image_iff of_char_def split: if_splits)
      then show ?thesis
        unfolding queryUnescape_def by (induction k) (auto simp: unescape.simps)
    qed
    have s1: "isSensitiveTraceQuery k'" if "queryUnescape k = Some k'" for k'
      using True plain that by (auto simp: decodedTraceQueryKey_def)
    show ?thesis
      using s1 c by (auto simp: m pair_of_def cm unescape_stars split: option.splits if_splits)
  qed
qed

lemma mask_parts:
  "(if isSensitiveTraceQuery k
    then set (map snd (filter (\<lambda>p. fst p = k) (List.map_filter pair_of (map mask_part ps)))) \<subseteq> {''***''}
    else map snd (filter (\<lambda>p. fst p = k) (List.map_filter pair_of (map mask_part ps))) =
         map snd (filter (\<lambda>p. fst p = k) (List.map_filter pair_of ps)))"
proof (induction ps)
  case (Cons s ps)
  show ?case
    using Cons pair_of_masked[of s]
    by (cases "pair_of s"; cases "pair_of (mask_part s)") (auto simp: map_filter_simps split: if_splits)
qed (simp add: map_filter_simps)

lemma mask_part_clean: "CHR ''&'' \<notin> set s \<Longrightarrow> CHR ''&'' \<notin> set (mask_part s)"
  by (auto simp: mask_part_def Let_def cut_char_def dest: set_takeWhileD split: if_splits)

lemma map_of_mask: "map_of (mask_values q) k =
    map_option (\<lambda>vs. if isSensitiveTraceQuery k then [''***''] else vs) (map_of q k)"
  by (induction q) (auto simp: mask_values_def)

lemma split_char_free: "x \<in> set (split_char c s) \<Longrightarrow> c \<notin> set x"
proof (induction s arbitrary: x)
  case (Cons a s)
  then show ?case by (cases "split_char c s") (auto split: if_splits)
qed simp

lemma masked_query:
  "if isSensitiveTraceQuery k then set (query_vals (parse_query (sanitizeTraceRawQuery raw)) k) \<subseteq> {''***''}
   else query_vals (parse_query (sanitizeTraceRawQuery raw)) k = query_vals (parse_query raw) k"
proof (cases "parse_query_strict raw")
  case None
  then have raw: "raw \<noteq> []" "sanitizeTraceRawQuery raw = sanitizeTraceInvalidRawQuery raw"
    by (auto simp: sanitizeTraceRawQuery_def parse_query_strict_def query_pair_ok_def)
  have "\<forall>x \<in> set (map mask_part (split_char (CHR ''&'') raw)). CHR ''&'' \<notin> set x"
    by (auto intro!: mask_part_clean dest: split_char_free)
  then have "split_char (CHR ''&'') (sanitizeTraceInvalidRawQuery raw) = map mask_part (split_char (CHR ''&'') raw)"
    by (simp add: sanitizeTraceInvalidRawQuery_def split_join)
  then show ?thesis using mask_parts[of k "split_char (CHR ''&'') raw"] by (simp only: raw(2) vals_parse)
next
  case (Some q)
  then have q: "q = parse_query raw" by (simp add: parse_query_strict_def split: if_splits)
  show ?thesis
  proof (cases "raw = []")
    case True
    then show ?thesis by (simp add: sanitizeTraceRawQuery_def) (simp add: parse_query_def parse_pair_def query_vals_def)
  next
    case False
    have "map fst (mask_values q) = map fst q" by (auto simp: mask_values_def)
    moreover have "\<forall>(k, vs) \<in> set (mask_values q). vs \<noteq> []"
      using parse_query_wf[of raw] by (auto simp: mask_values_def q split: if_splits)
    ultimately have "map_of (parse_query (encode_query (mask_values q))) = map_of (mask_values q)"
      using parse_query_wf[of raw] by (intro query_roundtrip) (simp_all add: q)
    then show ?thesis
      using False Some by (auto simp: sanitizeTraceRawQuery_def query_vals_def map_of_mask q split: option.splits)
  qed
qed


section \<open>The ring\<close>

text \<open>The state of the ring after the records \<open>rs\<close>, for a ring of \<open>n\<close> places.\<close>

definition ring_holds :: "trace_store \<Rightarrow> nat \<Rightarrow> trace_record list \<Rightarrow> bool" where
  "ring_holds s n rs = (length (rbKeys s) = n \<and> rbHead s = length rs mod n \<and>
     (\<forall>j < length rs. length rs \<le> j + n \<longrightarrow> rbKeys s ! (j mod n) = trTraceID (rs ! j)) \<and>
     (\<forall>i < n. length rs \<le> i \<longrightarrow> rbKeys s ! i = []) \<and>
     rbRing s = map_of (map (\<lambda>r. (trTraceID r, cut_bodies (tcMaxBodySize (rbCfg s)) r)) (drop (length rs - n) rs)))"

lemma cut_id [simp]: "trTraceID (cut_bodies n r) = trTraceID r"
  by (simp add: cut_bodies_def)

lemma mod_eq_near:
  fixes i j n :: nat
  assumes "i mod n = j mod n" "i \<le> j" "j < i + n"
  shows "i = j"
proof -
  have "n dvd j - i" using assms(1,2) by (metis mod_eq_dvd_iff_nat)
  then show ?thesis using assms(2,3) by (metis add.commute diff_diff_cancel diff_is_0_eq' dvd_imp_le le_add_diff_inverse less_diff_conv2 linorder_not_le not_gr_zero)
qed

lemma record_cfg [simp]: "rbCfg (trace_record_step s r) = rbCfg s"
  by (simp add: trace_record_step_def Let_def)

lemma ring_step:
  assumes en: "tcEnabled (rbCfg s)" and n: "0 < n" and h: "ring_holds s n rs"
    and d: "distinct (map trTraceID (rs @ [r]))" and ne: "\<forall>x \<in> set (rs @ [r]). trTraceID x \<noteq> []"
  shows "ring_holds (trace_record_step s r) n (rs @ [r])"
proof -
  let ?l = "length rs" and ?s = "trace_record_step s r"
  let ?c = "\<lambda>r. (trTraceID r, cut_bodies (tcMaxBodySize (rbCfg s)) r)"
  have k: "rbKeys ?s = (rbKeys s)[?l mod n := trTraceID r]" and hd: "rbHead ?s = Suc ?l mod n" and cfg: "rbCfg ?s = rbCfg s"
    using en h by (simp_all add: trace_record_step_def Let_def ring_holds_def mod_Suc_eq)
  have ring: "rbRing ?s = (let old = rbKeys s ! (?l mod n); m = (rbRing s)(trTraceID r \<mapsto> cut_bodies (tcMaxBodySize (rbCfg s)) r) in
      if old \<noteq> [] then m(old := None) else m)"
    using en h by (simp add: trace_record_step_def Let_def ring_holds_def)
  have new: "trTraceID r \<notin> trTraceID ` set rs" using d by simp
  have m: "map_of (map ?c (xs @ [r])) = (map_of (map ?c xs))(trTraceID r \<mapsto> snd (?c r))" if "set xs \<subseteq> set rs" for xs
  proof -
    have "trTraceID r \<notin> dom (map_of (map ?c xs))" using that new by (auto simp: dom_map_of_conv_image_fst image_image)
    then show ?thesis by (auto simp: fun_eq_iff map_add_def split: option.splits)
  qed
  have "rbRing ?s = map_of (map ?c (drop (Suc ?l - n) (rs @ [r])))"
  proof (cases "?l < n")
    case True
    then have "rbKeys s ! (?l mod n) = []" using h by (simp add: ring_holds_def)
    then show ?thesis using ring h True m[of rs] by (simp add: ring_holds_def)
  next
    case False
    let ?j = "?l - n"
    have j: "?j < ?l" "?j mod n = ?l mod n" using False n by (simp_all add: le_mod_geq)
    have "?l \<le> ?j + n" using False by simp
    then have "rbKeys s ! (?j mod n) = trTraceID (rs ! ?j)" using h j(1) unfolding ring_holds_def by blast
    then have old: "rbKeys s ! (?l mod n) = trTraceID (rs ! ?j)" by (simp only: j(2))
    have dr: "drop ?j rs = rs ! ?j # drop (Suc ?j) rs" using j(1) by (simp add: Cons_nth_drop_Suc)
    have sj: "Suc ?l - n = Suc ?j" using False by simp
    have dd: "distinct (map trTraceID (drop ?j rs))" using d by (simp add: drop_map[symmetric])
    let ?M = "map_of (map ?c (drop (Suc ?j) rs))" and ?a = "trTraceID (rs ! ?j)"
    have M: "?M ?a = None"
      using dd unfolding dr by (auto simp: map_of_eq_None_iff)
    have "rs ! ?j \<in> set rs" using j(1) by (rule nth_mem)
    then have a: "?a \<noteq> trTraceID r" "?a \<noteq> []" using new ne by (metis image_eqI, simp)
    have "rbRing s = ?M(?a \<mapsto> snd (?c (rs ! ?j)))" using h by (simp add: ring_holds_def dr)
    then have "rbRing ?s = (?M(?a \<mapsto> snd (?c (rs ! ?j)), trTraceID r \<mapsto> snd (?c r)))(?a := None)"
      using ring a(2) by (simp add: old)
    also have "\<dots> = ?M(trTraceID r \<mapsto> snd (?c r))" using M a(1) by auto
    also have "\<dots> = map_of (map ?c (drop (Suc ?j) rs @ [r]))"
      using m[of "drop (Suc ?j) rs"] set_drop_subset[of "Suc ?j" rs] by simp
    finally show ?thesis using j(1) by (simp add: sj)
  qed
  moreover have "rbKeys ?s ! (j mod n) = trTraceID ((rs @ [r]) ! j)" if "j < Suc ?l" "Suc ?l \<le> j + n" for j
  proof (cases "j = ?l")
    case True
    then show ?thesis using h n by (simp add: k ring_holds_def)
  next
    case False
    then have "j mod n \<noteq> ?l mod n" using mod_eq_near[of j n ?l] that by auto
    then show ?thesis using h False that by (simp add: k ring_holds_def nth_append)
  qed
  moreover have "rbKeys ?s ! i = []" if "i < n" "Suc ?l \<le> i" for i
  proof -
    have "i \<noteq> ?l mod n" using that by (metis Suc_n_not_le_n le_trans mod_less_eq_dividend order_refl not_less_eq_eq)
    then show ?thesis using h that by (simp add: k ring_holds_def)
  qed
  ultimately show ?thesis
    using h by (simp add: ring_holds_def k hd cfg)
qed

lemma ring_run:
  assumes "tcEnabled c" "0 < tcRingBufferSize c" "distinct (map trTraceID rs)" "\<forall>r \<in> set rs. trTraceID r \<noteq> []"
  shows "ring_holds (foldl trace_record_step (new_trace_store c) rs) (tcRingBufferSize c) rs \<and>
    rbCfg (foldl trace_record_step (new_trace_store c) rs) = c"
  using assms(3,4)
proof (induction rs rule: rev_induct)
  case Nil
  then show ?case using assms(1) by (simp add: new_trace_store_def ring_holds_def)
next
  case (snoc r rs)
  then have IH: "ring_holds (foldl trace_record_step (new_trace_store c) rs) (tcRingBufferSize c) rs"
    "rbCfg (foldl trace_record_step (new_trace_store c) rs) = c" by auto
  show ?case
    using ring_step[OF _ assms(2) IH(1) snoc.prems] IH(2) assms(1) by simp
qed

lemma newest_index:
  fixes l n i :: nat
  assumes "i < n"
  shows "((l mod n + n - 1) mod n + n - i) mod n = (l + n + n - 1 - i) mod n"
proof -
  have "(l mod n + n - 1) mod n = (l + n - 1) mod n"
    using assms by (metis Nat.add_diff_assoc less_nat_zero_code less_one linorder_not_less mod_add_left_eq)
  then have "((l mod n + n - 1) mod n + n - i) mod n = ((l + n - 1) mod n + (n - i)) mod n" using assms by simp
  also have "\<dots> = (l + n - 1 + (n - i)) mod n" by (simp add: mod_add_left_eq)
  finally show ?thesis using assms by simp
qed

lemma newest_key:
  assumes h: "ring_holds s n rs" and i: "i < n"
  shows "rbKeys s ! (((rbHead s + n - 1) mod n + n - i) mod n) = (if i < length rs then trTraceID (rs ! (length rs - 1 - i)) else [])"
proof (cases "i < length rs")
  case True
  let ?j = "length rs - 1 - i"
  have "(length rs + n + n - 1 - i) mod n = ?j mod n"
  proof -
    have "length rs + n + n - 1 - i = ?j + 2 * n" using True by simp
    then show ?thesis by simp
  qed
  moreover have "rbKeys s ! (?j mod n) = trTraceID (rs ! ?j)" using h i True by (simp add: ring_holds_def)
  ultimately show ?thesis using h True newest_index[OF i, of "length rs"] by (simp add: ring_holds_def)
next
  case False
  then have "length rs + n + n - 1 - i = (length rs + n - 1 - i) + n" "length rs + n - 1 - i < n" "length rs \<le> length rs + n - 1 - i"
    using i by simp_all
  then have "(length rs + n + n - 1 - i) mod n = length rs + n - 1 - i" "rbKeys s ! (length rs + n - 1 - i) = []"
    using h unfolding ring_holds_def by (simp_all only: mod_add_self2 mod_less)
  then show ?thesis using h False newest_index[OF i, of "length rs"] by (simp only: ring_holds_def if_False)
qed

lemma takeWhile_upt:
  assumes "\<And>i. i < l \<Longrightarrow> P (f i)" "\<And>i. l \<le> i \<Longrightarrow> i < m \<Longrightarrow> \<not> P (f i)"
  shows "takeWhile P (map f [0..<m]) = map f [0..<min m l]"
proof (cases "l < m")
  case True
  then obtain k where "m = l + k" by (metis less_imp_add_positive)
  then have "[0..<m] = [0..<l] @ l # [Suc l..<m]" using True by (simp add: upt_add_eq_append[OF le0] upt_conv_Cons)
  moreover have "takeWhile P (map f [0..<l] @ f l # map f [Suc l..<m]) = map f [0..<l]"
  proof -
    have "\<And>x. x \<in> set (map f [0..<l]) \<Longrightarrow> P x" using assms(1) by auto
    moreover have "\<not> P (f l)" using assms(2) True by simp
    ultimately show ?thesis by (simp only: takeWhile_append2) simp
  qed
  ultimately show ?thesis using True by (simp add: min_def)
next
  case False
  then show ?thesis using assms(1) by (simp add: min_def takeWhile_eq_all_conv)
qed

lemma newest_keys_run:
  assumes h: "ring_holds s n rs" and ne: "\<forall>r \<in> set rs. trTraceID r \<noteq> []"
  shows "newest_keys s k = map trTraceID (take k (take n (rev rs)))"
proof -
  have l: "length (rbKeys s) = n" using h by (simp add: ring_holds_def)
  let ?f = "\<lambda>i. if i < length rs then trTraceID (rs ! (length rs - 1 - i)) else []"
  have "newest_keys s k = takeWhile (\<lambda>key. key \<noteq> []) (map ?f [0..<min k n])"
    unfolding newest_keys_def Let_def l using newest_key[OF h]
    by (intro arg_cong[where f = "takeWhile _"] map_cong) auto
  also have "\<dots> = map ?f [0..<min (min k n) (length rs)]"
    using ne by (intro takeWhile_upt) auto
  also have "\<dots> = map trTraceID (take k (take n (rev rs)))"
  proof (rule nth_equalityI)
    fix i assume "i < length (map ?f [0..<min (min k n) (length rs)])"
    then have "i < k" "i < n" "i < length rs" by simp_all
    then show "map ?f [0..<min (min k n) (length rs)] ! i = map trTraceID (take k (take n (rev rs))) ! i"
      by (simp add: rev_nth)
  qed simp
  finally show ?thesis .
qed

lemma map_filter_found:
  assumes "\<And>x. x \<in> set xs \<Longrightarrow> f (g x) = Some (h x)"
  shows "List.map_filter f (map g xs) = map h xs"
  using assms by (induction xs) (auto simp: map_filter_simps)

lemma ring_lookup:
  assumes h: "ring_holds s n rs" and d: "distinct (map trTraceID rs)" and r: "r \<in> set (take n (rev rs))"
  shows "rbRing s (trTraceID r) = Some (cut_bodies (tcMaxBodySize (rbCfg s)) r)"
proof -
  have r: "r \<in> set (drop (length rs - n) rs)" using r by (simp add: take_rev)
  have "distinct (map trTraceID (drop (length rs - n) rs))" using d by (simp add: drop_map[symmetric])
  then have "map_of (map (\<lambda>r. (trTraceID r, f r)) (drop (length rs - n) rs)) (trTraceID r) = Some (f r)" for f
    using r by (intro map_of_is_SomeI) (auto simp: comp_def)
  then show ?thesis using h by (simp add: ring_holds_def)
qed


text \<open>A record whose identifier is the one it displaces is gone at once.\<close>

lemma same_id_lost:
  assumes "tcEnabled (rbCfg s)" "trTraceID r \<noteq> []" "rbKeys s ! rbHead s = trTraceID r"
  shows "rbRing (trace_record_step s r) (trTraceID r) = None"
  using assms by (simp add: trace_record_step_def Let_def)

section \<open>Witness\<close>

definition demo_trace :: "string \<Rightarrow> trace_record" where
  "demo_trace i = \<lparr>trTraceID = i, trTimestamp = 1, trClientName = [], trClientIP = [], trClientAccessKey = [], trMethod = ''GET'',
     trPath = ''/'', trQueryParams = [], trRequestHeaders = [], trTarget = [], trEndpointType = [], trModel = [], trKeyIndex = 0,
     trKeyMask = [], trUpstreamURL = [], trUpstreamRequestID = [], trUpstreamStatus = 0, trUpstreamHeaders = [],
     trStatusCode = 200, trDurationMS = 0, trRequestBody = ''abc'', trResponseBody = []\<rparr>"

definition demo_config :: trace_config where
  "demo_config = \<lparr>tcEnabled = True, tcRingBufferSize = 2, tcMaxBodySize = 2, tcDiskPath = [], tcDiskMaxSizeMB = 1,
     tcDiskMaxBackups = 1, tcDiskTTLHours = 1, tcChannelBuffer = 1\<rparr>"


end
