(* ===== verification/Buckets.thy ===== *)
theory Buckets
  imports Go_Url
begin

text \<open>
  The buckets of the embedded database (bbolt, which is not part of the repository) as the stores of
  \<open>internal/nosql\<close> use them: a record of operations, with what its documentation promises as the
  locale \<open>ordered_bucket\<close>. A stored value is \<open>None\<close> when its bytes do not decode. Transactions
  run one at a time and writing does not fail. The stores of clients and of Copilot pools share
  their operations, which are the ones below: a name that is the key and a second field that is
  unique as well.
\<close>

section \<open>The interface\<close>

record ('b, 'a) kv =
  kvGet :: "'b \<Rightarrow> string \<Rightarrow> 'a option option"
  kvPut :: "'b \<Rightarrow> string \<Rightarrow> 'a option \<Rightarrow> 'b"
  kvDelete :: "'b \<Rightarrow> string \<Rightarrow> 'b"
  kvEach :: "'b \<Rightarrow> (string \<times> 'a option) list"

definition str_less :: "string \<Rightarrow> string \<Rightarrow> bool" where
  "str_less a b = (str_le a b \<and> a \<noteq> b)"

locale ordered_bucket =
  fixes kv :: "('b, 'a) kv"
  assumes get_put: "kvGet kv (kvPut kv b k v) k' = (if k' = k then Some v else kvGet kv b k')"
    and get_delete: "kvGet kv (kvDelete kv b k) k' = (if k' = k then None else kvGet kv b k')"
    and each_get: "map_of (kvEach kv b) = kvGet kv b"
    and each_sorted: "sorted_wrt str_less (map fst (kvEach kv b))"

section \<open>Operations of a store\<close>

datatype store_error = Empty_field string | Already_exists string | Taken string | Not_found string
  | Undecodable string | Invalid string

text \<open>Every record of the bucket in the order of the keys, or the first key that does not decode.\<close>

fun decode_all :: "(string \<times> 'a option) list \<Rightarrow> store_error + 'a list" where
  "decode_all [] = Inr []"
| "decode_all ((k, None) # ps) = Inl (Undecodable k)"
| "decode_all ((k, Some v) # ps) = (case decode_all ps of Inl e \<Rightarrow> Inl e | Inr vs \<Rightarrow> Inr (v # vs))"

definition store_list :: "('b, 'a) kv \<Rightarrow> 'b \<Rightarrow> store_error + 'a list" where
  "store_list kv b = decode_all (kvEach kv b)"

text \<open>A record under another key with the same second field; a record that does not decode is passed over.\<close>

definition taken :: "('b, 'a) kv \<Rightarrow> ('a \<Rightarrow> string) \<Rightarrow> string \<Rightarrow> string \<Rightarrow> 'b \<Rightarrow> bool" where
  "taken kv sec except s b = (\<exists>(k, v) \<in> set (kvEach kv b). k \<noteq> except \<and> (case v of None \<Rightarrow> False | Some a \<Rightarrow> sec a = s))"

definition store_create :: "('b, 'a) kv \<Rightarrow> ('a \<Rightarrow> string) \<Rightarrow> ('a \<Rightarrow> string) \<Rightarrow> 'b \<Rightarrow> 'a \<Rightarrow> store_error + 'b" where
  "store_create kv key sec b a = (if kvGet kv b (key a) \<noteq> None then Inl (Already_exists (key a))
     else if taken kv sec [] (sec a) b then Inl (Taken (sec a)) else Inr (kvPut kv b (key a) (Some a)))"

definition store_update :: "('b, 'a) kv \<Rightarrow> ('a \<Rightarrow> string) \<Rightarrow> ('a \<Rightarrow> string) \<Rightarrow> 'b \<Rightarrow> string \<Rightarrow> 'a \<Rightarrow> store_error + 'b" where
  "store_update kv key sec b old a = (let new = key a in
     if kvGet kv b old = None then Inl (Not_found old)
     else if new \<noteq> old \<and> kvGet kv b new \<noteq> None then Inl (Already_exists new)
     else if taken kv sec old (sec a) b then Inl (Taken (sec a))
     else Inr (kvPut kv (if new \<noteq> old then kvDelete kv b old else b) new (Some a)))"

text \<open>Deleting by name, as all stores do it.\<close>

definition store_delete :: "('b, 'a) kv \<Rightarrow> 'b \<Rightarrow> string \<Rightarrow> store_error + 'b" where
  "store_delete kv b name = (let name = trim_space name; k = to_lower name in
     if name = [] then Inl (Empty_field ''name'') else if kvGet kv b k = None then Inl (Not_found name)
     else Inr (kvDelete kv b k))"

section \<open>The invariant of a store\<close>

text \<open>
  Every record decodes, is one the store accepts, stands under its own key, and shares its second
  field with no other.
\<close>

definition store_ok :: "('b, 'a) kv \<Rightarrow> ('a \<Rightarrow> string) \<Rightarrow> ('a \<Rightarrow> string) \<Rightarrow> ('a \<Rightarrow> bool) \<Rightarrow> 'b \<Rightarrow> bool" where
  "store_ok kv key sec good b =
     ((\<forall>k v. kvGet kv b k = Some v \<longrightarrow> (\<exists>a. v = Some a \<and> k = key a \<and> good a)) \<and>
      (\<forall>k k' a a'. kvGet kv b k = Some (Some a) \<longrightarrow> kvGet kv b k' = Some (Some a') \<longrightarrow> sec a = sec a' \<longrightarrow> k = k'))"

lemma trim_space_ends: "trim_space s = [] \<or> \<not> is_space (hd (trim_space s)) \<and> \<not> is_space (last (trim_space s))"
proof -
  let ?d = "dropWhile is_space s"
  have "?d = [] \<or> \<not> is_space (hd ?d)" using hd_dropWhile by blast
  then have "trim_space s = [] \<or> \<not> is_space (hd (trim_space s))"
    unfolding trim_space_def by (rule dropWhile_rev_keeps_hd)
  moreover have "trim_space s \<noteq> [] \<Longrightarrow> \<not> is_space (last (trim_space s))"
    using hd_dropWhile[of is_space "rev ?d"] by (simp add: trim_space_def last_rev)
  ultimately show ?thesis by blast
qed

lemma trim_space_fix: "s = [] \<or> \<not> is_space (hd s) \<and> \<not> is_space (last s) \<Longrightarrow> trim_space s = s"
  unfolding trim_space_def by (auto simp: dropWhile_id hd_rev)

lemma decode_all_inr: "decode_all ps = Inr vs \<longleftrightarrow> (\<forall>p \<in> set ps. snd p \<noteq> None) \<and> vs = map (the \<circ> snd) ps"
proof (induction ps arbitrary: vs rule: decode_all.induct)
  case (3 k v ps)
  then show ?case by (cases "decode_all ps") auto
qed auto

lemma find_distinct: "distinct (map f xs) \<Longrightarrow> x \<in> set xs \<Longrightarrow> find (\<lambda>y. f y = f x) xs = Some x"
  by (induction xs) (auto simp: image_iff)

context ordered_bucket
begin

lemma each_distinct: "distinct (map fst (kvEach kv b))"
proof -
  have "sorted_wrt str_less xs \<Longrightarrow> distinct xs" for xs
    by (induction xs) (auto simp: str_less_def)
  then show ?thesis using each_sorted by blast
qed

lemma in_each: "(k, v) \<in> set (kvEach kv b) \<longleftrightarrow> kvGet kv b k = Some v"
  using each_distinct[of b] by (metis each_get map_of_eq_Some_iff)

lemma taken_iff: "taken kv sec except s b \<longleftrightarrow> (\<exists>k a. k \<noteq> except \<and> kvGet kv b k = Some (Some a) \<and> sec a = s)"
proof -
  have "taken kv sec except s b \<longleftrightarrow> (\<exists>k v. kvGet kv b k = Some v \<and> k \<noteq> except \<and> (case v of None \<Rightarrow> False | Some a \<Rightarrow> sec a = s))"
    unfolding taken_def by (simp only: in_each[symmetric] Bex_def split_paired_Ex prod.case)
  also have "\<dots> \<longleftrightarrow> (\<exists>k a. k \<noteq> except \<and> kvGet kv b k = Some (Some a) \<and> sec a = s)"
  proof (intro iffI; elim exE conjE)
    fix k v assume "kvGet kv b k = Some v" "k \<noteq> except" "case v of None \<Rightarrow> False | Some a \<Rightarrow> sec a = s"
    then show "\<exists>k a. k \<noteq> except \<and> kvGet kv b k = Some (Some a) \<and> sec a = s" by (cases v) auto
  next
    fix k a assume "k \<noteq> except" "kvGet kv b k = Some (Some a)" "sec a = s"
    then show "\<exists>k v. kvGet kv b k = Some v \<and> k \<noteq> except \<and> (case v of None \<Rightarrow> False | Some a \<Rightarrow> sec a = s)"
      by (intro exI[of _ k] exI[of _ "Some a"]) simp
  qed
  finally show ?thesis .
qed

lemma create_ok:
  assumes "store_ok kv key sec good b" "good a" "store_create kv key sec b a = Inr b'" "key a \<noteq> []" "\<forall>x. good x \<longrightarrow> key x \<noteq> []"
  shows "store_ok kv key sec good b'"
proof -
  have b': "b' = kvPut kv b (key a) (Some a)" "kvGet kv b (key a) = None" "\<not> taken kv sec [] (sec a) b"
    using assms(3) by (auto simp: store_create_def split: if_splits)
  have "sec x \<noteq> sec a" if "kvGet kv b k = Some (Some x)" for k x
    using b'(3) assms(1,5) that unfolding taken_iff store_ok_def by blast
  then show ?thesis
    using assms(1,2) unfolding store_ok_def b'(1) get_put by (metis option.inject)
qed

lemma update_ok:
  assumes "store_ok kv key sec good b" "good a" "store_update kv key sec b old a = Inr b'"
  shows "store_ok kv key sec good b'"
proof -
  have b': "b' = kvPut kv (if key a \<noteq> old then kvDelete kv b old else b) (key a) (Some a)" "\<not> taken kv sec old (sec a) b"
    using assms(3) by (auto simp: store_update_def Let_def split: if_splits)
  have get: "kvGet kv b' k = (if k = key a then Some (Some a) else if k = old then None else kvGet kv b k)" for k
    unfolding b'(1) by (simp add: get_put get_delete)
  have "sec x \<noteq> sec a" if "kvGet kv b k = Some (Some x)" "k \<noteq> old" for k x
    using b'(2) that unfolding taken_iff by blast
  then show ?thesis
    using assms(1,2) unfolding store_ok_def get by (smt (verit) option.distinct(1) option.inject)
qed

lemma delete_ok:
  assumes "store_ok kv key sec good b" "store_delete kv b name = Inr b'"
  shows "store_ok kv key sec good b'"
proof -
  have "b' = kvDelete kv b (to_lower (trim_space name))"
    using assms(2) by (auto simp: store_delete_def Let_def split: if_splits)
  then have "kvGet kv b' k = (if k = to_lower (trim_space name) then None else kvGet kv b k)" for k
    by (simp add: get_delete)
  then show ?thesis using assms(1) unfolding store_ok_def by (metis option.distinct(1))
qed

text \<open>The list of a store is its records, each once.\<close>

lemma decode_all_some: "\<forall>(k, v) \<in> set ps. v \<noteq> None \<Longrightarrow> decode_all ps = Inr (map (the \<circ> snd) ps)"
  by (induction ps rule: decode_all.induct) auto

lemma list_ok:
  assumes "store_ok kv key sec good b"
  obtains xs where "store_list kv b = Inr xs" "sorted_wrt str_less (map key xs)" "distinct (map key xs)"
    "distinct (map sec xs)" "\<And>a. a \<in> set xs \<longleftrightarrow> kvGet kv b (key a) = Some (Some a)" "\<And>a. a \<in> set xs \<Longrightarrow> good a"
proof -
  let ?xs = "map (the \<circ> snd) (kvEach kv b)"
  have v: "\<exists>a. v = Some a \<and> k = key a \<and> good a" if "(k, v) \<in> set (kvEach kv b)" for k v
    using assms that unfolding store_ok_def in_each by blast
  have k: "map key ?xs = map fst (kvEach kv b)" using v by (fastforce intro!: map_cong)
  have mem: "a \<in> set ?xs \<longleftrightarrow> kvGet kv b (key a) = Some (Some a)" for a
  proof
    assume "a \<in> set ?xs"
    then obtain k v where p: "(k, v) \<in> set (kvEach kv b)" "a = the v" by auto
    then show "kvGet kv b (key a) = Some (Some a)" using v[OF p(1)] by (auto simp flip: in_each)
  next
    assume "kvGet kv b (key a) = Some (Some a)"
    then have "(key a, Some a) \<in> set (kvEach kv b)" by (simp only: in_each)
    then show "a \<in> set ?xs" by (force simp: image_iff)
  qed
  have good: "good a" if "a \<in> set ?xs" for a
    using that v by (auto simp del: split_paired_All) (metis option.sel)
  have dk: "distinct (map key ?xs)" unfolding k by (rule each_distinct)
  have "inj_on sec (set ?xs)"
  proof (rule inj_onI)
    fix a a' assume "a \<in> set ?xs" "a' \<in> set ?xs" and s: "sec a = sec a'"
    then have "kvGet kv b (key a) = Some (Some a)" "kvGet kv b (key a') = Some (Some a')" by (simp_all only: mem)
    then show "a = a'" using assms s unfolding store_ok_def by (metis option.inject)
  qed
  then have "distinct (map sec ?xs)" using dk by (simp only: distinct_map)
  moreover have "store_list kv b = Inr ?xs"
    using v unfolding store_list_def by (intro decode_all_some) auto
  ultimately show thesis using each_sorted[of b] dk mem good that[of ?xs] unfolding k[symmetric] by blast
qed

end

section \<open>An executable instance\<close>

definition alist_kv :: "((string \<times> 'a option) list, 'a) kv" where
  "alist_kv = \<lparr>kvGet = map_of, kvPut = (\<lambda>b k v. AList.update k v b), kvDelete = (\<lambda>b k. filter (\<lambda>p. fst p \<noteq> k) b),
     kvEach = (\<lambda>b. sort_keys (AList.clearjunk b))\<rparr>"

lemma code_inj: "code x = code y \<longleftrightarrow> x = y"
  by (simp add: code_def)

lemma str_le_linear: "str_le a b \<or> str_le b a"
  by (induction a b rule: str_le.induct) (auto simp: code_inj)

lemma str_le_trans: "str_le a b \<Longrightarrow> str_le b c \<Longrightarrow> str_le a c"
proof (induction a b arbitrary: c rule: str_le.induct)
  case (3 x a y b)
  then show ?case by (cases c) (auto simp: code_inj)
qed auto

lemma str_le_antisym: "str_le a b \<Longrightarrow> str_le b a \<Longrightarrow> a = b"
proof (induction a b rule: str_le.induct)
  case (1 b)
  then show ?case by (cases b) auto
qed auto

lemma sorted_insert_key: "sorted_wrt str_le (map fst ys) \<Longrightarrow> sorted_wrt str_le (map fst (insert_key x ys))"
  by (induction ys) (use str_le_linear in \<open>auto intro: str_le_trans\<close>)

lemma sorted_sort_keys: "sorted_wrt str_le (map fst (sort_keys ps))"
  unfolding sort_keys_def by (induction ps) (auto intro: sorted_insert_key)

lemma str_less_sorted: "sorted_wrt str_le xs \<Longrightarrow> distinct xs \<Longrightarrow> sorted_wrt str_less xs"
  by (induction xs) (auto simp: str_less_def)

interpretation alist: ordered_bucket alist_kv
proof
  fix b k v k'
  show "kvGet alist_kv (kvPut alist_kv b k v) k' = (if k' = k then Some v else kvGet alist_kv b k')"
    by (simp add: alist_kv_def update_conv')
  show "kvGet alist_kv (kvDelete alist_kv b k) k' = (if k' = k then None else kvGet alist_kv b k')"
    by (induction b) (auto simp: alist_kv_def)
  have d: "distinct (map fst (sort_keys (AList.clearjunk b)))" by (simp add: distinct_sort_keys distinct_clearjunk)
  have "map_of (sort_keys (AList.clearjunk b)) = map_of (AList.clearjunk b)"
    by (rule map_of_inject_set[THEN iffD2, OF d]) (simp_all add: distinct_clearjunk)
  then show "map_of (kvEach alist_kv b) = kvGet alist_kv b" by (simp add: alist_kv_def map_of_clearjunk)
  show "sorted_wrt str_less (map fst (kvEach alist_kv b))"
    using d by (simp add: alist_kv_def str_less_sorted sorted_sort_keys)
qed

end
