(* ===== verification/Client_Store.thy ===== *)
theory Client_Store
  imports Buckets Auth Quota
begin

text \<open>
  The clients of the proxy as the database keeps them (\<open>internal/nosql/clients.go\<close>): the key is the
  lower-case name, access keys are unique, names and allowed targets are normalised before they are
  written. The clients listed here are what the access-key store and the quotas load.
\<close>

record client = client_config +
  clDaily :: real
  clWeekly :: real
  clMonthly :: real

section \<open>Operations\<close>

text \<open>The loop that trims, lowers and deduplicates names of targets.\<close>

fun norm_targets :: "string set \<Rightarrow> string list \<Rightarrow> string list" where
  "norm_targets seen [] = []"
| "norm_targets seen (t # ts) = (let t = to_lower (trim_space t) in
     if t = [] \<or> t \<in> seen then norm_targets seen ts else t # norm_targets (insert t seen) ts)"

definition normalizeClient :: "client \<Rightarrow> client" where
  "normalizeClient c = c\<lparr>ccName := trim_space (ccName c), ccAccessKey := trim_space (ccAccessKey c),
     ccAllowedTargets := norm_targets {} (ccAllowedTargets c)\<rparr>"

definition validateClient :: "client \<Rightarrow> store_error option" where
  "validateClient c = (if trim_space (ccName c) = [] then Some (Empty_field ''name'')
     else if trim_space (ccAccessKey c) = [] then Some (Empty_field ''access_key'') else None)"

definition client_key :: "client \<Rightarrow> string" where "client_key c = to_lower (ccName c)"
definition client_access :: "client \<Rightarrow> string" where "client_access c = trim_space (ccAccessKey c)"

definition client_list :: "('b, client) kv \<Rightarrow> 'b \<Rightarrow> store_error + client list" where
  "client_list kv b = store_list kv b"

definition client_create :: "('b, client) kv \<Rightarrow> 'b \<Rightarrow> client \<Rightarrow> store_error + 'b" where
  "client_create kv b c = (case validateClient c of Some e \<Rightarrow> Inl e
     | None \<Rightarrow> store_create kv client_key client_access b (normalizeClient c))"

definition client_update :: "('b, client) kv \<Rightarrow> 'b \<Rightarrow> string \<Rightarrow> client \<Rightarrow> store_error + 'b" where
  "client_update kv b name c = (case validateClient c of Some e \<Rightarrow> Inl e
     | None \<Rightarrow> let name = trim_space name in
        if name = [] then Inl (Empty_field ''name'')
        else store_update kv client_key client_access b (to_lower name) (normalizeClient c))"

definition client_delete :: "('b, client) kv \<Rightarrow> 'b \<Rightarrow> string \<Rightarrow> store_error + 'b" where
  "client_delete kv b name = store_delete kv b name"

definition with_quota :: "client \<Rightarrow> bool" where
  "with_quota c = (0 < clDaily c \<or> 0 < clWeekly c \<or> 0 < clMonthly c)"

definition listWithQuota :: "('b, client) kv \<Rightarrow> 'b \<Rightarrow> store_error + client list" where
  "listWithQuota kv b = map_sum id (filter with_quota) (store_list kv b)"

text \<open>What the store of access keys and the quota manager read of a client.\<close>

definition auth_client :: "client \<Rightarrow> client_config" where
  "auth_client c = client_config.truncate c"

definition quota_of :: "client \<Rightarrow> quota_client" where
  "quota_of c = \<lparr>qcName = ccName c, qcDaily = clDaily c, qcWeekly = clWeekly c, qcMonthly = clMonthly c\<rparr>"

section \<open>The store as a machine\<close>

datatype client_op = Create_client client | Update_client string client | Delete_client string

definition client_step :: "('b, client) kv \<Rightarrow> 'b \<Rightarrow> client_op \<Rightarrow> 'b" where
  "client_step kv b cmd = (case (case cmd of Create_client c \<Rightarrow> client_create kv b c
     | Update_client n c \<Rightarrow> client_update kv b n c | Delete_client n \<Rightarrow> client_delete kv b n) of
     Inl e \<Rightarrow> b | Inr b' \<Rightarrow> b')"

definition good_client :: "client \<Rightarrow> bool" where
  "good_client c = (ccName c \<noteq> [] \<and> ccAccessKey c \<noteq> [] \<and> trim_space (ccName c) = ccName c \<and>
     trim_space (ccAccessKey c) = ccAccessKey c \<and> distinct (ccAllowedTargets c) \<and>
     (\<forall>t \<in> set (ccAllowedTargets c). t \<noteq> [] \<and> to_lower (trim_space t) = t))"

abbreviation clients_ok :: "('b, client) kv \<Rightarrow> 'b \<Rightarrow> bool" where
  "clients_ok kv b \<equiv> store_ok kv client_key client_access good_client b"

lemma norm_targets_spec:
  "set (norm_targets seen ts) = {t \<in> (\<lambda>t. to_lower (trim_space t)) ` set ts. t \<noteq> [] \<and> t \<notin> seen} \<and> distinct (norm_targets seen ts)"
  by (induction seen ts rule: norm_targets.induct) (auto simp: Let_def)

lemma norm_good: "validateClient c = None \<Longrightarrow> good_client (normalizeClient c)"
  using norm_targets_spec[of "{}" "ccAllowedTargets c"]
  by (auto simp: good_client_def validateClient_def normalizeClient_def trim_space_lower split: if_splits)

locale client_bucket = ordered_bucket kv for kv :: "('b, client) kv"
begin

lemma client_step_ok:
  assumes "clients_ok kv b"
  shows "clients_ok kv (client_step kv b cmd)"
proof -
  have "clients_ok kv b'" if "client_create kv b c = Inr b'" for c b'
    using that create_ok[OF assms] norm_good[of c]
    by (auto simp: client_create_def good_client_def client_key_def split: option.splits)
  moreover have "clients_ok kv b'" if "client_update kv b n c = Inr b'" for n c b'
    using that update_ok[OF assms] norm_good[of c]
    by (auto simp: client_update_def Let_def split: option.splits if_splits)
  moreover have "clients_ok kv b'" if "client_delete kv b n = Inr b'" for n b'
    using that delete_ok[OF assms] by (auto simp: client_delete_def)
  ultimately show ?thesis
    using assms by (auto simp: client_step_def split: client_op.splits sum.splits)
qed

lemma client_run_ok: "clients_ok kv b \<Longrightarrow> clients_ok kv (foldl (client_step kv) b ops)"
  by (induction ops arbitrary: b) (auto intro: client_step_ok)

end

lemma empty_ok: "ordered_bucket kv \<Longrightarrow> kvEach kv b = [] \<Longrightarrow> store_ok kv key sec good b"
  unfolding store_ok_def by (metis ordered_bucket.each_get map_of.simps(1) option.distinct(1))

text \<open>Clients with distinct access keys, each with a name and a key, always load.\<close>

lemma load_distinct:
  assumes "\<forall>c \<in> set cs. trim_space (ccAccessKey c) \<noteq> [] \<and> trim_space (ccName c) \<noteq> []"
    "distinct (map (\<lambda>c. trim_space (ccAccessKey c)) cs)" "\<forall>c \<in> set cs. owners (trim_space (ccAccessKey c)) = None"
  shows "\<exists>m'. load_clients m owners cs = Inr m'"
  using assms
proof (induction cs arbitrary: m owners)
  case (Cons c cs)
  let ?o = "owners(trim_space (ccAccessKey c) \<mapsto> trim_space (ccName c))"
  have "\<exists>m'. load_clients m ?o cs = Inr m'" for m
  proof (rule Cons.IH)
    show "\<forall>d \<in> set cs. ?o (trim_space (ccAccessKey d)) = None" using Cons.prems(2,3) by (auto simp: image_iff)
  qed (use Cons.prems in auto)
  then show ?case using Cons.prems by (simp add: Let_def)
qed simp

interpretation alist_clients: client_bucket alist_kv ..

section \<open>Properties\<close>

lemma stored_clients_load:
  assumes "ordered_bucket kv" "clients_ok kv b"
  shows "\<exists>cs m. client_list kv b = Inr cs \<and> loadFromConfig store (map auth_client cs) = (None, m) \<and>
    (\<forall>c \<in> set cs. m (ccAccessKey c) = Some (new_principal (ccName c) (ccAccessKey c) (ccAllowedTargets c)))"
proof -
  from ordered_bucket.list_ok[OF assms] obtain cs where cs: "store_list kv b = Inr cs"
    "distinct (map client_access cs)" "\<And>c. c \<in> set cs \<Longrightarrow> good_client c" by metis
  have key: "(\<lambda>c. trim_space (ccAccessKey c)) \<circ> auth_client = client_access"
    by (rule ext) (simp add: auth_client_def client_access_def client_config.truncate_def)
  have d: "distinct (map (\<lambda>c. trim_space (ccAccessKey c)) (map auth_client cs))"
    using cs(2) by (simp add: key)
  obtain m where m: "load_clients Map.empty Map.empty (map auth_client cs) = Inr m"
    using load_distinct[of "map auth_client cs" Map.empty Map.empty] d cs(3)
    by (force simp: good_client_def auth_client_def client_config.truncate_def)
  have "m (ccAccessKey c) = Some (new_principal (ccName c) (ccAccessKey c) (ccAllowedTargets c))" if "c \<in> set cs" for c
  proof -
    have g: "trim_space (ccAccessKey c) = ccAccessKey c" "trim_space (ccName c) = ccName c"
      using cs(3)[OF that] by (simp_all add: good_client_def)
    have "find (\<lambda>d. trim_space (ccAccessKey d) = trim_space (ccAccessKey (auth_client c))) (map auth_client cs) = Some (auth_client c)"
      using that by (intro find_distinct[OF d]) simp
    then show ?thesis
      using load_clients_spec[OF m] g by (simp add: auth_client_def client_config.truncate_def)
  qed
  then show ?thesis using cs(1) m by (auto simp: client_list_def loadFromConfig_def)
qed

text \<open>
  Whatever sequence of creations, updates and deletions the admin interface has run on the
  store of clients, refused ones included, the store lists its clients, the store of access keys
  loads that list without an error, and each client listed is then authenticated by its own key as
  a principal with its name and its allowed targets.
\<close>

theorem stored_clients_authenticate:
  assumes "ordered_bucket kv" "kvEach kv b = []"
  shows "\<exists>cs m. client_list kv (foldl (client_step kv) b ops) = Inr cs \<and>
    loadFromConfig store (map auth_client cs) = (None, m) \<and>
    (\<forall>c \<in> set cs. authenticate_key m (ccAccessKey c) =
       Some (new_principal (ccName c) (ccAccessKey c) (ccAllowedTargets c)))"
  using stored_clients_load[OF assms(1) client_bucket.client_run_ok[OF client_bucket.intro[OF assms(1)] empty_ok[OF assms]]]
  by (simp add: authenticate_key_def)

theorem stored_clients_authenticate_witness:
  "\<exists>cs m. client_list alist_kv (foldl (client_step alist_kv) [] [Create_client
      \<lparr>ccName = '' A '', ccAccessKey = ''k'', ccAllowedTargets = [], clDaily = 1, clWeekly = 0, clMonthly = 0\<rparr>]) = Inr cs \<and>
    loadFromConfig Map.empty (map auth_client cs) = (None, m) \<and>
    (\<forall>c \<in> set cs. authenticate_key m (ccAccessKey c) =
       Some (new_principal (ccName c) (ccAccessKey c) (ccAllowedTargets c)))"
  by (rule stored_clients_authenticate[OF alist.ordered_bucket_axioms]) code_simp

end
