(* ===== verification/Copilot_Store.thy ===== *)
theory Copilot_Store
  imports Client_Store
begin

text \<open>
  Copilot pools and their accounts (\<open>internal/nosql/copilot_pools.go\<close>, \<open>copilot_accounts.go\<close>). A pool
  belongs to one client; its accounts are kept in a bucket of their own, under generated ids, and
  are numbered by their order in the pool. The clock's formatted time and a generated id are
  arguments of the operations that read them. Creating an account reads its pool before the
  transaction that writes it; the two are one step here.
\<close>

section \<open>Pools\<close>

record copilot_pool =
  cpName :: string
  cpClientName :: string
  cpTargets :: "string list"
  cpMaxAccounts :: int
  cpNotes :: string
  cpUpdatedAt :: string

definition getMaxAccounts :: "copilot_pool \<Rightarrow> int" where
  "getMaxAccounts p = (if cpMaxAccounts p \<le> 0 then 5 else cpMaxAccounts p)"

definition validatePool :: "copilot_pool \<Rightarrow> store_error option" where
  "validatePool p = (if trim_space (cpName p) = [] then Some (Empty_field ''name'')
     else if trim_space (cpClientName p) = [] then Some (Empty_field ''client_name'') else None)"

definition normalizePool :: "copilot_pool \<Rightarrow> copilot_pool" where
  "normalizePool p = p\<lparr>cpName := trim_space (cpName p), cpClientName := trim_space (cpClientName p),
     cpNotes := trim_space (cpNotes p), cpTargets := norm_targets {} (cpTargets p)\<rparr>"

definition pool_key :: "copilot_pool \<Rightarrow> string" where "pool_key p = to_lower (cpName p)"
definition pool_client :: "copilot_pool \<Rightarrow> string" where "pool_client p = to_lower (trim_space (cpClientName p))"

definition pool_list :: "('b, copilot_pool) kv \<Rightarrow> 'b \<Rightarrow> store_error + copilot_pool list" where
  "pool_list kv b = store_list kv b"

definition pool_get :: "('b, copilot_pool) kv \<Rightarrow> 'b \<Rightarrow> string \<Rightarrow> store_error + copilot_pool" where
  "pool_get kv b name = (let name = trim_space name; key = to_lower name in
     if name = [] then Inl (Empty_field ''name'') else case kvGet kv b key of
       None \<Rightarrow> Inl (Not_found name) | Some None \<Rightarrow> Inl (Undecodable key) | Some (Some p) \<Rightarrow> Inr p)"

definition pool_create :: "('b, copilot_pool) kv \<Rightarrow> string \<Rightarrow> 'b \<Rightarrow> copilot_pool \<Rightarrow> store_error + 'b" where
  "pool_create kv stamp b p = (case validatePool p of Some e \<Rightarrow> Inl e
     | None \<Rightarrow> store_create kv pool_key pool_client b (normalizePool p\<lparr>cpUpdatedAt := stamp\<rparr>))"

definition pool_update :: "('b, copilot_pool) kv \<Rightarrow> string \<Rightarrow> 'b \<Rightarrow> string \<Rightarrow> copilot_pool \<Rightarrow> store_error + 'b" where
  "pool_update kv stamp b name p = (case validatePool p of Some e \<Rightarrow> Inl e
     | None \<Rightarrow> let name = trim_space name in
        if name = [] then Inl (Empty_field ''name'')
        else store_update kv pool_key pool_client b (to_lower name) (normalizePool p\<lparr>cpUpdatedAt := stamp\<rparr>))"

definition pool_delete :: "('b, copilot_pool) kv \<Rightarrow> 'b \<Rightarrow> string \<Rightarrow> store_error + 'b" where
  "pool_delete kv b name = store_delete kv b name"

section \<open>Accounts\<close>

datatype account_status = Pending_auth | Active | Token_expired | Quota_exceeded | Disabled | Other_status string

definition status_of :: "string \<Rightarrow> account_status" where
  "status_of s = (if s = ''pending_auth'' then Pending_auth else if s = ''active'' then Active
     else if s = ''token_expired'' then Token_expired else if s = ''quota_exceeded'' then Quota_exceeded
     else if s = ''disabled'' then Disabled else Other_status s)"

record copilot_account =
  caID :: string
  caPoolName :: string
  caUsername :: string
  caSortOrder :: int
  caStatus :: account_status
  caOAuthToken :: string
  caCopilotToken :: string
  caExpiresAt :: int
  caAPIBaseURL :: string
  caDeviceCode :: string
  caUserCode :: string
  caVerificationURI :: string
  caDeviceExpiresAt :: int
  caPollInterval :: int
  caPercent :: real
  caEntitlement :: int
  caRemaining :: int
  caResetAt :: string
  caLastSyncAt :: string
  caBillingModel :: string
  caUnlimited :: bool
  caAllowOverage :: bool
  caNotes :: string
  caCreatedAt :: string
  caUpdatedAt :: string

definition isValidAccountStatus :: "account_status \<Rightarrow> bool" where
  "isValidAccountStatus s = (case s of Other_status _ \<Rightarrow> False | _ \<Rightarrow> True)"

text \<open>The trimmed status; an empty one becomes \<open>pending_auth\<close>.\<close>

definition default_status :: "account_status \<Rightarrow> account_status" where
  "default_status s = (case s of Other_status t \<Rightarrow> (if trim_space t = [] then Pending_auth else status_of (trim_space t)) | s \<Rightarrow> s)"

definition in_pool :: "string \<Rightarrow> copilot_account \<Rightarrow> bool" where
  "in_pool name a = (to_lower (trim_space (caPoolName a)) = to_lower name)"

text \<open>The accounts of a pool that decode, which is how creating an account counts them.\<close>

definition pool_members :: "('b, copilot_account) kv \<Rightarrow> 'b \<Rightarrow> string \<Rightarrow> copilot_account list" where
  "pool_members kv b name = filter (in_pool name) (List.map_filter snd (kvEach kv b))"

definition max_sort :: "copilot_account list \<Rightarrow> int" where
  "max_sort as = foldl (\<lambda>m a. if m < caSortOrder a then caSortOrder a else m) 0 as"

definition account_create :: "('p, copilot_pool) kv \<Rightarrow> ('b, copilot_account) kv \<Rightarrow> string \<Rightarrow> string \<Rightarrow> 'p \<Rightarrow> 'b \<Rightarrow>
    copilot_account \<Rightarrow> store_error + 'b" where
  "account_create pkv kv uuid stamp pb b a0 =
     (let name = trim_space (caPoolName a0); a = a0\<lparr>caPoolName := name\<rparr> in
      if name = [] then Inl (Empty_field ''pool_name'')
      else case pool_get pkv pb name of Inl _ \<Rightarrow> Inl (Not_found name)
      | Inr p \<Rightarrow>
        (let st = default_status (caStatus a); members = pool_members kv b name in
         if \<not> isValidAccountStatus st then Inl (Invalid ''status'')
         else if int (length members) \<ge> getMaxAccounts p then Inl (Invalid ''pool is full'')
         else Inr (kvPut kv b uuid (Some (a\<lparr>caStatus := st, caID := uuid, caCreatedAt := stamp, caUpdatedAt := stamp,
           caSortOrder := (if caSortOrder a = 0 then max_sort members + 1 else caSortOrder a)\<rparr>)))))"

definition account_get :: "('b, copilot_account) kv \<Rightarrow> 'b \<Rightarrow> string \<Rightarrow> store_error + copilot_account" where
  "account_get kv b ident = (let ident = trim_space ident in
     if ident = [] then Inl (Empty_field ''id'') else case kvGet kv b ident of
       None \<Rightarrow> Inl (Not_found ident) | Some None \<Rightarrow> Inl (Undecodable ident) | Some (Some a) \<Rightarrow> Inr a)"

definition account_update :: "('b, copilot_account) kv \<Rightarrow> string \<Rightarrow> 'b \<Rightarrow> string \<Rightarrow> copilot_account \<Rightarrow> store_error + 'b" where
  "account_update kv stamp b ident a = (let ident = trim_space ident in
     if ident = [] then Inl (Empty_field ''id'') else if kvGet kv b ident = None then Inl (Not_found ident)
     else Inr (kvPut kv b ident (Some (a\<lparr>caID := ident, caUpdatedAt := stamp\<rparr>))))"

definition account_delete :: "('b, copilot_account) kv \<Rightarrow> 'b \<Rightarrow> string \<Rightarrow> store_error + 'b" where
  "account_delete kv b ident = (let ident = trim_space ident in
     if ident = [] then Inl (Empty_field ''id'') else if kvGet kv b ident = None then Inl (Not_found ident)
     else Inr (kvDelete kv b ident))"

definition account_list :: "('b, copilot_account) kv \<Rightarrow> 'b \<Rightarrow> store_error + copilot_account list" where
  "account_list kv b = store_list kv b"

text \<open>The sort is stable; Go's is for the twelve elements a pool's list stays within by default.\<close>

definition listByPool :: "('b, copilot_account) kv \<Rightarrow> 'b \<Rightarrow> string \<Rightarrow> store_error + copilot_account list" where
  "listByPool kv b name = (let name = trim_space name in
     if name = [] then Inl (Empty_field ''pool_name'')
     else map_sum id (\<lambda>as. sort_key caSortOrder (filter (in_pool name) as)) (store_list kv b))"

definition blank_account :: copilot_account where
  "blank_account = \<lparr>caID = [], caPoolName = [], caUsername = [], caSortOrder = 0, caStatus = Other_status [],
     caOAuthToken = [], caCopilotToken = [], caExpiresAt = 0, caAPIBaseURL = [], caDeviceCode = [], caUserCode = [],
     caVerificationURI = [], caDeviceExpiresAt = 0, caPollInterval = 0, caPercent = 0, caEntitlement = 0,
     caRemaining = 0, caResetAt = [], caLastSyncAt = [], caBillingModel = [], caUnlimited = False,
     caAllowOverage = False, caNotes = [], caCreatedAt = [], caUpdatedAt = []\<rparr>"

definition demo_copilot_pool :: copilot_pool where
  "demo_copilot_pool = \<lparr>cpName = ''p'', cpClientName = ''c'', cpTargets = [], cpMaxAccounts = 2, cpNotes = [], cpUpdatedAt = []\<rparr>"

section \<open>Properties\<close>

lemma map_filter_snd: "List.map_filter snd ps = map (the \<circ> snd) (filter (\<lambda>p. snd p \<noteq> None) ps)"
  by (induction ps) (auto simp: List.map_filter_simps)

context ordered_bucket
begin

text \<open>The records a predicate selects, counted by their keys.\<close>

lemma each_count:
  "length (filter P (List.map_filter snd (kvEach kv b))) = card {k. \<exists>a. kvGet kv b k = Some (Some a) \<and> P a}"
proof -
  let ?q = "\<lambda>p. snd p \<noteq> None \<and> P (the (snd p))"
  have "length (filter P (List.map_filter snd (kvEach kv b))) = length (map fst (filter ?q (kvEach kv b)))"
    by (simp add: map_filter_snd filter_map comp_def conj_commute)
  also have "\<dots> = card (set (map fst (filter ?q (kvEach kv b))))"
    by (rule distinct_card[symmetric]) (rule distinct_map_filter[OF each_distinct])
  also have "set (map fst (filter ?q (kvEach kv b))) = {k. \<exists>a. kvGet kv b k = Some (Some a) \<and> P a}"
    by (auto simp: image_iff in_each)
  finally show ?thesis .
qed

lemma each_finite: "finite {k. kvGet kv b k \<noteq> None}"
proof -
  have "{k. kvGet kv b k \<noteq> None} = dom (map_of (kvEach kv b))" by (auto simp: each_get)
  then show ?thesis by (simp add: finite_dom_map_of)
qed

lemma put_count:
  "length (filter P (List.map_filter snd (kvEach kv (kvPut kv b k v)))) \<le> length (filter P (List.map_filter snd (kvEach kv b))) + 1"
proof -
  let ?S = "\<lambda>b. {k. \<exists>a. kvGet kv b k = Some (Some a) \<and> P a}"
  have fin: "finite (?S b)" by (rule finite_subset[OF _ each_finite[of b]]) auto
  have "?S (kvPut kv b k v) \<subseteq> insert k (?S b)" by (auto simp: get_put split: if_splits)
  then have "card (?S (kvPut kv b k v)) \<le> card (insert k (?S b))" using fin by (intro card_mono) auto
  also have "\<dots> \<le> card (?S b) + 1" using fin by (simp add: card_insert_if)
  finally show ?thesis by (simp only: each_count)
qed

end

text \<open>
  An account that is created leaves its pool with at most as many accounts as the pool allows.
\<close>

theorem account_pool_bound:
  assumes "ordered_bucket kv" "account_create pkv kv uuid stamp pb b a = Inr b'"
    "pool_get pkv pb (caPoolName a) = Inr p"
  shows "int (length (pool_members kv b' (trim_space (caPoolName a)))) \<le> getMaxAccounts p"
proof -
  have pg: "pool_get pkv pb (trim_space (caPoolName a)) = Inr p"
    using assms(3) by (simp add: pool_get_def)
  obtain x where x: "b' = kvPut kv b uuid x"
    and lt: "int (length (pool_members kv b (trim_space (caPoolName a)))) < getMaxAccounts p"
    using assms(2) pg by (auto simp: account_create_def Let_def split: if_splits)
  show ?thesis
    using ordered_bucket.put_count[OF assms(1), of "in_pool (trim_space (caPoolName a))" b uuid x] lt
    unfolding x pool_members_def by linarith
qed

theorem account_pool_bound_witness:
  "int (length (pool_members alist_kv [(''u'', Some (blank_account\<lparr>caPoolName := ''p'', caStatus := Pending_auth,
     caID := ''u'', caCreatedAt := ''t'', caUpdatedAt := ''t'', caSortOrder := 1\<rparr>))] (trim_space ''p''))) \<le> getMaxAccounts demo_copilot_pool"
proof -
  have c: "account_create alist_kv alist_kv ''u'' ''t'' [(''p'', Some demo_copilot_pool)] [] (blank_account\<lparr>caPoolName := ''p''\<rparr>) =
    Inr [(''u'', Some (blank_account\<lparr>caPoolName := ''p'', caStatus := Pending_auth,
     caID := ''u'', caCreatedAt := ''t'', caUpdatedAt := ''t'', caSortOrder := 1\<rparr>))]"
    and p: "pool_get alist_kv [(''p'', Some demo_copilot_pool)] ''p'' = Inr demo_copilot_pool" by code_simp+
  show ?thesis
    using account_pool_bound[OF alist.ordered_bucket_axioms c] p by (simp add: blank_account_def)
qed

lemma strict_sorted_unique:
  assumes "\<And>x y. R x y \<Longrightarrow> \<not> R y x"
  shows "sorted_wrt R xs \<Longrightarrow> sorted_wrt R ys \<Longrightarrow> set xs = set ys \<Longrightarrow> xs = ys"
proof (induction xs arbitrary: ys)
  case (Cons x xs)
  then obtain y zs where ys: "ys = y # zs" by (cases ys) auto
  have "x = y"
  proof (rule ccontr)
    assume "x \<noteq> y"
    then have "R x y" "R y x" using Cons.prems ys by (auto simp: set_eq_iff)
    then show False using assms by blast
  qed
  moreover have "x \<notin> set xs" "y \<notin> set zs"
    using Cons.prems(1,2) assms[of x x] assms[of y y] unfolding ys by auto
  then have "set xs = set zs" using Cons.prems(3) ys calculation by auto
  ultimately show ?case using Cons ys by simp
qed simp

lemma str_less_asym: "str_less a b \<Longrightarrow> \<not> str_less b a"
  using str_le_antisym by (auto simp: str_less_def)

lemma insort_key_greatest: "\<forall>y \<in> set zs. f y < (f x :: int) \<Longrightarrow> insort_key f x zs = zs @ [x]"
  by (induction zs) auto

lemma insort_key_before: "f a \<le> (f x :: int) \<Longrightarrow> insort_key f a (zs @ [x]) = insort_key f a zs @ [x]"
  by (induction zs) auto

lemma sort_key_greatest:
  "\<forall>y \<in> set (xs @ ys). f y < (f x :: int) \<Longrightarrow> sort_key f (xs @ x # ys) = sort_key f (xs @ ys) @ [x]"
  by (induction xs) (simp_all add: insort_key_greatest insort_key_before)

context ordered_bucket
begin

text \<open>A new key is inserted into the listing and leaves the rest of it as it was.\<close>

lemma each_put_new:
  assumes "kvGet kv b k = None"
  obtains us ws where "kvEach kv b = us @ ws" "kvEach kv (kvPut kv b k v) = us @ (k, v) # ws"
proof -
  let ?b = "kvPut kv b k v"
  have "(k, v) \<in> set (kvEach kv ?b)" by (simp add: in_each get_put)
  then obtain us ws where e: "kvEach kv ?b = us @ (k, v) # ws" by (auto simp: in_set_conv_decomp)
  have k: "k \<notin> fst ` set us" "k \<notin> fst ` set ws" using each_distinct[of ?b] by (auto simp: e)
  have set_old: "p \<in> set (kvEach kv b) \<longleftrightarrow> p \<in> set (us @ ws)" for p
  proof -
    obtain k' v' where p: "p = (k', v')" by force
    show ?thesis
    proof (cases "k' = k")
      case True
      then show ?thesis using assms k unfolding p in_each by force
    next
      case False
      then have "p \<in> set (kvEach kv b) \<longleftrightarrow> p \<in> set (kvEach kv ?b)" unfolding p in_each by (simp add: get_put)
      then show ?thesis using False p e by auto
    qed
  qed
  have "kvEach kv b = us @ ws"
  proof (rule strict_sorted_unique[of "\<lambda>p q. str_less (fst p) (fst q)"])
    show "sorted_wrt (\<lambda>p q. str_less (fst p) (fst q)) (kvEach kv b)" using each_sorted[of b] by (simp add: sorted_wrt_map)
    show "sorted_wrt (\<lambda>p q. str_less (fst p) (fst q)) (us @ ws)"
      using each_sorted[of ?b] unfolding e by (simp add: sorted_wrt_map sorted_wrt_append)
    show "set (kvEach kv b) = set (us @ ws)" using set_old by blast
  qed (rule str_less_asym)
  then show thesis using e that by blast
qed

end

lemma max_sort_foldl: "caSortOrder a \<le> m \<or> a \<in> set as \<Longrightarrow>
    caSortOrder a \<le> foldl (\<lambda>m a. if m < caSortOrder a then caSortOrder a else m) m as"
proof (induction as arbitrary: m)
  case (Cons c as)
  show ?case unfolding foldl_Cons by (rule Cons.IH) (use Cons.prems in auto)
qed simp

text \<open>
  An account that is created without an order of its own comes last when the accounts of its
  pool are listed, which is the order they are selected in, and the others keep their order.
\<close>

theorem created_account_last:
  assumes "ordered_bucket kv" "account_create pkv kv uuid stamp pb b a = Inr b'" "kvGet kv b uuid = None"
    "caSortOrder a = 0" "listByPool kv b (caPoolName a) = Inr as"
  shows "\<exists>x. listByPool kv b' (caPoolName a) = Inr (as @ [x]) \<and> caID x = uuid"
proof -
  let ?n = "trim_space (caPoolName a)"
  obtain x where x: "b' = kvPut kv b uuid (Some x)" "caID x = uuid" "caPoolName x = ?n"
      "caSortOrder x = max_sort (pool_members kv b ?n) + 1" and ne: "?n \<noteq> []"
    using assms(2,4) by (auto simp: account_create_def Let_def split: if_splits sum.splits)
  obtain us ws where e: "kvEach kv b = us @ ws" "kvEach kv b' = us @ (uuid, Some x) # ws"
    using ordered_bucket.each_put_new[OF assms(1,3)] x(1) by metis
  let ?f = "\<lambda>ps. filter (in_pool ?n) (map (the \<circ> snd) ps)"
  have dec: "\<forall>p \<in> set (us @ ws). snd p \<noteq> None" and as: "as = sort_key caSortOrder (?f us @ ?f ws)"
    using assms(5) ne e(1) by (auto simp: listByPool_def Let_def store_list_def decode_all_inr map_sum_def split: sum.splits)
  have inp: "in_pool ?n x" by (simp add: in_pool_def x(3))
  have "pool_members kv b ?n = ?f us @ ?f ws"
    using dec by (simp add: pool_members_def e(1) map_filter_snd filter_True)
  then have "\<forall>y \<in> set (?f us @ ?f ws). caSortOrder y < caSortOrder x"
    unfolding x(4) max_sort_def using max_sort_foldl[of _ 0 "?f us @ ?f ws"] by (simp add: zless_add1_eq order_le_less)
  then have sorted_as: "sort_key caSortOrder (?f us @ x # ?f ws) = as @ [x]"
    unfolding as by (rule sort_key_greatest)
  have "listByPool kv b' (caPoolName a) = Inr (as @ [x])"
  proof -
    have "decode_all (us @ (uuid, Some x) # ws) = Inr (map (the \<circ> snd) (us @ (uuid, Some x) # ws))"
      using dec by (simp add: decode_all_inr)
    then show ?thesis using sorted_as ne inp by (simp add: listByPool_def Let_def store_list_def e(2))
  qed
  then show ?thesis using x(2) by blast
qed

theorem created_account_last_witness:
  "\<exists>x. listByPool alist_kv [(''u'', Some (blank_account\<lparr>caPoolName := ''p'', caStatus := Pending_auth,
     caID := ''u'', caCreatedAt := ''t'', caUpdatedAt := ''t'', caSortOrder := 1\<rparr>))] ''p'' = Inr ([] @ [x]) \<and> caID x = ''u''"
proof -
  have c: "account_create alist_kv alist_kv ''u'' ''t'' [(''p'', Some demo_copilot_pool)] [] (blank_account\<lparr>caPoolName := ''p''\<rparr>) =
    Inr [(''u'', Some (blank_account\<lparr>caPoolName := ''p'', caStatus := Pending_auth,
     caID := ''u'', caCreatedAt := ''t'', caUpdatedAt := ''t'', caSortOrder := 1\<rparr>))]"
    and l: "listByPool alist_kv [] ''p'' = Inr []" and g: "kvGet alist_kv ([] :: (string \<times> copilot_account option) list) ''u'' = None"
    by code_simp+
  show ?thesis
    using created_account_last[OF alist.ordered_bucket_axioms c g, of "[]"] l by (simp add: blank_account_def)
qed

end
