(* ===== verification/Admin_Stores.thy ===== *)
theory Admin_Stores
  imports Buckets Catalog Civil_Time
begin

text \<open>
  The stores of model costs, of administrators and of audit events (\<open>internal/nosql/model_costs.go\<close>,
  \<open>users.go\<close>, \<open>audit.go\<close>).
\<close>

section \<open>Model costs\<close>

record stored_cost = model_cost +
  mcEndpointType :: string

definition costKey :: "stored_cost \<Rightarrow> string" where "costKey c = to_lower (trim_space (mcModel c))"

definition validateCost :: "stored_cost \<Rightarrow> store_error option" where
  "validateCost c = (let r = mcCost c in if trim_space (mcModel c) = [] then Some (Empty_field ''model'')
     else if coInput r < 0 \<or> coOutput r < 0 \<or> coCachedInput r < 0 \<or> coCacheRead r < 0 then Some (Invalid ''cost'') else None)"

definition normalizeCost :: "stored_cost \<Rightarrow> stored_cost" where
  "normalizeCost c = c\<lparr>mcModel := to_lower (trim_space (mcModel c)), mcEndpointType := to_lower (trim_space (mcEndpointType c))\<rparr>"

definition cost_list :: "('b, stored_cost) kv \<Rightarrow> 'b \<Rightarrow> store_error + stored_cost list" where
  "cost_list kv b = store_list kv b"

definition cost_upsert :: "('b, stored_cost) kv \<Rightarrow> 'b \<Rightarrow> stored_cost \<Rightarrow> store_error + 'b" where
  "cost_upsert kv b c = (case validateCost c of Some e \<Rightarrow> Inl e
     | None \<Rightarrow> let c = normalizeCost c in Inr (kvPut kv b (costKey c) (Some c)))"

definition cost_delete :: "('b, stored_cost) kv \<Rightarrow> 'b \<Rightarrow> string \<Rightarrow> store_error + 'b" where
  "cost_delete kv b model = (let m = to_lower (trim_space model) in
     if m = [] then Inl (Empty_field ''model'') else if kvGet kv b m = None then Inl (Not_found m)
     else Inr (kvDelete kv b m))"

text \<open>The records under a key with a colon, in the order of the keys, are written under their model and deleted under the key.\<close>

definition move_cost :: "('b, stored_cost) kv \<Rightarrow> 'b \<Rightarrow> string \<times> stored_cost \<Rightarrow> 'b" where
  "move_cost kv b m = (let (old, c) = m; new = to_lower (trim_space (mcModel c)) in
     if new = [] then b else kvDelete kv (kvPut kv b new (Some c)) old)"

definition migrateKeys :: "('b, stored_cost) kv \<Rightarrow> 'b \<Rightarrow> 'b" where
  "migrateKeys kv b = foldl (move_cost kv) b
     (List.map_filter (\<lambda>(k, v). if CHR '':'' \<notin> set k then None else map_option (Pair k) v) (kvEach kv b))"

section \<open>Administrators\<close>

record admin_user =
  auUsername :: string
  auPasswordHash :: string
  auRole :: string
  auDisabled :: bool
  auUpdatedAt :: string

definition default_role :: "admin_user \<Rightarrow> admin_user" where
  "default_role u = (if auRole u = [] then u\<lparr>auRole := ''admin''\<rparr> else u)"

definition user_list :: "('b, admin_user) kv \<Rightarrow> 'b \<Rightarrow> store_error + admin_user list" where
  "user_list kv b = store_list kv b"

definition user_get :: "('b, admin_user) kv \<Rightarrow> 'b \<Rightarrow> string \<Rightarrow> store_error + admin_user" where
  "user_get kv b name = (let name = trim_space name; key = to_lower name in
     if name = [] then Inl (Empty_field ''username'') else case kvGet kv b key of
       None \<Rightarrow> Inl (Not_found name) | Some None \<Rightarrow> Inl (Undecodable key) | Some (Some u) \<Rightarrow> Inr u)"

definition user_create :: "('b, admin_user) kv \<Rightarrow> 'b \<Rightarrow> admin_user \<Rightarrow> store_error + 'b" where
  "user_create kv b u0 = (let u = default_role (u0\<lparr>auUsername := trim_space (auUsername u0)\<rparr>); key = to_lower (auUsername u) in
     if auUsername u = [] then Inl (Empty_field ''username'')
     else if auPasswordHash u = [] then Inl (Empty_field ''password_hash'')
     else if kvGet kv b key \<noteq> None then Inl (Already_exists (auUsername u))
     else Inr (kvPut kv b key (Some u)))"

definition user_update :: "('b, admin_user) kv \<Rightarrow> 'b \<Rightarrow> string \<Rightarrow> admin_user \<Rightarrow> store_error + 'b" where
  "user_update kv b name u0 = (let name = trim_space name; key = to_lower name; own = trim_space (auUsername u0);
       u = default_role (u0\<lparr>auUsername := (if own = [] then name else own)\<rparr>) in
     if name = [] then Inl (Empty_field ''username'') else if kvGet kv b key = None then Inl (Not_found name)
     else Inr (kvPut kv b key (Some u)))"

definition user_delete :: "('b, admin_user) kv \<Rightarrow> 'b \<Rightarrow> string \<Rightarrow> store_error + 'b" where
  "user_delete kv b name = store_delete kv b name"

definition seedDefaultUser :: "('b, admin_user) kv \<Rightarrow> 'b \<Rightarrow> admin_user \<Rightarrow> store_error + 'b" where
  "seedDefaultUser kv b u0 = (let u = default_role (u0\<lparr>auUsername := trim_space (auUsername u0)\<rparr>) in
     if auUsername u = [] then Inl (Empty_field ''username'')
     else Inr (if kvEach kv b \<noteq> [] then b else kvPut kv b (to_lower (auUsername u)) (Some u)))"

section \<open>Audit events\<close>

text \<open>The formats \<open>RFC3339\<close> and \<open>RFC3339Nano\<close> of a UTC time of the years 1 to 9999.\<close>

fun pad :: "nat \<Rightarrow> int \<Rightarrow> string" where
  "pad 0 n = []"
| "pad (Suc w) n = pad w (n div 10) @ [char_of (48 + n mod 10)]"

definition date_text :: "time \<Rightarrow> string" where
  "date_text t = (let d = day_at 0 t; s = clock_at 0 t div 1000000000 in
     pad 4 (year_of d) @ ''-'' @ pad 2 (month_of d) @ ''-'' @ pad 2 (mday_of d) @ ''T'' @
     pad 2 (s div 3600) @ '':'' @ pad 2 (s div 60 mod 60) @ '':'' @ pad 2 (s mod 60))"

definition rfc3339 :: "time \<Rightarrow> string" where "rfc3339 t = date_text t @ ''Z''"

definition rfc3339nano :: "time \<Rightarrow> string" where
  "rfc3339nano t = (let f = trim_right_char (CHR ''0'') (pad 9 (t mod 1000000000)) in
     date_text t @ (if f = [] then [] else ''.'' @ f) @ ''Z'')"

record audit_event =
  aeID :: string
  aeTimestamp :: time
  aeActor :: string
  aeAction :: string
  aeObject :: string
  aeResult :: string
  aeDetail :: string

definition auditKey :: "time \<Rightarrow> string \<Rightarrow> string" where
  "auditKey t ident = rfc3339nano t @ ''_'' @ ident"

text \<open>The zero time is 0; \<open>uuid\<close> is the id the library generates.\<close>

definition audit_record :: "('b, audit_event) kv \<Rightarrow> string \<Rightarrow> time \<Rightarrow> 'b \<Rightarrow> audit_event \<Rightarrow> 'b" where
  "audit_record kv uuid now b e0 =
     (let t = (if aeTimestamp e0 = 0 then now else aeTimestamp e0); ident = (if trim_space (aeID e0) = [] then uuid else trim_space (aeID e0));
          e = \<lparr>aeID = ident, aeTimestamp = t, aeActor = trim_space (aeActor e0), aeAction = trim_space (aeAction e0),
               aeObject = trim_space (aeObject e0), aeResult = trim_space (aeResult e0), aeDetail = trim_space (aeDetail e0)\<rparr>
      in kvPut kv b (auditKey t ident) (Some e))"

definition audit_limit :: "int \<Rightarrow> nat" where
  "audit_limit n = (if n \<le> 0 then 50 else if 500 < n then 500 else nat n)"

definition audit_list :: "('b, audit_event) kv \<Rightarrow> 'b \<Rightarrow> int \<Rightarrow> audit_event list" where
  "audit_list kv b n = take (audit_limit n) (List.map_filter snd (rev (kvEach kv b)))"

section \<open>Properties\<close>

definition costs_ok :: "('b, stored_cost) kv \<Rightarrow> 'b \<Rightarrow> bool" where
  "costs_ok kv b = (\<forall>k v. kvGet kv b k = Some v \<longrightarrow> (\<exists>c. v = Some c \<and> k = costKey c \<and> k \<noteq> []))"

locale cost_bucket = ordered_bucket kv for kv :: "('b, stored_cost) kv"
begin

lemma upsert_ok: "costs_ok kv b \<Longrightarrow> cost_upsert kv b c = Inr b' \<Longrightarrow> costs_ok kv b'"
  by (auto simp: costs_ok_def cost_upsert_def get_put Let_def normalizeCost_def costKey_def validateCost_def trim_space_lower
      split: option.splits if_splits)

lemma cost_delete_ok: "costs_ok kv b \<Longrightarrow> cost_delete kv b m = Inr b' \<Longrightarrow> costs_ok kv b'"
  by (auto simp: costs_ok_def cost_delete_def get_delete Let_def split: if_splits)

lemma move_costs_get:
  assumes "\<forall>(k, c) \<in> set ms. k = costKey c \<and> k \<noteq> []"
  shows "kvGet kv (foldl (move_cost kv) b ms) k = (if k \<in> fst ` set ms then None else kvGet kv b k)"
  using assms
proof (induction ms arbitrary: b)
  case (Cons m ms)
  obtain old c where m: "m = (old, c)" "old = costKey c" "old \<noteq> []" using Cons.prems by (cases m) auto
  then have "kvGet kv (move_cost kv b m) k = (if k = old then None else kvGet kv b k)" for k
    by (simp add: move_cost_def costKey_def get_put get_delete)
  then show ?case using Cons m by auto
qed simp

end

interpretation alist_costs: cost_bucket alist_kv ..

text \<open>
  At every start the migration of cost keys deletes the price of each model whose name has a
  colon, and keeps the other prices as they are.
\<close>

theorem migrateKeys_effect:
  assumes "ordered_bucket kv" "costs_ok kv b"
  shows "kvGet kv (migrateKeys kv b) k = (if CHR '':'' \<in> set k then None else kvGet kv b k)"
proof -
  let ?ms = "List.map_filter (\<lambda>(k, v). if CHR '':'' \<notin> set k then None else map_option (Pair k) v) (kvEach kv b)"
  have mem: "(k, c) \<in> set ?ms \<longleftrightarrow> CHR '':'' \<in> set k \<and> kvGet kv b k = Some (Some c)" for k c
    unfolding ordered_bucket.in_each[OF assms(1), symmetric]
    by (force simp: List.map_filter_def split: if_splits)
  have "\<forall>(k, c) \<in> set ?ms. k = costKey c \<and> k \<noteq> []" using assms(2) mem unfolding costs_ok_def by blast
  note get = cost_bucket.move_costs_get[OF cost_bucket.intro[OF assms(1)] this, of b k]
  have "k \<in> fst ` set ?ms \<longleftrightarrow> (\<exists>c. (k, c) \<in> set ?ms)" by force
  also have "\<dots> \<longleftrightarrow> CHR '':'' \<in> set k \<and> kvGet kv b k \<noteq> None"
    using assms(2) unfolding mem costs_ok_def by (cases "kvGet kv b k") auto
  finally have "k \<in> fst ` set ?ms \<longleftrightarrow> CHR '':'' \<in> set k \<and> kvGet kv b k \<noteq> None" .
  then show ?thesis unfolding migrateKeys_def get by auto
qed

theorem migrateKeys_effect_witness:
  "kvGet alist_kv (migrateKeys alist_kv [(''m:1'', Some \<lparr>mcModel = ''m:1'', mcCost = \<lparr>coInput = 1, coOutput = 1,
     coCachedInput = 1, coCacheRead = 1\<rparr>, mcEndpointType = []\<rparr>)]) ''m:1'' = None"
proof -
  have k: "to_lower (trim_space ''m:1'') = ''m:1''" by code_simp
  have "costs_ok alist_kv [(''m:1'', Some \<lparr>mcModel = ''m:1'', mcCost = \<lparr>coInput = 1, coOutput = 1,
     coCachedInput = 1, coCacheRead = 1\<rparr>, mcEndpointType = []\<rparr>)]"
    by (simp add: costs_ok_def alist_kv_def costKey_def k)
  from migrateKeys_effect[OF alist.ordered_bucket_axioms this, of "''m:1''"] show ?thesis by simp
qed

lemma find_map': "find P (map f xs) = map_option f (find (P \<circ> f) xs)"
  by (induction xs) auto

text \<open>
  After a price has been set, the table of costs built from the store gives that price to the
  model, whatever other prices are stored and whatever the catalogue says.
\<close>

theorem upsert_priced:
  assumes "ordered_bucket kv" "costs_ok kv b" "cost_upsert kv b c = Inr b'"
  shows "\<exists>cs. cost_list kv b' = Inr cs \<and>
    toCostTable (map model_cost.truncate cs) cat (to_lower (trim_space (mcModel c))) = Some (mcCost c)"
proof -
  let ?c = "normalizeCost c" and ?m = "to_lower (trim_space (mcModel c))"
  let ?cs = "map (the \<circ> snd) (kvEach kv b')"
  have ok: "costs_ok kv b'" by (rule cost_bucket.upsert_ok[OF cost_bucket.intro[OF assms(1)] assms(2,3)])
  have b': "b' = kvPut kv b (costKey ?c) (Some ?c)" and ne: "?m \<noteq> []"
    using assms(3) by (auto simp: cost_upsert_def validateCost_def Let_def split: option.splits if_splits)
  have key: "costKey ?c = ?m" by (simp add: costKey_def normalizeCost_def trim_space_lower)
  have rec: "\<exists>d. v = Some d \<and> k = costKey d" if "(k, v) \<in> set (kvEach kv b')" for k v
    using ok that unfolding costs_ok_def ordered_bucket.in_each[OF assms(1)] by blast
  have list: "cost_list kv b' = Inr ?cs"
    unfolding cost_list_def store_list_def decode_all_inr using rec by fastforce
  have keys: "map costKey ?cs = map fst (kvEach kv b')" using rec by (fastforce intro!: map_cong)
  have mem: "?c \<in> set ?cs"
  proof -
    have "(?m, Some ?c) \<in> set (kvEach kv b')"
      by (simp add: ordered_bucket.in_each[OF assms(1)] ordered_bucket.get_put[OF assms(1)] b' key)
    then show ?thesis by force
  qed
  have "distinct (map costKey (rev ?cs))"
    by (metis ordered_bucket.each_distinct[OF assms(1)] keys distinct_rev rev_map)
  then have "find (\<lambda>d. costKey d = costKey ?c) (rev ?cs) = Some ?c" using mem by (intro find_distinct) auto
  moreover have tr: "(\<lambda>d. to_lower (trim_space (mcModel d)) = ?m) \<circ> model_cost.truncate = (\<lambda>d. costKey d = ?m)"
    by (simp add: comp_def costKey_def model_cost.truncate_def)
  ultimately have "find (\<lambda>d. to_lower (trim_space (mcModel d)) = ?m) (rev (map model_cost.truncate ?cs)) = Some (model_cost.truncate ?c)"
    unfolding rev_map[of model_cost.truncate] find_map' tr key by simp
  then show ?thesis
    using list cost_layers[OF ne, of "map model_cost.truncate ?cs" cat] by (auto simp: model_cost.truncate_def normalizeCost_def)
qed

theorem upsert_priced_witness:
  "\<exists>cs. cost_list alist_kv [(''m'', Some \<lparr>mcModel = ''m'', mcCost = \<lparr>coInput = 1, coOutput = 1,
       coCachedInput = 1, coCacheRead = 1\<rparr>, mcEndpointType = []\<rparr>)] = Inr cs \<and>
     toCostTable (map model_cost.truncate cs) None (to_lower (trim_space '' M'')) =
       Some \<lparr>coInput = 1, coOutput = 1, coCachedInput = 1, coCacheRead = 1\<rparr>"
proof -
  let ?r = "\<lparr>coInput = 1, coOutput = 1, coCachedInput = 1, coCacheRead = 1\<rparr>"
  have k: "to_lower (trim_space '' M'') = ''m''" "trim_space '' M'' = ''M''" "to_lower (trim_space ''m'') = ''m''"
    "trim_space ''m'' = ''m''" "to_lower ''M'' = ''m''" "to_lower ''m'' = ''m''" by code_simp+
  have "costs_ok alist_kv []" by (simp add: costs_ok_def alist_kv_def)
  moreover have "cost_upsert alist_kv [] \<lparr>mcModel = '' M'', mcCost = ?r, mcEndpointType = []\<rparr> =
      Inr [(''m'', Some \<lparr>mcModel = ''m'', mcCost = ?r, mcEndpointType = []\<rparr>)]"
    by (simp add: cost_upsert_def validateCost_def normalizeCost_def costKey_def alist_kv_def k)
  ultimately show ?thesis
    using upsert_priced[OF alist.ordered_bucket_axioms, of "[]" "\<lparr>mcModel = '' M'', mcCost = ?r, mcEndpointType = []\<rparr>"] by simp
qed

text \<open>
  The keys of audit events do not follow the time: a fraction of a second sorts before the full
  second, so the later event of the two is listed as the older one.
\<close>

lemma audit_key_order_lost: "str_less (auditKey 1500000000 ''b'') (auditKey 1000000000 ''a'')"
  by code_simp

end
