(* ===== verification/Target_Store.thy ===== *)
theory Target_Store
  imports Config_Types Buckets
begin

text \<open>
  The targets in the database (\<open>internal/nosql/targets.go\<close>): a record for each lower-case name, and
  the order of the targets as a list of those names under one key of another bucket. The database
  is the pair of the two buckets; each operation is one transaction, and \<open>List\<close>, which reads in one
  and writes migrated records back in a second, is one step. Two encoded targets are the same when
  the targets are. The store of targets promises an ordered list of targets, which is what it
  refines.
\<close>

section \<open>Records\<close>

text \<open>
  A target with its fields that only the store and old records use. The last field is of the stored
  bytes only: a target that is written has none.
\<close>

record stored_target =
  stTarget :: config_target
  stResourcePathPrefix :: string
  stProviderClass :: string
  stAllowedModels :: "string list"

datatype meta_value = Meta_order "string list" | Meta_marker string

definition targetOrderKey :: string where "targetOrderKey = ''target_order''"

abbreviation st_name :: "stored_target \<Rightarrow> string" where "st_name t \<equiv> ctName (stTarget t)"

definition target_key :: "stored_target \<Rightarrow> string" where "target_key t = to_lower (st_name t)"

definition validateTarget :: "stored_target \<Rightarrow> store_error option" where
  "validateTarget t = (let c = stTarget t in
     if trim_space (ctName c) = [] then Some (Empty_field ''name'')
     else if \<not> isValidEndpointType (normalizeEndpointType (ctEndpointType c)) then Some (Invalid ''endpoint_type'')
     else if trim_space (ctEndpoint c) = [] then Some (Empty_field ''endpoint'')
     else if trim_space (ctAPIKey c) = [] \<and> (\<forall>k \<in> set (ctAPIKeys c). trim_space k = []) \<and> \<not> ctAllowBearer c
       then Some (Empty_field ''api_key'') else None)"

definition trim_mapping :: "model_mapping \<Rightarrow> model_mapping" where
  "trim_mapping m = \<lparr>mmUpstream = trim_space (mmUpstream m), mmFallback = trim_space (mmFallback m)\<rparr>"

text \<open>The trimming of the elements of the two slices, which the source does in place.\<close>

definition trim_slices :: "stored_target \<Rightarrow> stored_target" where
  "trim_slices t = t\<lparr>stTarget := (stTarget t)\<lparr>ctAPIKeys := map trim_space (ctAPIKeys (stTarget t)),
     ctModelMappings := map trim_mapping (ctModelMappings (stTarget t))\<rparr>\<rparr>"

definition merge_prefix :: "string \<Rightarrow> string \<Rightarrow> string" where
  "merge_prefix rpp e = (if rpp \<noteq> [] \<and> rpp \<noteq> ''/'' then
     (let e' = trim_right_char (CHR ''/'') e in if \<not> has_suffix e' rpp then e' @ rpp else e) else e)"

definition normalize_stored :: "stored_target \<Rightarrow> stored_target" where
  "normalize_stored t = (let c = normalizeTargetForCompatibility (stTarget t) in
     trim_slices (t\<lparr>stTarget := c\<lparr>ctName := trim_space (ctName c), ctEndpointType := normalizeEndpointType (ctEndpointType c),
          ctEndpoint := merge_prefix (trim_space (stResourcePathPrefix t)) (trim_space (ctEndpoint c)),
          ctAPIKey := trim_space (ctAPIKey c), ctKeyResetTime := trim_space (ctKeyResetTime c),
          ctAuthMode := trim_space (ctAuthMode c), ctImageOperation := normalizeImageOperation (ctImageOperation c)\<rparr>,
       stProviderClass := trim_space (stProviderClass t), stResourcePathPrefix := [], stAllowedModels := []\<rparr>))"

text \<open>
  Reading a record: the legacy list of allowed models becomes mappings. The second component says
  whether the record is written back; the comparison sees the slices after they were trimmed.
\<close>

definition read_target :: "stored_target \<Rightarrow> stored_target \<times> bool" where
  "read_target v = (let t0 = v\<lparr>stAllowedModels := []\<rparr>;
       migrated = (stAllowedModels v \<noteq> [] \<and> ctModelMappings (stTarget v) = []);
       t = (if migrated then t0\<lparr>stTarget := (stTarget v)\<lparr>ctModelMappings :=
              map (\<lambda>m. \<lparr>mmUpstream = m, mmFallback = []\<rparr>) (filter (\<lambda>m. m \<noteq> []) (map trim_space (stAllowedModels v)))\<rparr>\<rparr> else t0);
       n = normalize_stored t
     in (n, migrated \<or> trim_slices t \<noteq> n))"

section \<open>The order\<close>

definition norm_key :: "string \<Rightarrow> string" where "norm_key k = to_lower (trim_space k)"

fun dedupe_keys :: "string set \<Rightarrow> string list \<Rightarrow> string list" where
  "dedupe_keys seen [] = []"
| "dedupe_keys seen (k # ks) = (let k = norm_key k in
     if k = [] \<or> k \<in> seen then dedupe_keys seen ks else k # dedupe_keys (insert k seen) ks)"

definition dedupeTargetOrder :: "string list \<Rightarrow> string list" where
  "dedupeTargetOrder ks = dedupe_keys {} ks"

definition read_order :: "('m, meta_value) kv \<Rightarrow> 'm \<Rightarrow> string list" where
  "read_order mkv m = (case kvGet mkv m targetOrderKey of Some (Some (Meta_order ks)) \<Rightarrow> ks | _ \<Rightarrow> [])"

definition writeTargetOrder :: "('m, meta_value) kv \<Rightarrow> 'm \<Rightarrow> string list \<Rightarrow> 'm" where
  "writeTargetOrder mkv m ks = kvPut mkv m targetOrderKey (Some (Meta_order (dedupeTargetOrder ks)))"

definition updateTargetOrder :: "('m, meta_value) kv \<Rightarrow> 'm \<Rightarrow> (string list \<Rightarrow> string list) \<Rightarrow> 'm" where
  "updateTargetOrder mkv m f = writeTargetOrder mkv m (f (read_order mkv m))"

definition appendMissingTargetOrder :: "string list \<Rightarrow> string \<Rightarrow> string list" where
  "appendMissingTargetOrder ks k = (if k \<in> set ks then ks else ks @ [k])"

definition replace_in_order :: "string \<Rightarrow> string \<Rightarrow> string list \<Rightarrow> string list" where
  "replace_in_order old new ks = dedupeTargetOrder
     (if old \<in> set ks then map (\<lambda>k. if k = old then new else k) ks else ks @ [new])"

section \<open>Operations\<close>

type_synonym ('b, 'm) target_db = "'b \<times> 'm"

definition put_if_unchanged :: "('b, stored_target) kv \<Rightarrow> 'b \<Rightarrow> string \<times> stored_target \<times> stored_target \<Rightarrow> 'b" where
  "put_if_unchanged kv b w = (let (k, observed, n) = w in if kvGet kv b k = Some (Some observed) then kvPut kv b k (Some n) else b)"

fun read_all :: "(string \<times> stored_target option) list \<Rightarrow> store_error + (string \<times> stored_target \<times> stored_target \<times> bool) list" where
  "read_all [] = Inr []"
| "read_all ((k, None) # ps) = Inl (Undecodable k)"
| "read_all ((k, Some v) # ps) = (case read_all ps of Inl e \<Rightarrow> Inl e | Inr rs \<Rightarrow> Inr ((k, v, read_target v) # rs))"

text \<open>The targets named by the order, each time it names them, and then the others by their keys.\<close>

definition in_order :: "string list \<Rightarrow> (string \<times> stored_target) list \<Rightarrow> stored_target list" where
  "in_order order ts = List.map_filter (\<lambda>k. map_of ts (norm_key k)) order @
     map snd (filter (\<lambda>(k, _). k \<notin> norm_key ` set order) ts)"

definition target_list :: "('b, stored_target) kv \<Rightarrow> ('m, meta_value) kv \<Rightarrow> ('b, 'm) target_db \<Rightarrow>
    (store_error + stored_target list) \<times> ('b, 'm) target_db" where
  "target_list kv mkv d = (let (b, m) = d in case read_all (kvEach kv b) of Inl e \<Rightarrow> (Inl e, d)
     | Inr rs \<Rightarrow>
        (Inr (in_order (read_order mkv m) (map (\<lambda>(k, v, n, w). (k, n)) rs)),
         foldl (put_if_unchanged kv) b (List.map_filter (\<lambda>(k, v, n, w). if w then Some (k, v, n) else None) rs), m))"

definition target_create :: "('b, stored_target) kv \<Rightarrow> ('m, meta_value) kv \<Rightarrow> ('b, 'm) target_db \<Rightarrow> stored_target \<Rightarrow>
    store_error + ('b, 'm) target_db" where
  "target_create kv mkv d t0 = (let (b, m) = d in case validateTarget t0 of Some e \<Rightarrow> Inl e
     | None \<Rightarrow> let t = normalize_stored t0; k = target_key t in
        if kvGet kv b k \<noteq> None then Inl (Already_exists (st_name t))
        else Inr (kvPut kv b k (Some t), updateTargetOrder mkv m (\<lambda>ks. appendMissingTargetOrder ks k)))"

definition target_update :: "('b, stored_target) kv \<Rightarrow> ('m, meta_value) kv \<Rightarrow> ('b, 'm) target_db \<Rightarrow> string \<Rightarrow> stored_target \<Rightarrow>
    store_error + ('b, 'm) target_db" where
  "target_update kv mkv d name t0 = (let (b, m) = d in case validateTarget t0 of Some e \<Rightarrow> Inl e
     | None \<Rightarrow> let name = trim_space name; old = to_lower name; t = normalize_stored t0; new = target_key t in
        if name = [] then Inl (Empty_field ''name'')
        else if kvGet kv b old = None then Inl (Not_found name)
        else if new \<noteq> old \<and> kvGet kv b new \<noteq> None then Inl (Already_exists (st_name t))
        else Inr (kvPut kv (if new \<noteq> old then kvDelete kv b old else b) new (Some t),
                  updateTargetOrder mkv m (replace_in_order old new)))"

definition target_delete :: "('b, stored_target) kv \<Rightarrow> ('m, meta_value) kv \<Rightarrow> ('b, 'm) target_db \<Rightarrow> string \<Rightarrow>
    store_error + ('b, 'm) target_db" where
  "target_delete kv mkv d name = (let (b, m) = d; name = trim_space name; k = to_lower name in
     if name = [] then Inl (Empty_field ''name'') else if kvGet kv b k = None then Inl (Not_found name)
     else Inr (kvDelete kv b k, updateTargetOrder mkv m (filter (\<lambda>x. x \<noteq> k))))"

fun normalize_all :: "string set \<Rightarrow> stored_target list \<Rightarrow> store_error + stored_target list" where
  "normalize_all seen [] = Inr []"
| "normalize_all seen (t # ts) = (case validateTarget t of Some e \<Rightarrow> Inl e
     | None \<Rightarrow> let t = normalize_stored t; k = target_key t in
        if k \<in> seen then Inl (Already_exists (st_name t))
        else case normalize_all (insert k seen) ts of Inl e \<Rightarrow> Inl e | Inr us \<Rightarrow> Inr (t # us))"

definition migrateTargetsFromConfig :: "('b, stored_target) kv \<Rightarrow> ('m, meta_value) kv \<Rightarrow> ('b, 'm) target_db \<Rightarrow> stored_target list \<Rightarrow>
    (store_error + bool) \<times> ('b, 'm) target_db" where
  "migrateTargetsFromConfig kv mkv d ts = (let (b, m) = d in
     if ts = [] then (Inr False, d) else case normalize_all {} ts of Inl e \<Rightarrow> (Inl e, d)
     | Inr us \<Rightarrow> if kvEach kv b \<noteq> [] then (Inr False, d)
        else (Inr True, foldl (\<lambda>b t. kvPut kv b (target_key t) (Some t)) b us, writeTargetOrder mkv m (map target_key us)))"

section \<open>Normal form\<close>

lemma merge_prefix_nil: "merge_prefix [] e = e"
  by (simp add: merge_prefix_def)

lemma trim_merge: "trim_space (merge_prefix (trim_space r) (trim_space e)) = merge_prefix (trim_space r) (trim_space e)"
proof -
  let ?r = "trim_space r" and ?e = "trim_space e"
  let ?e' = "trim_right_char (CHR ''/'') ?e"
  note r = trim_space_ends[of r] and e = trim_space_ends[of e]
  have pre: "prefix ?e' ?e"
    unfolding trim_right_char_def using suffix_dropWhile[of "\<lambda>x. x = CHR ''/''" "rev ?e"] by (simp add: suffix_to_prefix)
  then have h: "?e' \<noteq> [] \<Longrightarrow> hd ?e' = hd ?e \<and> ?e \<noteq> []" by (metis hd_append2 prefixE append_is_Nil_conv)
  have "?r \<noteq> [] \<Longrightarrow> trim_space (?e' @ ?r) = ?e' @ ?r"
    by (rule trim_space_fix) (use r e h in \<open>cases "?e' = []"; auto\<close>)
  then show ?thesis by (simp add: merge_prefix_def Let_def)
qed

definition compat_normal :: "config_target \<Rightarrow> bool" where
  "compat_normal c = (normalizeEndpointType (ctEndpointType c) = ctEndpointType c \<and>
     normalizeImageOperation (ctImageOperation c) = ctImageOperation c \<and>
     (ctEndpointType c = EndpointTypeOpenAIImage \<longrightarrow> ctImageOperation c \<noteq> []))"

lemma compat_normal_fix: "compat_normal c \<Longrightarrow> normalizeTargetForCompatibility c = c"
proof -
  assume c: "compat_normal c"
  then have raw: "to_lower (trim_space (ctEndpointType c)) = ctEndpointType c"
    using normalizeEndpointType_canonical[of "ctEndpointType c"] by (simp add: compat_normal_def)
  have leg: "normalize_legacy (ctEndpointType c) x = x" for x
    using normalizeEndpointType_legacy_free[of "ctEndpointType c"] c by (simp add: normalize_legacy_def compat_normal_def)
  have "c\<lparr>ctEndpointType := ctEndpointType c, ctImageOperation := ctImageOperation c\<rparr> = c" by simp
  then show "normalizeTargetForCompatibility c = c"
    using c by (auto simp: normalizeTargetForCompatibility_def Let_def raw leg compat_normal_def)
qed

lemma compat_makes_normal: "compat_normal (normalizeTargetForCompatibility c)"
proof -
  have "normalizeImageOperation (ctImageOperation (normalizeTargetForCompatibility c)) = ctImageOperation (normalizeTargetForCompatibility c)"
    by (simp add: normalizeTargetForCompatibility_def Let_def image_op_values normalize_legacy_op)
  moreover have "ctEndpointType (normalizeTargetForCompatibility c) = EndpointTypeOpenAIImage \<Longrightarrow>
      ctImageOperation (normalizeTargetForCompatibility c) \<noteq> []"
    unfolding normalizeTargetForCompatibility_def Let_def by (simp add: image_op_values split: if_splits)
  moreover have ty: "ctEndpointType (normalizeTargetForCompatibility c) = normalizeEndpointType (ctEndpointType c)"
    by (simp add: normalizeTargetForCompatibility_def Let_def)
  ultimately show ?thesis by (simp add: compat_normal_def normalizeEndpointType_idem)
qed

lemma trim_mapping_idem [simp]: "trim_mapping (trim_mapping m) = trim_mapping m"
  by (simp add: trim_mapping_def)

lemma normalize_stored_idem: "normalize_stored (normalize_stored t) = normalize_stored t"
proof -
  let ?n = "normalize_stored t" and ?c = "normalizeTargetForCompatibility (stTarget t)"
  have c: "compat_normal ?c" by (rule compat_makes_normal)
  have n: "compat_normal (stTarget ?n)"
    using c by (simp add: normalize_stored_def Let_def trim_slices_def compat_normal_def)
  have fix1: "normalizeTargetForCompatibility (stTarget ?n) = stTarget ?n" by (rule compat_normal_fix[OF n])
  show ?thesis
    unfolding normalize_stored_def[of ?n] Let_def fix1
    by (rule stored_target.equality; simp?)
      (use c in \<open>simp_all add: normalize_stored_def Let_def trim_slices_def compat_normal_def trim_merge merge_prefix_nil comp_def\<close>)
qed

lemma trim_slices_normal: "trim_slices (normalize_stored t) = normalize_stored t"
  by (simp add: normalize_stored_def Let_def trim_slices_def comp_def)

section \<open>The abstract list and the refinement\<close>

datatype target_op = Create_target stored_target | Update_target string stored_target | Delete_target string

definition target_step :: "('b, stored_target) kv \<Rightarrow> ('m, meta_value) kv \<Rightarrow> ('b, 'm) target_db \<Rightarrow> target_op \<Rightarrow>
    store_error + ('b, 'm) target_db" where
  "target_step kv mkv d c = (case c of Create_target t \<Rightarrow> target_create kv mkv d t
     | Update_target n t \<Rightarrow> target_update kv mkv d n t | Delete_target n \<Rightarrow> target_delete kv mkv d n)"

text \<open>
  What the store promises: a list of normalised targets with distinct names. Creation appends,
  an update replaces in place, deletion removes, and each is refused for the reasons given.
\<close>

definition spec_step :: "stored_target list \<Rightarrow> target_op \<Rightarrow> store_error + stored_target list" where
  "spec_step ts c = (case c of
     Create_target t0 \<Rightarrow> (case validateTarget t0 of Some e \<Rightarrow> Inl e | None \<Rightarrow> let t = normalize_stored t0 in
       if target_key t \<in> target_key ` set ts then Inl (Already_exists (st_name t)) else Inr (ts @ [t]))
   | Update_target name t0 \<Rightarrow> (case validateTarget t0 of Some e \<Rightarrow> Inl e | None \<Rightarrow>
       let name = trim_space name; old = to_lower name; t = normalize_stored t0 in
       if name = [] then Inl (Empty_field ''name'')
       else if old \<notin> target_key ` set ts then Inl (Not_found name)
       else if target_key t \<noteq> old \<and> target_key t \<in> target_key ` set ts then Inl (Already_exists (st_name t))
       else Inr (map (\<lambda>x. if target_key x = old then t else x) ts))
   | Delete_target name \<Rightarrow> (let name = trim_space name; k = to_lower name in
       if name = [] then Inl (Empty_field ''name'') else if k \<notin> target_key ` set ts then Inl (Not_found name)
       else Inr (filter (\<lambda>x. target_key x \<noteq> k) ts)))"

definition run_steps :: "('s \<Rightarrow> 'c \<Rightarrow> store_error + 's) \<Rightarrow> 's \<Rightarrow> 'c list \<Rightarrow> 's" where
  "run_steps f s cs = foldl (\<lambda>s c. case f s c of Inl _ \<Rightarrow> s | Inr s' \<Rightarrow> s') s cs"

definition settled :: "stored_target \<Rightarrow> bool" where
  "settled t = (read_target t = (t, False) \<and> target_key t \<noteq> [] \<and> norm_key (target_key t) = target_key t)"

text \<open>The database stands for a list of targets.\<close>

definition stands_for :: "('b, stored_target) kv \<Rightarrow> ('m, meta_value) kv \<Rightarrow> ('b, 'm) target_db \<Rightarrow> stored_target list \<Rightarrow> bool" where
  "stands_for kv mkv d ts = ((\<forall>t \<in> set ts. settled t) \<and> distinct (map target_key ts) \<and>
     read_order mkv (snd d) = map target_key ts \<and>
     (\<forall>k. kvGet kv (fst d) k = map_option Some (map_of (map (\<lambda>t. (target_key t, t)) ts) k)))"

lemma settled_norm:
  assumes "validateTarget t0 = None"
  shows "settled (normalize_stored t0)"
proof -
  let ?n = "normalize_stored t0"
  have a: "stAllowedModels ?n = []" by (simp add: normalize_stored_def Let_def trim_slices_def)
  have e: "?n\<lparr>stAllowedModels := []\<rparr> = ?n" by (rule stored_target.equality) (simp_all add: a)
  then have "read_target ?n = (?n, False)"
    by (simp add: read_target_def a e normalize_stored_idem trim_slices_normal Let_def)
  moreover have "st_name ?n = trim_space (st_name t0)" by (simp add: normalize_stored_def Let_def trim_slices_def)
  moreover have "trim_space (st_name t0) \<noteq> []" using assms(1) by (auto simp: validateTarget_def Let_def split: if_splits)
  ultimately show ?thesis by (simp add: settled_def target_key_def norm_key_def trim_space_lower)
qed

lemma dedupe_id: "\<forall>k \<in> set ks. k \<noteq> [] \<and> norm_key k = k \<Longrightarrow> distinct ks \<Longrightarrow> set ks \<inter> seen = {} \<Longrightarrow> dedupe_keys seen ks = ks"
  by (induction ks arbitrary: seen) (auto simp: Let_def)

lemma map_of_keys: "map_of (map (\<lambda>t. (f t, t)) ts) k = find (\<lambda>t. f t = k) ts"
  by (induction ts) auto

lemma read_all_settled:
  "\<forall>(k, v) \<in> set ps. \<exists>t. v = Some t \<and> settled t \<Longrightarrow> read_all ps = Inr (map (\<lambda>(k, v). (k, the v, the v, False)) ps)"
  by (induction ps rule: read_all.induct) (auto simp: settled_def)

lemma find_appended: "f t \<notin> f ` set ts \<Longrightarrow>
    find (\<lambda>x. f x = k) (ts @ [t]) = (if k = f t then Some t else find (\<lambda>x. f x = k) ts)"
  by (induction ts) auto

lemma find_replaced:
  assumes "old \<in> f ` set ts" "f t = old \<or> f t \<notin> f ` set ts"
  shows "find (\<lambda>x. f x = k) (map (\<lambda>x. if f x = old then t else x) ts) =
    (if k = f t then Some t else if k = old then None else find (\<lambda>x. f x = k) ts)"
proof -
  have none: "old \<notin> f ` set ts \<Longrightarrow> map (\<lambda>x. if f x = old then t else x) ts = ts" for ts by (induction ts) auto
  show ?thesis using assms
  proof (induction ts)
    case (Cons x ts)
    show ?case
    proof (cases "old \<in> f ` set ts")
      case True
      then show ?thesis using Cons by auto
    next
      case False
      then have "f x = old" using Cons.prems by auto
      moreover have "find (\<lambda>x. f x = k) ts = None" if "k = old \<or> k = f t" using that False Cons.prems by (fastforce simp: find_None_iff intro: rev_image_eqI)
      ultimately show ?thesis using none[OF False] by auto
    qed
  qed simp
qed

locale target_buckets = ts: ordered_bucket kv + ms: ordered_bucket mkv
  for kv :: "('b, stored_target) kv" and mkv :: "('m, meta_value) kv"
begin

lemma read_write_order: "read_order mkv (writeTargetOrder mkv m ks) = dedupeTargetOrder ks"
  by (simp add: read_order_def writeTargetOrder_def ms.get_put)

lemma stands_key: "stands_for kv mkv (b, m) ts \<Longrightarrow> kvGet kv b k \<noteq> None \<longleftrightarrow> k \<in> target_key ` set ts"
  by (auto simp: stands_for_def map_of_keys find_None_iff image_iff)

lemma stands_list:
  assumes "stands_for kv mkv (b, m) ts"
  shows "target_list kv mkv (b, m) = (Inr ts, (b, m))"
proof -
  have get: "kvGet kv b k = map_option Some (map_of (map (\<lambda>t. (target_key t, t)) ts) k)" for k
    using assms by (simp add: stands_for_def)
  have order: "read_order mkv m = map target_key ts" and st: "\<And>t. t \<in> set ts \<Longrightarrow> settled t"
    and d: "distinct (map target_key ts)"
    using assms by (simp_all add: stands_for_def)
  have ent: "\<exists>t \<in> set ts. v = Some t \<and> k = target_key t" if "(k, v) \<in> set (kvEach kv b)" for k v
    using that unfolding ts.in_each get by (auto dest!: map_of_SomeD)
  have "read_all (kvEach kv b) = Inr (map (\<lambda>(k, v). (k, the v, the v, False)) (kvEach kv b))"
    by (rule read_all_settled) (use ent st in fastforce)
  moreover have "List.map_filter (\<lambda>(k, v, n, w). if w then Some (k, v, n) else None)
      (map (\<lambda>(k, v). (k, the v, the v, False)) (kvEach kv b)) = []"
    by (auto simp: List.map_filter_def filter_empty_conv)
  moreover have "in_order (map target_key ts) (map (\<lambda>(k, v, n, w). (k, n)) (map (\<lambda>(k, v). (k, the v, the v, False)) (kvEach kv b))) = ts"
  proof -
    let ?ps = "map (\<lambda>(k, v, n, w). (k, n)) (map (\<lambda>(k, v). (k, the v, the v, False)) (kvEach kv b))"
    have ps: "?ps = map (\<lambda>(k, v). (k, the v)) (kvEach kv b)" by auto
    have look: "map_of ?ps (norm_key (target_key t)) = Some t" if t: "t \<in> set ts" for t
    proof -
      have "map_of (map (\<lambda>t. (target_key t, t)) ts) (target_key t) = Some t"
        using d t by (intro map_of_is_SomeI) (auto simp: comp_def)
      then have "(target_key t, Some t) \<in> set (kvEach kv b)" by (simp add: ts.in_each get)
      then have "(target_key t, t) \<in> set ?ps" unfolding ps by force
      moreover have "distinct (map fst ?ps)" using ts.each_distinct[of b] unfolding ps by (simp add: comp_def case_prod_beta)
      ultimately show ?thesis using st[OF t] by (simp add: settled_def)
    qed
    have "List.map_filter (\<lambda>k. map_of ?ps (norm_key k)) (map target_key ts) = ts"
      using look by (induction ts) (simp_all add: List.map_filter_simps)
    moreover have "norm_key ` set (map target_key ts) = target_key ` set ts"
      using st by (force simp: settled_def image_image)
    then have "filter (\<lambda>(k, _). k \<notin> norm_key ` set (map target_key ts)) ?ps = []"
      using ent unfolding ps by (force simp: filter_empty_conv)
    ultimately show ?thesis by (simp add: in_order_def)
  qed
  ultimately show ?thesis by (simp add: target_list_def order)
qed

lemma order_keys:
  assumes "stands_for kv mkv (b, m) ts" "\<forall>t \<in> set us. settled t" "distinct (map target_key us)"
  shows "dedupeTargetOrder (map target_key us) = map target_key us"
  unfolding dedupeTargetOrder_def using assms(2,3) by (intro dedupe_id) (auto simp: settled_def)

lemma create_refines:
  assumes "stands_for kv mkv (b, m) ts" "target_create kv mkv (b, m) t0 = r"
  shows "case r of Inl e \<Rightarrow> spec_step ts (Create_target t0) = Inl e
     | Inr d \<Rightarrow> \<exists>us. spec_step ts (Create_target t0) = Inr us \<and> stands_for kv mkv d us"
proof (cases "validateTarget t0 = None \<and> target_key (normalize_stored t0) \<notin> target_key ` set ts")
  case False
  then show ?thesis
    using assms(2) stands_key[OF assms(1), of "target_key (normalize_stored t0)"]
    by (cases "validateTarget t0") (auto simp: target_create_def spec_step_def Let_def)
next
  case True
  let ?t = "normalize_stored t0"
  have s: "settled ?t" using True settled_norm by blast
  have us: "\<forall>t \<in> set (ts @ [?t]). settled t" "distinct (map target_key (ts @ [?t]))"
    using assms(1) True s by (auto simp: stands_for_def)
  have r: "r = Inr (kvPut kv b (target_key ?t) (Some ?t), updateTargetOrder mkv m (\<lambda>ks. appendMissingTargetOrder ks (target_key ?t)))"
    using assms(2) True stands_key[OF assms(1), of "target_key ?t"] by (simp add: target_create_def Let_def)
  have "read_order mkv m = map target_key ts" using assms(1) by (simp add: stands_for_def)
  then have "read_order mkv (updateTargetOrder mkv m (\<lambda>ks. appendMissingTargetOrder ks (target_key ?t))) = map target_key (ts @ [?t])"
    using True order_keys[OF assms(1) us] by (auto simp: updateTargetOrder_def read_write_order appendMissingTargetOrder_def)
  moreover have "map_of (map (\<lambda>t. (target_key t, t)) (ts @ [?t])) k =
      (if k = target_key ?t then Some ?t else map_of (map (\<lambda>t. (target_key t, t)) ts) k)" for k
    unfolding map_of_keys by (rule find_appended) (use True in blast)
  moreover have "kvGet kv b k = map_option Some (map_of (map (\<lambda>t. (target_key t, t)) ts) k)" for k
    using assms(1) by (simp add: stands_for_def)
  ultimately have "stands_for kv mkv (kvPut kv b (target_key ?t) (Some ?t), updateTargetOrder mkv m (\<lambda>ks. appendMissingTargetOrder ks (target_key ?t))) (ts @ [?t])"
    using us unfolding stands_for_def by (simp add: ts.get_put)
  then show ?thesis using True by (simp add: r spec_step_def Let_def)
qed

lemma delete_refines:
  assumes "stands_for kv mkv (b, m) ts" "target_delete kv mkv (b, m) name = r"
  shows "case r of Inl e \<Rightarrow> spec_step ts (Delete_target name) = Inl e
     | Inr d \<Rightarrow> \<exists>us. spec_step ts (Delete_target name) = Inr us \<and> stands_for kv mkv d us"
proof (cases "trim_space name \<noteq> [] \<and> to_lower (trim_space name) \<in> target_key ` set ts")
  case False
  then show ?thesis using assms stands_key[OF assms(1)] by (auto simp: target_delete_def spec_step_def Let_def)
next
  case True
  let ?k = "to_lower (trim_space name)" and ?us = "filter (\<lambda>x. target_key x \<noteq> to_lower (trim_space name)) ts"
  have us: "\<forall>t \<in> set ?us. settled t" "distinct (map target_key ?us)"
    using assms(1) by (auto simp: stands_for_def intro: distinct_map_filter)
  have r: "r = Inr (kvDelete kv b ?k, updateTargetOrder mkv m (filter (\<lambda>x. x \<noteq> ?k)))"
    using assms(2) True stands_key[OF assms(1), of ?k] by (auto simp: target_delete_def Let_def)
  have "read_order mkv m = map target_key ts" using assms(1) by (simp add: stands_for_def)
  then have "read_order mkv (updateTargetOrder mkv m (filter (\<lambda>x. x \<noteq> ?k))) = map target_key ?us"
    using order_keys[OF assms(1) us] by (simp add: updateTargetOrder_def read_write_order filter_map comp_def)
  moreover have "map_of (map (\<lambda>t. (target_key t, t)) ?us) k =
      (if k = ?k then None else map_of (map (\<lambda>t. (target_key t, t)) ts) k)" for k
    unfolding map_of_keys by (induction ts) auto
  moreover have "kvGet kv b k = map_option Some (map_of (map (\<lambda>t. (target_key t, t)) ts) k)" for k
    using assms(1) by (simp add: stands_for_def)
  ultimately have "stands_for kv mkv (kvDelete kv b ?k, updateTargetOrder mkv m (filter (\<lambda>x. x \<noteq> ?k))) ?us"
    using us unfolding stands_for_def by (simp add: ts.get_delete)
  then show ?thesis using True by (simp add: r spec_step_def Let_def)
qed

lemma update_refines:
  assumes "stands_for kv mkv (b, m) ts" "target_update kv mkv (b, m) name t0 = r"
  shows "case r of Inl e \<Rightarrow> spec_step ts (Update_target name t0) = Inl e
     | Inr d \<Rightarrow> \<exists>us. spec_step ts (Update_target name t0) = Inr us \<and> stands_for kv mkv d us"
proof -
  let ?t = "normalize_stored t0" and ?old = "to_lower (trim_space name)"
  let ?new = "target_key ?t"
  have keys: "\<And>k. kvGet kv b k = None \<longleftrightarrow> k \<notin> target_key ` set ts" using stands_key[OF assms(1)] by blast
  show ?thesis
  proof (cases "validateTarget t0 = None \<and> trim_space name \<noteq> [] \<and> ?old \<in> target_key ` set ts \<and>
      \<not> (?new \<noteq> ?old \<and> ?new \<in> target_key ` set ts)")
    case False
    then show ?thesis
      using assms(2) by (cases "validateTarget t0") (auto simp: target_update_def spec_step_def Let_def keys)
  next
    case True
    let ?us = "map (\<lambda>x. if target_key x = ?old then ?t else x) ts"
    have old: "?old \<in> target_key ` set ts" and new: "?new = ?old \<or> ?new \<notin> target_key ` set ts" using True by auto
    have d: "distinct (map target_key ts)" and st: "\<forall>t \<in> set ts. settled t" using assms(1) by (simp_all add: stands_for_def)
    have ks: "map target_key ?us = map (\<lambda>k. if k = ?old then ?new else k) (map target_key ts)" by auto
    have us: "\<forall>t \<in> set ?us. settled t" using st True settled_norm by auto
    have "inj_on (\<lambda>k. if k = ?old then ?new else k) (target_key ` set ts)" using new by (fastforce simp: inj_on_def intro: rev_image_eqI)
    then have du: "distinct (map target_key ?us)" unfolding ks using d by (simp add: distinct_map comp_inj_on)
    let ?b = "kvPut kv (if ?new \<noteq> ?old then kvDelete kv b ?old else b) ?new (Some ?t)"
    have r: "r = Inr (?b, updateTargetOrder mkv m (replace_in_order ?old ?new))"
      using assms(2) True by (auto simp: target_update_def Let_def keys)
    have "read_order mkv m = map target_key ts" using assms(1) by (simp add: stands_for_def)
    then have order: "read_order mkv (updateTargetOrder mkv m (replace_in_order ?old ?new)) = map target_key ?us"
      using old order_keys[OF assms(1) us du] unfolding updateTargetOrder_def read_write_order replace_in_order_def ks
      by (simp del: map_map)
    have look: "map_of (map (\<lambda>t. (target_key t, t)) ?us) k =
        (if k = ?new then Some ?t else if k = ?old then None else map_of (map (\<lambda>t. (target_key t, t)) ts) k)" for k
      using old new unfolding map_of_keys by (rule find_replaced)
    have "kvGet kv b k = map_option Some (map_of (map (\<lambda>t. (target_key t, t)) ts) k)" for k
      using assms(1) by (simp add: stands_for_def)
    then have "kvGet kv ?b k = map_option Some (map_of (map (\<lambda>t. (target_key t, t)) ?us) k)" for k
      unfolding look by (simp add: ts.get_put ts.get_delete)
    then have "stands_for kv mkv (?b, updateTargetOrder mkv m (replace_in_order ?old ?new)) ?us"
      using us du order unfolding stands_for_def by simp
    then show ?thesis using True by (auto simp: r spec_step_def Let_def)
  qed
qed

lemma step_refines:
  assumes "stands_for kv mkv d ts"
  shows "case target_step kv mkv d c of Inl e \<Rightarrow> spec_step ts c = Inl e
     | Inr d' \<Rightarrow> \<exists>us. spec_step ts c = Inr us \<and> stands_for kv mkv d' us"
proof -
  obtain b m where d: "d = (b, m)" by force
  note [simp] = target_step_def
  show ?thesis
    using create_refines[OF assms[unfolded d] refl] update_refines[OF assms[unfolded d] refl] delete_refines[OF assms[unfolded d] refl]
    by (cases c; hypsubst; simp add: d)
qed

lemma run_refines: "stands_for kv mkv d ts \<Longrightarrow>
    stands_for kv mkv (run_steps (target_step kv mkv) d cs) (run_steps spec_step ts cs)"
proof (induction cs arbitrary: d ts)
  case (Cons c cs)
  show ?case
    using step_refines[OF Cons.prems, of c] Cons.IH Cons.prems
    by (cases "target_step kv mkv d c") (auto simp: run_steps_def)
qed (simp add: run_steps_def)

end

lemma normalize_all_spec:
  "normalize_all seen ts = Inr us \<Longrightarrow> us = map normalize_stored ts \<and> distinct (map target_key us) \<and>
     (\<forall>u \<in> set us. settled u \<and> target_key u \<notin> seen)"
proof (induction seen ts arbitrary: us rule: normalize_all.induct)
  case (2 seen t ts)
  then have v: "validateTarget t = None" and k: "target_key (normalize_stored t) \<notin> seen"
    by (auto simp: Let_def split: option.splits if_splits)
  then obtain vs where vs: "normalize_all (insert (target_key (normalize_stored t)) seen) ts = Inr vs" "us = normalize_stored t # vs"
    using "2.prems" by (auto simp: Let_def split: sum.splits)
  show ?case using "2.IH"[OF v refl refl k vs(1)] settled_norm[OF v] k by (auto simp: vs(2))
qed simp

definition demo_stored :: "string \<Rightarrow> stored_target" where
  "demo_stored name = \<lparr>stTarget = \<lparr>ctName = name, ctEndpointType = ''openai'', ctEndpoint = ''https://h'', ctAPIKey = ''k'',
     ctAPIKeys = [], ctKeyResetTime = [], ctPaused = False, ctAllowBearer = False, ctAuthMode = [], ctImageOperation = [],
     ctModelMappings = [], ctSSEAutoAggregate = None, ctOpenAIPrefix = [], ctAnthropicPrefix = [],
     ctSupportsResponses = False, ctCustomHeaders = [], ctCustomBody = []\<rparr>,
     stResourcePathPrefix = [], stProviderClass = [], stAllowedModels = []\<rparr>"

interpretation alist_targets: target_buckets alist_kv alist_kv ..

lemma foldl_put_get:
  assumes "ordered_bucket kv" "distinct (map target_key us)"
  shows "kvGet kv (foldl (\<lambda>b t. kvPut kv b (target_key t) (Some t)) b us) k =
    (case find (\<lambda>t. target_key t = k) us of Some t \<Rightarrow> Some (Some t) | None \<Rightarrow> kvGet kv b k)"
  using assms(2)
proof (induction us arbitrary: b)
  case (Cons u us)
  have "find (\<lambda>t. target_key t = k) us = None" if "k = target_key u" using Cons.prems that by (fastforce simp: find_None_iff intro: rev_image_eqI)
  then show ?case using Cons by (auto simp: ordered_bucket.get_put[OF assms(1)] split: option.split)
qed simp

lemma migrated_stands:
  assumes "ordered_bucket kv" "ordered_bucket mkv" "kvEach kv b = []"
    "migrateTargetsFromConfig kv mkv (b, m) ts = (Inr True, d)"
  shows "stands_for kv mkv d (map normalize_stored ts)"
proof -
  obtain us where us: "normalize_all {} ts = Inr us"
    "d = (foldl (\<lambda>b t. kvPut kv b (target_key t) (Some t)) b us, writeTargetOrder mkv m (map target_key us))"
    using assms(3,4) by (auto simp: migrateTargetsFromConfig_def split: if_splits sum.splits)
  note spec = normalize_all_spec[OF us(1)]
  have "dedupeTargetOrder (map target_key us) = map target_key us"
    unfolding dedupeTargetOrder_def using spec by (intro dedupe_id) (auto simp: settled_def)
  then have "read_order mkv (snd d) = map target_key us"
    unfolding us(2) snd_conv target_buckets.read_write_order[OF target_buckets.intro[OF assms(1,2)]] .
  moreover have "kvGet kv b k = None" for k
    using assms(3) ordered_bucket.each_get[OF assms(1), of b] by (metis map_of.simps(1))
  then have "kvGet kv (fst d) k = map_option Some (map_of (map (\<lambda>t. (target_key t, t)) us) k)" for k
    unfolding us(2) fst_conv map_of_keys foldl_put_get[OF assms(1) spec[THEN conjunct2, THEN conjunct1]]
    by (simp split: option.split)
  ultimately have "stands_for kv mkv d us"
    unfolding stands_for_def using spec[THEN conjunct2] by blast
  then show ?thesis using spec by simp
qed

text \<open>
  C30: the migration of the targets of a configuration file into an empty store, after which they are
  removed from the file, keeps them: the store then lists all of them, normalised, in the order of the file.
\<close>

theorem migrated_targets_listed:
  assumes "ordered_bucket kv" "ordered_bucket mkv" "kvEach kv b = []"
    "migrateTargetsFromConfig kv mkv (b, m) ts = (Inr True, d)"
  shows "fst (target_list kv mkv d) = Inr (map normalize_stored ts)"
  using target_buckets.stands_list[OF target_buckets.intro[OF assms(1,2)], of "fst d" "snd d"] migrated_stands[OF assms] by simp

text \<open>
  C19: the store of targets, started on empty buckets, is the ordered list it stands for: after any
  sequence of creations, updates and deletions it lists what that sequence makes of the empty list,
  where a creation appends, an update (a renaming one too) replaces in place and a deletion removes,
  and a refused operation changes nothing.
\<close>

theorem target_store_refines:
  assumes "ordered_bucket kv" "ordered_bucket mkv" "kvEach kv b = []" "kvGet mkv m targetOrderKey = None"
  shows "fst (target_list kv mkv (run_steps (target_step kv mkv) (b, m) cs)) = Inr (run_steps spec_step [] cs)"
proof -
  have "kvGet kv b k = None" for k using assms(3) ordered_bucket.each_get[OF assms(1), of b] by (metis map_of.simps(1))
  then have "stands_for kv mkv (b, m) []" using assms(4) by (simp add: stands_for_def read_order_def)
  then have "stands_for kv mkv (run_steps (target_step kv mkv) (b, m) cs) (run_steps spec_step [] cs)"
    by (rule target_buckets.run_refines[OF target_buckets.intro[OF assms(1,2)]])
  then show ?thesis
    by (metis target_buckets.stands_list[OF target_buckets.intro[OF assms(1,2)]] fst_conv surj_pair)
qed

theorem target_store_refines_witness:
  "fst (target_list alist_kv alist_kv (run_steps (target_step alist_kv alist_kv)
     ([] :: (string \<times> stored_target option) list, [] :: (string \<times> meta_value option) list) [Delete_target ''a''])) =
   Inr (run_steps spec_step [] [Delete_target ''a''])"
  by (rule target_store_refines[OF alist.ordered_bucket_axioms alist.ordered_bucket_axioms]) (simp_all add: alist_kv_def sort_keys_def)

theorem migrated_targets_listed_witness:
  "fst (target_list alist_kv alist_kv (snd (migrateTargetsFromConfig alist_kv alist_kv ([], []) [demo_stored ''b'', demo_stored ''a'']))) =
   Inr (map normalize_stored [demo_stored ''b'', demo_stored ''a''])"
proof -
  have "fst (migrateTargetsFromConfig alist_kv alist_kv ([], []) [demo_stored ''b'', demo_stored ''a'']) = Inr True"
    by code_simp
  then have "migrateTargetsFromConfig alist_kv alist_kv ([], []) [demo_stored ''b'', demo_stored ''a''] =
      (Inr True, snd (migrateTargetsFromConfig alist_kv alist_kv ([], []) [demo_stored ''b'', demo_stored ''a'']))"
    by (metis prod.collapse)
  from migrated_targets_listed[OF alist.ordered_bucket_axioms alist.ordered_bucket_axioms _ this] show ?thesis
    by (simp add: alist_kv_def sort_keys_def)
qed

end
