(* ===== verification/Usage_Backfill.thy ===== *)
theory Usage_Backfill
  imports Quota_Props Target_Store "HOL-Library.Multiset"
begin

text \<open>
  The one-off filling of the hourly cells from the events (\<open>BackfillUsageAgg\<close> in
  \<open>internal/nosql/usage_agg.go\<close>), which runs before the proxy takes requests. The events are read in
  batches, each added to the cells in a transaction of its own; a marker is written at the end.
\<close>

section \<open>The backfill\<close>

record ('e, 'm) usage_buckets =
  ubEvents :: 'e
  ubMeta :: 'm
  ubCells :: "(agg_key \<times> agg_cell) list"

type_synonym event_rows = "(string \<times> usage_event option) list"

definition batchSize :: nat where "batchSize = 5000"

text \<open>The rows strictly after the last key: a seek to it, and one more step when it is there.\<close>

definition resume :: "string option \<Rightarrow> event_rows \<Rightarrow> event_rows" where
  "resume seen rows = (case seen of None \<Rightarrow> rows | Some l \<Rightarrow>
     (case dropWhile (\<lambda>(k, _). str_less k l) rows of [] \<Rightarrow> [] | (k, v) # rs \<Rightarrow> if k = l then rs else (k, v) # rs))"

fun scan_chunk :: "nat \<Rightarrow> usage_event list \<Rightarrow> string option \<Rightarrow> event_rows \<Rightarrow> usage_event list \<times> string option" where
  "scan_chunk n batch seen [] = (batch, seen)"
| "scan_chunk n batch seen ((k, v) # rs) = (if n \<le> length batch then (batch, seen)
     else scan_chunk n (case v of None \<Rightarrow> batch | Some e \<Rightarrow> batch @ [e]) (Some k) rs)"

fun backfill_loop :: "nat \<Rightarrow> event_rows \<Rightarrow> (agg_key \<times> agg_cell) list \<Rightarrow> string option \<Rightarrow> (agg_key \<times> agg_cell) list option" where
  "backfill_loop 0 rows agg seen = None"
| "backfill_loop (Suc fuel) rows agg seen = (case scan_chunk batchSize [] seen (resume seen rows) of (batch, seen) \<Rightarrow>
     if batch = [] then Some agg else backfill_loop fuel rows (foldl bumpAgg agg batch) seen)"

definition usageAggBuiltMetaKey :: string where "usageAggBuiltMetaKey = ''usage_agg_built_at_v1''"

definition backfillUsageAgg :: "nat \<Rightarrow> ('e, usage_event) kv \<Rightarrow> ('m, meta_value) kv \<Rightarrow> string \<Rightarrow> ('e, 'm) usage_buckets \<Rightarrow>
    ('e, 'm) usage_buckets option" where
  "backfillUsageAgg fuel kv mkv marker b = (if kvGet mkv (ubMeta b) usageAggBuiltMetaKey \<noteq> None then Some b
     else map_option (\<lambda>agg. b\<lparr>ubCells := agg, ubMeta := kvPut mkv (ubMeta b) usageAggBuiltMetaKey (Some (Meta_marker marker))\<rparr>)
       (backfill_loop fuel (kvEach kv (ubEvents b)) (ubCells b) None))"

text \<open>The cells a backfill leaves that is stopped after some batches, before it writes its marker.\<close>

fun stopped_after :: "nat \<Rightarrow> event_rows \<Rightarrow> (agg_key \<times> agg_cell) list \<Rightarrow> string option \<Rightarrow> (agg_key \<times> agg_cell) list" where
  "stopped_after 0 rows agg seen = agg"
| "stopped_after (Suc n) rows agg seen = (case scan_chunk batchSize [] seen (resume seen rows) of (batch, seen) \<Rightarrow>
     if batch = [] then agg else stopped_after n rows (foldl bumpAgg agg batch) seen)"

section \<open>Every event once\<close>

abbreviation events_in :: "event_rows \<Rightarrow> usage_event list" where
  "events_in rows \<equiv> List.map_filter snd rows"

lemma events_in_append: "events_in (a @ b) = events_in a @ events_in b"
  by (simp add: List.map_filter_def)

lemma scan_chunk_spec:
  "\<exists>p q. rest = p @ q \<and> scan_chunk n acc l rest = (acc @ events_in p, if p = [] then l else Some (fst (last p))) \<and>
     (length acc + length (events_in p) < n \<longrightarrow> q = [])"
proof (induction n acc l rest rule: scan_chunk.induct)
  case (2 n batch l k v rs)
  show ?case
  proof (cases "n \<le> length batch")
    case True
    then show ?thesis by (intro exI[of _ "[]"] exI[of _ "(k, v) # rs"]) (simp add: List.map_filter_simps)
  next
    case False
    from "2.IH"[OF False] obtain p q where pq: "rs = p @ q"
      "scan_chunk n (case v of None \<Rightarrow> batch | Some e \<Rightarrow> batch @ [e]) (Some k) rs =
         ((case v of None \<Rightarrow> batch | Some e \<Rightarrow> batch @ [e]) @ events_in p, if p = [] then Some k else Some (fst (last p)))"
      "length (case v of None \<Rightarrow> batch | Some e \<Rightarrow> batch @ [e]) + length (events_in p) < n \<longrightarrow> q = []" by blast
    show ?thesis
      using False pq by (intro exI[of _ "(k, v) # p"] exI[of _ q]) (auto simp: List.map_filter_simps split: option.splits)
  qed
qed (auto simp: List.map_filter_simps)

lemma resume_after:
  assumes "sorted_wrt str_less (map fst (d @ rest))" "d \<noteq> []"
  shows "resume (Some (fst (last d))) (d @ rest) = rest"
proof -
  obtain d' k v where d: "d = d' @ [(k, v)]" using assms(2) by (metis rev_exhaust surj_pair)
  have "\<forall>x \<in> set d'. str_less (fst x) k" using assms(1) by (auto simp: d sorted_wrt_append)
  then have "dropWhile (\<lambda>(x, _). str_less x k) (d' @ (k, v) # rest) = (k, v) # rest"
    by (induction d') (auto simp: str_less_def)
  then show ?thesis by (simp add: d resume_def)
qed

lemma backfill_loop_spec:
  assumes "sorted_wrt str_less (map fst (d @ rest))" "l = (if d = [] then None else Some (fst (last d)))" "length rest < fuel"
  shows "backfill_loop fuel (d @ rest) agg l = Some (foldl bumpAgg agg (events_in rest))"
  using assms
proof (induction fuel arbitrary: d rest agg l)
  case (Suc fuel)
  have r: "resume l (d @ rest) = rest" using resume_after[OF Suc.prems(1)] Suc.prems(2) by (simp add: resume_def)
  obtain p q where pq: "rest = p @ q" "scan_chunk batchSize [] l rest = (events_in p, if p = [] then l else Some (fst (last p)))"
    "length (events_in p) < batchSize \<longrightarrow> q = []"
    using scan_chunk_spec[of rest batchSize "[]" l] by auto
  show ?case
  proof (cases "events_in p = []")
    case True
    then have "q = []" using pq(3) by (simp add: batchSize_def)
    then have "events_in rest = []" using True pq(1) by simp
    then show ?thesis using True pq(2) by (simp add: r)
  next
    case False
    then have p: "p \<noteq> []" by (auto simp: List.map_filter_simps)
    have "backfill_loop fuel ((d @ p) @ q) (foldl bumpAgg agg (events_in p)) (Some (fst (last p))) =
        Some (foldl bumpAgg (foldl bumpAgg agg (events_in p)) (events_in q))"
      using Suc.prems(1,3) pq(1) p by (intro Suc.IH) (auto simp: neq_Nil_conv)
    then show ?thesis using False p pq(2) r by (simp add: pq(1) events_in_append)
  qed
qed simp

lemma backfill_counts:
  assumes "ordered_bucket kv" "kvGet mkv (ubMeta b) usageAggBuiltMetaKey = None" "length (kvEach kv (ubEvents b)) < fuel"
  shows "backfillUsageAgg fuel kv mkv marker b =
    Some (b\<lparr>ubCells := foldl bumpAgg (ubCells b) (events_in (kvEach kv (ubEvents b))),
      ubMeta := kvPut mkv (ubMeta b) usageAggBuiltMetaKey (Some (Meta_marker marker))\<rparr>)"
  using backfill_loop_spec[of "[]" "kvEach kv (ubEvents b)" None fuel "ubCells b"] ordered_bucket.each_sorted[OF assms(1)] assms(2,3)
  by (simp add: backfillUsageAgg_def)

section \<open>The order of the events does not matter to the cells\<close>

definition put_event :: "usage_event \<Rightarrow> (agg_key \<Rightarrow> agg_cell option) \<Rightarrow> agg_key \<Rightarrow> agg_cell option" where
  "put_event e m = (let k = aggKey (ueTimestamp e) (ueEndpointType e) (ueClientName e) (ueModel e) in
     m(k \<mapsto> (case m k of None \<Rightarrow> cell_of e | Some c \<Rightarrow> cell_plus c (cell_of e))))"

lemma map_of_bump: "map_of (bumpAgg agg e) = put_event e (map_of agg)"
  by (simp add: bump_cell put_event_def Let_def update_conv')

lemma put_event_comm: "put_event a \<circ> put_event b = put_event b \<circ> put_event a"
proof -
  have c: "cell_plus x y = cell_plus y x" "cell_plus x (cell_plus y z) = cell_plus y (cell_plus x z)"
    "cell_plus (cell_plus x y) z = cell_plus x (cell_plus y z)" for x y z
    by (simp_all add: cell_plus_def)
  show ?thesis
    by (rule ext) (auto simp: put_event_def Let_def c fun_upd_twist split: option.splits)
qed

lemma map_of_cells: "map_of (foldl bumpAgg agg es) = fold put_event es (map_of agg)"
  by (induction es arbitrary: agg) (simp_all add: map_of_bump)

lemma cells_of_mset: "mset es = mset fs \<Longrightarrow> map_of (foldl bumpAgg agg es) = map_of (foldl bumpAgg agg fs)"
  unfolding map_of_cells using fold_multiset_equiv[of es put_event fs] put_event_comm by metis

lemma recorded_cells: "udAgg (record_all es) = foldl bumpAgg [] (udEvents (record_all es))"
proof (induction es rule: rev_induct)
  case (snoc x es)
  obtain e now where x: "x = (e, now)" by force
  show ?case using snoc.IH by (simp add: x record_all_snoc record_event_def Let_def)
qed (simp add: record_all_def no_usage_def)

text \<open>
  C32: the backfill over the events that were recorded, run on empty cells, ends and leaves the very
  cells that recording the events one by one would have left, whatever the order of the keys of the
  events; after that it does nothing.
\<close>

theorem backfill_equals_recording:
  assumes "ordered_bucket kv" "ordered_bucket mkv" "mset (events_in (kvEach kv (ubEvents b))) = mset (udEvents (record_all es))"
    "kvGet mkv (ubMeta b) usageAggBuiltMetaKey = None" "ubCells b = []" "length (kvEach kv (ubEvents b)) < fuel"
  shows "\<exists>b'. backfillUsageAgg fuel kv mkv marker b = Some b' \<and> map_of (ubCells b') = map_of (udAgg (record_all es)) \<and>
    backfillUsageAgg fuel' kv mkv marker' b' = Some b'"
proof -
  have "map_of (foldl bumpAgg (ubCells b) (events_in (kvEach kv (ubEvents b)))) = map_of (udAgg (record_all es))"
    unfolding recorded_cells assms(5) by (rule cells_of_mset[OF assms(3)])
  then show ?thesis
    unfolding backfill_counts[OF assms(1,4,6)]
    by (intro exI conjI) (rule refl, simp, simp add: backfillUsageAgg_def ordered_bucket.get_put[OF assms(2)])
qed

text \<open>
  A backfill that is stopped before its marker has been written counts the events of the batches it
  has committed again the next time, although it is described as idempotent.
\<close>

lemma stopped_backfill_counts_twice:
  fixes e :: usage_event
  defines "rows \<equiv> [(''k'', Some e)]"
  shows "(\<exists>agg. backfill_loop 2 rows (stopped_after 1 rows [] None) None = Some agg \<and>
    map_option acRequests (map_of agg (aggKey (ueTimestamp e) (ueEndpointType e) (ueClientName e) (ueModel e))) = Some 2)"
proof -
  have "stopped_after 1 rows [] None = foldl bumpAgg [] [e]"
    by (simp add: rows_def numeral_1_eq_Suc_0 resume_def batchSize_def)
  moreover have "backfill_loop 2 rows (foldl bumpAgg [] [e]) None = Some (foldl bumpAgg (foldl bumpAgg [] [e]) [e])"
    using backfill_loop_spec[of "[]" rows None 2 "foldl bumpAgg [] [e]"] by (simp add: rows_def List.map_filter_simps)
  ultimately show ?thesis by (simp add: map_of_bump put_event_def Let_def cell_plus_def cell_of_def)
qed

theorem backfill_equals_recording_witness:
  "\<exists>b'. backfillUsageAgg 2 alist_kv alist_kv ''now'' \<lparr>ubEvents = [(''k'', Some (clean_event demo_event 5))], ubMeta = [], ubCells = []\<rparr> = Some b' \<and>
    map_of (ubCells b') = map_of (udAgg (record_all [(demo_event, 5)])) \<and> backfillUsageAgg 1 alist_kv alist_kv ''later'' b' = Some b'"
  by (rule backfill_equals_recording[OF alist.ordered_bucket_axioms alist.ordered_bucket_axioms])
    (simp_all add: alist_kv_def sort_keys_def record_all_def record_event_def no_usage_def Let_def List.map_filter_simps)

end
