(* ===== verification/Migrate.thy ===== *)
theory Migrate
  imports Client_Store Admin_Stores Usage_Backfill
begin

text \<open>
  The migration of the files of older releases into the database (\<open>internal/nosql/migrate.go\<close>). A
  file is its decoded content; \<open>None\<close> stands for a file without a path, missing, unreadable, blank, or
  that does not decode, all of which leave the bucket alone. Each bucket is written in transactions
  of its own. The database refuses a blank key, and the transaction that tries to put one is undone.
\<close>

section \<open>The database and the files\<close>

record ('c, 't, 'm, 'k, 'a, 'u, 'e) database =
  dbClients :: 'c
  dbTargets :: 't
  dbMeta :: 'm
  dbCosts :: 'k
  dbAudit :: 'a
  dbUsers :: 'u
  dbEvents :: 'e
  dbCells :: "(agg_key \<times> agg_cell) list"

record ('c, 't, 'm, 'k, 'a, 'u, 'e) buckets =
  bcClients :: "('c, client) kv"
  bcTargets :: "('t, stored_target) kv"
  bcMeta :: "('m, meta_value) kv"
  bcCosts :: "('k, stored_cost) kv"
  bcAudit :: "('a, audit_event) kv"
  bcUsers :: "('u, admin_user) kv"
  bcEvents :: "('e, usage_event) kv"

record data_files =
  dfClients :: "client list option"
  dfCosts :: "stored_cost list option"
  dfEvents :: "usage_event list option"
  dfUsers :: "admin_user list option"
  dfAudit :: "audit_event list option"

section \<open>One bucket\<close>

text \<open>A transaction that puts records, one after the other.\<close>

fun put_records :: "('b, 'a) kv \<Rightarrow> ('a \<Rightarrow> string) \<Rightarrow> 'b \<Rightarrow> 'a list \<Rightarrow> 'b option" where
  "put_records kv key b [] = Some b"
| "put_records kv key b (x # xs) = (if key x = [] then None else put_records kv key (kvPut kv b (key x) (Some x)) xs)"

text \<open>A bucket that has data, or whose transaction fails, stays as it is.\<close>

definition migrate_records :: "('b, 'a) kv \<Rightarrow> ('a \<Rightarrow> string) \<Rightarrow> 'b \<Rightarrow> 'a list option \<Rightarrow> 'b" where
  "migrate_records kv key b f = (case f of None \<Rightarrow> b | Some xs \<Rightarrow> if kvEach kv b \<noteq> [] then b
     else case put_records kv key b xs of None \<Rightarrow> b | Some b' \<Rightarrow> b')"

definition migrateClients :: "('b, client) kv \<Rightarrow> 'b \<Rightarrow> client list option \<Rightarrow> 'b" where
  "migrateClients kv b f = migrate_records kv client_key b (map_option (map normalizeClient) f)"

definition migrateModelCosts :: "('b, stored_cost) kv \<Rightarrow> 'b \<Rightarrow> stored_cost list option \<Rightarrow> 'b" where
  "migrateModelCosts kv b f = migrate_records kv costKey b (map_option (map normalizeCost) f)"

definition migrated_user :: "admin_user \<Rightarrow> admin_user" where
  "migrated_user u = default_role (u\<lparr>auUsername := trim_space (auUsername u)\<rparr>)"

definition migrateAdminUsers :: "('b, admin_user) kv \<Rightarrow> 'b \<Rightarrow> admin_user list option \<Rightarrow> 'b" where
  "migrateAdminUsers kv b f = migrate_records kv (\<lambda>u. to_lower (auUsername u)) b (map_option (map migrated_user) f)"

text \<open>Events get a key with their number in the file; no such key is blank.\<close>

definition usageKey :: "time \<Rightarrow> string \<Rightarrow> string" where
  "usageKey t ident = rfc3339nano t @ ''_'' @ ident"

definition migrated_event :: "usage_event \<Rightarrow> usage_event" where
  "migrated_event e = e\<lparr>ueClientName := trim_space (ueClientName e), ueEndpointType := to_lower (trim_space (ueEndpointType e)),
     ueModel := to_lower (trim_space (ueModel e))\<rparr>"

definition put_usage_event :: "('b, usage_event) kv \<Rightarrow> 'b \<times> nat \<Rightarrow> usage_event \<Rightarrow> 'b \<times> nat" where
  "put_usage_event kv s e = (let (b, n) = s in (kvPut kv b (usageKey (ueTimestamp e) (int_literal (int n))) (Some e), n + 1))"

definition migrateUsageEvents :: "('b, usage_event) kv \<Rightarrow> 'b \<Rightarrow> usage_event list option \<Rightarrow> 'b" where
  "migrateUsageEvents kv b f = (case f of None \<Rightarrow> b | Some es \<Rightarrow> if kvEach kv b \<noteq> [] then b
     else fst (foldl (put_usage_event kv) (b, 0) (map migrated_event es)))"

definition put_audit_event :: "('b, audit_event) kv \<Rightarrow> time \<Rightarrow> 'b \<times> nat \<Rightarrow> audit_event \<Rightarrow> 'b \<times> nat" where
  "put_audit_event kv now s e0 = (let (b, n) = s;
       e = e0\<lparr>aeID := (if aeID e0 = [] then ''migrated-'' @ int_literal (int n) else aeID e0),
              aeTimestamp := (if aeTimestamp e0 = 0 then now else aeTimestamp e0)\<rparr>
     in (kvPut kv b (auditKey (aeTimestamp e) (aeID e)) (Some e), n + 1))"

definition migrateAdminAudit :: "('b, audit_event) kv \<Rightarrow> time \<Rightarrow> 'b \<Rightarrow> audit_event list option \<Rightarrow> 'b" where
  "migrateAdminAudit kv now b f = (case f of None \<Rightarrow> b | Some es \<Rightarrow> if kvEach kv b \<noteq> [] then b
     else fst (foldl (put_audit_event kv now) (b, 0) es))"

section \<open>The migration\<close>

definition migrateFromJSON :: "('c, 't, 'm, 'k, 'a, 'u, 'e) buckets \<Rightarrow> time \<Rightarrow> ('c, 't, 'm, 'k, 'a, 'u, 'e) database \<Rightarrow> data_files \<Rightarrow>
    ('c, 't, 'm, 'k, 'a, 'u, 'e) database" where
  "migrateFromJSON B now d f = (if kvGet (bcMeta B) (dbMeta d) ''migrated'' \<noteq> None then d
     else d\<lparr>dbClients := migrateClients (bcClients B) (dbClients d) (dfClients f),
       dbCosts := migrateModelCosts (bcCosts B) (dbCosts d) (dfCosts f),
       dbEvents := migrateUsageEvents (bcEvents B) (dbEvents d) (dfEvents f),
       dbUsers := migrateAdminUsers (bcUsers B) (dbUsers d) (dfUsers f),
       dbAudit := migrateAdminAudit (bcAudit B) now (dbAudit d) (dfAudit f),
       dbMeta := kvPut (bcMeta B) (dbMeta d) ''migrated'' (Some (Meta_marker (rfc3339 now)))\<rparr>)"

lemma migrated_once:
  assumes "ordered_bucket (bcMeta B)"
  shows "migrateFromJSON B t (migrateFromJSON B now d f) g = migrateFromJSON B now d f"
  using ordered_bucket.get_put[OF assms] by (simp add: migrateFromJSON_def)

section \<open>Migrated clients\<close>

lemma put_records_spec:
  assumes "ordered_bucket kv" "\<forall>x \<in> set xs. key x \<noteq> []" "distinct (map key xs)"
  shows "\<exists>b'. put_records kv key b xs = Some b' \<and>
    (\<forall>k. kvGet kv b' k = (case find (\<lambda>x. key x = k) xs of Some x \<Rightarrow> Some (Some x) | None \<Rightarrow> kvGet kv b k))"
  using assms(2,3)
proof (induction xs arbitrary: b)
  case (Cons x xs)
  obtain b' where b': "put_records kv key (kvPut kv b (key x) (Some x)) xs = Some b'"
    "\<And>k. kvGet kv b' k = (case find (\<lambda>x. key x = k) xs of Some x \<Rightarrow> Some (Some x) | None \<Rightarrow> kvGet kv (kvPut kv b (key x) (Some x)) k)"
    using Cons.IH[of "kvPut kv b (key x) (Some x)"] Cons.prems by auto
  have "find (\<lambda>y. key y = key x) xs = None" using Cons.prems(2) by (fastforce simp: find_None_iff intro: rev_image_eqI)
  then show ?case using Cons.prems(1) b' by (auto simp: ordered_bucket.get_put[OF assms(1)] split: option.split)
qed simp

lemma find_stored: "distinct (map key xs) \<Longrightarrow>
    (case find (\<lambda>x. key x = k) xs of Some x \<Rightarrow> Some (Some x) | None \<Rightarrow> None) = Some v \<longleftrightarrow> (\<exists>x \<in> set xs. key x = k \<and> v = Some x)"
  by (induction xs) (auto simp: image_iff)

lemma migrated_clients_ok:
  assumes "ordered_bucket kv" "kvEach kv b = []" "\<forall>c \<in> set cs. validateClient c = None"
    "distinct (map (client_key \<circ> normalizeClient) cs)" "distinct (map (client_access \<circ> normalizeClient) cs)"
  shows "clients_ok kv (migrateClients kv b (Some cs)) \<and>
    (\<forall>c \<in> set cs. kvGet kv (migrateClients kv b (Some cs)) (client_key (normalizeClient c)) = Some (Some (normalizeClient c)))"
proof -
  let ?xs = "map normalizeClient cs"
  have good: "\<forall>x \<in> set ?xs. good_client x" using assms(3) norm_good by auto
  then have ne: "\<forall>x \<in> set ?xs. client_key x \<noteq> []" by (auto simp: good_client_def client_key_def)
  obtain b' where b': "put_records kv client_key b ?xs = Some b'"
    "\<And>k. kvGet kv b' k = (case find (\<lambda>x. client_key x = k) ?xs of Some x \<Rightarrow> Some (Some x) | None \<Rightarrow> kvGet kv b k)"
    using put_records_spec[OF assms(1) ne] assms(4) by auto
  have m: "migrateClients kv b (Some cs) = b'"
    using assms(2) b'(1) by (simp add: migrateClients_def migrate_records_def)
  have none: "kvGet kv b k = None" for k using ordered_bucket.each_get[OF assms(1), of b] assms(2) by (metis map_of.simps(1))
  have at: "kvGet kv b' k = Some v \<longleftrightarrow> (\<exists>x \<in> set ?xs. client_key x = k \<and> v = Some x)" for k v
    unfolding b'(2) none using assms(4) by (intro find_stored) simp
  have acc: "client_key x = client_key y" if "x \<in> set ?xs" "y \<in> set ?xs" "client_access x = client_access y" for x y
  proof -
    have "inj_on client_access (set ?xs)" using assms(5) by (metis distinct_map map_map)
    then show ?thesis using that by (metis inj_onD)
  qed
  have "clients_ok kv b'" unfolding store_ok_def at
  proof (intro conjI allI impI)
    fix k v assume "\<exists>x \<in> set ?xs. client_key x = k \<and> v = Some x"
    then show "\<exists>a. v = Some a \<and> k = client_key a \<and> good_client a" using good by blast
  next
    fix k k' a a'
    assume "\<exists>x \<in> set ?xs. client_key x = k \<and> Some a = Some x" "\<exists>x \<in> set ?xs. client_key x = k' \<and> Some a' = Some x"
      "client_access a = client_access a'"
    then show "k = k'" using acc[of a a'] by blast
  qed
  moreover have "\<forall>c \<in> set cs. kvGet kv b' (client_key (normalizeClient c)) = Some (Some (normalizeClient c))"
    unfolding at by auto
  ultimately show ?thesis unfolding m by blast
qed

text \<open>
  C33: clients that a file of an older release lists, with names and access keys that are not blank
  and do not repeat, keep working: after the migration into an empty database each of them is
  authenticated by its access key, with the targets it was allowed.
\<close>

theorem migrated_clients_authenticate:
  assumes "ordered_bucket (bcClients B)" "kvGet (bcMeta B) (dbMeta d) ''migrated'' = None" "kvEach (bcClients B) (dbClients d) = []"
    "dfClients f = Some cs" "\<forall>c \<in> set cs. validateClient c = None"
    "distinct (map (client_key \<circ> normalizeClient) cs)" "distinct (map (client_access \<circ> normalizeClient) cs)"
  shows "\<exists>xs m. client_list (bcClients B) (dbClients (migrateFromJSON B now d f)) = Inr xs \<and>
    loadFromConfig Map.empty (map auth_client xs) = (None, m) \<and>
    (\<forall>c \<in> set cs. authenticate_key m (trim_space (ccAccessKey c)) =
       Some (new_principal (trim_space (ccName c)) (trim_space (ccAccessKey c)) (norm_targets {} (ccAllowedTargets c))))"
proof -
  let ?b = "migrateClients (bcClients B) (dbClients d) (Some cs)"
  have b: "dbClients (migrateFromJSON B now d f) = ?b" using assms(2,4) by (simp add: migrateFromJSON_def)
  note ok = migrated_clients_ok[OF assms(1,3,5,6,7)]
  then obtain xs m where l: "client_list (bcClients B) ?b = Inr xs" "loadFromConfig Map.empty (map auth_client xs) = (None, m)"
    and a: "\<forall>c \<in> set xs. m (ccAccessKey c) = Some (new_principal (ccName c) (ccAccessKey c) (ccAllowedTargets c))"
    using stored_clients_load[OF assms(1)] by blast
  have good: "good_client (normalizeClient c)" if "c \<in> set cs" for c using assms(5) norm_good that by blast
  have "normalizeClient c \<in> set xs" if "c \<in> set cs" for c
  proof -
    obtain ys where "store_list (bcClients B) ?b = Inr ys"
      "\<And>a. a \<in> set ys \<longleftrightarrow> kvGet (bcClients B) ?b (client_key a) = Some (Some a)"
      using ordered_bucket.list_ok[OF assms(1) ok[THEN conjunct1]] by metis
    then show ?thesis using l(1) ok that by (simp add: client_list_def)
  qed
  then have "authenticate_key m (trim_space (ccAccessKey c)) =
       Some (new_principal (trim_space (ccName c)) (trim_space (ccAccessKey c)) (norm_targets {} (ccAllowedTargets c)))"
    if "c \<in> set cs" for c
    using a good[OF that] that by (fastforce simp: authenticate_key_def normalizeClient_def good_client_def)
  then show ?thesis using l unfolding b by blast
qed

text \<open>
  One client without a name keeps every client of the file out, and the migration, which is marked
  as done, does not try again.
\<close>

lemma put_nameless:
  "c \<in> set cs \<Longrightarrow> trim_space (ccName c) = [] \<Longrightarrow> put_records kv client_key b (map normalizeClient cs) = None"
  by (induction cs arbitrary: b) (auto simp: client_key_def normalizeClient_def)

lemma nameless_client_blocks:
  assumes "ordered_bucket (bcMeta B)" "dfClients f = Some cs" "c \<in> set cs" "trim_space (ccName c) = []"
  shows "dbClients (migrateFromJSON B now d f) = dbClients d \<and> migrateFromJSON B t (migrateFromJSON B now d f) g = migrateFromJSON B now d f"
proof -
  have "migrateClients (bcClients B) (dbClients d) (Some cs) = dbClients d"
    by (simp add: migrateClients_def migrate_records_def put_nameless[OF assms(3,4)])
  then show ?thesis using migrated_once[OF assms(1)] assms(2) by (simp add: migrateFromJSON_def)
qed

text \<open>Two clients of the file with one access key are both migrated; the keys then do not load and the start fails.\<close>

lemma shared_access_key_migrates:
  fixes c :: client
  defines "d \<equiv> c\<lparr>ccName := ''b''\<rparr>"
  assumes "ccName c = ''a''" "ccAccessKey c = ''k''" "ccAllowedTargets c = []"
  shows "case client_list alist_kv (migrateClients alist_kv [] (Some [c, d])) of Inl _ \<Rightarrow> False
    | Inr cs \<Rightarrow> fst (loadFromConfig Map.empty (map auth_client cs)) \<noteq> None"
proof -
  have t: "trim_space ''a'' = ''a''" "trim_space ''b'' = ''b''" "trim_space ''k'' = ''k''" "to_lower ''a'' = ''a''" "to_lower ''b'' = ''b''"
    by code_simp+
  have s: "sort_keys [(''a'', x), (''b'', y)] = [(''a'', x), (''b'', y)]" for x y :: "client option"
    by (simp add: sort_keys_def) code_simp
  have "client_list alist_kv (migrateClients alist_kv [] (Some [c, d])) = Inr [normalizeClient c, normalizeClient d]"
    using assms t s by (simp add: migrateClients_def migrate_records_def client_key_def normalizeClient_def client_list_def
        store_list_def alist_kv_def sort_keys_def)
  then show ?thesis using assms t by (simp add: loadFromConfig_def auth_client_def client_config.truncate_def normalizeClient_def)
qed

section \<open>A concrete migration\<close>

definition alist_buckets where
  "alist_buckets = \<lparr>bcClients = alist_kv, bcTargets = alist_kv, bcMeta = alist_kv, bcCosts = alist_kv, bcAudit = alist_kv,
     bcUsers = alist_kv, bcEvents = alist_kv\<rparr>"

definition empty_database where
  "empty_database = \<lparr>dbClients = [], dbTargets = [], dbMeta = [], dbCosts = [], dbAudit = [], dbUsers = [], dbEvents = [], dbCells = []\<rparr>"

definition demo_files :: data_files where
  "demo_files = \<lparr>dfClients = Some [\<lparr>ccName = '' A'', ccAccessKey = ''k'', ccAllowedTargets = [''T''], clDaily = 0, clWeekly = 0, clMonthly = 0\<rparr>],
     dfCosts = None, dfEvents = None, dfUsers = None, dfAudit = None\<rparr>"

theorem migrated_clients_authenticate_witness:
  "\<exists>xs m. client_list (bcClients alist_buckets) (dbClients (migrateFromJSON alist_buckets 0 empty_database demo_files)) = Inr xs \<and>
    loadFromConfig Map.empty (map auth_client xs) = (None, m) \<and>
    (\<forall>c \<in> set (the (dfClients demo_files)). authenticate_key m (trim_space (ccAccessKey c)) =
       Some (new_principal (trim_space (ccName c)) (trim_space (ccAccessKey c)) (norm_targets {} (ccAllowedTargets c))))"
proof (rule migrated_clients_authenticate)
  show "ordered_bucket (bcClients alist_buckets)" by (simp add: alist_buckets_def alist.ordered_bucket_axioms)
  show "\<forall>c \<in> set (the (dfClients demo_files)). validateClient c = None" by code_simp
qed (simp_all add: alist_buckets_def empty_database_def demo_files_def alist_kv_def sort_keys_def)

end
