(* ===== verification/Copilot_Models.thy ===== *)
theory Copilot_Models
  imports Forward Usage_Tokens Copilot_Store Admin_Stores "HOL-Library.Multiset" "HOL-Library.Monad_Syntax"
begin

text \<open>
  The models of GitHub Copilot (\<open>internal/copilot/models.go\<close>, \<open>headers.go\<close>): names, multipliers and
  prices, their categories, and the list of models that an account's API answers with. The categories
  stand for the Chinese words of the code.
\<close>

section \<open>Requests to GitHub\<close>

definition headerEditorVersion :: string where "headerEditorVersion = ''vscode/1.96.2''"
definition headerPluginVersion :: string where "headerPluginVersion = ''copilot/1.254.0''"
definition headerUserAgent :: string where "headerUserAgent = ''GitHubCopilotChat/0.24.2024''"
definition headerIntegrationID :: string where "headerIntegrationID = ''vscode-chat''"
definition gitHubClientID :: string where "gitHubClientID = ''Iv1.b507a08c87ecfe98''"
definition gitHubScope :: string where "gitHubScope = ''read:user''"
definition gitHubDeviceCodeURL :: string where "gitHubDeviceCodeURL = ''https://github.com/login/device/code''"
definition gitHubAccessTokenURL :: string where "gitHubAccessTokenURL = ''https://github.com/login/oauth/access_token''"
definition copilotTokenURL :: string where "copilotTokenURL = ''https://api.github.com/copilot_internal/v2/token''"
definition copilotIndividualBase :: string where "copilotIndividualBase = ''https://api.individual.githubcopilot.com''"
definition copilotModelsURL :: string where "copilotModelsURL = copilotIndividualBase @ ''/models''"
definition gitHubCopilotUserURL :: string where "gitHubCopilotUserURL = ''https://api.github.com/copilot_internal/user''"

definition applyEditorHeaders :: "headers \<Rightarrow> headers" where
  "applyEditorHeaders h = h_set (h_set (h_set (h_set h ''Editor-Version'' headerEditorVersion) ''Editor-Plugin-Version'' headerPluginVersion)
     ''User-Agent'' headerUserAgent) ''Copilot-Integration-Id'' headerIntegrationID"

datatype copilot_error = Bad_request | Unreachable | Cut_off | Refused int string | Unparsable
  | No_copilot_access string string | Device_code_expired | Access_denied | No_access_token | Unknown_oauth_error string
  | Cancelled | In_store store_error | No_device_code | No_oauth_token | Bad_status account_status | Not_created
  | No_pool | Empty_pool | No_account | No_models

text \<open>
  A request and the whole of its answer. The time a call may still take is the client's timeout, cut
  by the deadline of its context when that has one.
\<close>

definition call_timeout :: "duration \<Rightarrow> time option \<Rightarrow> time \<Rightarrow> duration" where
  "call_timeout limit until now = (case until of None \<Rightarrow> limit | Some t \<Rightarrow> min limit (t - now))"

definition github_call :: "'w net \<Rightarrow> duration \<Rightarrow> time option \<Rightarrow> string \<Rightarrow> string \<Rightarrow> headers \<Rightarrow> string \<Rightarrow> 'w \<Rightarrow> (copilot_error + int \<times> string) \<times> 'w" where
  "github_call net limit until meth url h body w = (case new_request_url meth url of None \<Rightarrow> (Inl Bad_request, w)
     | Some u \<Rightarrow> (case netDo net w \<lparr>orMethod = meth, orURL = u, orHost = uHost u, orHeader = h, orBody = body,
           orTimeout = call_timeout limit until (netNow net w)\<rparr> of
         (Inl _, w1) \<Rightarrow> (Inl Unreachable, w1)
       | (Inr resp, w1) \<Rightarrow> (if rsBroken resp then Inl Cut_off else Inr (rsStatus resp, rsBody resp), w1)))"

section \<open>Decoding\<close>

text \<open>More decoders for the fields of a struct; in a list an element that is null is the zero value.\<close>

definition as_bool :: "json \<Rightarrow> bool option" where
  "as_bool v = (case v of JBool b \<Rightarrow> Some b | _ \<Rightarrow> None)"

definition as_list :: "(json \<Rightarrow> 'a option) \<Rightarrow> 'a \<Rightarrow> json \<Rightarrow> 'a list option" where
  "as_list dec zero v = (case v of JArr xs \<Rightarrow> all_some (map (\<lambda>x. if x = JNull then Some zero else dec x) xs) | _ \<Rightarrow> None)"

definition as_struct :: "(json_map \<Rightarrow> 'a option) \<Rightarrow> json \<Rightarrow> 'a option" where
  "as_struct dec v = (case v of JObj m \<Rightarrow> dec m | _ \<Rightarrow> None)"

definition as_pointer :: "(json_map \<Rightarrow> 'a option) \<Rightarrow> json \<Rightarrow> 'a option option" where
  "as_pointer dec v = map_option Some (as_struct dec v)"

definition as_strings :: "json \<Rightarrow> string list option" where
  "as_strings = as_list as_string []"

text \<open>A whole text decoded into a struct.\<close>

definition decode_struct :: "(json_map \<Rightarrow> 'a option) \<Rightarrow> string \<Rightarrow> 'a option" where
  "decode_struct dec s = (case decode_json s of Some (JObj m) \<Rightarrow> dec m | Some JNull \<Rightarrow> dec [] | _ \<Rightarrow> None)"

section \<open>Names, multipliers and prices\<close>

datatype category = Free | Low | Standard | High | Very_high

definition categoryOrder :: "category \<Rightarrow> nat" where
  "categoryOrder c = (case c of Free \<Rightarrow> 0 | Low \<Rightarrow> 1 | Standard \<Rightarrow> 2 | High \<Rightarrow> 3 | Very_high \<Rightarrow> 4)"

definition classifyModel :: "real \<Rightarrow> category" where
  "classifyModel m = (if m = 0 then Free else if m < 1 then Low else if m \<le> 3 then Standard else if m \<le> 9 then High else Very_high)"

definition modelMultipliers :: "(string \<times> real) list" where
  "modelMultipliers = [(''claude-haiku-4.5'', 33 / 100), (''gemini-3-flash'', 33 / 100), (''gpt-4o'', 33 / 100), (''gpt-4o-mini'', 33 / 100),
     (''gpt-5-mini'', 33 / 100), (''gpt-5.1-codex-mini'', 33 / 100), (''raptor-mini'', 33 / 100), (''gpt-4.1'', 1),
     (''gemini-2.5-pro'', 1), (''gpt-5.1'', 3), (''gpt-5.1-codex'', 3), (''gpt-5.1-codex-max'', 3), (''gpt-5.2'', 3),
     (''gpt-5.2-codex'', 3), (''claude-sonnet-4.5'', 6), (''gemini-3-pro'', 6), (''gemini-3.1-pro'', 6),
     (''gpt-5.3-codex'', 6), (''gpt-5.4'', 6), (''gpt-5.4-mini'', 6), (''claude-sonnet-4.6'', 9),
     (''gemini-3.5-flash'', 14), (''claude-opus-4.5'', 15), (''claude-opus-4.6'', 27), (''claude-opus-4.7'', 27),
     (''claude-opus-4.8'', 27), (''gpt-5.5'', 57)]"

record model_pricing =
  mpInput :: real
  mpOutput :: real
  mpCacheRead :: real
  mpCacheWrite :: real

definition price :: "real \<Rightarrow> real \<Rightarrow> real \<Rightarrow> real \<Rightarrow> model_pricing" where
  "price i r c w = \<lparr>mpInput = i, mpOutput = r, mpCacheRead = c, mpCacheWrite = w\<rparr>"

definition modelPricingTable :: "(string \<times> model_pricing) list" where
  "modelPricingTable = [(''gpt-4.1'', price 2 8 (1 / 2) 0),
     (''gpt-5-mini'', price (1 / 4) 2 (1 / 40) 0),
     (''gpt-5.2'', price (7 / 4) 14 (7 / 40) 0),
     (''gpt-5.2-codex'', price (7 / 4) 14 (7 / 40) 0),
     (''gpt-5.3-codex'', price (7 / 4) 14 (7 / 40) 0),
     (''gpt-5.4'', price (5 / 2) 15 (1 / 4) 0),
     (''gpt-5.4-mini'', price (3 / 4) (9 / 2) (3 / 40) 0),
     (''gpt-5.4-nano'', price (1 / 5) (5 / 4) (1 / 50) 0),
     (''gpt-5.5'', price 5 30 (1 / 2) 0),
     (''claude-haiku-4.5'', price 1 5 (1 / 10) (5 / 4)),
     (''claude-sonnet-4'', price 3 15 (3 / 10) (15 / 4)),
     (''claude-sonnet-4.5'', price 3 15 (3 / 10) (15 / 4)),
     (''claude-sonnet-4.6'', price 3 15 (3 / 10) (15 / 4)),
     (''claude-opus-4.5'', price 5 25 (1 / 2) (25 / 4)),
     (''claude-opus-4.6'', price 5 25 (1 / 2) (25 / 4)),
     (''claude-opus-4.7'', price 5 25 (1 / 2) (25 / 4)),
     (''claude-opus-4.8'', price 5 25 (1 / 2) (25 / 4)),
     (''gemini-2.5-pro'', price (5 / 4) 10 (1 / 8) 0),
     (''gemini-3-flash'', price (1 / 2) 3 (1 / 20) 0),
     (''gemini-3.1-pro'', price 2 12 (1 / 5) 0),
     (''gemini-3.5-flash'', price (3 / 2) 9 (3 / 20) 0),
     (''raptor-mini'', price (1 / 4) 2 (1 / 40) 0)]"


text \<open>\<open>modelPrefix\<close> is the prefix of the names that clients use.\<close>

definition modelPrefix :: string where "modelPrefix = ''Copilot ''"

definition mapModelName :: "string \<Rightarrow> string \<times> bool" where
  "mapModelName m = (if has_prefix (to_lower m) (to_lower modelPrefix) then (drop (length modelPrefix) m, True) else (m, False))"

definition reverseMapModelName :: "string \<Rightarrow> string" where
  "reverseMapModelName m = modelPrefix @ m"

definition getPricing :: "string \<Rightarrow> model_pricing" where
  "getPricing m = (case map_of modelPricingTable (to_lower (fst (mapModelName m))) of Some p \<Rightarrow> p | None \<Rightarrow> price 0 0 0 0)"

definition getMultiplier :: "string \<Rightarrow> real" where
  "getMultiplier m = (case map_of modelMultipliers (to_lower (fst (mapModelName m))) of Some x \<Rightarrow> x | None \<Rightarrow> 1)"

definition isFreeModel :: "string \<Rightarrow> bool" where
  "isFreeModel m = (getMultiplier m = 0)"

section \<open>Order by category\<close>

text \<open>A stable sort; the one of the code is stable for lists of up to twelve elements.\<close>

fun insort_by :: "('a \<Rightarrow> 'a \<Rightarrow> bool) \<Rightarrow> 'a \<Rightarrow> 'a list \<Rightarrow> 'a list" where
  "insort_by before x [] = [x]"
| "insort_by before x (y # ys) = (if before y x then y # insort_by before x ys else x # y # ys)"

definition sort_by :: "('a \<Rightarrow> 'a \<Rightarrow> bool) \<Rightarrow> 'a list \<Rightarrow> 'a list" where
  "sort_by before xs = foldr (insort_by before) xs []"

definition category_less :: "('a \<Rightarrow> category) \<Rightarrow> ('a \<Rightarrow> string) \<Rightarrow> 'a \<Rightarrow> 'a \<Rightarrow> bool" where
  "category_less cat name a b = (let ci = categoryOrder (cat a); cj = categoryOrder (cat b) in
     if ci \<noteq> cj then ci < cj else str_less (name a) (name b))"

record model_info =
  miName :: string
  miMultiplier :: real
  miCategory :: category

definition sortModelInfoByCategory :: "model_info list \<Rightarrow> model_info list" where
  "sortModelInfoByCategory = sort_by (category_less miCategory miName)"

definition model_info_of :: "string \<Rightarrow> model_info" where
  "model_info_of name = \<lparr>miName = name, miMultiplier = getMultiplier name, miCategory = classifyModel (getMultiplier name)\<rparr>"

definition listAvailableModels :: "model_info list" where
  "listAvailableModels = sortModelInfoByCategory (map (\<lambda>(n, x). \<lparr>miName = n, miMultiplier = x, miCategory = classifyModel x\<rparr>) modelMultipliers)"

section \<open>The models of an account\<close>

definition fetchRawBody :: "'w net \<Rightarrow> time option \<Rightarrow> string \<Rightarrow> string \<Rightarrow> 'w \<Rightarrow> (copilot_error + string) \<times> 'w" where
  "fetchRawBody net until token url w =
     (case github_call net (seconds 30) until ''GET'' url
        (applyEditorHeaders (h_set (h_set [] ''Authorization'' (''Bearer '' @ token)) ''Accept'' ''application/json'')) [] w of
        (Inl e, w1) \<Rightarrow> (Inl e, w1)
      | (Inr (status, body), w1) \<Rightarrow> (if status \<noteq> 200 then Inl (Refused status body) else Inr body, w1))"

text \<open>
  An answer is an object with the list under \<open>data\<close> or \<open>models\<close>, or the list itself, which is tried
  when the object has no entries or does not decode.
\<close>

definition decode_entries :: "(json_map \<Rightarrow> 'a option) \<Rightarrow> 'a \<Rightarrow> string \<Rightarrow> 'a list option" where
  "decode_entries dec zero body = (let entries = as_list (as_struct dec) zero in
     case decode_struct (\<lambda>m. do { models \<leftarrow> last_field entries [] m ''models''; data \<leftarrow> last_field entries [] m ''data'';
         _ \<leftarrow> last_field as_string [] m ''object''; Some (if data \<noteq> [] then data else models) }) body of
       Some (e # es) \<Rightarrow> Some (e # es)
     | _ \<Rightarrow> (case decode_json body of Some (JArr xs) \<Rightarrow> entries (JArr xs) | Some JNull \<Rightarrow> Some [] | _ \<Rightarrow> None))"

record api_entry =
  meID :: string
  meName :: string
  mePicker :: bool
  meType :: string

definition blank_entry :: api_entry where
  "blank_entry = \<lparr>meID = [], meName = [], mePicker = False, meType = []\<rparr>"

text \<open>The fields that are not used below only have to be of their types.\<close>

definition decode_entry :: "json_map \<Rightarrow> api_entry option" where
  "decode_entry m = do { i \<leftarrow> last_field as_string [] m ''id''; n \<leftarrow> last_field as_string [] m ''name'';
     _ \<leftarrow> last_field as_string [] m ''version''; _ \<leftarrow> last_field as_string [] m ''vendor''; _ \<leftarrow> last_field as_bool False m ''preview'';
     p \<leftarrow> last_field as_bool False m ''model_picker_enabled''; _ \<leftarrow> last_field as_string [] m ''model_picker_category'';
     t \<leftarrow> last_field (as_struct (\<lambda>c. last_field as_string [] c ''type'')) [] m ''capabilities'';
     _ \<leftarrow> last_field as_strings [] m ''supported_endpoints'';
     _ \<leftarrow> last_field (as_pointer (\<lambda>c. last_field as_string [] c ''state'')) None m ''policy'';
     Some \<lparr>meID = i, meName = n, mePicker = p, meType = t\<rparr> }"

definition shown :: "bool \<Rightarrow> string \<Rightarrow> string \<Rightarrow> string \<Rightarrow> bool" where
  "shown picker type ident name = (picker \<and> (type = [] \<or> type = ''chat'') \<and> (ident \<noteq> [] \<or> name \<noteq> []))"

definition entry_name :: "string \<Rightarrow> string \<Rightarrow> string" where
  "entry_name ident name = (if ident = [] then name else ident)"

definition fetchModelsFromAPI :: "'w net \<Rightarrow> time option \<Rightarrow> string \<Rightarrow> string \<Rightarrow> 'w \<Rightarrow> (copilot_error + model_info list) \<times> 'w" where
  "fetchModelsFromAPI net until token url w = (case fetchRawBody net until token (if url = [] then copilotModelsURL else url) w of
     (Inl e, w1) \<Rightarrow> (Inl e, w1)
   | (Inr body, w1) \<Rightarrow> (case decode_entries decode_entry blank_entry body of None \<Rightarrow> (Inl Unparsable, w1)
     | Some es \<Rightarrow> (Inr (sortModelInfoByCategory (map (\<lambda>e. model_info_of (entry_name (meID e) (meName e)))
         (filter (\<lambda>e. shown (mePicker e) (meType e) (meID e) (meName e)) es))), w1)))"

section \<open>All of a model's data\<close>

record vision_limits =
  vlImageSize :: int
  vlImages :: int
  vlMediaTypes :: "string list"

record model_supports =
  spStreaming :: bool
  spToolCalls :: bool
  spParallelToolCalls :: bool
  spVision :: bool
  spStructuredOutputs :: bool
  spReasoningEffort :: "string list"
  spAdaptiveThinking :: bool
  spMaxThinkingBudget :: int
  spMinThinkingBudget :: int

record model_limits =
  mlContext :: int
  mlOutput :: int
  mlPrompt :: int
  mlVision :: "vision_limits option"

record model_capabilities =
  mcaFamily :: string
  mcaType :: string
  mcaTokenizer :: string
  mcaLimits :: model_limits
  mcaSupports :: model_supports

record detail_entry =
  deID :: string
  deName :: string
  deVersion :: string
  deVendor :: string
  dePreview :: bool
  dePicker :: bool
  dePickerCategory :: string
  deEndpoints :: "string list"
  dePolicy :: "string option"
  deCapabilities :: model_capabilities

definition decode_vision :: "json_map \<Rightarrow> vision_limits option" where
  "decode_vision m = do { s \<leftarrow> last_field as_int 0 m ''max_prompt_image_size''; n \<leftarrow> last_field as_int 0 m ''max_prompt_images'';
     t \<leftarrow> last_field as_strings [] m ''supported_media_types''; Some \<lparr>vlImageSize = s, vlImages = n, vlMediaTypes = t\<rparr> }"

definition decode_supports :: "json_map \<Rightarrow> model_supports option" where
  "decode_supports m = do { a \<leftarrow> last_field as_bool False m ''streaming''; b \<leftarrow> last_field as_bool False m ''tool_calls'';
     c \<leftarrow> last_field as_bool False m ''parallel_tool_calls''; d \<leftarrow> last_field as_bool False m ''vision'';
     e \<leftarrow> last_field as_bool False m ''structured_outputs''; f \<leftarrow> last_field as_strings [] m ''reasoning_effort'';
     g \<leftarrow> last_field as_bool False m ''adaptive_thinking''; h \<leftarrow> last_field as_int 0 m ''max_thinking_budget'';
     i \<leftarrow> last_field as_int 0 m ''min_thinking_budget'';
     Some \<lparr>spStreaming = a, spToolCalls = b, spParallelToolCalls = c, spVision = d, spStructuredOutputs = e, spReasoningEffort = f,
       spAdaptiveThinking = g, spMaxThinkingBudget = h, spMinThinkingBudget = i\<rparr> }"

definition decode_limits :: "json_map \<Rightarrow> model_limits option" where
  "decode_limits m = do { c \<leftarrow> last_field as_int 0 m ''max_context_window_tokens''; r \<leftarrow> last_field as_int 0 m ''max_output_tokens'';
     p \<leftarrow> last_field as_int 0 m ''max_prompt_tokens''; v \<leftarrow> last_field (as_pointer decode_vision) None m ''vision'';
     Some \<lparr>mlContext = c, mlOutput = r, mlPrompt = p, mlVision = v\<rparr> }"

text \<open>The zero values are what an empty object decodes to.\<close>

definition zero_of :: "(json_map \<Rightarrow> 'a option) \<Rightarrow> 'a" where
  "zero_of dec = the (dec [])"

definition decode_capabilities :: "json_map \<Rightarrow> model_capabilities option" where
  "decode_capabilities m = do { f \<leftarrow> last_field as_string [] m ''family''; t \<leftarrow> last_field as_string [] m ''type'';
     k \<leftarrow> last_field as_string [] m ''tokenizer''; l \<leftarrow> last_field (as_struct decode_limits) (zero_of decode_limits) m ''limits'';
     s \<leftarrow> last_field (as_struct decode_supports) (zero_of decode_supports) m ''supports'';
     Some \<lparr>mcaFamily = f, mcaType = t, mcaTokenizer = k, mcaLimits = l, mcaSupports = s\<rparr> }"

definition decode_detail :: "json_map \<Rightarrow> detail_entry option" where
  "decode_detail m = do { i \<leftarrow> last_field as_string [] m ''id''; n \<leftarrow> last_field as_string [] m ''name'';
     v \<leftarrow> last_field as_string [] m ''version''; d \<leftarrow> last_field as_string [] m ''vendor''; pr \<leftarrow> last_field as_bool False m ''preview'';
     p \<leftarrow> last_field as_bool False m ''model_picker_enabled''; pc \<leftarrow> last_field as_string [] m ''model_picker_category'';
     e \<leftarrow> last_field as_strings [] m ''supported_endpoints'';
     po \<leftarrow> last_field (as_pointer (\<lambda>c. last_field as_string [] c ''state'')) None m ''policy'';
     c \<leftarrow> last_field (as_struct decode_capabilities) (zero_of decode_capabilities) m ''capabilities'';
     Some \<lparr>deID = i, deName = n, deVersion = v, deVendor = d, dePreview = pr, dePicker = p, dePickerCategory = pc, deEndpoints = e,
       dePolicy = po, deCapabilities = c\<rparr> }"

record model_detail =
  mdID :: string
  mdName :: string
  mdVersion :: string
  mdVendor :: string
  mdFamily :: string
  mdPreview :: bool
  mdPicker :: bool
  mdPickerCategory :: string
  mdEndpoints :: "string list"
  mdType :: string
  mdTokenizer :: string
  mdContext :: int
  mdOutput :: int
  mdPrompt :: int
  mdVision :: "vision_limits option"
  mdSupports :: model_supports
  mdMultiplier :: real
  mdCategory :: category
  mdPricing :: model_pricing
  mdPolicyState :: string

definition detail_of :: "detail_entry \<Rightarrow> model_detail" where
  "detail_of e = (let c = deCapabilities e; l = mcaLimits c; name = entry_name (deID e) (deName e); x = getMultiplier name in
     \<lparr>mdID = deID e, mdName = deName e, mdVersion = deVersion e, mdVendor = deVendor e, mdFamily = mcaFamily c, mdPreview = dePreview e,
      mdPicker = dePicker e, mdPickerCategory = dePickerCategory e, mdEndpoints = deEndpoints e, mdType = mcaType c,
      mdTokenizer = mcaTokenizer c, mdContext = mlContext l, mdOutput = mlOutput l, mdPrompt = mlPrompt l, mdVision = mlVision l,
      mdSupports = mcaSupports c, mdMultiplier = x, mdCategory = classifyModel x, mdPricing = getPricing name,
      mdPolicyState = (case dePolicy e of None \<Rightarrow> [] | Some s \<Rightarrow> s)\<rparr>)"

definition sortModelDetailByCategory :: "model_detail list \<Rightarrow> model_detail list" where
  "sortModelDetailByCategory = sort_by (category_less mdCategory mdID)"

definition shown_detail :: "detail_entry \<Rightarrow> bool" where
  "shown_detail e = shown (dePicker e) (mcaType (deCapabilities e)) (deID e) (deName e)"

definition parse_details :: "string \<Rightarrow> model_detail list option" where
  "parse_details body = map_option (\<lambda>es. sortModelDetailByCategory (map detail_of (filter shown_detail es)))
     (decode_entries decode_detail (zero_of decode_detail) body)"

definition fetchModelDetails :: "'w net \<Rightarrow> time option \<Rightarrow> string \<Rightarrow> string \<Rightarrow> 'w \<Rightarrow> (copilot_error + model_detail list) \<times> 'w" where
  "fetchModelDetails net until token url w = (case fetchRawBody net until token (if url = [] then copilotModelsURL else url) w of
     (Inl e, w1) \<Rightarrow> (Inl e, w1)
   | (Inr body, w1) \<Rightarrow> (case parse_details body of None \<Rightarrow> Inl Unparsable | Some ds \<Rightarrow> Inr ds, w1))"

section \<open>Properties\<close>

lemma set_insort_by [simp]: "set (insort_by before x ys) = insert x (set ys)"
  by (induction ys) auto

lemma set_sort_by [simp]: "set (sort_by before xs) = set xs"
  by (induction xs) (simp_all add: sort_by_def)

lemma mset_sort_by: "mset (sort_by before xs) = mset xs"
proof -
  have "mset (insort_by before x ys) = add_mset x (mset ys)" for x ys by (induction ys) auto
  then show ?thesis by (induction xs) (simp_all add: sort_by_def)
qed

text \<open>Sorting by a strict order whose incomparable elements form classes.\<close>

lemma sorted_sort_by:
  assumes asym: "\<And>a b. before a b \<Longrightarrow> \<not> before b a"
    and neg: "\<And>a b c. \<not> before b a \<Longrightarrow> \<not> before c b \<Longrightarrow> \<not> before c a"
  shows "sorted_wrt (\<lambda>a b. \<not> before b a) (sort_by before xs)"
proof -
  have "sorted_wrt (\<lambda>a b. \<not> before b a) ys \<Longrightarrow> sorted_wrt (\<lambda>a b. \<not> before b a) (insort_by before x ys)" for x ys
    by (induction ys) (auto dest: asym neg)
  then show ?thesis by (induction xs) (simp_all add: sort_by_def)
qed

lemma str_less_neg: "\<not> str_less b a \<Longrightarrow> \<not> str_less c b \<Longrightarrow> \<not> str_less c a"
  unfolding str_less_def using str_le_linear str_le_trans str_le_antisym by metis

lemma category_less_order:
  "category_less cat name a b \<Longrightarrow> \<not> category_less cat name b a"
  "\<not> category_less cat name b a \<Longrightarrow> \<not> category_less cat name c b \<Longrightarrow> \<not> category_less cat name c a"
  using str_le_antisym[of "name a" "name b"] str_less_neg[of "name b" "name a" "name c"]
  by (auto simp: category_less_def Let_def str_less_def split: if_splits)

lemma sorted_by_category: "sorted_wrt (\<lambda>a b. \<not> category_less cat name b a) (sort_by (category_less cat name) xs)"
  by (rule sorted_sort_by) (fact category_less_order)+

text \<open>A name survives being shown to clients and mapped again, and no model is free.\<close>

lemma map_reverse: "mapModelName (reverseMapModelName m) = (m, True)"
  by (simp add: mapModelName_def reverseMapModelName_def modelPrefix_def has_prefix_def to_lower_def)

lemma multiplier_cases: "getMultiplier m \<in> {33 / 100, 1, 3, 6, 9, 14, 15, 27, 57}"
proof -
  have "\<forall>x \<in> snd ` set modelMultipliers. x \<in> {33 / 100, 1, 3, 6, 9, 14, 15, 27, 57}" by (simp add: modelMultipliers_def)
  then show ?thesis by (auto simp: getMultiplier_def image_iff split: option.split dest!: map_of_SomeD)
qed

lemma no_free_model: "\<not> isFreeModel m"
  using multiplier_cases[of m] by (auto simp: isFreeModel_def)

text \<open>An answer without models is an error, although it is well-formed.\<close>

lemma empty_models_unparsable: "parse_details (''{'' @ enc_str ''models'' @ '':[]}'') = None"
  by code_simp

end
