(* ===== verification/Admin_Handler.thy ===== *)
theory Admin_Handler
  imports Service_Admin Client_Store Target_Store Admin_Stores Copilot_Models
begin

text \<open>
  The admin routes that change state (\<open>internal/admin/handler.go\<close>): clients, model costs, targets
  and the keys of targets. A handler takes the actor of the request (the session's user), the id for
  its audit event, the time and its decoded body, and gives the status of the answer and the new
  state. A body that does not decode is \<open>None\<close>. The service's view of the stores, which in the
  program is the database itself, is brought up to date whenever the database is written. The bodies
  of the answers are modelled where they carry secrets.
\<close>

section \<open>State\<close>

record ('c, 't, 'm, 'k, 'a) backends =
  bkClients :: "('c, client) kv"
  bkTargets :: "('t, stored_target) kv"
  bkMeta :: "('m, meta_value) kv"
  bkCosts :: "('k, stored_cost) kv"
  bkAudit :: "('a, audit_event) kv"

text \<open>\<open>adConfig\<close> and \<open>adConfigTargets\<close> are the configuration that the manager caches.\<close>

record ('c, 't, 'm, 'k, 'a) admin =
  adClients :: 'c
  adTargets :: "'t \<times> 'm"
  adCosts :: 'k
  adAudit :: 'a
  adAuth :: "string \<rightharpoonup> principal"
  adService :: service
  adConfig :: config
  adConfigTargets :: "stored_target list"

type_synonym ('c, 't, 'm, 'k, 'a) handler = "('c, 't, 'm, 'k, 'a) admin \<Rightarrow> int \<times> ('c, 't, 'm, 'k, 'a) admin"

text \<open>The request's actor and audit id, and the clock.\<close>

record call =
  clActor :: "string option"
  clUUID :: string
  clNow :: time

definition recordAudit :: "('c, 't, 'm, 'k, 'a) backends \<Rightarrow> call \<Rightarrow> ('c, 't, 'm, 'k, 'a) admin \<Rightarrow> string \<Rightarrow> string \<Rightarrow> string \<Rightarrow> ('c, 't, 'm, 'k, 'a) admin" where
  "recordAudit B cl st action object detail = st\<lparr>adAudit := audit_record (bkAudit B) (clUUID cl) (clNow cl) (adAudit st)
     \<lparr>aeID = [], aeTimestamp = clNow cl, aeActor = (case clActor cl of Some u \<Rightarrow> if trim_space u = [] then ''system'' else u | None \<Rightarrow> ''system''),
      aeAction = action, aeObject = object, aeResult = ''success'', aeDetail = detail\<rparr>\<rparr>"

definition maskKey :: "string \<Rightarrow> string" where
  "maskKey k = (if length k \<le> 8 then ''****'' else take 4 k @ ''...'' @ drop (length k - 4) k)"

definition sync_stores :: "('c, 't, 'm, 'k, 'a) backends \<Rightarrow> ('c, 't, 'm, 'k, 'a) admin \<Rightarrow> ('c, 't, 'm, 'k, 'a) admin" where
  "sync_stores B st = (let sv = adService st in st\<lparr>adService := sv\<lparr>svStores := (svStores sv)
     \<lparr>qsClients := (case client_list (bkClients B) (adClients st) of Inl _ \<Rightarrow> None | Inr cs \<Rightarrow> Some (map quota_of cs)),
      qsCosts := (case cost_list (bkCosts B) (adCosts st) of Inl _ \<Rightarrow> qsCosts (svStores sv)
        | Inr cs \<Rightarrow> toCostTable (map model_cost.truncate cs) (svCatalog sv))\<rparr>\<rparr>\<rparr>)"

definition quota_evaluate :: "('c, 't, 'm, 'k, 'a) admin \<Rightarrow> string \<Rightarrow> time \<Rightarrow> ('c, 't, 'm, 'k, 'a) admin" where
  "quota_evaluate st name now = (let sv = adService st in case svQuota sv of None \<Rightarrow> st
     | Some m \<Rightarrow> st\<lparr>adService := sv\<lparr>svQuota := Some (evaluate (svStores sv) m name now)\<rparr>\<rparr>)"

section \<open>Clients\<close>

text \<open>The messages of the errors of the client store, which decide the status.\<close>

definition client_error_text :: "store_error \<Rightarrow> string" where
  "client_error_text e = (case e of
     Empty_field f \<Rightarrow> f @ '' must not be empty''
   | Already_exists n \<Rightarrow> ''client '' @ [quote] @ n @ [quote] @ '' already exists''
   | Taken _ \<Rightarrow> ''access_key already exists''
   | Not_found n \<Rightarrow> ''client '' @ [quote] @ n @ [quote] @ '' not found''
   | Undecodable k \<Rightarrow> ''decode client '' @ k
   | Invalid f \<Rightarrow> ''invalid '' @ f)"

definition create_status :: "string \<Rightarrow> int" where
  "create_status msg = (if contains msg ''already exists'' then 409 else 400)"

definition update_status :: "string \<Rightarrow> int" where
  "update_status msg = (if contains msg ''not found'' then 404 else if contains msg ''already exists'' then 409 else 400)"

definition delete_status :: "string \<Rightarrow> int" where
  "delete_status msg = (if contains msg ''not found'' then 404 else 400)"

text \<open>The second component says whether the store of access keys has been loaded.\<close>

definition reloadAuth :: "('c, 't, 'm, 'k, 'a) backends \<Rightarrow> ('c, 't, 'm, 'k, 'a) admin \<Rightarrow> ('c, 't, 'm, 'k, 'a) admin \<times> bool" where
  "reloadAuth B st = (case client_list (bkClients B) (adClients st) of Inl _ \<Rightarrow> (st, False)
     | Inr cs \<Rightarrow> (case loadFromConfig (adAuth st) (map auth_client cs) of
         (Some _, m) \<Rightarrow> (st\<lparr>adAuth := m\<rparr>, False) | (None, m) \<Rightarrow> (st\<lparr>adAuth := m\<rparr>, True)))"

text \<open>What the three handlers do after the store has been written.\<close>

definition after_client_change :: "('c, 't, 'm, 'k, 'a) backends \<Rightarrow> call \<Rightarrow> 'c \<Rightarrow> string \<Rightarrow> string \<Rightarrow> string \<Rightarrow> int \<Rightarrow> ('c, 't, 'm, 'k, 'a) handler" where
  "after_client_change B cl b name action detail ok st =
     (case reloadAuth B (sync_stores B (st\<lparr>adClients := b\<rparr>)) of (st1, False) \<Rightarrow> (500, st1)
      | (st1, True) \<Rightarrow> (ok, recordAudit B cl (quota_evaluate st1 name (clNow cl)) action name detail))"

definition handleCreateClient :: "('c, 't, 'm, 'k, 'a) backends \<Rightarrow> call \<Rightarrow> client option \<Rightarrow> ('c, 't, 'm, 'k, 'a) handler" where
  "handleCreateClient B cl body st = (case body of None \<Rightarrow> (400, st) | Some c \<Rightarrow>
     (case client_create (bkClients B) (adClients st) c of
        Inl e \<Rightarrow> (create_status (client_error_text e), st)
      | Inr b \<Rightarrow> after_client_change B cl b (ccName c) ''client_create'' (maskKey (ccAccessKey c)) 201 st))"

definition handleUpdateClient :: "('c, 't, 'm, 'k, 'a) backends \<Rightarrow> call \<Rightarrow> string \<Rightarrow> client option \<Rightarrow> ('c, 't, 'm, 'k, 'a) handler" where
  "handleUpdateClient B cl name body st = (if trim_space name = [] then (400, st) else
     case body of None \<Rightarrow> (400, st) | Some c \<Rightarrow>
     (case client_update (bkClients B) (adClients st) name c of
        Inl e \<Rightarrow> (update_status (client_error_text e), st)
      | Inr b \<Rightarrow> after_client_change B cl b name ''client_update'' (maskKey (ccAccessKey c)) 200 st))"

definition handleDeleteClient :: "('c, 't, 'm, 'k, 'a) backends \<Rightarrow> call \<Rightarrow> string \<Rightarrow> ('c, 't, 'm, 'k, 'a) handler" where
  "handleDeleteClient B cl name st = (if trim_space name = [] then (400, st) else
     case client_delete (bkClients B) (adClients st) name of
        Inl e \<Rightarrow> (delete_status (client_error_text e), st)
      | Inr b \<Rightarrow> after_client_change B cl b name ''client_delete'' [] 204 st)"

section \<open>Model costs\<close>

text \<open>A path parameter is unescaped where that is possible.\<close>

definition decode_param :: "string \<Rightarrow> string" where
  "decode_param raw = (case unescape False raw of Some d \<Rightarrow> d | None \<Rightarrow> raw)"

definition handleUpsertModelCost :: "('c, 't, 'm, 'k, 'a) backends \<Rightarrow> call \<Rightarrow> string \<Rightarrow> (string \<times> cost) option \<Rightarrow> ('c, 't, 'm, 'k, 'a) handler" where
  "handleUpsertModelCost B cl raw body st = (let model = to_lower (trim_space (decode_param raw)) in
     if model = [] then (400, st)
     else if has_prefix model modelPrefix \<or> has_prefix (to_lower model) (to_lower modelPrefix) then (400, st)
     else case body of None \<Rightarrow> (400, st) | Some (ep, r) \<Rightarrow>
       (case cost_upsert (bkCosts B) (adCosts st) \<lparr>mcModel = model, mcCost = r, mcEndpointType = ep\<rparr> of
          Inl _ \<Rightarrow> (400, st)
        | Inr b \<Rightarrow> (200, recordAudit B cl (sync_stores B (st\<lparr>adCosts := b\<rparr>)) ''model_cost_upsert'' model [])))"

definition handleDeleteModelCost :: "('c, 't, 'm, 'k, 'a) backends \<Rightarrow> call \<Rightarrow> string \<Rightarrow> ('c, 't, 'm, 'k, 'a) handler" where
  "handleDeleteModelCost B cl raw st = (let model = trim_space (decode_param raw) in
     if model = [] then (400, st)
     else case cost_delete (bkCosts B) (adCosts st) model of
       Inl e \<Rightarrow> ((case e of Not_found _ \<Rightarrow> 404 | _ \<Rightarrow> 400), st)
     | Inr b \<Rightarrow> (204, recordAudit B cl (sync_stores B (st\<lparr>adCosts := b\<rparr>)) ''model_cost_delete'' model []))"

section \<open>Targets\<close>

text \<open>
  The configuration with the targets of the store, as \<open>currentConfig\<close> assembles it: \<open>None\<close> when the
  store fails. The store takes over the configured targets when it has none of its own.
\<close>

definition current_targets :: "('c, 't, 'm, 'k, 'a) backends \<Rightarrow> ('c, 't, 'm, 'k, 'a) admin \<Rightarrow>
    stored_target list option \<times> ('c, 't, 'm, 'k, 'a) admin" where
  "current_targets B st = (let cfg = adConfigTargets st; (r, d) = target_list (bkTargets B) (bkMeta B) (adTargets st); st = st\<lparr>adTargets := d\<rparr> in
     case r of Inl _ \<Rightarrow> (None, st) | Inr ts \<Rightarrow>
       if ts = [] \<and> cfg \<noteq> [] then
         (case migrateTargetsFromConfig (bkTargets B) (bkMeta B) (adTargets st) cfg of
            (Inl _, d) \<Rightarrow> (None, st\<lparr>adTargets := d\<rparr>)
          | (Inr _, d) \<Rightarrow> (case target_list (bkTargets B) (bkMeta B) d of
                (Inl _, d) \<Rightarrow> (None, st\<lparr>adTargets := d\<rparr>)
              | (Inr ts, d) \<Rightarrow> (Some (if ts \<noteq> [] then ts else cfg), st\<lparr>adTargets := d\<rparr>)))
       else (Some ts, st))"

definition with_targets :: "config \<Rightarrow> stored_target list \<Rightarrow> config" where
  "with_targets cfg ts = cfg\<lparr>cfgTargets := map stTarget ts\<rparr>"

text \<open>\<open>applyConfigRuntime\<close>: the second component says whether it has succeeded.\<close>

definition applyConfigRuntime :: "('c, 't, 'm, 'k, 'a) backends \<Rightarrow> ('c, 't, 'm, 'k, 'a) admin \<Rightarrow> stored_target list \<Rightarrow> time \<Rightarrow> ('c, 't, 'm, 'k, 'a) admin \<times> bool" where
  "applyConfigRuntime B st ts now = (case client_list (bkClients B) (adClients st) of Inl _ \<Rightarrow> (st, False)
     | Inr cs \<Rightarrow> (case applyConfig (adService st) (with_targets (adConfig st) ts) now of
         (Some _, sv) \<Rightarrow> (st\<lparr>adService := sv\<rparr>, False)
       | (None, sv) \<Rightarrow> (case loadFromConfig (adAuth st) (map auth_client cs) of
           (Some _, m) \<Rightarrow> (st\<lparr>adService := sv, adAuth := m\<rparr>, False)
         | (None, m) \<Rightarrow> (st\<lparr>adService := sv, adAuth := m\<rparr>, True))))"

text \<open>
  The common end of the handlers: the new list of targets goes to the service, then the operation to
  the store, then the list to the cached configuration.
\<close>

definition commit_targets :: "('c, 't, 'm, 'k, 'a) backends \<Rightarrow> call \<Rightarrow> target_op \<Rightarrow> stored_target list \<Rightarrow> string \<Rightarrow> string \<Rightarrow> int \<Rightarrow> ('c, 't, 'm, 'k, 'a) handler" where
  "commit_targets B cl cmd ts action name ok st = (case applyConfigRuntime B st ts (clNow cl) of (st1, False) \<Rightarrow> (500, st1)
     | (st1, True) \<Rightarrow> (case target_step (bkTargets B) (bkMeta B) (adTargets st1) cmd of Inl _ \<Rightarrow> (500, st1)
         | Inr d \<Rightarrow> (ok, recordAudit B cl (st1\<lparr>adTargets := d, adConfigTargets := ts\<rparr>) action name [])))"

definition has_name :: "string \<Rightarrow> stored_target \<Rightarrow> bool" where
  "has_name name t = equal_fold (st_name t) name"

text \<open>The loop over the mappings, which stops at the first that is not valid.\<close>

fun valid_mappings :: "string set \<Rightarrow> string set \<Rightarrow> model_mapping list \<Rightarrow> bool" where
  "valid_mappings ups fbs [] = True"
| "valid_mappings ups fbs (m # ms) = (let up = to_lower (trim_space (mmUpstream m)); fb = to_lower (trim_space (mmFallback m)); ups' = insert up ups in
     if up = [] \<or> up \<in> ups then False
     else if fb = [] then valid_mappings ups' fbs ms
     else if fb \<in> ups' \<or> fb \<in> fbs then False else valid_mappings ups' (insert fb fbs) ms)"

text \<open>The decoded body of a creation is a target; the fields that are not read from it are blank.\<close>

definition handleCreateTarget :: "('c, 't, 'm, 'k, 'a) backends \<Rightarrow> call \<Rightarrow> config_target option \<Rightarrow> ('c, 't, 'm, 'k, 'a) handler" where
  "handleCreateTarget B cl body st = (case body of None \<Rightarrow> (400, st) | Some c \<Rightarrow>
     let name = trim_space (ctName c); epType = normalizeEndpointType (ctEndpointType c);
         endpoint = trim_space (ctEndpoint c); apiKey = trim_space (ctAPIKey c) in
     if name = [] then (400, st)
     else if \<not> isValidEndpointType epType then (400, st)
     else if endpoint = [] then (400, st)
     else if apiKey = [] \<and> \<not> ctAllowBearer c then (400, st)
     else if \<not> valid_mappings {} {} (ctModelMappings c) then (400, st)
     else if validateCustomHeaders (ctCustomHeaders c) \<noteq> None then (400, st)
     else if validateCustomBody (ctCustomBody c) \<noteq> None then (400, st)
     else case current_targets B st of (None, st) \<Rightarrow> (500, st)
     | (Some ts, st) \<Rightarrow>
        if \<exists>t \<in> set ts. has_name name t then (409, st) else
        let t = \<lparr>stTarget = c\<lparr>ctName := name, ctEndpointType := epType, ctEndpoint := endpoint, ctAPIKey := apiKey\<rparr>,
                 stResourcePathPrefix = [], stProviderClass = [], stAllowedModels = []\<rparr>
        in commit_targets B cl (Create_target t) (ts @ [t]) ''create_target'' name 201 st)"

section \<open>Changing a target\<close>

record target_patch =
  tpEndpointType :: string
  tpEndpoint :: string
  tpAPIKey :: "string option"
  tpAPIKeys :: "string list option"
  tpKeyResetTime :: "string option"
  tpPaused :: "bool option"
  tpAllowBearer :: bool
  tpAuthMode :: "string option"
  tpImageOperation :: "string option"
  tpModelMappings :: "model_mapping list option"
  tpSSEAutoAggregate :: "bool option"
  tpOpenAIPrefix :: "string option"
  tpAnthropicPrefix :: "string option"
  tpSupportsResponses :: "bool option"
  tpCustomHeaders :: "(string \<times> string) list option"
  tpCustomBody :: "(string \<times> json) list option"

definition existingTargetKeys :: "config_target \<Rightarrow> string list" where
  "existingTargetKeys c = ctAPIKey c # ctAPIKeys c"

definition existingTargetKeyRefPrefix :: string where "existingTargetKeyRefPrefix = ''__existing_key_index__:''"

text \<open>The keys whose mask was submitted: none, the last one so far, or \<open>None\<close> when there are two.\<close>

fun masked_match :: "string \<Rightarrow> string \<Rightarrow> string list \<Rightarrow> string option" where
  "masked_match s found [] = Some found"
| "masked_match s found (k # ks) = (if k \<noteq> [] \<and> s = maskKey k then (if found \<noteq> [] then None else masked_match s k ks)
     else masked_match s found ks)"

definition looksLikeMaskedTargetKey :: "string \<Rightarrow> bool" where
  "looksLikeMaskedTargetKey v = (v = ''****'' \<or> contains v ''...'')"

text \<open>\<open>None\<close> is an error.\<close>

definition resolveSubmittedTargetKey :: "string \<Rightarrow> string list \<Rightarrow> string option" where
  "resolveSubmittedTargetKey submitted existing = (let s = trim_space submitted in
     if s = [] then Some []
     else if has_prefix s existingTargetKeyRefPrefix then
       (case atoi (drop (length existingTargetKeyRefPrefix) s) of None \<Rightarrow> None
        | Some i \<Rightarrow> if i < 0 \<or> int (length existing) \<le> i \<or> existing ! nat i = [] then None else Some (existing ! nat i))
     else case masked_match s [] existing of None \<Rightarrow> None
     | Some k \<Rightarrow> if k \<noteq> [] then Some k else if looksLikeMaskedTargetKey s then None else Some s)"

fun resolve_keys :: "string list \<Rightarrow> string list \<Rightarrow> string list option" where
  "resolve_keys existing [] = Some []"
| "resolve_keys existing (k # ks) = (case resolveSubmittedTargetKey k existing of None \<Rightarrow> None
     | Some r \<Rightarrow> map_option (\<lambda>rs. if r \<noteq> [] then r # rs else rs) (resolve_keys existing ks))"

definition or_keep :: "'a option \<Rightarrow> 'a \<Rightarrow> 'a" where
  "or_keep o' x = (case o' of None \<Rightarrow> x | Some y \<Rightarrow> y)"

text \<open>The changes to the target, or \<open>None\<close> for a bad request.\<close>

definition patch_target :: "target_patch \<Rightarrow> config_target \<Rightarrow> config_target option" where
  "patch_target p c =
     (let existing = existingTargetKeys c; ep = normalizeEndpointType (tpEndpointType p) in
      if tpEndpointType p \<noteq> [] \<and> \<not> isValidEndpointType ep then None
      else case (case tpAPIKey p of None \<Rightarrow> Some (ctAPIKey c) | Some k \<Rightarrow> resolveSubmittedTargetKey k existing) of None \<Rightarrow> None
      | Some key \<Rightarrow>
        (case (case tpAPIKeys p of None \<Rightarrow> Some (ctAPIKeys c) | Some ks \<Rightarrow> resolve_keys existing ks) of None \<Rightarrow> None
         | Some keys \<Rightarrow>
            if key = [] \<and> \<not> tpAllowBearer p then None
            else Some (c\<lparr>ctEndpointType := (if tpEndpointType p \<noteq> [] then ep else ctEndpointType c),
              ctEndpoint := (if tpEndpoint p \<noteq> [] then trim_space (tpEndpoint p) else ctEndpoint c),
              ctAPIKey := key, ctAPIKeys := keys, ctAllowBearer := tpAllowBearer p,
              ctModelMappings := or_keep (tpModelMappings p) (ctModelMappings c),
              ctAuthMode := or_keep (map_option trim_space (tpAuthMode p)) (ctAuthMode c),
              ctImageOperation := or_keep (map_option normalizeImageOperation (tpImageOperation p)) (ctImageOperation c),
              ctSSEAutoAggregate := (if tpSSEAutoAggregate p \<noteq> None then tpSSEAutoAggregate p else ctSSEAutoAggregate c),
              ctKeyResetTime := or_keep (tpKeyResetTime p) (ctKeyResetTime c),
              ctPaused := or_keep (tpPaused p) (ctPaused c),
              ctOpenAIPrefix := or_keep (tpOpenAIPrefix p) (ctOpenAIPrefix c),
              ctAnthropicPrefix := or_keep (tpAnthropicPrefix p) (ctAnthropicPrefix c),
              ctSupportsResponses := or_keep (tpSupportsResponses p) (ctSupportsResponses c),
              ctCustomHeaders := or_keep (tpCustomHeaders p) (ctCustomHeaders c),
              ctCustomBody := or_keep (tpCustomBody p) (ctCustomBody c)\<rparr>)))"

text \<open>The first target of the name is changed.\<close>

fun change_first :: "(stored_target \<Rightarrow> bool) \<Rightarrow> stored_target \<Rightarrow> stored_target list \<Rightarrow> stored_target list" where
  "change_first P u [] = []"
| "change_first P u (t # ts) = (if P t then u # ts else t # change_first P u ts)"

definition targetNameParam :: "string \<Rightarrow> string option" where
  "targetNameParam raw = (case unescape False raw of None \<Rightarrow> None
     | Some n \<Rightarrow> (let n = trim_space n in if n = [] then None else Some n))"

definition handleUpdateTarget :: "('c, 't, 'm, 'k, 'a) backends \<Rightarrow> call \<Rightarrow> string \<Rightarrow> target_patch option \<Rightarrow> ('c, 't, 'm, 'k, 'a) handler" where
  "handleUpdateTarget B cl raw body st = (case targetNameParam raw of None \<Rightarrow> (400, st) | Some name \<Rightarrow>
     (case body of None \<Rightarrow> (400, st) | Some p \<Rightarrow>
       if \<not> valid_mappings {} {} (or_keep (tpModelMappings p) []) then (400, st)
       else if validateCustomHeaders (or_keep (tpCustomHeaders p) []) \<noteq> None then (400, st)
       else if validateCustomBody (or_keep (tpCustomBody p) []) \<noteq> None then (400, st)
       else case current_targets B st of (None, st) \<Rightarrow> (500, st)
       | (Some ts, st) \<Rightarrow>
         (case find (has_name name) ts of None \<Rightarrow> (404, st)
          | Some t \<Rightarrow> (case patch_target p (stTarget t) of None \<Rightarrow> (400, st)
             | Some c \<Rightarrow> let u = t\<lparr>stTarget := c\<rparr> in
                 commit_targets B cl (Update_target name u) (change_first (has_name name) u ts) ''update_target'' name 200 st))))"

definition handleSetTargetPaused :: "('c, 't, 'm, 'k, 'a) backends \<Rightarrow> call \<Rightarrow> bool \<Rightarrow> string \<Rightarrow> ('c, 't, 'm, 'k, 'a) handler" where
  "handleSetTargetPaused B cl paused raw st = (case targetNameParam raw of None \<Rightarrow> (400, st) | Some name \<Rightarrow>
     (case current_targets B st of (None, st) \<Rightarrow> (500, st)
      | (Some ts, st) \<Rightarrow>
        (case find (has_name name) ts of None \<Rightarrow> (404, st)
         | Some t \<Rightarrow> let u = t\<lparr>stTarget := (stTarget t)\<lparr>ctPaused := paused\<rparr>\<rparr> in
             commit_targets B cl (Update_target name u) (change_first (has_name name) u ts)
               (if paused then ''pause_target'' else ''resume_target'') name 200 st)))"

definition handleDeleteTarget :: "('c, 't, 'm, 'k, 'a) backends \<Rightarrow> call \<Rightarrow> string \<Rightarrow> ('c, 't, 'm, 'k, 'a) handler" where
  "handleDeleteTarget B cl raw st = (case targetNameParam raw of None \<Rightarrow> (400, st) | Some name \<Rightarrow>
     (case current_targets B st of (None, st) \<Rightarrow> (500, st)
      | (Some ts, st) \<Rightarrow> if \<not> (\<exists>t \<in> set ts. has_name name t) then (404, st)
          else commit_targets B cl (Delete_target name) (filter (\<lambda>t. \<not> has_name name t) ts) ''delete_target'' name 200 st))"

section \<open>Reloading the configuration file\<close>

text \<open>
  The file as it is loaded, with its targets, or \<open>None\<close>. The access keys are loaded into a store of
  their own first; the service goes back to the configuration it had when they do not load the second time.
\<close>

definition overlay_targets :: "stored_target list \<Rightarrow> stored_target list \<Rightarrow> stored_target list" where
  "overlay_targets stored cfg = (if stored \<noteq> [] \<or> cfg = [] then stored else cfg)"

definition handleReloadConfig :: "('c, 't, 'm, 'k, 'a) backends \<Rightarrow> call \<Rightarrow> string \<Rightarrow> (config \<times> stored_target list) option \<Rightarrow> ('c, 't, 'm, 'k, 'a) handler" where
  "handleReloadConfig B cl path loaded st = (case loaded of None \<Rightarrow> (500, st) | Some (cfg, cts) \<Rightarrow>
     (case target_list (bkTargets B) (bkMeta B) (adTargets st) of (Inl _, d) \<Rightarrow> (500, st\<lparr>adTargets := d\<rparr>)
      | (Inr stored, d) \<Rightarrow>
        let prev = with_targets (adConfig st) (adConfigTargets st); st = st\<lparr>adTargets := d\<rparr>; ts = overlay_targets stored cts in
        (case client_list (bkClients B) (adClients st) of Inl _ \<Rightarrow> (400, st)
         | Inr cs \<Rightarrow>
        (case loadFromConfig Map.empty (map auth_client cs) of (Some _, _) \<Rightarrow> (400, st)
         | (None, _) \<Rightarrow>
        (case applyConfig (adService st) (with_targets cfg ts) (clNow cl) of (Some _, sv) \<Rightarrow> (400, st\<lparr>adService := sv\<rparr>)
         | (None, sv) \<Rightarrow>
        (case loadFromConfig (adAuth st) (map auth_client cs) of
           (Some _, m) \<Rightarrow> (500, st\<lparr>adService := snd (applyConfig sv prev (clNow cl)), adAuth := m\<rparr>)
         | (None, m) \<Rightarrow> let st = st\<lparr>adService := sv, adAuth := m\<rparr> in
            (case (if ts = [] then (Inr False, adTargets st) else migrateTargetsFromConfig (bkTargets B) (bkMeta B) (adTargets st) ts) of
               (Inl _, d) \<Rightarrow> (500, st\<lparr>adTargets := d\<rparr>)
             | (Inr _, d) \<Rightarrow> (200, recordAudit B cl (st\<lparr>adTargets := d, adConfig := cfg, adConfigTargets := ts\<rparr>) ''config_reload'' path
                 (''targets='' @ int_literal (int (length ts)) @ '' clients='' @ int_literal (int (length cs)))))))))))"

section \<open>Keys of a target\<close>

definition handleBlockTargetKey :: "('c, 't, 'm, 'k, 'a) backends \<Rightarrow> call \<Rightarrow> string \<Rightarrow> string \<Rightarrow> ('c, 't, 'm, 'k, 'a) handler" where
  "handleBlockTargetKey B cl raw index st = (case (targetNameParam raw, atoi index) of
     (Some name, Some i) \<Rightarrow> (case block_key (adService st) name i of (Some _, sv) \<Rightarrow> (404, st\<lparr>adService := sv\<rparr>)
       | (None, sv) \<Rightarrow> (200, recordAudit B cl (st\<lparr>adService := sv\<rparr>) ''block_target_key'' name (''key_index='' @ int_literal i)))
   | _ \<Rightarrow> (400, st))"

definition handleUnblockTargetKey :: "('c, 't, 'm, 'k, 'a) backends \<Rightarrow> call \<Rightarrow> string \<Rightarrow> string \<Rightarrow> ('c, 't, 'm, 'k, 'a) handler" where
  "handleUnblockTargetKey B cl raw index st = (case (targetNameParam raw, atoi index) of
     (Some name, Some i) \<Rightarrow> (case unblock_key (adService st) name i of (Some _, sv) \<Rightarrow> (404, st\<lparr>adService := sv\<rparr>)
       | (None, sv) \<Rightarrow> (200, recordAudit B cl (st\<lparr>adService := sv\<rparr>) ''unblock_target_key'' name (''key_index='' @ int_literal i)))
   | _ \<Rightarrow> (400, st))"

definition handleWakeUpTargetKeys :: "'w net \<Rightarrow> ('c, 't, 'm, 'k, 'a) backends \<Rightarrow> call \<Rightarrow> string \<Rightarrow> ('c, 't, 'm, 'k, 'a) admin \<Rightarrow> 'w \<Rightarrow>
    (int \<times> ('c, 't, 'm, 'k, 'a) admin) \<times> 'w" where
  "handleWakeUpTargetKeys net B cl raw st w = (case targetNameParam raw of None \<Rightarrow> ((400, st), w)
     | Some name \<Rightarrow> (case wakeUpKeys net (adService st) name w of
         (Inl _, sv, w) \<Rightarrow> ((404, st\<lparr>adService := sv\<rparr>), w)
       | (Inr n, sv, w) \<Rightarrow> ((200, recordAudit B cl (st\<lparr>adService := sv\<rparr>) ''wakeup_target_keys'' name (''recovered='' @ int_literal (int n))), w)))"

section \<open>What the list of targets shows of the keys\<close>

definition shown_keys :: "config_target \<Rightarrow> string \<times> string list" where
  "shown_keys c = (if ctAPIKey c \<noteq> [] then maskKey (ctAPIKey c) else [], map maskKey (ctAPIKeys c))"

end
