(* ===== verification/Admin_Session.thy ===== *)
theory Admin_Session
  imports Admin_Stores Go_Json
begin

text \<open>
  Logging in to the admin interface (\<open>internal/admin/session.go\<close>, \<open>users.go\<close>, \<open>portal.go\<close>): password
  hashes, sessions in memory with signed cookies, and the middleware in front of the admin routes.
  The hash functions of the standard library are arguments: \<open>mac\<close> for HMAC-SHA256 of a key and a
  message, \<open>sha\<close> for SHA-256. A generated session id, a salt and the clock's readings are arguments
  of the operations that take them. The cookies of a request are its parsed cookies.
\<close>

section \<open>Passwords\<close>

definition hex_encode :: "string \<Rightarrow> string" where
  "hex_encode s = concat (map (\<lambda>c. [hex_low (of_char c div 16), hex_low (of_char c mod 16)]) s)"

definition hashPassword :: "(string \<Rightarrow> string) \<Rightarrow> string \<Rightarrow> string \<Rightarrow> string" where
  "hashPassword sha password salt =
     ''sha256$'' @ trim_space salt @ ''$'' @ hex_encode (sha (trim_space salt @ '':'' @ password))"

text \<open>\<open>None\<close> for an encoding that is not supported.\<close>

definition verifyPasswordHash :: "(string \<Rightarrow> string) \<Rightarrow> string \<Rightarrow> string \<Rightarrow> bool option" where
  "verifyPasswordHash sha encoded password = (let encoded = trim_space encoded in
     case split_char (CHR ''$'') encoded of
       [alg, salt, _] \<Rightarrow> if alg \<noteq> ''sha256'' then None
         else Some (hashPassword sha password salt = to_lower (trim_space encoded))
     | _ \<Rightarrow> None)"

text \<open>\<open>HashPasswordWithRandomSalt\<close>, on the sixteen bytes it reads.\<close>

definition hashWithSaltBytes :: "(string \<Rightarrow> string) \<Rightarrow> string \<Rightarrow> string \<Rightarrow> string" where
  "hashWithSaltBytes sha password bytes = hashPassword sha password (hex_encode bytes)"

datatype login_error = Invalid_credentials | Account_disabled | Bad_hash

definition authenticateUser :: "(string \<Rightarrow> string) \<Rightarrow> ('b, admin_user) kv \<Rightarrow> 'b \<Rightarrow> string \<Rightarrow> string \<Rightarrow> login_error + admin_user" where
  "authenticateUser sha kv b username password = (let username = trim_space username in
     if username = [] then Inl Invalid_credentials
     else case user_get kv b username of Inl _ \<Rightarrow> Inl Invalid_credentials
     | Inr u \<Rightarrow> if auDisabled u then Inl Account_disabled
         else case verifyPasswordHash sha (auPasswordHash u) password of None \<Rightarrow> Inl Bad_hash
         | Some ok \<Rightarrow> if \<not> ok then Inl Invalid_credentials
             else Inr (if trim_space (auRole u) = [] then u\<lparr>auRole := ''admin''\<rparr> else u))"

section \<open>Sessions\<close>

record session_config =
  scCookieName :: string
  scSecret :: string
  scTTLSeconds :: int
  scSliding :: bool
  scSecure :: bool

record session =
  seID :: string
  seUsername :: string
  seRole :: string
  seCreatedAt :: time
  seLastSeen :: time
  seExpiresAt :: time

record session_manager =
  smSecret :: string
  smConfig :: session_config
  smSessions :: "string \<rightharpoonup> session"

record cookie =
  ckName :: string
  ckValue :: string
  ckSecure :: bool
  ckMaxAge :: int
  ckExpires :: time

type_synonym mac = "string \<Rightarrow> string \<Rightarrow> string"

definition newSessionManager :: "session_config \<Rightarrow> session_manager" where
  "newSessionManager c = \<lparr>smSecret = trim_space (scSecret c), smConfig = c, smSessions = Map.empty\<rparr>"

definition updateSessionConfig :: "session_manager \<Rightarrow> session_config \<Rightarrow> session_manager" where
  "updateSessionConfig m c = m\<lparr>smSecret := trim_space (scSecret c), smConfig := c\<rparr>"

definition sign :: "mac \<Rightarrow> session_manager \<Rightarrow> string \<Rightarrow> string" where
  "sign mac m ident = ident @ ''.'' @ hex_encode (mac (smSecret m) ident)"

text \<open>The comparison of two strings of one length by the disjunction of the differences of their bytes.\<close>

definition constantTimeCompare :: "string \<Rightarrow> string \<Rightarrow> bool" where
  "constantTimeCompare a b = (length a = length b \<and>
     foldl (\<lambda>v (x, y). or v (xor (word_of_nat (code x)) (word_of_nat (code y)))) 0 (zip a b) = (0 :: 8 word))"

definition verifyCookie :: "mac \<Rightarrow> session_manager \<Rightarrow> string \<Rightarrow> string option" where
  "verifyCookie mac m value = (case split_char (CHR ''.'') value of
     [ident, tag] \<Rightarrow> if ident = [] \<or> tag = [] then None
       else if constantTimeCompare (sign mac m ident) value then Some ident else None
   | _ \<Rightarrow> None)"

definition ttl :: "session_manager \<Rightarrow> duration" where "ttl m = seconds (scTTLSeconds (smConfig m))"

text \<open>\<open>now\<close> is when the cookie is made, for a new session the time the session has.\<close>

definition newCookie :: "mac \<Rightarrow> session_manager \<Rightarrow> string \<Rightarrow> time \<Rightarrow> time \<Rightarrow> cookie" where
  "newCookie mac m ident expires now = \<lparr>ckName = scCookieName (smConfig m), ckValue = sign mac m ident,
     ckSecure = scSecure (smConfig m), ckMaxAge = (if now \<le> expires then (expires - now) div 1000000000 else - ((now - expires) div 1000000000)), ckExpires = expires\<rparr>"

definition createSession :: "mac \<Rightarrow> session_manager \<Rightarrow> string \<Rightarrow> time \<Rightarrow> string \<Rightarrow> string \<Rightarrow> session \<times> cookie \<times> session_manager" where
  "createSession mac m ident now username role =
     (let role = (if role = [] then ''admin'' else role);
          s = \<lparr>seID = ident, seUsername = trim_space username, seRole = trim_space role, seCreatedAt = now,
               seLastSeen = now, seExpiresAt = now + ttl m\<rparr>
      in (s, newCookie mac m ident (now + ttl m) now, m\<lparr>smSessions := (smSessions m)(ident \<mapsto> s)\<rparr>))"

definition sessionByID :: "session_manager \<Rightarrow> time \<Rightarrow> string \<Rightarrow> session option \<times> session_manager" where
  "sessionByID m now ident = (case smSessions m ident of None \<Rightarrow> (None, m)
     | Some s \<Rightarrow> if seExpiresAt s < now then (None, m\<lparr>smSessions := (smSessions m)(ident := None)\<rparr>) else (Some s, m))"

definition cookie_id :: "mac \<Rightarrow> session_manager \<Rightarrow> (string \<times> string) list \<Rightarrow> string option" where
  "cookie_id mac m cookies = (case map_of cookies (scCookieName (smConfig m)) of None \<Rightarrow> None | Some v \<Rightarrow> verifyCookie mac m v)"

definition currentSession :: "mac \<Rightarrow> session_manager \<Rightarrow> time \<Rightarrow> (string \<times> string) list \<Rightarrow> session option \<times> session_manager" where
  "currentSession mac m now cookies = (case cookie_id mac m cookies of None \<Rightarrow> (None, m) | Some ident \<Rightarrow> sessionByID m now ident)"

definition touch :: "session_manager \<Rightarrow> time \<Rightarrow> string \<Rightarrow> session option \<times> session_manager" where
  "touch m now ident = (if \<not> scSliding (smConfig m) then sessionByID m now ident
     else case smSessions m ident of None \<Rightarrow> (None, m\<lparr>smSessions := (smSessions m)(ident := None)\<rparr>)
     | Some s \<Rightarrow> if seExpiresAt s < now then (None, m\<lparr>smSessions := (smSessions m)(ident := None)\<rparr>)
         else let s = s\<lparr>seLastSeen := now, seExpiresAt := now + ttl m\<rparr> in (Some s, m\<lparr>smSessions := (smSessions m)(ident \<mapsto> s)\<rparr>))"

text \<open>The cookie that \<open>DestroySession\<close> sets to clear the browser's is not modelled.\<close>

definition destroySession :: "mac \<Rightarrow> session_manager \<Rightarrow> (string \<times> string) list \<Rightarrow> session_manager" where
  "destroySession mac m cookies = (case cookie_id mac m cookies of None \<Rightarrow> m
     | Some ident \<Rightarrow> m\<lparr>smSessions := (smSessions m)(ident := None)\<rparr>)"

datatype gate = Unauthorized_json | To_login | Admitted session "cookie option"

definition unauthorized :: "string \<Rightarrow> string \<Rightarrow> gate" where
  "unauthorized path accept = (if has_prefix path ''/admin/api/'' \<or> contains accept ''application/json'' then Unauthorized_json else To_login)"

text \<open>The session is looked up, and touched at a second reading of the clock.\<close>

definition session_middleware :: "mac \<Rightarrow> session_manager \<Rightarrow> time \<Rightarrow> time \<Rightarrow> (string \<times> string) list \<Rightarrow> string \<Rightarrow> string \<Rightarrow> gate \<times> session_manager" where
  "session_middleware mac m now1 now2 cookies path accept =
     (case currentSession mac m now1 cookies of (None, m1) \<Rightarrow> (unauthorized path accept, m1)
      | (Some s, m1) \<Rightarrow> (case touch m1 now2 (seID s) of
          (Some u, m2) \<Rightarrow> (Admitted u (Some (newCookie mac m2 (seID u) (seExpiresAt u) now2)), m2)
        | (None, m2) \<Rightarrow> (Admitted s None, m2)))"

section \<open>The login page\<close>

definition sanitizeNext :: "string \<Rightarrow> string" where
  "sanitizeNext next = (let next = trim_space next in
     if next = [] then ''/admin'' else if has_prefix next ''/admin'' then next else ''/admin'')"

record ('u, 'a) portal =
  poUsers :: 'u
  poSessions :: session_manager
  poAudit :: 'a

definition portal_audit :: "('a, audit_event) kv \<Rightarrow> string \<Rightarrow> time \<Rightarrow> ('u, 'a) portal \<Rightarrow> string \<Rightarrow> string \<Rightarrow> string \<Rightarrow> string \<Rightarrow> ('u, 'a) portal" where
  "portal_audit akv uuid now p actor action result detail =
     p\<lparr>poAudit := audit_record akv uuid now (poAudit p) \<lparr>aeID = [], aeTimestamp = now,
        aeActor = (if actor = [] then ''unknown'' else actor), aeAction = action, aeObject = [], aeResult = result, aeDetail = detail\<rparr>\<rparr>"

datatype portal_reply = Login_page int | Redirected string "cookie option"

text \<open>The text of a login error, as the audit log keeps it, is an argument.\<close>

definition handleLogin :: "mac \<Rightarrow> (string \<Rightarrow> string) \<Rightarrow> (login_error \<Rightarrow> string) \<Rightarrow> ('u, admin_user) kv \<Rightarrow> ('a, audit_event) kv \<Rightarrow> string \<Rightarrow> string \<Rightarrow>
    time \<Rightarrow> ('u, 'a) portal \<Rightarrow> string \<Rightarrow> string \<Rightarrow> string \<Rightarrow> portal_reply \<times> ('u, 'a) portal" where
  "handleLogin mac sha err ukv akv uuid ident now p username0 password next0 =
     (let username = trim_space username0; next1 = trim_space next0; next = (if next1 = [] then ''/admin'' else next1) in
      case authenticateUser sha ukv (poUsers p) username password of
        Inl e \<Rightarrow> (Login_page 401, portal_audit akv uuid now p username ''login'' ''failure'' (err e))
      | Inr u \<Rightarrow> (let (s, c, m) = createSession mac (poSessions p) ident now (auUsername u) (auRole u) in
          (Redirected (sanitizeNext next) (Some c),
           portal_audit akv uuid now (p\<lparr>poSessions := m\<rparr>) (seUsername s) ''login'' ''success'' ''session created'')))"

definition handleLoginPage :: "mac \<Rightarrow> time \<Rightarrow> ('u, 'a) portal \<Rightarrow> (string \<times> string) list \<Rightarrow> portal_reply \<times> ('u, 'a) portal" where
  "handleLoginPage mac now p cookies = (case currentSession mac (poSessions p) now cookies of
     (s, m) \<Rightarrow> (if s \<noteq> None then Redirected ''/admin'' None else Login_page 200, p\<lparr>poSessions := m\<rparr>))"

definition handleLogout :: "mac \<Rightarrow> ('a, audit_event) kv \<Rightarrow> string \<Rightarrow> time \<Rightarrow> ('u, 'a) portal \<Rightarrow> (string \<times> string) list \<Rightarrow> portal_reply \<times> ('u, 'a) portal" where
  "handleLogout mac akv uuid now p cookies =
     (let (s, m) = currentSession mac (poSessions p) now cookies; p1 = p\<lparr>poSessions := m\<rparr>;
          p2 = (case s of None \<Rightarrow> p1 | Some s \<Rightarrow> portal_audit akv uuid now p1 (seUsername s) ''logout'' ''success'' ''session destroyed'')
      in (Redirected ''/login'' None, p2\<lparr>poSessions := destroySession mac (poSessions p2) cookies\<rparr>))"

section \<open>Changing the password\<close>

text \<open>The status of the answer; \<open>session\<close> is the session the middleware has put into the request.\<close>

definition handleChangePassword :: "(string \<Rightarrow> string) \<Rightarrow> ('u, admin_user) kv \<Rightarrow> ('a, audit_event) kv \<Rightarrow> string \<Rightarrow> string \<Rightarrow> time \<Rightarrow>
    session option \<Rightarrow> ('u, 'a) portal \<Rightarrow> (string \<times> string) option \<Rightarrow> int \<times> ('u, 'a) portal" where
  "handleChangePassword sha ukv akv uuid salt now session p body =
     (case session of None \<Rightarrow> (401, p) | Some s \<Rightarrow>
      (case body of None \<Rightarrow> (400, p) | Some (old, new) \<Rightarrow>
        if trim_space old = [] \<or> trim_space new = [] then (400, p)
        else if length new < 6 then (400, p)
        else case authenticateUser sha ukv (poUsers p) (seUsername s) old of Inl _ \<Rightarrow> (403, p)
        | Inr _ \<Rightarrow>
          (case user_get ukv (poUsers p) (seUsername s) of Inl _ \<Rightarrow> (500, p)
           | Inr u \<Rightarrow> (case user_update ukv (poUsers p) (seUsername s) (u\<lparr>auPasswordHash := hashWithSaltBytes sha new salt\<rparr>) of
               Inl _ \<Rightarrow> (500, p)
             | Inr b \<Rightarrow> (200, p\<lparr>poUsers := b, poAudit := audit_record akv uuid now (poAudit p) \<lparr>aeID = [], aeTimestamp = now,
                 aeActor = (if trim_space (seUsername s) = [] then ''system'' else seUsername s), aeAction = ''change_password'',
                 aeObject = seUsername s, aeResult = ''success'', aeDetail = []\<rparr>\<rparr>)))))"

section \<open>Sequences of steps\<close>

datatype session_op = Op_login string time string string
  | Op_gate time time "(string \<times> string) list"
  | Op_page time "(string \<times> string) list"
  | Op_logout "(string \<times> string) list"
  | Op_config session_config

fun session_apply :: "mac \<Rightarrow> session_manager \<Rightarrow> session_op \<Rightarrow> session_manager" where
  "session_apply mac m (Op_login ident now user role) = snd (snd (createSession mac m ident now user role))"
| "session_apply mac m (Op_gate t1 t2 cookies) = snd (session_middleware mac m t1 t2 cookies [] [])"
| "session_apply mac m (Op_page t cookies) = snd (currentSession mac m t cookies)"
| "session_apply mac m (Op_logout cookies) = destroySession mac m cookies"
| "session_apply mac m (Op_config c) = updateSessionConfig m c"

fun logs_in :: "string \<Rightarrow> session_op \<Rightarrow> bool" where
  "logs_in i (Op_login ident _ _ _) = (ident = i)"
| "logs_in i _ = False"

definition sessions_ok :: "session_manager \<Rightarrow> bool" where
  "sessions_ok m = (\<forall>i s. smSessions m i = Some s \<longrightarrow> seID s = i)"

section \<open>Properties\<close>

lemma hex_low_plain: "n < 16 \<Longrightarrow> hex_low n \<in> set ''0123456789abcdef''"
proof -
  have "list_all (\<lambda>n. hex_low n \<in> set ''0123456789abcdef'') [0..<16]" by code_simp
  then show "n < 16 \<Longrightarrow> hex_low n \<in> set ''0123456789abcdef''" by (simp only: list_all_iff) simp
qed

lemma hex_plain:
  assumes "c \<in> set (hex_encode s)"
  shows "c \<noteq> CHR ''.''" "c \<noteq> CHR ''$''" "lower_char c = c" "\<not> is_space c"
proof -
  obtain d where d: "d \<in> set s" "c = hex_low (of_char d div 16) \<or> c = hex_low (of_char d mod 16)"
    using assms by (auto simp: hex_encode_def)
  have "(of_char d :: nat) div 16 < 16" "(of_char d :: nat) mod 16 < 16" using of_char_less[of d] by (simp_all add: div_less_iff_less_mult)
  then have "c \<in> set ''0123456789abcdef''" using d(2) hex_low_plain by blast
  moreover have "list_all (\<lambda>c. c \<noteq> CHR ''.'' \<and> c \<noteq> CHR ''$'' \<and> lower_char c = c \<and> \<not> is_space c) ''0123456789abcdef''" by code_simp
  ultimately show "c \<noteq> CHR ''.''" "c \<noteq> CHR ''$''" "lower_char c = c" "\<not> is_space c" unfolding list_all_iff by blast+
qed

lemma hex_lower: "to_lower (hex_encode s) = hex_encode s"
  unfolding to_lower_def by (rule map_idI) (rule hex_plain)

lemma hex_empty [simp]: "hex_encode s = [] \<longleftrightarrow> s = []"
  by (cases s) (simp_all add: hex_encode_def)

lemma hex_ends: "hex_encode s = [] \<or> \<not> is_space (hd (hex_encode s)) \<and> \<not> is_space (last (hex_encode s))"
  using hex_plain(4) hd_in_set last_in_set by blast

lemma compare_bytes:
  "foldl (\<lambda>v (x, y). or v (xor (word_of_nat (code x)) (word_of_nat (code y)))) (v :: 8 word) ps = 0 \<longleftrightarrow>
     v = 0 \<and> (\<forall>(x, y) \<in> set ps. x = y)"
proof (induction ps arbitrary: v)
  case (Cons p ps)
  obtain x y where p: "p = (x, y)" by force
  have inj: "(word_of_nat (code x) :: 8 word) = word_of_nat (code y) \<longleftrightarrow> x = y"
    using code_less[of x] code_less[of y] by (simp add: word_of_nat_eq_iff take_bit_nat_eq_self) (simp add: code_def)
  have "xor a b = 0 \<longleftrightarrow> a = b" for a b :: "8 word"
    by (metis xor.left_neutral xor.right_neutral xor_self_eq xor.assoc)
  then show ?case unfolding p foldl_Cons by (simp add: Cons.IH or_eq_0_iff inj)
qed simp

lemma constantTimeCompare_iff: "constantTimeCompare a b \<longleftrightarrow> a = b"
proof -
  have "length a = length b \<Longrightarrow> (\<forall>(x, y) \<in> set (zip a b). x = y) \<longleftrightarrow> a = b"
    by (induction a b rule: list_induct2) auto
  then show ?thesis by (auto simp: constantTimeCompare_def compare_bytes)
qed

lemma split_char_parts: "join_char c (split_char c v) = v \<and> split_char c v \<noteq> [] \<and> (\<forall>x \<in> set (split_char c v). c \<notin> set x)"
proof (induction v)
  case (Cons x v)
  obtain y ys where y: "split_char c v = y # ys" using Cons by (cases "split_char c v") auto
  then show ?case using Cons by (cases ys) auto
qed simp

lemma split_two: "split_char c v = [a, b] \<longleftrightarrow> v = a @ c # b \<and> c \<notin> set a \<and> c \<notin> set b"
  using split_char_parts[of c v] by (auto simp: split_char_append split_char_no)

lemma verify_signed:
  assumes "\<And>k i. mac k i \<noteq> []"
  shows "verifyCookie mac m v = Some i \<longleftrightarrow> v = sign mac m i \<and> i \<noteq> [] \<and> CHR ''.'' \<notin> set i"
proof
  assume v: "verifyCookie mac m v = Some i"
  then obtain tag where t: "split_char (CHR ''.'') v = [i, tag]" "i \<noteq> []" "sign mac m i = v"
    by (auto simp: verifyCookie_def constantTimeCompare_iff split: list.splits if_splits)
  then show "v = sign mac m i \<and> i \<noteq> [] \<and> CHR ''.'' \<notin> set i" by (auto simp: split_two)
next
  assume v: "v = sign mac m i \<and> i \<noteq> [] \<and> CHR ''.'' \<notin> set i"
  have "CHR ''.'' \<notin> set (hex_encode (mac (smSecret m) i))" using hex_plain(1) by blast
  then have "split_char (CHR ''.'') v = [i, hex_encode (mac (smSecret m) i)]"
    using v unfolding split_two by (simp add: sign_def)
  then show "verifyCookie mac m v = Some i"
    using v assms by (simp add: verifyCookie_def constantTimeCompare_iff)
qed

text \<open>
  A cookie verifies as a session id exactly when it is the signature of that id under the
  current secret, the id being one the program can have signed: not empty and without a dot.
\<close>

theorem verifyCookie_iff:
  assumes "\<And>k i. mac k i \<noteq> []"
  shows "verifyCookie mac m v = Some i \<longleftrightarrow> v = sign mac m i \<and> i \<noteq> [] \<and> CHR ''.'' \<notin> set i"
  by (rule verify_signed[OF assms])

text \<open>
  C12: after a login, a request that carries the cookie of the answer is let through as the user who
  has logged in, as long as the session has not expired.
\<close>

theorem login_then_admitted:
  assumes "\<And>k i. mac k i \<noteq> []" "ident \<noteq> []" "CHR ''.'' \<notin> set ident"
    "handleLogin mac sha err ukv akv uuid ident now p username password next = (Redirected loc (Some c), p')"
    "t1 \<le> ckExpires c"
  shows "\<exists>u s k m. authenticateUser sha ukv (poUsers p) (trim_space username) password = Inr u \<and>
    session_middleware mac (poSessions p') t1 t2 [(ckName c, ckValue c)] path accept = (Admitted s k, m) \<and>
    seUsername s = trim_space (auUsername u)"
proof -
  obtain u where u: "authenticateUser sha ukv (poUsers p) (trim_space username) password = Inr u"
      "c = newCookie mac (poSessions p) ident (now + ttl (poSessions p)) now"
      "poSessions p' = (poSessions p)\<lparr>smSessions := (smSessions (poSessions p))(ident \<mapsto>
         \<lparr>seID = ident, seUsername = trim_space (auUsername u), seRole = trim_space (if auRole u = [] then ''admin'' else auRole u),
           seCreatedAt = now, seLastSeen = now, seExpiresAt = now + ttl (poSessions p)\<rparr>)\<rparr>"
    using assms(4) by (auto simp: handleLogin_def Let_def createSession_def portal_audit_def split: sum.splits)
  have v: "verifyCookie mac (poSessions p') (ckValue c) = Some ident"
    using assms(2,3) by (subst verify_signed[OF assms(1)]) (simp add: u newCookie_def sign_def)
  have n: "ckName c = scCookieName (smConfig (poSessions p'))" and e: "ckExpires c = now + ttl (poSessions p)"
    by (simp_all add: u newCookie_def)
  show ?thesis
    using assms(5) v unfolding e
    by (auto simp: u(1) session_middleware_def currentSession_def cookie_id_def n sessionByID_def touch_def u(3) Let_def
        split: option.split)
qed

lemma byID_ok: "sessionByID m t i = (r, m') \<Longrightarrow> sessions_ok m \<Longrightarrow>
    sessions_ok m' \<and> (smSessions m j = None \<longrightarrow> smSessions m' j = None) \<and> (\<forall>s. r = Some s \<longrightarrow> smSessions m i = Some s \<and> seID s = i)"
  by (auto simp: sessionByID_def sessions_ok_def split: option.splits if_splits)

lemma current_ok: "currentSession mac m t cs = (r, m') \<Longrightarrow> sessions_ok m \<Longrightarrow>
    sessions_ok m' \<and> (smSessions m j = None \<longrightarrow> smSessions m' j = None) \<and> (\<forall>s. r = Some s \<longrightarrow> smSessions m (seID s) = Some s)"
  using byID_ok[of m t _ r m' j] by (auto simp: currentSession_def split: option.splits)

lemma touch_ok: "touch m t i = (r, m') \<Longrightarrow> sessions_ok m \<Longrightarrow>
    sessions_ok m' \<and> (smSessions m j = None \<longrightarrow> smSessions m' j = None) \<and> (\<forall>s. r = Some s \<longrightarrow> seID s = i \<and> smSessions m i \<noteq> None)"
  using byID_ok[of m t i r m' j]
  by (auto simp: touch_def sessions_ok_def Let_def split: option.splits if_splits)

lemma gate_ok:
  assumes "session_middleware mac m t1 t2 cs path accept = (g, m')" "sessions_ok m"
  shows "sessions_ok m' \<and> (smSessions m j = None \<longrightarrow> smSessions m' j = None) \<and>
    (\<forall>s k. g = Admitted s k \<longrightarrow> smSessions m (seID s) \<noteq> None)"
proof -
  obtain r m1 where c: "currentSession mac m t1 cs = (r, m1)" by force
  note cur = current_ok[OF c assms(2)]
  show ?thesis
  proof (cases r)
    case None
    then show ?thesis using assms(1) c cur[of j] by (auto simp: session_middleware_def unauthorized_def split: if_splits)
  next
    case (Some s)
    obtain u m2 where t: "touch m1 t2 (seID s) = (u, m2)" by force
    have to: "\<And>j. sessions_ok m2 \<and> (smSessions m1 j = None \<longrightarrow> smSessions m2 j = None) \<and> (\<forall>x. u = Some x \<longrightarrow> seID x = seID s \<and> smSessions m1 (seID s) \<noteq> None)"
      using touch_ok[OF t] cur by blast
    have m: "m' = m2" and g: "\<exists>x k. g = Admitted x k \<and> seID x = seID s"
    proof -
      have id: "\<And>x. u = Some x \<Longrightarrow> seID x = seID s" using to by blast
      have "(g, m') = (case u of Some x \<Rightarrow> (Admitted x (Some (newCookie mac m2 (seID x) (seExpiresAt x) t2)), m2) | None \<Rightarrow> (Admitted s None, m2))"
        using assms(1) by (cases u) (auto simp: session_middleware_def c Some t)
      then have e: "m' = m2 \<and> (g = Admitted s None \<or> (\<exists>x k. u = Some x \<and> g = Admitted x k))" by (auto split: option.splits)
      then show "m' = m2" by blast
      show "\<exists>x k. g = Admitted x k \<and> seID x = seID s" using e id by blast
    qed
    have "smSessions m (seID s) = Some s" using cur Some by blast
    then show ?thesis using to[of j] cur[of j] g unfolding m by force
  qed
qed

lemma apply_ok:
  assumes "sessions_ok m"
  shows "sessions_ok (session_apply mac m op) \<and> (\<not> logs_in j op \<longrightarrow> smSessions m j = None \<longrightarrow> smSessions (session_apply mac m op) j = None)"
proof (cases op)
  case (Op_login ident now user role)
  then show ?thesis using assms by (auto simp: createSession_def Let_def sessions_ok_def)
next
  case (Op_gate t1 t2 cs)
  then show ?thesis using gate_ok[OF _ assms, of mac t1 t2 cs "[]" "[]" _ _ j] by (metis prod.collapse session_apply.simps(2))
next
  case (Op_page t cs)
  then show ?thesis using current_ok[OF _ assms, of mac t cs _ _ j] by (metis prod.collapse session_apply.simps(3))
qed (use assms in \<open>auto simp: destroySession_def updateSessionConfig_def sessions_ok_def split: option.splits\<close>)

lemma run_ok: "sessions_ok m \<Longrightarrow> sessions_ok (foldl (session_apply mac) m ops) \<and>
    ((\<forall>op \<in> set ops. \<not> logs_in j op) \<longrightarrow> smSessions m j = None \<longrightarrow> smSessions (foldl (session_apply mac) m ops) j = None)"
proof (induction ops arbitrary: m)
  case (Cons op ops)
  show ?case using Cons.IH apply_ok[OF Cons.prems, of mac op j] by auto
qed simp

text \<open>
  C13: a session that has logged out stays out: whatever happens afterwards, short of a new session
  being given the same random id, no request is let through with that session again.
\<close>

theorem logged_out_stays_out:
  assumes "m = foldl (session_apply mac) (newSessionManager cfg) before" "cookie_id mac m cookies = Some i"
    "\<forall>op \<in> set later. \<not> logs_in i op"
    "session_middleware mac (foldl (session_apply mac) (destroySession mac m cookies) later) t1 t2 cs path accept = (Admitted s k, m')"
  shows "seID s \<noteq> i"
proof
  assume i: "seID s = i"
  let ?d = "destroySession mac m cookies"
  have "sessions_ok (newSessionManager cfg)" by (simp add: newSessionManager_def sessions_ok_def)
  then have "sessions_ok m" using run_ok assms(1) by blast
  then have "sessions_ok ?d" "smSessions ?d i = None"
    using assms(2) by (auto simp: destroySession_def sessions_ok_def)
  then have "sessions_ok (foldl (session_apply mac) ?d later)" "smSessions (foldl (session_apply mac) ?d later) i = None"
    using run_ok assms(3) by blast+
  then show False using gate_ok[OF assms(4)] i by blast
qed

lemma hash_verifies:
  assumes "CHR ''$'' \<notin> set (trim_space salt)" "to_lower (trim_space salt) = trim_space salt" "sha (trim_space salt @ '':'' @ pw) \<noteq> []"
  shows "verifyPasswordHash sha (hashPassword sha pw salt) pw = Some True"
proof -
  let ?s = "trim_space salt" and ?h = "hex_encode (sha (trim_space salt @ '':'' @ pw))"
  have e: "hashPassword sha pw salt = ''sha256'' @ CHR ''$'' # ?s @ CHR ''$'' # ?h" by (simp add: hashPassword_def)
  have tr: "trim_space (''sha256'' @ CHR ''$'' # ?s @ CHR ''$'' # ?h) = ''sha256'' @ CHR ''$'' # ?s @ CHR ''$'' # ?h"
  proof (rule trim_space_fix, rule disjI2, rule conjI)
    show "\<not> is_space (hd (''sha256'' @ CHR ''$'' # ?s @ CHR ''$'' # ?h))" by (simp add: is_space_def)
    show "\<not> is_space (last (''sha256'' @ CHR ''$'' # ?s @ CHR ''$'' # ?h))" using assms(3) hex_ends[of "sha (trim_space salt @ '':'' @ pw)"] by simp
  qed
  have "CHR ''$'' \<notin> set ?h" using hex_plain(2) by blast
  then have "split_char (CHR ''$'') (?s @ CHR ''$'' # ?h) = [?s, ?h]" using assms(1) by (simp add: split_char_append split_char_no)
  then have "split_char (CHR ''$'') (''sha256'' @ CHR ''$'' # ?s @ CHR ''$'' # ?h) = [''sha256'', ?s, ?h]"
    by (subst split_char_append) simp_all
  moreover have "to_lower (''sha256'' @ CHR ''$'' # ?s @ CHR ''$'' # ?h) = ''sha256'' @ CHR ''$'' # ?s @ CHR ''$'' # ?h"
    using assms(2) hex_lower by (simp add: to_lower_def lower_char_def)
  ultimately show ?thesis
    unfolding verifyPasswordHash_def Let_def e tr by (simp add: hashPassword_def)
qed

text \<open>A salt with a capital letter makes a hash that no password verifies against.\<close>

lemma capital_salt_never_verifies:
  assumes "verifyPasswordHash sha encoded pw = Some True" "split_char (CHR ''$'') (trim_space encoded) = [alg, salt, h]"
  shows "to_lower (trim_space salt) = trim_space salt"
proof -
  have "hashPassword sha pw salt = to_lower (trim_space encoded)"
    using assms by (auto simp: verifyPasswordHash_def Let_def split: if_splits)
  then have "to_lower (hashPassword sha pw salt) = hashPassword sha pw salt" by simp
  then have "''sha256$'' @ to_lower (trim_space salt) @ to_lower (''$'' @ hex_encode (sha (trim_space salt @ '':'' @ pw))) =
      ''sha256$'' @ trim_space salt @ ''$'' @ hex_encode (sha (trim_space salt @ '':'' @ pw))"
    by (simp add: hashPassword_def) (simp add: to_lower_def lower_char_def)
  then show ?thesis by (simp add: append_eq_append_conv)
qed

lemma salted_hash_verifies:
  assumes "\<And>x. sha x \<noteq> []"
  shows "verifyPasswordHash sha (hashWithSaltBytes sha pw salt) pw = Some True"
  unfolding hashWithSaltBytes_def
proof (rule hash_verifies)
  have t: "trim_space (hex_encode salt) = hex_encode salt" by (rule trim_space_fix) (rule hex_ends)
  show "CHR ''$'' \<notin> set (trim_space (hex_encode salt))" using hex_plain(2) by (auto simp: t)
  show "to_lower (trim_space (hex_encode salt)) = trim_space (hex_encode salt)" by (simp add: t hex_lower)
qed (rule assms)

text \<open>
  When changing a password succeeds, the user who is logged in can log in with the new password.
\<close>

theorem changed_password_works:
  assumes "ordered_bucket ukv" "\<And>x. sha x \<noteq> []"
    "handleChangePassword sha ukv akv uuid salt now (Some s) p (Some (old, new)) = (200, p')"
  shows "\<exists>u. authenticateUser sha ukv (poUsers p') (seUsername s) new = Inr u"
proof -
  let ?n = "trim_space (seUsername s)"
  obtain u b where u: "authenticateUser sha ukv (poUsers p) (seUsername s) old \<noteq> Inl Account_disabled"
      "user_get ukv (poUsers p) (seUsername s) = Inr u" "?n \<noteq> []"
      "user_update ukv (poUsers p) (seUsername s) (u\<lparr>auPasswordHash := hashWithSaltBytes sha new salt\<rparr>) = Inr b"
      "poUsers p' = b"
    using assms(3) by (auto simp: handleChangePassword_def user_get_def Let_def split: if_splits sum.splits)
  have dis: "\<not> auDisabled u"
    using u(1-3) by (auto simp: authenticateUser_def user_get_def Let_def split: if_splits)
  obtain v where v: "b = kvPut ukv (poUsers p) (to_lower ?n) (Some v)" "auPasswordHash v = hashWithSaltBytes sha new salt"
      "auDisabled v = auDisabled u"
    using u(4) by (auto simp: user_update_def default_role_def Let_def split: if_splits)
  have "user_get ukv b ?n = Inr v" using u(3) by (simp add: user_get_def v(1) ordered_bucket.get_put[OF assms(1)])
  moreover have "verifyPasswordHash sha (hashWithSaltBytes sha new salt) new = Some True" by (rule salted_hash_verifies[OF assms(2)])
  ultimately show ?thesis using dis u(3) v by (simp add: authenticateUser_def u(5))
qed

section \<open>Concrete inputs\<close>

definition demo_mac :: mac where "demo_mac k i = ''m'' @ k @ i"
definition demo_sha :: "string \<Rightarrow> string" where "demo_sha x = ''h'' @ rev (take 4 (rev x))"

definition demo_session_config :: session_config where
  "demo_session_config = \<lparr>scCookieName = ''c'', scSecret = ''k'', scTTLSeconds = 60, scSliding = True, scSecure = False\<rparr>"

definition demo_user :: admin_user where
  "demo_user = \<lparr>auUsername = ''Bob'', auPasswordHash = hashPassword demo_sha ''pw'' ''01'', auRole = ''admin'', auDisabled = False, auUpdatedAt = []\<rparr>"

definition demo_portal :: "((string \<times> admin_user option) list, (string \<times> audit_event option) list) portal" where
  "demo_portal = \<lparr>poUsers = [(''bob'', Some demo_user)], poSessions = newSessionManager demo_session_config, poAudit = []\<rparr>"

lemma demo_login:
  assumes "to_lower (trim_space name) = ''bob''"
  shows "user_get alist_kv (poUsers demo_portal) name = Inr demo_user"
    "authenticateUser demo_sha alist_kv (poUsers demo_portal) name ''pw'' = Inr demo_user"
proof -
  have t: "trim_space ''01'' = ''01''" "to_lower ''01'' = ''01''" by code_simp+
  have v: "verifyPasswordHash demo_sha (auPasswordHash demo_user) ''pw'' = Some True"
    unfolding demo_user_def admin_user.simps by (rule hash_verifies) (simp_all add: t demo_sha_def)
  have n: "trim_space name \<noteq> []" using assms by auto
  show g: "user_get alist_kv (poUsers demo_portal) name = Inr demo_user"
    using n assms by (simp add: user_get_def demo_portal_def alist_kv_def)
  have "user_get alist_kv (poUsers demo_portal) (trim_space name) = Inr demo_user"
    using n assms by (simp add: user_get_def demo_portal_def alist_kv_def)
  then show "authenticateUser demo_sha alist_kv (poUsers demo_portal) name ''pw'' = Inr demo_user"
    using n v by (simp add: authenticateUser_def) (simp add: demo_user_def)
qed

theorem verifyCookie_iff_witness:
  "verifyCookie demo_mac (newSessionManager demo_session_config) (sign demo_mac (newSessionManager demo_session_config) ''i'') = Some ''i''"
  by (subst verifyCookie_iff) (simp_all add: demo_mac_def)

theorem login_then_admitted_witness:
  "\<exists>s k m. session_middleware demo_mac (poSessions (snd (handleLogin demo_mac demo_sha (\<lambda>_. []) alist_kv alist_kv ''u'' ''i'' 0 demo_portal '' BOB'' ''pw'' [])))
     5 6 [(''c'', sign demo_mac (newSessionManager demo_session_config) ''i'')] ''/admin/'' [] = (Admitted s k, m) \<and> seUsername s = ''Bob''"
proof -
  let ?r = "handleLogin demo_mac demo_sha (\<lambda>_. []) alist_kv alist_kv ''u'' ''i'' 0 demo_portal '' BOB'' ''pw'' []"
  let ?c = "newCookie demo_mac (newSessionManager demo_session_config) ''i'' (seconds 60) 0"
  have a: "authenticateUser demo_sha alist_kv (poUsers demo_portal) (trim_space '' BOB'') ''pw'' = Inr demo_user"
    by (rule demo_login(2)) code_simp
  have f: "trim_space '' BOB'' = ''BOB''" "sanitizeNext ''/admin'' = ''/admin''" "trim_space ''Bob'' = ''Bob''" by code_simp+
  have c: "fst ?r = Redirected ''/admin'' (Some ?c)"
    using a by (simp add: handleLogin_def f createSession_def Let_def demo_portal_def portal_audit_def ttl_def
        newSessionManager_def demo_session_config_def)
  have r: "?r = (Redirected ''/admin'' (Some ?c), snd ?r)" unfolding c[symmetric] by simp
  obtain u s k m where o: "authenticateUser demo_sha alist_kv (poUsers demo_portal) (trim_space '' BOB'') ''pw'' = Inr u"
      "session_middleware demo_mac (poSessions (snd ?r)) 5 6 [(ckName ?c, ckValue ?c)] ''/admin/'' [] = (Admitted s k, m)"
      "seUsername s = trim_space (auUsername u)"
    using login_then_admitted[OF _ _ _ r, of 5 6 "''/admin/''" "[]"]
    by (auto simp: demo_mac_def newCookie_def seconds_def)
  have n: "ckName ?c = ''c''" "ckValue ?c = sign demo_mac (newSessionManager demo_session_config) ''i''"
    by (simp_all add: newCookie_def newSessionManager_def demo_session_config_def)
  have "u = demo_user" using o(1) a by simp
  then have "seUsername s = ''Bob''" using o(3) f(3) by (simp add: demo_user_def)
  then show ?thesis using o(2) unfolding n by blast
qed

theorem logged_out_stays_out_witness:
  "let m = foldl (session_apply demo_mac) (newSessionManager demo_session_config) [Op_login ''i'' 0 ''bob'' [], Op_login ''j'' 0 ''eve'' []];
       cs = [(''c'', sign demo_mac m ''j'')] in
   \<forall>s k m'. session_middleware demo_mac (foldl (session_apply demo_mac) (destroySession demo_mac m [(''c'', sign demo_mac m ''i'')]) [])
     1 2 cs [] [] = (Admitted s k, m') \<longrightarrow> seID s \<noteq> ''i''"
proof -
  let ?m = "foldl (session_apply demo_mac) (newSessionManager demo_session_config) [Op_login ''i'' 0 ''bob'' [], Op_login ''j'' 0 ''eve'' []]"
  have "cookie_id demo_mac ?m [(''c'', sign demo_mac ?m ''i'')] = Some ''i''"
    using verify_signed[of demo_mac ?m "sign demo_mac ?m ''i''" "''i''"]
    by (simp add: cookie_id_def demo_mac_def createSession_def newSessionManager_def demo_session_config_def Let_def)
  from logged_out_stays_out[OF refl this, of "[]"] show ?thesis unfolding Let_def by simp
qed

theorem changed_password_works_witness:
  "\<exists>u. authenticateUser demo_sha alist_kv (poUsers (snd (handleChangePassword demo_sha alist_kv alist_kv ''u'' ''s'' 0
     (Some \<lparr>seID = ''i'', seUsername = ''Bob'', seRole = ''admin'', seCreatedAt = 0, seLastSeen = 0, seExpiresAt = 9\<rparr>)
     demo_portal (Some (''pw'', ''secret''))))) ''Bob'' ''secret'' = Inr u"
proof -
  let ?s = "\<lparr>seID = ''i'', seUsername = ''Bob'', seRole = ''admin'', seCreatedAt = 0, seLastSeen = 0, seExpiresAt = 9 :: time\<rparr>"
  let ?r = "handleChangePassword demo_sha alist_kv alist_kv ''u'' ''s'' 0 (Some ?s) demo_portal (Some (''pw'', ''secret''))"
  have f: "trim_space ''pw'' = ''pw''" "trim_space ''secret'' = ''secret''" "to_lower (trim_space ''Bob'') = ''bob''"
    "trim_space ''Bob'' = ''Bob''" by code_simp+
  have "fst ?r = 200"
    using demo_login[OF f(3)] f
    by (simp add: handleChangePassword_def user_update_def Let_def demo_portal_def alist_kv_def split: sum.split)
  then have "?r = (200, snd ?r)" by (metis prod.collapse)
  from changed_password_works[OF alist.ordered_bucket_axioms _ this] show ?thesis by (simp add: demo_sha_def)
qed

end
