(* ===== verification/Admin_Views.thy ===== *)
theory Admin_Views
  imports Migrate Admin_Handler Admin_Session
begin

text \<open>
  The admin routes that only read (\<open>internal/admin/handler.go\<close>) and the list of usage events they
  show (\<open>List\<close> of \<open>internal/nosql/usage.go\<close>). A handler gives the status of its answer with the data
  that is encoded. Reading the targets may take over those of the configuration, so that listing them
  gives the state as well.
\<close>

section \<open>The list of usage events\<close>

text \<open>
  The rows of the bucket in the order of their keys are read backwards from the upper bound, until a
  key is below the lower one. The bounds are texts that are compared with the keys.
\<close>

definition event_limit :: "int \<Rightarrow> nat" where
  "event_limit n = nat (min (if n \<le> 0 then 200 else n) 2000)"

definition usage_list :: "(string \<times> usage_event option) list \<Rightarrow> usage_filter \<Rightarrow> int \<Rightarrow> usage_event list" where
  "usage_list rows f limit =
     (let below = (case ufTo f of None \<Rightarrow> rows | Some t \<Rightarrow> takeWhile (\<lambda>(k, _). str_less k (rfc3339nano t @ ''_'' @ [CHR 0xFF])) rows);
          scan = takeWhile (\<lambda>(k, _). case ufFrom f of None \<Rightarrow> True | Some t \<Rightarrow> \<not> str_less k (rfc3339nano t)) (rev below) in
      take (event_limit limit) (filterEvents (List.map_filter snd scan) f))"

section \<open>The filter of a request\<close>

text \<open>
  \<open>time.Parse\<close> for the layout \<open>RFC3339\<close>: the fraction of a second, which the layout does not name, and
  the zone. The hour may have one digit.
\<close>

definition parse_fraction :: "string \<Rightarrow> duration \<times> string" where
  "parse_fraction s = (case s of
     c # d # r \<Rightarrow> if (c = CHR ''.'' \<or> c = CHR '','') \<and> is_digit d
       then (let ds = take 9 (takeWhile is_digit (d # r)) in (digits_val ds * 10 ^ (9 - length ds), dropWhile is_digit (d # r)))
       else (0, s)
   | _ \<Rightarrow> (0, s))"

definition parse_zone :: "string \<Rightarrow> (duration \<times> string) option" where
  "parse_zone s = (case s of [] \<Rightarrow> None
   | c # r \<Rightarrow> if c = CHR ''Z'' then Some (0, r)
     else if length s < 6 \<or> s ! 3 \<noteq> CHR '':'' \<or> c \<notin> set ''+-'' then None
     else case (get_num True (take 2 r), get_num True (take 2 (drop 3 r))) of
       (Some (h, _), Some (m, _)) \<Rightarrow> if 24 < h \<or> 60 < m then None
         else Some ((if c = CHR ''+'' then hours h + minutes m else - (hours h + minutes m)), drop 5 r)
     | _ \<Rightarrow> None)"

definition parse_clock :: "string \<Rightarrow> (duration \<times> string) option" where
  "parse_clock s = Option.bind (get_num False s) (\<lambda>(h, s1). if 24 \<le> h then None else
     Option.bind (expect (CHR '':'') s1) (\<lambda>s2. Option.bind (get_num True s2) (\<lambda>(m, s3). if 60 \<le> m then None else
     Option.bind (expect (CHR '':'') s3) (\<lambda>s4. Option.bind (get_num True s4) (\<lambda>(sec, s5). if 60 \<le> sec then None else
     (case parse_fraction s5 of (f, s6) \<Rightarrow> Some (hours h + minutes m + seconds sec + f, s6)))))))"

definition parse_rfc3339 :: "string \<Rightarrow> time option" where
  "parse_rfc3339 s = Option.bind (parse_date s) (\<lambda>(n, s1). Option.bind (expect (CHR ''T'') s1) (\<lambda>s2.
     Option.bind (parse_clock s2) (\<lambda>(c, s3). Option.bind (parse_zone s3) (\<lambda>(off, s4).
     if s4 = [] then Some (midnight 0 n + c - off) else None))))"

text \<open>The outer \<open>None\<close> is an error.\<close>

definition parseTimeValue :: "string \<Rightarrow> time option option" where
  "parseTimeValue raw = (let raw = trim_space raw in if raw = [] then Some None else map_option Some (parse_rfc3339 raw))"

definition query_of :: "request \<Rightarrow> string \<Rightarrow> string" where
  "query_of r k = query_get (parse_query (uRawQuery (rqURL r))) k"

definition parse_limit :: "int \<Rightarrow> string \<Rightarrow> int option" where
  "parse_limit standard raw = (let raw = trim_space raw in if raw = [] then Some standard
     else case atoi raw of None \<Rightarrow> None | Some n \<Rightarrow> if n \<le> 0 then None else Some n)"

definition parseUsageFilter :: "request \<Rightarrow> bool \<Rightarrow> (usage_filter \<times> int) option" where
  "parseUsageFilter r withLimit = Option.bind (parseTimeValue (query_of r ''from'')) (\<lambda>a.
     Option.bind (parseTimeValue (query_of r ''to'')) (\<lambda>b.
     map_option (Pair \<lparr>ufFrom = a, ufTo = b, ufClientName = trim_space (query_of r ''client_name''), ufModel = trim_space (query_of r ''model'')\<rparr>)
       (if withLimit then parse_limit 200 (query_of r ''limit'') else Some 0)))"

section \<open>Health, metrics and overview\<close>

record health_view =
  hvStatus :: string
  hvCheckedAt :: time
  hvTargets :: "target_status list"
  hvMuted :: nat

definition handleHealthz :: "service \<Rightarrow> time \<Rightarrow> health_view" where
  "handleHealthz sv now = (let ts = targetStatuses sv now; muted = length (filter taMuted ts) in
     \<lparr>hvStatus = (if 0 < muted then ''degraded'' else ''ok''), hvCheckedAt = now, hvTargets = ts, hvMuted = muted\<rparr>)"

record metrics_view =
  mvUptime :: duration
  mvMetrics :: service_metrics
  mvTargets :: nat

definition handleMetrics :: "service \<Rightarrow> time \<Rightarrow> metrics_view" where
  "handleMetrics sv now = (let m = metricsSnapshot sv in
     \<lparr>mvUptime = max 0 (time_sub now (smStartTime m)), mvMetrics = m, mvTargets = length (targetStatuses sv now)\<rparr>)"

definition handleMe :: "session option \<Rightarrow> int \<times> (string \<times> string \<times> time) option" where
  "handleMe s = (case s of Some s \<Rightarrow> (200, Some (seUsername s, seRole s, seExpiresAt s)) | None \<Rightarrow> (401, None))"

definition usage_db_of :: "('c, 't, 'm, 'k, 'a) admin \<Rightarrow> usage_db" where
  "usage_db_of st = (case qsUsage (svStores (adService st)) of None \<Rightarrow> \<lparr>udEvents = [], udAgg = []\<rparr> | Some db \<Rightarrow> db)"

definition costs_of :: "('c, 't, 'm, 'k, 'a) admin \<Rightarrow> stored_cost list \<Rightarrow> cost_table" where
  "costs_of st cs = toCostTable (map model_cost.truncate cs) (svCatalog (adService st))"

record overview =
  ovTargets :: "target_status list"
  ovActiveTargets :: nat
  ovMetrics :: service_metrics
  ovSuccessRate :: real
  ovRequests72h :: int
  ovSuccess72h :: int
  ovClients :: nat
  ovCosts :: nat
  ovSummary :: summary_result
  ovAudit :: "audit_event list"

definition handleOverview :: "('c, 't, 'm, 'k, 'a) backends \<Rightarrow> ('c, 't, 'm, 'k, 'a) admin \<Rightarrow> time \<Rightarrow> overview option" where
  "handleOverview B st now = (case (client_list (bkClients B) (adClients st), cost_list (bkCosts B) (adCosts st)) of
     (Inr cl, Inr cs) \<Rightarrow>
       (let health = targetStatuses (adService st) now; (n, ok) = count_requests (usage_db_of st) (now - hours 72) now in Some
        \<lparr>ovTargets = health, ovActiveTargets = length (filter (\<lambda>t. \<not> taMuted t \<and> \<not> taPaused t) health),
         ovMetrics = metricsSnapshot (adService st), ovSuccessRate = (if 0 < n then of_int ok / of_int n * 100 else 0),
         ovRequests72h = n, ovSuccess72h = ok, ovClients = length cl, ovCosts = length cs,
         ovSummary = summary (usage_db_of st) now (costs_of st cs), ovAudit = audit_list (bkAudit B) (adAudit st) 10\<rparr>)
   | _ \<Rightarrow> None)"

section \<open>Lists\<close>

definition handleListAudit :: "('c, 't, 'm, 'k, 'a) backends \<Rightarrow> request \<Rightarrow> ('c, 't, 'm, 'k, 'a) admin \<Rightarrow> int \<times> audit_event list" where
  "handleListAudit B r st = (case parse_limit 50 (query_of r ''limit'') of None \<Rightarrow> (500, [])
     | Some n \<Rightarrow> (200, audit_list (bkAudit B) (adAudit st) n))"

definition handleListClients :: "('c, 't, 'm, 'k, 'a) backends \<Rightarrow> ('c, 't, 'm, 'k, 'a) admin \<Rightarrow> int \<times> client list" where
  "handleListClients B st = (case client_list (bkClients B) (adClients st) of Inl _ \<Rightarrow> (500, []) | Inr cs \<Rightarrow> (200, cs))"

definition handleListModelCosts :: "('c, 't, 'm, 'k, 'a) backends \<Rightarrow> ('c, 't, 'm, 'k, 'a) admin \<Rightarrow> int \<times> stored_cost list" where
  "handleListModelCosts B st = (case cost_list (bkCosts B) (adCosts st) of Inl _ \<Rightarrow> (500, []) | Inr cs \<Rightarrow> (200, cs))"

definition handleListUsageEvents :: "(string \<times> usage_event option) list \<Rightarrow> request \<Rightarrow> int \<times> usage_event list" where
  "handleListUsageEvents rows r = (case parseUsageFilter r True of None \<Rightarrow> (400, []) | Some (f, n) \<Rightarrow> (200, usage_list rows f n))"

definition handleAggregateUsage :: "('c, 't, 'm, 'k, 'a) backends \<Rightarrow> request \<Rightarrow> ('c, 't, 'm, 'k, 'a) admin \<Rightarrow> time \<Rightarrow> int \<times> agg_result option" where
  "handleAggregateUsage B r st now = (case parseUsageFilter r False of None \<Rightarrow> (400, None) | Some (f, _) \<Rightarrow>
     (case cost_list (bkCosts B) (adCosts st) of Inl _ \<Rightarrow> (500, None)
      | Inr cs \<Rightarrow> (200, Some (aggregate (usage_db_of st) f (query_of r ''group_by'') (costs_of st cs) now))))"

definition handleUsageSummary :: "('c, 't, 'm, 'k, 'a) backends \<Rightarrow> ('c, 't, 'm, 'k, 'a) admin \<Rightarrow> time \<Rightarrow> int \<times> summary_result option" where
  "handleUsageSummary B st now = (case cost_list (bkCosts B) (adCosts st) of Inl _ \<Rightarrow> (500, None)
     | Inr cs \<Rightarrow> (200, Some (summary (usage_db_of st) now (costs_of st cs))))"

text \<open>A row of the list of targets: the target without its keys, their masks and the state of its keys.\<close>

record target_row =
  twTarget :: config_target
  twHasKey :: bool
  twKeys :: "string \<times> string list"
  twStatuses :: "key_status list"

definition target_row_of :: "service \<Rightarrow> time \<Rightarrow> stored_target \<Rightarrow> target_row" where
  "target_row_of sv now t = (let c = stTarget t in
     \<lparr>twTarget = c\<lparr>ctEndpointType := normalizeEndpointType (ctEndpointType c), ctAPIKey := [], ctAPIKeys := [],
        ctSSEAutoAggregate := Some (ctSSEAutoAggregate c = None \<or> ctSSEAutoAggregate c = Some True)\<rparr>,
      twHasKey = (ctAPIKey c \<noteq> []), twKeys = shown_keys c, twStatuses = keyPoolStatus sv (ctName c) now\<rparr>)"

definition handleListTargets :: "('c, 't, 'm, 'k, 'a) backends \<Rightarrow> ('c, 't, 'm, 'k, 'a) admin \<Rightarrow> time \<Rightarrow>
    (int \<times> target_row list) \<times> ('c, 't, 'm, 'k, 'a) admin" where
  "handleListTargets B st now = (case current_targets B st of (None, st1) \<Rightarrow> ((500, []), st1)
     | (Some ts, st1) \<Rightarrow> ((200, map (target_row_of (adService st1) now) ts), st1))"

definition listAll :: "catalog \<Rightarrow> model_entry list" where "listAll c = catEntries c"

definition handleListCatalog :: "catalog option \<Rightarrow> request \<Rightarrow> model_entry list" where
  "handleListCatalog cat r = (case cat of None \<Rightarrow> [] | Some c \<Rightarrow>
     if query_of r ''endpoint_type'' \<noteq> [] then listByEndpointType c (query_of r ''endpoint_type'') else listAll c)"

definition handleListCatalogByType :: "catalog option \<Rightarrow> string \<Rightarrow> model_entry list" where
  "handleListCatalogByType cat endpointType = (case cat of None \<Rightarrow> [] | Some c \<Rightarrow> listByEndpointType c endpointType)"

definition handleListEndpointTypes :: "endpoint_type_meta list" where
  "handleListEndpointTypes = endpointTypes"

definition handleQuotaStatus :: "string \<Rightarrow> ('c, 't, 'm, 'k, 'a) admin \<Rightarrow> time \<Rightarrow> (int \<times> quota_status option) \<times> ('c, 't, 'm, 'k, 'a) admin" where
  "handleQuotaStatus name st now = (if name = [] then ((400, None), st) else
     let sv = adService st in case svQuota sv of None \<Rightarrow> ((503, None), st)
     | Some m \<Rightarrow> (case quota_status (svStores sv) m name now of
         (q, m1) \<Rightarrow> ((200, Some q), st\<lparr>adService := sv\<lparr>svQuota := Some m1\<rparr>\<rparr>)))"

section \<open>Traces\<close>

definition isAdminUIRequest :: "request \<Rightarrow> bool" where
  "isAdminUIRequest r = (h_get (rqHeader r) ''X-Requested-With'' = ''XMLHttpRequest'')"

definition handleGetTrace :: "(string \<Rightarrow> trace_record option) \<Rightarrow> service \<Rightarrow> request \<Rightarrow> string \<Rightarrow> int \<times> trace_record option" where
  "handleGetTrace diskGet sv r ident = (if \<not> isAdminUIRequest r then (403, None) else if ident = [] then (400, None)
     else case trace_get diskGet (svTrace sv) ident of None \<Rightarrow> (404, None) | Some t \<Rightarrow> (200, Some t))"

definition handleListTrace :: "(nat \<Rightarrow> nat \<Rightarrow> trace_record list) \<Rightarrow> service \<Rightarrow> request \<Rightarrow> int \<times> trace_record list" where
  "handleListTrace diskList sv r = (if \<not> isAdminUIRequest r then (403, []) else
     let limit = (case atoi (query_of r ''limit'') of Some n \<Rightarrow> if 0 < n \<and> n \<le> 5000 then n else 50 | None \<Rightarrow> 50);
         offset = (case atoi (query_of r ''offset'') of Some n \<Rightarrow> if 0 \<le> n then n else 0 | None \<Rightarrow> 0) in
     (200, trace_list diskList (svTrace sv) offset limit))"

end
