(* ===== verification/Copilot.thy ===== *)
theory Copilot
  imports Copilot_Models Serve
begin

text \<open>
  The Copilot service (\<open>internal/copilot\<close>): tokens (\<open>token.go\<close>), the device flow (\<open>oauth.go\<close>), the
  quota of accounts (\<open>quota.go\<close>) and the operations on accounts (\<open>service.go\<close>). The accounts are the
  bucket \<open>b\<close> of the store, and a call of GitHub takes the world \<open>w\<close> to another; a method that does
  both is one step, as is the lock of an account's refresh. Logs are dropped.
\<close>

section \<open>Tokens\<close>

definition extractUserID :: "string \<Rightarrow> string" where
  "extractUserID msg = (case str_index msg ''logged in as '' of None \<Rightarrow> []
     | Some i \<Rightarrow> trim_space (before_char (CHR ''.'') (drop (i + 13) msg)))"

record token_response =
  trToken :: string
  trExpiresAt :: int
  trAPI :: "string option"

definition decode_endpoints :: "json_map \<Rightarrow> string option" where
  "decode_endpoints m = do { a \<leftarrow> last_field as_string [] m ''api''; _ \<leftarrow> last_field as_string [] m ''proxy'';
     _ \<leftarrow> last_field as_string [] m ''origin-tracker''; _ \<leftarrow> last_field as_string [] m ''telemetry''; Some a }"

definition decode_token :: "json_map \<Rightarrow> token_response option" where
  "decode_token m = do { t \<leftarrow> last_field as_string [] m ''token''; e \<leftarrow> last_field as_int 0 m ''expires_at'';
     p \<leftarrow> last_field (as_pointer decode_endpoints) None m ''endpoints''; _ \<leftarrow> last_field as_string [] m ''sku'';
     _ \<leftarrow> last_field as_bool False m ''individual''; Some \<lparr>trToken = t, trExpiresAt = e, trAPI = p\<rparr> }"

definition apiBaseURL :: "token_response \<Rightarrow> string" where
  "apiBaseURL r = (case trAPI r of Some a \<Rightarrow> (if a \<noteq> [] then trim_right_char (CHR ''/'') a else copilotIndividualBase)
     | None \<Rightarrow> copilotIndividualBase)"

text \<open>The identity of a subscription error: the message and its kind.\<close>

definition decode_refusal :: "json_map \<Rightarrow> (string \<times> string) option" where
  "decode_refusal m = do { d \<leftarrow> last_field (as_struct (\<lambda>d. do { x \<leftarrow> last_field as_string [] d ''message'';
       n \<leftarrow> last_field as_string [] d ''notification_id''; Some (x, n) })) ([], []) m ''error_details'';
     _ \<leftarrow> last_field as_string [] m ''message''; Some d }"

definition token_refusal :: "int \<Rightarrow> string \<Rightarrow> copilot_error" where
  "token_refusal status body = (case decode_struct decode_refusal body of
     Some (msg, kind) \<Rightarrow> (if kind = ''no_copilot_access'' then No_copilot_access (extractUserID msg) msg else Refused status body)
   | None \<Rightarrow> Refused status body)"

definition fetchCopilotToken :: "'w net \<Rightarrow> time option \<Rightarrow> string \<Rightarrow> 'w \<Rightarrow> (copilot_error + token_response) \<times> 'w" where
  "fetchCopilotToken net until oauth w =
     (case github_call net (seconds 30) until ''GET'' copilotTokenURL (applyEditorHeaders (h_set [] ''Authorization'' (''token '' @ oauth))) [] w of
        (Inl e, w1) \<Rightarrow> (Inl e, w1)
      | (Inr (status, body), w1) \<Rightarrow>
        (if status \<noteq> 200 then Inl (token_refusal status body)
         else case decode_struct decode_token body of None \<Rightarrow> Inl Unparsable | Some t \<Rightarrow> Inr t, w1))"

text \<open>A token that is good for more than five minutes.\<close>

definition fresh_token :: "copilot_account \<Rightarrow> time \<Rightarrow> bool" where
  "fresh_token a now = (caCopilotToken a \<noteq> [] \<and> unix_seconds now + 300 < caExpiresAt a)"

definition with_token :: "copilot_account \<Rightarrow> token_response \<Rightarrow> copilot_account" where
  "with_token a t = a\<lparr>caCopilotToken := trToken t, caExpiresAt := trExpiresAt t, caAPIBaseURL := apiBaseURL t\<rparr>"

text \<open>The second component is the caller's copy of the account, which is brought up to date.\<close>

definition ensureValidToken :: "'w net \<Rightarrow> time option \<Rightarrow> ('b, copilot_account) kv \<Rightarrow> copilot_account \<Rightarrow> 'b \<Rightarrow> 'w \<Rightarrow>
    (copilot_error + string) \<times> copilot_account \<times> 'b \<times> 'w" where
  "ensureValidToken net until kv a b w = (if fresh_token a (netNow net w) then (Inr (caCopilotToken a), a, b, w) else
     case account_get kv b (caID a) of Inl e \<Rightarrow> (Inl (In_store e), a, b, w)
     | Inr r \<Rightarrow>
       if fresh_token r (netNow net w)
       then (Inr (caCopilotToken r), a\<lparr>caCopilotToken := caCopilotToken r, caExpiresAt := caExpiresAt r\<rparr>, b, w)
       else if caOAuthToken r = [] then (Inl No_oauth_token, a, b, w)
       else case fetchCopilotToken net until (caOAuthToken r) w of (Inl e, w1) \<Rightarrow> (Inl e, a, b, w1)
       | (Inr t, w1) \<Rightarrow>
         (case account_update kv (rfc3339 (netNow net w1)) b (caID r) (with_token r t) of
            Inl e \<Rightarrow> (Inl (In_store e), a, b, w1)
          | Inr b1 \<Rightarrow> (Inr (trToken t), with_token a t, b1, w1)))"

section \<open>The device flow\<close>

definition form_headers :: headers where
  "form_headers = h_set (h_set [] ''Content-Type'' ''application/x-www-form-urlencoded'') ''Accept'' ''application/json''"

record device_code =
  dvDeviceCode :: string
  dvUserCode :: string
  dvVerificationURI :: string
  dvExpiresIn :: int
  dvInterval :: int

definition decode_device :: "json_map \<Rightarrow> device_code option" where
  "decode_device m = do { d \<leftarrow> last_field as_string [] m ''device_code''; u \<leftarrow> last_field as_string [] m ''user_code'';
     v \<leftarrow> last_field as_string [] m ''verification_uri''; e \<leftarrow> last_field as_int 0 m ''expires_in''; i \<leftarrow> last_field as_int 0 m ''interval'';
     Some \<lparr>dvDeviceCode = d, dvUserCode = u, dvVerificationURI = v, dvExpiresIn = e, dvInterval = i\<rparr> }"

definition startDeviceFlow :: "'w net \<Rightarrow> 'w \<Rightarrow> (copilot_error + device_code) \<times> 'w" where
  "startDeviceFlow net w =
     (case github_call net (seconds 30) None ''POST'' gitHubDeviceCodeURL form_headers
        (encode_query [(''client_id'', [gitHubClientID]), (''scope'', [gitHubScope])]) w of
        (Inl e, w1) \<Rightarrow> (Inl e, w1)
      | (Inr (status, body), w1) \<Rightarrow> (if status \<noteq> 200 then Inl (Refused status body)
          else case decode_struct decode_device body of None \<Rightarrow> Inl Unparsable | Some d \<Rightarrow> Inr d, w1))"

datatype poll_result = Poll_failed copilot_error | Poll_token string | Poll_again int

definition decode_oauth :: "json_map \<Rightarrow> (string \<times> string) option" where
  "decode_oauth m = do { t \<leftarrow> last_field as_string [] m ''access_token''; _ \<leftarrow> last_field as_string [] m ''token_type'';
     _ \<leftarrow> last_field as_string [] m ''scope''; e \<leftarrow> last_field as_string [] m ''error''; Some (t, e) }"

definition poll_answer :: "int \<Rightarrow> string \<times> string \<Rightarrow> poll_result" where
  "poll_answer interval r = (case r of (token, err) \<Rightarrow>
     if err = [] then (if token \<noteq> [] then Poll_token token else Poll_failed No_access_token)
     else if err = ''authorization_pending'' then Poll_again interval
     else if err = ''slow_down'' then Poll_again (interval + 5)
     else if err = ''expired_token'' then Poll_failed Device_code_expired
     else if err = ''access_denied'' then Poll_failed Access_denied
     else Poll_failed (Unknown_oauth_error err))"

definition pollOnce :: "'w net \<Rightarrow> time option \<Rightarrow> string \<Rightarrow> int \<Rightarrow> 'w \<Rightarrow> poll_result \<times> 'w" where
  "pollOnce net until deviceCode interval w =
     (case github_call net (seconds 30) until ''POST'' gitHubAccessTokenURL form_headers
        (encode_query [(''client_id'', [gitHubClientID]), (''device_code'', [deviceCode]),
           (''grant_type'', [''urn:ietf:params:oauth:grant-type:device_code''])]) w of
        (Inl e, w1) \<Rightarrow> (Poll_failed e, w1)
      | (Inr (_, body), w1) \<Rightarrow>
         (case decode_struct decode_oauth body of None \<Rightarrow> Poll_failed Unparsable | Some r \<Rightarrow> poll_answer interval r, w1))"

text \<open>
  The loop, which the deadline \<open>until\<close> of its context ends; when that comes first, the wait is cut
  short. \<open>None\<close> means that the fuel is used up.
\<close>

fun poll_loop :: "nat \<Rightarrow> 'w net \<Rightarrow> time \<Rightarrow> string \<Rightarrow> int \<Rightarrow> 'w \<Rightarrow> ((copilot_error + string) \<times> 'w) option" where
  "poll_loop 0 net until deviceCode interval w = None"
| "poll_loop (Suc fuel) net until deviceCode interval w = (if until \<le> netNow net w then Some (Inl Cancelled, w) else
     case pollOnce net (Some until) deviceCode interval w of
       (Poll_failed e, w1) \<Rightarrow> Some (Inl e, w1)
     | (Poll_token t, w1) \<Rightarrow> Some (Inr t, w1)
     | (Poll_again next, w1) \<Rightarrow>
        (if until \<le> netNow net w1 + seconds next then Some (Inl Cancelled, netSleep net w1 (max 0 (until - netNow net w1)))
         else poll_loop fuel net until deviceCode next (netSleep net w1 (seconds next))))"

definition pollForToken :: "nat \<Rightarrow> 'w net \<Rightarrow> time \<Rightarrow> string \<Rightarrow> int \<Rightarrow> 'w \<Rightarrow> ((copilot_error + string) \<times> 'w) option" where
  "pollForToken fuel net until deviceCode interval w =
     poll_loop fuel net until deviceCode (if interval \<le> 0 then 5 else interval) w"

section \<open>Quotas\<close>

definition num_real :: "string \<Rightarrow> real" where
  "num_real s = (let (sg, t) = (case s of c # r \<Rightarrow> if c = CHR ''-'' then (-1, r) else (1, s) | [] \<Rightarrow> (1, []));
      (mant, ex, _) = (case cut_char (CHR ''e'') t of (a, b, True) \<Rightarrow> (a, b, True) | _ \<Rightarrow> cut_char (CHR ''E'') t);
      (ip, fp, _) = cut_char (CHR ''.'') mant; d = digits_val (ip @ fp); e = exponent_value ex - int (length fp) in
     sg * real_of_int d * (if 0 \<le> e then 10 ^ nat e else 1 / 10 ^ nat (- e)))"

definition as_real :: "json \<Rightarrow> real option" where
  "as_real v = (case v of JNum s \<Rightarrow> Some (num_real s) | _ \<Rightarrow> None)"

record quota_info =
  qiPercent :: real
  qiResetAt :: string
  qiPlan :: string
  qiUnlimited :: bool
  qiEntitlement :: int
  qiRemaining :: int
  qiBilling :: string

record quota_entry =
  qePercent :: real
  qeUnlimited :: bool
  qeEntitlement :: int
  qeRemaining :: int
  qeTokenBased :: bool

definition decode_quota_entry :: "json_map \<Rightarrow> quota_entry option" where
  "decode_quota_entry m = do { p \<leftarrow> last_field as_real 0 m ''percent_remaining''; _ \<leftarrow> last_field as_real 0 m ''quota_remaining'';
     u \<leftarrow> last_field as_bool False m ''unlimited''; e \<leftarrow> last_field as_int 0 m ''entitlement''; r \<leftarrow> last_field as_int 0 m ''remaining'';
     _ \<leftarrow> last_field as_int 0 m ''overage_count''; _ \<leftarrow> last_field as_bool False m ''overage_permitted'';
     t \<leftarrow> last_field as_bool False m ''token_based_billing'';
     Some \<lparr>qePercent = p, qeUnlimited = u, qeEntitlement = e, qeRemaining = r, qeTokenBased = t\<rparr> }"

text \<open>The answer of the user API: the entry of the premium requests, and the one of the older format.\<close>

record user_answer =
  uaPlan :: string
  uaResetUTC :: string
  uaReset :: string
  uaTokenBased :: bool
  uaPremium :: "quota_entry option"
  uaCamel :: "real option"

definition decode_user_answer :: "json_map \<Rightarrow> user_answer option" where
  "decode_user_answer m = do { p \<leftarrow> last_field as_string [] m ''copilot_plan''; u \<leftarrow> last_field as_string [] m ''quota_reset_date_utc'';
     d \<leftarrow> last_field as_string [] m ''quota_reset_date''; t \<leftarrow> last_field as_bool False m ''token_based_billing'';
     s \<leftarrow> last_field (as_struct (\<lambda>s. do { x \<leftarrow> last_field (as_pointer decode_quota_entry) None s ''premium_interactions'';
            _ \<leftarrow> last_field (as_pointer decode_quota_entry) None s ''chat''; Some x })) None m ''quota_snapshots'';
     c \<leftarrow> last_field (as_struct (\<lambda>s. last_field (as_pointer (\<lambda>e. last_field as_real 0 e ''percentRemaining'')) None s ''premiumInteractions''))
            None m ''quotaSnapshots'';
     Some \<lparr>uaPlan = p, uaResetUTC = u, uaReset = d, uaTokenBased = t, uaPremium = s, uaCamel = c\<rparr> }"

definition extractQuotaInfo :: "user_answer \<Rightarrow> quota_info" where
  "extractQuotaInfo r = (let info = \<lparr>qiPercent = 0, qiResetAt = (if uaResetUTC r \<noteq> [] then uaResetUTC r else uaReset r), qiPlan = uaPlan r,
        qiUnlimited = False, qiEntitlement = 0, qiRemaining = 0, qiBilling = []\<rparr> in
     case uaPremium r of
       Some e \<Rightarrow> info\<lparr>qiPercent := qePercent e, qiUnlimited := qeUnlimited e, qiEntitlement := qeEntitlement e, qiRemaining := qeRemaining e,
         qiBilling := (if qeTokenBased e \<or> uaTokenBased r then ''credits'' else ''pru'')\<rparr>
     | None \<Rightarrow> (case uaCamel r of Some p \<Rightarrow> info\<lparr>qiPercent := p, qiBilling := ''pru''\<rparr> | None \<Rightarrow> info))"

definition syncQuotaFromGitHub :: "'w net \<Rightarrow> string \<Rightarrow> 'w \<Rightarrow> (copilot_error + quota_info) \<times> 'w" where
  "syncQuotaFromGitHub net oauth w =
     (case github_call net (seconds 10) None ''GET'' gitHubCopilotUserURL
        (applyEditorHeaders (h_set (h_set [] ''Authorization'' (''token '' @ oauth)) ''Accept'' ''application/json'')) [] w of
        (Inl e, w1) \<Rightarrow> (Inl e, w1)
      | (Inr (status, body), w1) \<Rightarrow> (if status \<noteq> 200 then Inl (Refused status body)
          else case decode_struct decode_user_answer body of None \<Rightarrow> Inl Unparsable | Some r \<Rightarrow> Inr (extractQuotaInfo r), w1))"

definition quotaExhaustedThreshold :: real where "quotaExhaustedThreshold = 0"
definition defaultMonthlyPremiumRequests :: real where "defaultMonthlyPremiumRequests = 300"

definition isQuotaExhausted :: "copilot_account \<Rightarrow> bool" where
  "isQuotaExhausted a = (caPercent a \<le> quotaExhaustedThreshold)"

definition deductQuota :: "copilot_account \<Rightarrow> string \<Rightarrow> copilot_account" where
  "deductQuota a model = (let x = getMultiplier model in if x = 0 then a
     else a\<lparr>caPercent := caPercent a - x / defaultMonthlyPremiumRequests * 100\<rparr>)"

text \<open>An account that can serve: in use, or only out of quota.\<close>

definition in_use :: "copilot_account \<Rightarrow> bool" where
  "in_use a = (caStatus a = Active \<or> caStatus a = Quota_exceeded)"

definition quota_synced :: "copilot_account \<Rightarrow> quota_info \<Rightarrow> time \<Rightarrow> copilot_account" where
  "quota_synced a q now = a\<lparr>caPercent := qiPercent q, caUnlimited := qiUnlimited q,
     caResetAt := (if qiResetAt q \<noteq> [] then qiResetAt q else caResetAt a), caLastSyncAt := rfc3339 now,
     caBillingModel := qiBilling q, caEntitlement := qiEntitlement q, caRemaining := qiRemaining q\<rparr>"

definition synced_status :: "account_status \<Rightarrow> quota_info \<Rightarrow> account_status" where
  "synced_status st q = (if qiUnlimited q then (if st = Quota_exceeded then Active else st)
     else if qiPercent q \<le> quotaExhaustedThreshold then Quota_exceeded
     else if st = Quota_exceeded then Active else st)"

definition sync_account :: "'w net \<Rightarrow> ('b, copilot_account) kv \<Rightarrow> 'b \<times> 'w \<Rightarrow> copilot_account \<Rightarrow> 'b \<times> 'w" where
  "sync_account net kv s a = (case s of (b, w) \<Rightarrow>
     if \<not> in_use a \<or> caOAuthToken a = [] then (b, w) else
     case syncQuotaFromGitHub net (caOAuthToken a) w of (Inl _, w1) \<Rightarrow> (b, w1)
     | (Inr q, w1) \<Rightarrow> (case account_update kv (rfc3339 (netNow net w1)) b (caID a)
           (quota_synced a q (netNow net w1)\<lparr>caStatus := synced_status (caStatus a) q\<rparr>) of Inl _ \<Rightarrow> (b, w1) | Inr b1 \<Rightarrow> (b1, w1)))"

definition syncAllAccounts :: "'w net \<Rightarrow> ('b, copilot_account) kv \<Rightarrow> 'b \<Rightarrow> 'w \<Rightarrow> 'b \<times> 'w" where
  "syncAllAccounts net kv b w = (case account_list kv b of Inl _ \<Rightarrow> (b, w) | Inr as \<Rightarrow> foldl (sync_account net kv) (b, w) as)"

section \<open>Authorising an account\<close>

definition initiateAuth :: "'w net \<Rightarrow> ('p, copilot_pool) kv \<Rightarrow> ('b, copilot_account) kv \<Rightarrow> string \<Rightarrow> 'p \<Rightarrow> string \<Rightarrow> 'b \<Rightarrow> 'w \<Rightarrow>
    (copilot_error + string \<times> string \<times> string) \<times> 'b \<times> 'w" where
  "initiateAuth net pkv kv uuid pb pool b w = (case startDeviceFlow net w of (Inl e, w1) \<Rightarrow> (Inl e, b, w1)
     | (Inr d, w1) \<Rightarrow>
       (case account_create pkv kv uuid (rfc3339 (netNow net w1)) pb b (blank_account\<lparr>caPoolName := pool, caStatus := Pending_auth,
            caDeviceCode := dvDeviceCode d, caUserCode := dvUserCode d, caVerificationURI := dvVerificationURI d,
            caDeviceExpiresAt := unix_seconds (netNow net w1) + dvExpiresIn d, caPollInterval := dvInterval d\<rparr>) of
          Inl e \<Rightarrow> (Inl (In_store e), b, w1)
        | Inr b1 \<Rightarrow> (case listByPool kv b1 pool of Inl e \<Rightarrow> (Inl (In_store e), b1, w1)
          | Inr as \<Rightarrow> (case find (\<lambda>a. caDeviceCode a = dvDeviceCode d) as of None \<Rightarrow> (Inl Not_created, b1, w1)
            | Some a \<Rightarrow> (Inr (caID a, dvUserCode d, dvVerificationURI d), b1, w1)))))"

definition fetchGitHubUsername :: "'w net \<Rightarrow> time option \<Rightarrow> string \<Rightarrow> 'w \<Rightarrow> (copilot_error + string) \<times> 'w" where
  "fetchGitHubUsername net until oauth w =
     (case github_call net (seconds 30) until ''GET'' ''https://api.github.com/user''
        (h_set (h_set [] ''Authorization'' (''token '' @ oauth)) ''Accept'' ''application/json'') [] w of
        (Inl e, w1) \<Rightarrow> (Inl e, w1)
      | (Inr (status, body), w1) \<Rightarrow> (if status \<noteq> 200 then Inl (Refused status body)
          else case decode_struct (\<lambda>m. last_field as_string [] m ''login'') body of None \<Rightarrow> Inl Unparsable | Some l \<Rightarrow> Inr l, w1))"

definition clear_device :: "copilot_account \<Rightarrow> copilot_account" where
  "clear_device a = a\<lparr>caDeviceCode := [], caUserCode := [], caVerificationURI := [], caDeviceExpiresAt := 0, caPollInterval := 0\<rparr>"

text \<open>What follows the polling: \<open>a\<close> is the account as it was read before it.\<close>

definition finishAuth :: "'w net \<Rightarrow> time option \<Rightarrow> ('b, copilot_account) kv \<Rightarrow> string \<Rightarrow> copilot_account \<Rightarrow> string \<Rightarrow> 'b \<Rightarrow> 'w \<Rightarrow>
    copilot_error option \<times> 'b \<times> 'w" where
  "finishAuth net until kv ident a oauth b w =
     (let (r, w1) = fetchGitHubUsername net until oauth w; user = (case r of Inl _ \<Rightarrow> [] | Inr u \<Rightarrow> u);
          a1 = (if user \<noteq> [] then a\<lparr>caOAuthToken := oauth, caUsername := user\<rparr> else a);
          b1 = (if user \<noteq> [] then (case account_update kv (rfc3339 (netNow net w1)) b ident a1 of Inl _ \<Rightarrow> b | Inr b1 \<Rightarrow> b1) else b)
      in case fetchCopilotToken net until oauth w1 of (Inl e, w2) \<Rightarrow> (Some e, b1, w2)
      | (Inr t, w2) \<Rightarrow>
        (case account_update kv (rfc3339 (netNow net w2)) b1 ident
            (clear_device (with_token (a1\<lparr>caStatus := Active, caOAuthToken := oauth, caUsername := user\<rparr>) t)) of
           Inl e \<Rightarrow> (Some (In_store e), b1, w2) | Inr b2 \<Rightarrow> (None, b2, w2)))"

definition completeAuth :: "nat \<Rightarrow> 'w net \<Rightarrow> time \<Rightarrow> ('b, copilot_account) kv \<Rightarrow> string \<Rightarrow> 'b \<Rightarrow> 'w \<Rightarrow>
    (copilot_error option \<times> 'b \<times> 'w) option" where
  "completeAuth fuel net until kv ident b w = (case account_get kv b ident of Inl e \<Rightarrow> Some (Some (In_store e), b, w)
     | Inr a \<Rightarrow> if caDeviceCode a = [] then Some (Some No_device_code, b, w)
       else case pollForToken fuel net until (caDeviceCode a) (caPollInterval a) w of None \<Rightarrow> None
       | Some (Inl e, w1) \<Rightarrow> Some (Some e, b, w1)
       | Some (Inr oauth, w1) \<Rightarrow> Some (finishAuth net (Some until) kv ident a oauth b w1))"

definition revokeAuth :: "('b, copilot_account) kv \<Rightarrow> time \<Rightarrow> string \<Rightarrow> 'b \<Rightarrow> copilot_error option \<times> 'b" where
  "revokeAuth kv now ident b = (case account_get kv b ident of Inl e \<Rightarrow> (Some (In_store e), b)
     | Inr a \<Rightarrow> (case account_update kv (rfc3339 now) b ident
           (clear_device (a\<lparr>caStatus := Disabled, caOAuthToken := [], caCopilotToken := [], caExpiresAt := 0\<rparr>)) of
         Inl e \<Rightarrow> (Some (In_store e), b) | Inr b1 \<Rightarrow> (None, b1)))"

definition getToken :: "'w net \<Rightarrow> time option \<Rightarrow> ('b, copilot_account) kv \<Rightarrow> string \<Rightarrow> 'b \<Rightarrow> 'w \<Rightarrow> (copilot_error + string) \<times> 'b \<times> 'w" where
  "getToken net until kv ident b w = (case account_get kv b ident of Inl e \<Rightarrow> (Inl (In_store e), b, w)
     | Inr a \<Rightarrow> if \<not> in_use a then (Inl (Bad_status (caStatus a)), b, w)
       else (case ensureValidToken net until kv a b w of (r, _, b1, w1) \<Rightarrow> (r, b1, w1)))"

definition forceRefreshToken :: "'w net \<Rightarrow> ('b, copilot_account) kv \<Rightarrow> string \<Rightarrow> 'b \<Rightarrow> 'w \<Rightarrow> (copilot_error + string) \<times> 'b \<times> 'w" where
  "forceRefreshToken net kv ident b w = (case account_get kv b ident of Inl e \<Rightarrow> (Inl (In_store e), b, w)
     | Inr a \<Rightarrow> if caOAuthToken a = [] then (Inl No_oauth_token, b, w)
       else (case ensureValidToken net None kv a b w of (Inl e, _, b1, w1) \<Rightarrow> (Inl e, b1, w1)
       | (Inr t, a1, b1, w1) \<Rightarrow> (Inr t, (if caStatus a1 = Active then b1 else
           case account_update kv (rfc3339 (netNow net w1)) b1 ident (a1\<lparr>caStatus := Active\<rparr>) of Inl _ \<Rightarrow> b1 | Inr b2 \<Rightarrow> b2), w1)))"

section \<open>Choosing an account\<close>

definition findPoolByClient :: "('p, copilot_pool) kv \<Rightarrow> 'p \<Rightarrow> string \<Rightarrow> copilot_error + copilot_pool" where
  "findPoolByClient pkv pb client = (case pool_list pkv pb of Inl e \<Rightarrow> Inl (In_store e)
     | Inr ps \<Rightarrow> (case find (\<lambda>p. to_lower (trim_space (cpClientName p)) = to_lower (trim_space client)) ps of
         None \<Rightarrow> Inl No_pool | Some p \<Rightarrow> Inr p))"

definition selectAccount :: "('b, copilot_account) kv \<Rightarrow> 'b \<Rightarrow> string \<Rightarrow> string \<Rightarrow> copilot_error + copilot_account" where
  "selectAccount kv b pool model = (case listByPool kv b pool of Inl e \<Rightarrow> Inl (In_store e)
     | Inr as \<Rightarrow> if as = [] then Inl Empty_pool
       else if isFreeModel model then (case find in_use as of Some a \<Rightarrow> Inr a | None \<Rightarrow> Inl No_account)
       else (case find (\<lambda>a. caStatus a = Active \<and> \<not> isQuotaExhausted a) as of Some a \<Rightarrow> Inr a
         | None \<Rightarrow> (case find (\<lambda>a. caAllowOverage a \<and> in_use a) as of Some a \<Rightarrow> Inr a | None \<Rightarrow> Inl No_account)))"

definition markQuotaExhausted :: "('b, copilot_account) kv \<Rightarrow> time \<Rightarrow> string \<Rightarrow> copilot_account \<Rightarrow> 'b \<Rightarrow> store_error + 'b" where
  "markQuotaExhausted kv now ident a b = account_update kv (rfc3339 now) b ident (a\<lparr>caStatus := Quota_exceeded\<rparr>)"

definition deductAndPersistQuota :: "('b, copilot_account) kv \<Rightarrow> time \<Rightarrow> copilot_account \<Rightarrow> string \<Rightarrow> 'b \<Rightarrow> store_error + 'b" where
  "deductAndPersistQuota kv now a model b = (let a = deductQuota a model in
     account_update kv (rfc3339 now) b (caID a) (if isQuotaExhausted a \<and> caStatus a \<noteq> Quota_exceeded then a\<lparr>caStatus := Quota_exceeded\<rparr> else a))"

section \<open>The models of the accounts\<close>

definition models_url :: "string \<Rightarrow> string" where
  "models_url base = (if base \<noteq> [] then trim_right_char (CHR ''/'') base @ ''/models'' else copilotModelsURL)"

definition fetchAccountModels :: "'w net \<Rightarrow> ('b, copilot_account) kv \<Rightarrow> string \<Rightarrow> 'b \<Rightarrow> 'w \<Rightarrow> (copilot_error + model_detail list) \<times> 'b \<times> 'w" where
  "fetchAccountModels net kv ident b w = (case getToken net None kv ident b w of (Inl e, b1, w1) \<Rightarrow> (Inl e, b1, w1)
     | (Inr token, b1, w1) \<Rightarrow> (case account_get kv b1 ident of Inl e \<Rightarrow> (Inl (In_store e), b1, w1)
       | Inr a \<Rightarrow> (case fetchModelDetails net None token (models_url (caAPIBaseURL a)) w1 of (r, w2) \<Rightarrow> (r, b1, w2))))"

record model_cache =
  mhModels :: "model_detail list"
  mhAt :: time

definition modelCacheTTL :: duration where "modelCacheTTL = minutes 10"

definition cache_valid :: "model_cache \<Rightarrow> time \<Rightarrow> bool" where
  "cache_valid c now = (mhModels c \<noteq> [] \<and> time_sub now (mhAt c) < modelCacheTTL)"

fun refresh_from :: "'w net \<Rightarrow> ('b, copilot_account) kv \<Rightarrow> copilot_account list \<Rightarrow> 'b \<Rightarrow> 'w \<Rightarrow> model_detail list option \<times> 'b \<times> 'w" where
  "refresh_from net kv [] b w = (None, b, w)"
| "refresh_from net kv (a # as) b w = (if \<not> in_use a \<or> caOAuthToken a = [] then refresh_from net kv as b w else
     case ensureValidToken net None kv a b w of
       (Inl _, _, b1, w1) \<Rightarrow> refresh_from net kv as b1 w1
     | (Inr token, a1, b1, w1) \<Rightarrow>
       (let r = (case account_get kv b1 (caID a1) of Inl _ \<Rightarrow> a1 | Inr r \<Rightarrow> r) in
        case fetchModelDetails net None token (models_url (caAPIBaseURL r)) w1 of
          (Inl _, w2) \<Rightarrow> refresh_from net kv as b1 w2 | (Inr ds, w2) \<Rightarrow> (Some ds, b1, w2)))"

definition refreshModelCacheInternal :: "'w net \<Rightarrow> ('b, copilot_account) kv \<Rightarrow> model_cache \<Rightarrow> 'b \<Rightarrow> 'w \<Rightarrow>
    (copilot_error + model_detail list) \<times> model_cache \<times> 'b \<times> 'w" where
  "refreshModelCacheInternal net kv c b w = (if cache_valid c (netNow net w) then (Inr (mhModels c), c, b, w) else
     case account_list kv b of Inl e \<Rightarrow> (Inl (In_store e), c, b, w)
     | Inr as \<Rightarrow> (case refresh_from net kv as b w of
         (Some ds, b1, w1) \<Rightarrow> (Inr ds, \<lparr>mhModels = ds, mhAt = netNow net w1\<rparr>, b1, w1)
       | (None, b1, w1) \<Rightarrow> (if mhModels c \<noteq> [] then Inr (mhModels c) else Inl No_models, c, b1, w1)))"

definition getCachedModels :: "'w net \<Rightarrow> ('b, copilot_account) kv \<Rightarrow> model_cache \<Rightarrow> 'b \<Rightarrow> 'w \<Rightarrow>
    (copilot_error + model_detail list) \<times> model_cache \<times> 'b \<times> 'w" where
  "getCachedModels net kv c b w = (if cache_valid c (netNow net w) then (Inr (mhModels c), c, b, w)
     else refreshModelCacheInternal net kv c b w)"

definition refreshModelCache :: "'w net \<Rightarrow> ('b, copilot_account) kv \<Rightarrow> model_cache \<Rightarrow> 'b \<Rightarrow> 'w \<Rightarrow>
    copilot_error option \<times> model_cache \<times> 'b \<times> 'w" where
  "refreshModelCache net kv c b w = (case refreshModelCacheInternal net kv c b w of
     (Inl e, s) \<Rightarrow> (Some e, s) | (Inr _, s) \<Rightarrow> (None, s))"

end
