(* ===== verification/Copilot_Route.thy ===== *)
theory Copilot_Route
  imports Copilot
begin

text \<open>
  The Copilot routes of the proxy (\<open>internal/proxy/copilot_passthrough.go\<close>) and the header that says
  who a request is charged to (\<open>copilot_initiator.go\<close>). A handler gives the reply, the service with
  its counters, the accounts and the world; \<open>None\<close> for the stores is a service without Copilot.
\<close>

section \<open>Who a request is charged to\<close>

text \<open>A field that is kept as its raw text, where \<open>null\<close> is a value as well.\<close>

definition raw_field :: "json_map \<Rightarrow> string \<Rightarrow> json option" where
  "raw_field m name = (case filter (\<lambda>(k, _). equal_fold k name) m of [] \<Rightarrow> None | ps \<Rightarrow> Some (snd (last ps)))"

definition as_raws :: "json \<Rightarrow> json list option" where
  "as_raws v = (case v of JArr xs \<Rightarrow> Some xs | _ \<Rightarrow> None)"

definition block_types :: "json \<Rightarrow> string list option" where
  "block_types = as_list (as_struct (\<lambda>m. last_field as_string [] m ''type'')) []"

definition classifyUserContent :: "json option \<Rightarrow> string" where
  "classifyUserContent c = (case c of Some (JStr _) \<Rightarrow> ''user''
     | Some (JArr xs) \<Rightarrow> (case block_types (JArr xs) of None \<Rightarrow> ''agent''
         | Some ts \<Rightarrow> if ''tool_result'' \<in> set ts then ''agent'' else ''user'')
     | _ \<Rightarrow> ''agent'')"

definition classifyLastMessage :: "json \<Rightarrow> string" where
  "classifyLastMessage v = (case v of JObj m \<Rightarrow> (case last_field as_string [] m ''role'' of None \<Rightarrow> ''agent''
       | Some role \<Rightarrow> if role = ''user'' then classifyUserContent (raw_field m ''content'') else ''agent'')
     | _ \<Rightarrow> ''agent'')"

definition classifyResponsesInput :: "json \<Rightarrow> string" where
  "classifyResponsesInput v = (case v of JStr _ \<Rightarrow> ''user''
     | JArr xs \<Rightarrow> (if xs = [] then ''agent'' else classifyLastMessage (last xs))
     | _ \<Rightarrow> ''agent'')"

definition inferInitiator :: "string \<Rightarrow> string \<Rightarrow> string" where
  "inferInitiator body downstream = (let v = to_lower (trim_space downstream) in
     if v = ''user'' \<or> v = ''agent'' then v
     else if body = [] then ''agent''
     else case decode_struct (\<lambda>m. do { ms \<leftarrow> last_field as_raws [] m ''messages''; Some (ms, raw_field m ''input'') }) body of
       None \<Rightarrow> ''agent''
     | Some (ms, input) \<Rightarrow> (if ms \<noteq> [] then classifyLastMessage (last ms)
         else case input of Some i \<Rightarrow> classifyResponsesInput i | None \<Rightarrow> ''agent''))"

section \<open>Replies and stores\<close>

datatype copilot_body = Text string | Account_text copilot_error | Json json

record copilot_reply =
  crStatus :: int
  crHeader :: headers
  crBody :: copilot_body

definition copilot_http_error :: "copilot_body \<Rightarrow> int \<Rightarrow> copilot_reply" where
  "copilot_http_error b status = \<lparr>crStatus = status, crHeader =
     [(''content-type'', [''text/plain; charset=utf-8'']), (''x-content-type-options'', [''nosniff''])], crBody = b\<rparr>"

definition json_reply :: "int \<Rightarrow> (string \<times> json) list \<Rightarrow> copilot_reply" where
  "json_reply status m = \<lparr>crStatus = status, crHeader = [(''content-type'', [''application/json''])], crBody = Json (JObj m)\<rparr>"

text \<open>A line of text, which is what an error is answered with.\<close>

definition text_line :: "string \<Rightarrow> copilot_body" where
  "text_line msg = Text (msg @ [char_of (10::nat)])"

record ('p, 'b) copilot_kv =
  ckPools :: "('p, copilot_pool) kv"
  ckAccounts :: "('b, copilot_account) kv"

type_synonym ('b, 'w) copilot_result = "copilot_reply \<times> service \<times> 'b \<times> 'w"

section \<open>What the routes share\<close>

definition ensure_header :: "string \<Rightarrow> string \<Rightarrow> headers \<Rightarrow> headers" where
  "ensure_header k v h = (if h_get h k = [] then h_set h k v else h)"

definition ensureCopilotHeaders :: "headers \<Rightarrow> headers" where
  "ensureCopilotHeaders h = ensure_header ''User-Agent'' headerUserAgent (ensure_header ''Copilot-Integration-Id'' headerIntegrationID
     (ensure_header ''Editor-Plugin-Version'' headerPluginVersion (ensure_header ''Editor-Version'' headerEditorVersion h)))"

text \<open>The account as it was selected, its token and the base of the upstream's URLs, or the error that is answered.\<close>

definition copilotPassthroughSetup :: "'w net \<Rightarrow> ('p, 'b) copilot_kv option \<Rightarrow> 'p \<Rightarrow> string \<Rightarrow> 'b \<Rightarrow> 'w \<Rightarrow>
    (copilot_reply + copilot_account \<times> string \<times> string) \<times> 'b \<times> 'w" where
  "copilotPassthroughSetup net K pb client b w = (case K of
       None \<Rightarrow> (Inl (copilot_http_error (text_line ''copilot service not configured'') 502), b, w)
     | Some k \<Rightarrow> (case findPoolByClient (ckPools k) pb client of
         Inl _ \<Rightarrow> (Inl (copilot_http_error (text_line ''copilot pool not found for client'') 400), b, w)
       | Inr p \<Rightarrow> (case selectAccount (ckAccounts k) b (cpName p) [] of
           Inl e \<Rightarrow> (Inl (copilot_http_error (Account_text e) 503), b, w)
         | Inr a \<Rightarrow> (case getToken net None (ckAccounts k) (caID a) b w of
             (Inl _, b1, w1) \<Rightarrow> (Inl (copilot_http_error (text_line ''failed to get copilot token'') 502), b1, w1)
           | (Inr token, b1, w1) \<Rightarrow> (Inr (a, token, if caAPIBaseURL a \<noteq> [] then trim_right_char (CHR ''/'') (caAPIBaseURL a)
               else copilotIndividualBase), b1, w1)))))"

text \<open>A number with one decimal, a tie going to the even digit.\<close>

definition round_even :: "real \<Rightarrow> int" where
  "round_even x = (let f = \<lfloor>x\<rfloor>; d = x - of_int f in if d < 1 / 2 \<or> (d = 1 / 2 \<and> even f) then f else f + 1)"

definition one_decimal :: "real \<Rightarrow> string" where
  "one_decimal x = (let n = round_even (10 * \<bar>x\<bar>) in
     (if x < 0 then ''-'' else []) @ int_literal (n div 10) @ ''.'' @ int_literal (n mod 10))"

definition count_answer :: "int \<Rightarrow> service \<Rightarrow> service" where
  "count_answer status sv = (if 200 \<le> status \<and> status < 300 then count_success sv else count_failure sv)"

definition account_headers :: "copilot_account \<Rightarrow> headers" where
  "account_headers a = h_set (h_set [] ''X-Copilot-Account'' (caUsername a)) ''X-Copilot-Quota-Remaining'' (one_decimal (caPercent a))"

text \<open>The end of the routes that send a request: the answer is passed on, after \<open>shorten\<close>.\<close>

definition pass_on :: "'w net \<Rightarrow> duration \<Rightarrow> string \<Rightarrow> string \<Rightarrow> headers \<Rightarrow> string \<Rightarrow> headers \<Rightarrow> (response \<Rightarrow> response) \<Rightarrow>
    (service \<Rightarrow> service) \<Rightarrow> service \<Rightarrow> 'b \<Rightarrow> 'w \<Rightarrow> ('b, 'w) copilot_result" where
  "pass_on net limit meth url h body extra shorten bad_url sv b w = (case new_request_url meth url of
       None \<Rightarrow> (copilot_http_error (text_line ''failed to create upstream request'') 500, bad_url sv, b, w)
     | Some u \<Rightarrow> (case netDo net w \<lparr>orMethod = meth, orURL = u, orHost = uHost u, orHeader = h, orBody = body, orTimeout = limit\<rparr> of
         (Inl _, w1) \<Rightarrow> (copilot_http_error (text_line ''copilot upstream error'') 502, count_failure sv, b, w1)
       | (Inr resp0, w1) \<Rightarrow> let resp = shorten resp0 in
           (\<lparr>crStatus = rsStatus resp, crHeader = copyHeaders extra (rsHeader resp), crBody = Text (rsBody resp)\<rparr>,
            count_answer (rsStatus resp) sv, b, w1)))"

section \<open>The routes\<close>

definition copilot_unauthorized :: copilot_reply where
  "copilot_unauthorized = copilot_http_error (text_line ''unauthorized'') 401"

definition handleCopilotAuth :: "('p, 'b) copilot_kv option \<Rightarrow> 'p \<Rightarrow> request \<Rightarrow> 'b \<Rightarrow> copilot_reply" where
  "handleCopilotAuth K pb r b = (case rqPrincipal r of None \<Rightarrow> copilot_unauthorized
     | Some pr \<Rightarrow> (case K of None \<Rightarrow> json_reply 502 [(''error'', JStr ''copilot service not configured'')]
     | Some k \<Rightarrow> (case findPoolByClient (ckPools k) pb (prName pr) of
         Inl _ \<Rightarrow> json_reply 400 [(''error'', JStr ''copilot pool not found for client'')]
       | Inr p \<Rightarrow> (case listByPool (ckAccounts k) b (cpName p) of
           Inl _ \<Rightarrow> json_reply 500 [(''error'', JStr ''failed to list accounts'')]
         | Inr as \<Rightarrow> json_reply 200 [(''accounts_available'', JNum (int_literal (int (length (filter in_use as))))),
             (''client'', JStr (prName pr)), (''pool'', JStr (cpName p)), (''status'', JStr ''ok'')]))))"

definition handleCopilotQuotaSummary :: "'w net \<Rightarrow> ('p, 'b) copilot_kv option \<Rightarrow> 'p \<Rightarrow> service \<Rightarrow> request \<Rightarrow> 'b \<Rightarrow> 'w \<Rightarrow> ('b, 'w) copilot_result" where
  "handleCopilotQuotaSummary net K pb sv r b w = (case rqPrincipal r of None \<Rightarrow> (copilot_unauthorized, sv, b, w)
     | Some pr \<Rightarrow> (case copilotPassthroughSetup net K pb (prName pr) b w of (Inl rp, b1, w1) \<Rightarrow> (rp, sv, b1, w1)
       | (Inr (a, _, _), b1, w1) \<Rightarrow> pass_on net (svTimeout sv) ''GET'' gitHubCopilotUserURL
           (ensureCopilotHeaders (h_set (h_set [] ''Authorization'' (''token '' @ caOAuthToken a)) ''Accept'' ''application/json'')) []
           (h_set [] ''X-Copilot-Account'' (caUsername a)) id id sv b1 w1))"

definition handleCopilotModels :: "'w net \<Rightarrow> ('p, 'b) copilot_kv option \<Rightarrow> 'p \<Rightarrow> service \<Rightarrow> request \<Rightarrow> 'b \<Rightarrow> 'w \<Rightarrow> ('b, 'w) copilot_result" where
  "handleCopilotModels net K pb sv r b w = (case rqPrincipal r of None \<Rightarrow> (copilot_unauthorized, sv, b, w)
     | Some pr \<Rightarrow> (case copilotPassthroughSetup net K pb (prName pr) b w of (Inl rp, b1, w1) \<Rightarrow> (rp, sv, b1, w1)
       | (Inr (a, token, base), b1, w1) \<Rightarrow> pass_on net (svTimeout sv) ''GET'' (base @ ''/models'')
           (h_set (ensureCopilotHeaders (h_del (h_set (copyHeaders [] (rqHeader r)) ''Authorization'' (''Bearer '' @ token)) ''api-key''))
              ''X-Initiator'' (inferInitiator [] (h_get (rqHeader r) ''X-Initiator'')))
           [] (account_headers a) id id sv b1 w1))"

definition passthrough_headers :: "request \<Rightarrow> string \<Rightarrow> headers" where
  "passthrough_headers r token = (let h = h_set (copyHeaders [] (rqHeader r)) ''Authorization'' (''Bearer '' @ token) in
     h_set (ensureCopilotHeaders (h_del (h_del (h_del h ''api-key'') ''X-Proxy-Target'') ''X-Azure-Authorization''))
       ''X-Initiator'' (inferInitiator (rqBody r) (h_get (rqHeader r) ''X-Initiator'')))"

definition upstream_path :: "string \<Rightarrow> string" where
  "upstream_path p = (let q = (if has_prefix p ''/copilot'' then drop 8 p else p) in if q = [] then ''/'' else q)"

text \<open>
  An answer of the client's making is read for the log, at most 4096 bytes of it, and goes on with
  what was read; when the reading fails nothing is left of the body.
\<close>

definition logUpstream4xx :: "response \<Rightarrow> response" where
  "logUpstream4xx resp = (if rsStatus resp < 400 \<or> 500 \<le> rsStatus resp then resp
     else if rsBroken resp \<and> length (rsBody resp) < 4096 then resp\<lparr>rsBody := []\<rparr>
     else resp\<lparr>rsBody := take 4096 (rsBody resp), rsBroken := False\<rparr>)"

definition handleCopilotPassthrough :: "'w net \<Rightarrow> ('p, 'b) copilot_kv option \<Rightarrow> 'p \<Rightarrow> service \<Rightarrow> request \<Rightarrow> 'b \<Rightarrow> 'w \<Rightarrow> ('b, 'w) copilot_result" where
  "handleCopilotPassthrough net K pb sv r b w = (case rqPrincipal r of None \<Rightarrow> (copilot_unauthorized, sv, b, w)
     | Some pr \<Rightarrow> if rqBodyError r then (copilot_http_error (text_line ''failed to read request body'') 400, sv, b, w)
       else (case copilotPassthroughSetup net K pb (prName pr) b w of (Inl rp, b1, w1) \<Rightarrow> (rp, sv, b1, w1)
       | (Inr (a, token, base), b1, w1) \<Rightarrow> pass_on net (svTimeout sv) (rqMethod r) (base @ upstream_path (uPath (rqURL r)))
           (passthrough_headers r token) (rqBody r) (account_headers a) logUpstream4xx count_failure sv b1 w1))"

end
