(* ===== verification/Copilot_Admin.thy ===== *)
theory Copilot_Admin
  imports Admin_Handler Copilot_Route
begin

text \<open>
  The admin routes of Copilot pools and accounts (\<open>internal/admin/copilot_handler.go\<close>). A pool names
  a client and targets, and the handlers keep the targets a client may use in step with its pool. The
  answers are their status, with the data where it carries secrets or is computed. \<open>svc\<close> says
  whether the handler has a Copilot service. An error of a store is answered by its kind.
\<close>

section \<open>State\<close>

record ('c, 't, 'm, 'k, 'a, 'p, 'b) copilot_admin =
  coAdmin :: "('c, 't, 'm, 'k, 'a) admin"
  coPools :: 'p
  coAccounts :: 'b
  coCache :: model_cache

definition copilot_audit :: "('c, 't, 'm, 'k, 'a) backends \<Rightarrow> call \<Rightarrow> ('c, 't, 'm, 'k, 'a, 'p, 'b) copilot_admin \<Rightarrow> string \<Rightarrow> string \<Rightarrow> string \<Rightarrow>
    ('c, 't, 'm, 'k, 'a, 'p, 'b) copilot_admin" where
  "copilot_audit B cl st action object detail = st\<lparr>coAdmin := recordAudit B cl (coAdmin st) action object detail\<rparr>"

section \<open>Pools and the targets of their clients\<close>

definition validateCopilotTargets :: "('c, 't, 'm, 'k, 'a) backends \<Rightarrow> string list \<Rightarrow> ('c, 't, 'm, 'k, 'a) admin \<Rightarrow> bool \<times> ('c, 't, 'm, 'k, 'a) admin" where
  "validateCopilotTargets B names ad = (if names = [] then (True, ad) else
     case current_targets B ad of (None, ad1) \<Rightarrow> (False, ad1)
     | (Some ts, ad1) \<Rightarrow> (list_all (\<lambda>n. to_lower (trim_space n) \<in> (to_lower \<circ> st_name) ` set ts) names, ad1))"

definition validateClientExists :: "('c, 't, 'm, 'k, 'a) backends \<Rightarrow> string \<Rightarrow> ('c, 't, 'm, 'k, 'a) admin \<Rightarrow> bool" where
  "validateClientExists B name ad = (let name = trim_space name in name \<noteq> [] \<and>
     (case client_list (bkClients B) (adClients ad) of Inl _ \<Rightarrow> False | Inr cs \<Rightarrow> list_ex (\<lambda>c. equal_fold (ccName c) name) cs))"

definition allow_target :: "string set \<times> string list \<Rightarrow> string \<Rightarrow> string set \<times> string list" where
  "allow_target s t = (case s of (present, allowed) \<Rightarrow> let key = to_lower (trim_space t) in
     if key = [] \<or> key \<in> present then (present, allowed) else (insert key present, allowed @ [key]))"

definition store_client :: "('c, 't, 'm, 'k, 'a) backends \<Rightarrow> client \<Rightarrow> string list \<Rightarrow> ('c, 't, 'm, 'k, 'a) admin \<Rightarrow> ('c, 't, 'm, 'k, 'a) admin" where
  "store_client B c allowed ad = (case client_update (bkClients B) (adClients ad) (ccName c) (c\<lparr>ccAllowedTargets := allowed\<rparr>) of
       Inl _ \<Rightarrow> ad | Inr b \<Rightarrow> fst (reloadAuth B (sync_stores B (ad\<lparr>adClients := b\<rparr>))))"

text \<open>Errors of the two functions below are only logged.\<close>

definition syncClientAllowedTargets :: "('c, 't, 'm, 'k, 'a) backends \<Rightarrow> string \<Rightarrow> string list \<Rightarrow> ('c, 't, 'm, 'k, 'a) admin \<Rightarrow> ('c, 't, 'm, 'k, 'a) admin" where
  "syncClientAllowedTargets B name targets ad = (case client_list (bkClients B) (adClients ad) of Inl _ \<Rightarrow> ad
     | Inr cs \<Rightarrow> (case find (\<lambda>c. equal_fold (ccName c) name) cs of None \<Rightarrow> ad
     | Some c \<Rightarrow> let allowed = snd (foldl allow_target (set (map to_lower (ccAllowedTargets c)), ccAllowedTargets c) targets) in
         if allowed = ccAllowedTargets c then ad else store_client B c allowed ad))"

definition removeTargetsFromClient :: "('c, 't, 'm, 'k, 'a) backends \<Rightarrow> string \<Rightarrow> string list \<Rightarrow> ('c, 't, 'm, 'k, 'a) admin \<Rightarrow> ('c, 't, 'm, 'k, 'a) admin" where
  "removeTargetsFromClient B name targets ad = (if targets = [] then ad else
     case client_list (bkClients B) (adClients ad) of Inl _ \<Rightarrow> ad
     | Inr cs \<Rightarrow> (case find (\<lambda>c. equal_fold (ccName c) name) cs of None \<Rightarrow> ad
     | Some c \<Rightarrow> if ccAllowedTargets c = [] then ad else
         let gone = set (map (to_lower \<circ> trim_space) targets); left = filter (\<lambda>t. to_lower t \<notin> gone) (ccAllowedTargets c) in
         if length left = length (ccAllowedTargets c) then ad else store_client B c left ad))"

definition pool_status_of :: "bool \<Rightarrow> store_error \<Rightarrow> int" where
  "pool_status_of update e = (case e of Not_found _ \<Rightarrow> (if update then 404 else 400) | Already_exists _ \<Rightarrow> 409 | Taken _ \<Rightarrow> 409 | _ \<Rightarrow> 400)"

definition handleCreateCopilotPool :: "('c, 't, 'm, 'k, 'a) backends \<Rightarrow> ('p, 'b) copilot_kv \<Rightarrow> call \<Rightarrow> copilot_pool option \<Rightarrow>
    ('c, 't, 'm, 'k, 'a, 'p, 'b) copilot_admin \<Rightarrow> int \<times> ('c, 't, 'm, 'k, 'a, 'p, 'b) copilot_admin" where
  "handleCreateCopilotPool B K cl body st = (case body of None \<Rightarrow> (400, st) | Some p \<Rightarrow>
     (case validateCopilotTargets B (cpTargets p) (coAdmin st) of (False, ad) \<Rightarrow> (400, st\<lparr>coAdmin := ad\<rparr>)
      | (True, ad) \<Rightarrow> if \<not> validateClientExists B (cpClientName p) ad then (400, st\<lparr>coAdmin := ad\<rparr>)
        else (case pool_create (ckPools K) (rfc3339 (clNow cl)) (coPools st) p of
            Inl e \<Rightarrow> (pool_status_of False e, st\<lparr>coAdmin := ad\<rparr>)
          | Inr pb \<Rightarrow> (201, copilot_audit B cl (st\<lparr>coPools := pb, coAdmin := syncClientAllowedTargets B (cpClientName p) (cpTargets p) ad\<rparr>)
              ''copilot_pool_create'' (cpName p) (''client='' @ cpClientName p)))))"

definition handleUpdateCopilotPool :: "('c, 't, 'm, 'k, 'a) backends \<Rightarrow> ('p, 'b) copilot_kv \<Rightarrow> call \<Rightarrow> string \<Rightarrow> copilot_pool option \<Rightarrow>
    ('c, 't, 'm, 'k, 'a, 'p, 'b) copilot_admin \<Rightarrow> int \<times> ('c, 't, 'm, 'k, 'a, 'p, 'b) copilot_admin" where
  "handleUpdateCopilotPool B K cl name body st = (if trim_space name = [] then (400, st) else
     case body of None \<Rightarrow> (400, st) | Some p \<Rightarrow>
     (case pool_get (ckPools K) (coPools st) name of Inl _ \<Rightarrow> (404, st) | Inr old \<Rightarrow>
     (case validateCopilotTargets B (cpTargets p) (coAdmin st) of (False, ad) \<Rightarrow> (400, st\<lparr>coAdmin := ad\<rparr>)
      | (True, ad) \<Rightarrow> if \<not> validateClientExists B (cpClientName p) ad then (400, st\<lparr>coAdmin := ad\<rparr>)
        else (case pool_update (ckPools K) (rfc3339 (clNow cl)) (coPools st) name p of
            Inl e \<Rightarrow> (pool_status_of True e, st\<lparr>coAdmin := ad\<rparr>)
          | Inr pb \<Rightarrow>
            let ad1 = (if equal_fold (cpClientName old) (cpClientName p) then ad
                  else removeTargetsFromClient B (cpClientName old) (cpTargets old) ad) in
            (200, copilot_audit B cl (st\<lparr>coPools := pb, coAdmin := syncClientAllowedTargets B (cpClientName p) (cpTargets p) ad1\<rparr>)
              ''copilot_pool_update'' name (''client='' @ cpClientName p))))))"

definition handleDeleteCopilotPool :: "('c, 't, 'm, 'k, 'a) backends \<Rightarrow> ('p, 'b) copilot_kv \<Rightarrow> call \<Rightarrow> string \<Rightarrow>
    ('c, 't, 'm, 'k, 'a, 'p, 'b) copilot_admin \<Rightarrow> int \<times> ('c, 't, 'm, 'k, 'a, 'p, 'b) copilot_admin" where
  "handleDeleteCopilotPool B K cl name st = (if trim_space name = [] then (400, st) else
     case pool_get (ckPools K) (coPools st) name of Inl _ \<Rightarrow> (404, st) | Inr p \<Rightarrow>
     (case pool_delete (ckPools K) (coPools st) name of Inl e \<Rightarrow> (case e of Not_found _ \<Rightarrow> 404 | _ \<Rightarrow> 400, st)
      | Inr pb \<Rightarrow> (204, copilot_audit B cl (st\<lparr>coPools := pb, coAdmin := removeTargetsFromClient B (cpClientName p) (cpTargets p) (coAdmin st)\<rparr>)
          ''copilot_pool_delete'' name [])))"

section \<open>Accounts\<close>

text \<open>What is shown of an account: no token, and whether it has one.\<close>

record account_view =
  avAccount :: copilot_account
  avHasOAuthToken :: bool
  avHasCopilotToken :: bool

definition sanitizeCopilotAccount :: "copilot_account \<Rightarrow> account_view" where
  "sanitizeCopilotAccount a = \<lparr>avAccount = a\<lparr>caOAuthToken := [], caCopilotToken := [], caDeviceCode := []\<rparr>,
     avHasOAuthToken = (caOAuthToken a \<noteq> []), avHasCopilotToken = (caCopilotToken a \<noteq> [])\<rparr>"

definition handleListCopilotAccounts :: "bool \<Rightarrow> ('b, copilot_account) kv \<Rightarrow> string \<Rightarrow> 'b \<Rightarrow> int \<times> account_view list" where
  "handleListCopilotAccounts svc kv pool b = (if \<not> svc then (503, []) else let pool = trim_space pool in
     case (if pool \<noteq> [] then listByPool kv b pool else account_list kv b) of Inl _ \<Rightarrow> (500, [])
     | Inr as \<Rightarrow> (200, map sanitizeCopilotAccount as))"

text \<open>What the routes of one account share: \<open>bad\<close> answers with a status, \<open>f\<close> takes the id and the account.\<close>

definition with_account :: "bool \<Rightarrow> ('b, copilot_account) kv \<Rightarrow> string \<Rightarrow> 'b \<Rightarrow> (int \<Rightarrow> 'r) \<Rightarrow> (string \<Rightarrow> copilot_account \<Rightarrow> 'r) \<Rightarrow> 'r" where
  "with_account svc kv raw b bad f = (let ident = trim_space raw in if \<not> svc then bad 503 else if ident = [] then bad 400
     else case account_get kv b ident of Inl _ \<Rightarrow> bad 404 | Inr a \<Rightarrow> f ident a)"

definition handleGetCopilotAccount :: "bool \<Rightarrow> ('b, copilot_account) kv \<Rightarrow> string \<Rightarrow> 'b \<Rightarrow> int \<times> account_view option" where
  "handleGetCopilotAccount svc kv raw b = with_account svc kv raw b (\<lambda>c. (c, None)) (\<lambda>_ a. (200, Some (sanitizeCopilotAccount a)))"

definition handleStartCopilotAuth :: "'w net \<Rightarrow> ('c, 't, 'm, 'k, 'a) backends \<Rightarrow> ('p, 'b) copilot_kv \<Rightarrow> bool \<Rightarrow> call \<Rightarrow> string \<Rightarrow> string option \<Rightarrow>
    ('c, 't, 'm, 'k, 'a, 'p, 'b) copilot_admin \<Rightarrow> 'w \<Rightarrow> int \<times> ('c, 't, 'm, 'k, 'a, 'p, 'b) copilot_admin \<times> 'w" where
  "handleStartCopilotAuth net B K svc cl uuid body st w = (if \<not> svc then (503, st, w) else
     case body of None \<Rightarrow> (400, st, w) | Some raw \<Rightarrow> let pool = trim_space raw in
     if pool = [] then (400, st, w) else
     (case initiateAuth net (ckPools K) (ckAccounts K) uuid (coPools st) pool (coAccounts st) w of
        (Inl _, b, w1) \<Rightarrow> (500, st\<lparr>coAccounts := b\<rparr>, w1)
      | (Inr (ident, _, _), b, w1) \<Rightarrow> (200, copilot_audit B (cl\<lparr>clNow := netNow net w1\<rparr>) (st\<lparr>coAccounts := b\<rparr>)
          ''copilot.auth.start'' ident (''pool='' @ pool), w1)))"

definition complete_status :: "copilot_error \<Rightarrow> int" where
  "complete_status e = (case e of No_copilot_access _ _ \<Rightarrow> 403 | Device_code_expired \<Rightarrow> 400 | Access_denied \<Rightarrow> 403 | _ \<Rightarrow> 500)"

definition handleCompleteCopilotAuth :: "nat \<Rightarrow> 'w net \<Rightarrow> ('c, 't, 'm, 'k, 'a) backends \<Rightarrow> ('p, 'b) copilot_kv \<Rightarrow> bool \<Rightarrow> call \<Rightarrow> string \<Rightarrow>
    ('c, 't, 'm, 'k, 'a, 'p, 'b) copilot_admin \<Rightarrow> 'w \<Rightarrow> (int \<times> ('c, 't, 'm, 'k, 'a, 'p, 'b) copilot_admin \<times> 'w) option" where
  "handleCompleteCopilotAuth fuel net B K svc cl raw st w = (let ident = trim_space raw in
     if \<not> svc then Some (503, st, w) else if ident = [] then Some (400, st, w)
     else case completeAuth fuel net (netNow net w + minutes 10) (ckAccounts K) ident (coAccounts st) w of None \<Rightarrow> None
     | Some (Some e, b, w1) \<Rightarrow> Some (complete_status e, st\<lparr>coAccounts := b\<rparr>, w1)
     | Some (None, b, w1) \<Rightarrow> Some (200, copilot_audit B (cl\<lparr>clNow := netNow net w1\<rparr>) (st\<lparr>coAccounts := b\<rparr>) ''copilot.auth.complete'' ident [], w1))"

definition handleRevokeCopilotAccount :: "('c, 't, 'm, 'k, 'a) backends \<Rightarrow> ('p, 'b) copilot_kv \<Rightarrow> bool \<Rightarrow> call \<Rightarrow> string \<Rightarrow>
    ('c, 't, 'm, 'k, 'a, 'p, 'b) copilot_admin \<Rightarrow> int \<times> ('c, 't, 'm, 'k, 'a, 'p, 'b) copilot_admin" where
  "handleRevokeCopilotAccount B K svc cl raw st = (let ident = trim_space raw in
     if \<not> svc then (503, st) else if ident = [] then (400, st)
     else case revokeAuth (ckAccounts K) (clNow cl) ident (coAccounts st) of (Some _, b) \<Rightarrow> (500, st\<lparr>coAccounts := b\<rparr>)
     | (None, b) \<Rightarrow> (200, copilot_audit B cl (st\<lparr>coAccounts := b\<rparr>) ''copilot.auth.revoke'' ident []))"

text \<open>The routes that change one account: its new value is stored and the change recorded.\<close>

definition change_account :: "('c, 't, 'm, 'k, 'a) backends \<Rightarrow> ('p, 'b) copilot_kv \<Rightarrow> bool \<Rightarrow> call \<Rightarrow> string \<Rightarrow> (copilot_account \<Rightarrow> copilot_account) \<Rightarrow>
    string \<Rightarrow> (copilot_account \<Rightarrow> string) \<Rightarrow> ('c, 't, 'm, 'k, 'a, 'p, 'b) copilot_admin \<Rightarrow> int \<times> ('c, 't, 'm, 'k, 'a, 'p, 'b) copilot_admin" where
  "change_account B K svc cl raw f action detail st = with_account svc (ckAccounts K) raw (coAccounts st) (\<lambda>c. (c, st)) (\<lambda>ident a.
     case account_update (ckAccounts K) (rfc3339 (clNow cl)) (coAccounts st) ident (f a) of Inl _ \<Rightarrow> (500, st)
     | Inr b \<Rightarrow> (200, copilot_audit B cl (st\<lparr>coAccounts := b\<rparr>) action ident (detail (f a))))"

definition handleDisableCopilotAccount :: "('c, 't, 'm, 'k, 'a) backends \<Rightarrow> ('p, 'b) copilot_kv \<Rightarrow> bool \<Rightarrow> call \<Rightarrow> string \<Rightarrow>
    ('c, 't, 'm, 'k, 'a, 'p, 'b) copilot_admin \<Rightarrow> int \<times> ('c, 't, 'm, 'k, 'a, 'p, 'b) copilot_admin" where
  "handleDisableCopilotAccount B K svc cl raw = change_account B K svc cl raw (\<lambda>a. a\<lparr>caStatus := Disabled\<rparr>) ''copilot.account.disable'' (\<lambda>_. [])"

definition handleEnableCopilotAccount :: "('c, 't, 'm, 'k, 'a) backends \<Rightarrow> ('p, 'b) copilot_kv \<Rightarrow> bool \<Rightarrow> call \<Rightarrow> string \<Rightarrow>
    ('c, 't, 'm, 'k, 'a, 'p, 'b) copilot_admin \<Rightarrow> int \<times> ('c, 't, 'm, 'k, 'a, 'p, 'b) copilot_admin" where
  "handleEnableCopilotAccount B K svc cl raw = change_account B K svc cl raw (\<lambda>a. a\<lparr>caStatus := Active\<rparr>) ''copilot.account.enable'' (\<lambda>_. [])"

definition handleToggleCopilotOverage :: "('c, 't, 'm, 'k, 'a) backends \<Rightarrow> ('p, 'b) copilot_kv \<Rightarrow> bool \<Rightarrow> call \<Rightarrow> string \<Rightarrow>
    ('c, 't, 'm, 'k, 'a, 'p, 'b) copilot_admin \<Rightarrow> int \<times> ('c, 't, 'm, 'k, 'a, 'p, 'b) copilot_admin" where
  "handleToggleCopilotOverage B K svc cl raw = change_account B K svc cl raw (\<lambda>a. a\<lparr>caAllowOverage := \<not> caAllowOverage a\<rparr>)
     ''copilot.account.toggle_overage'' (\<lambda>a. ''allow_overage='' @ (if caAllowOverage a then ''true'' else ''false''))"

definition handleDeleteCopilotAccount :: "('c, 't, 'm, 'k, 'a) backends \<Rightarrow> ('p, 'b) copilot_kv \<Rightarrow> bool \<Rightarrow> call \<Rightarrow> string \<Rightarrow>
    ('c, 't, 'm, 'k, 'a, 'p, 'b) copilot_admin \<Rightarrow> int \<times> ('c, 't, 'm, 'k, 'a, 'p, 'b) copilot_admin" where
  "handleDeleteCopilotAccount B K svc cl raw st = (let ident = trim_space raw in
     if \<not> svc then (503, st) else if ident = [] then (400, st)
     else case account_delete (ckAccounts K) (coAccounts st) ident of Inl e \<Rightarrow> (case e of Not_found _ \<Rightarrow> 404 | _ \<Rightarrow> 400, st)
     | Inr b \<Rightarrow> (204, copilot_audit B cl (st\<lparr>coAccounts := b\<rparr>) ''copilot.account.delete'' ident []))"

text \<open>The quota of an account: remaining, entitlement, reset, last synchronisation, billing and whether it is unlimited.\<close>

definition handleGetCopilotQuota :: "bool \<Rightarrow> ('b, copilot_account) kv \<Rightarrow> string \<Rightarrow> 'b \<Rightarrow>
    int \<times> (string \<times> real \<times> int \<times> int \<times> string \<times> string \<times> string \<times> bool) option" where
  "handleGetCopilotQuota svc kv raw b = with_account svc kv raw b (\<lambda>c. (c, None)) (\<lambda>ident a. (200, Some (ident, caPercent a,
     caEntitlement a, caRemaining a, caResetAt a, caLastSyncAt a, caBillingModel a, caUnlimited a)))"

definition sync_detail :: "quota_info \<Rightarrow> string" where
  "sync_detail q = (if qiUnlimited q then ''unlimited''
     else ''remaining='' @ one_decimal (qiPercent q) @ ''% ('' @ int_literal (qiRemaining q) @ ''/'' @ int_literal (qiEntitlement q) @ '')'')"

definition handleSyncCopilotQuota :: "'w net \<Rightarrow> ('c, 't, 'm, 'k, 'a) backends \<Rightarrow> ('p, 'b) copilot_kv \<Rightarrow> bool \<Rightarrow> bool \<Rightarrow> call \<Rightarrow> string \<Rightarrow>
    ('c, 't, 'm, 'k, 'a, 'p, 'b) copilot_admin \<Rightarrow> 'w \<Rightarrow> int \<times> ('c, 't, 'm, 'k, 'a, 'p, 'b) copilot_admin \<times> 'w" where
  "handleSyncCopilotQuota net B K svc mgr cl raw st w = with_account (svc \<and> mgr) (ckAccounts K) raw (coAccounts st) (\<lambda>c. (c, st, w)) (\<lambda>ident a.
     if caOAuthToken a = [] then (400, st, w) else
     case syncQuotaFromGitHub net (caOAuthToken a) w of (Inl _, w1) \<Rightarrow> (500, st, w1)
     | (Inr q, w1) \<Rightarrow> (case account_update (ckAccounts K) (rfc3339 (netNow net w1)) (coAccounts st) ident (quota_synced a q (netNow net w1)) of
         Inl _ \<Rightarrow> (500, st, w1)
       | Inr b \<Rightarrow> (200, copilot_audit B (cl\<lparr>clNow := netNow net w1\<rparr>) (st\<lparr>coAccounts := b\<rparr>) ''copilot.quota.sync'' ident (sync_detail q), w1)))"

text \<open>The old token is taken away before a new one is fetched.\<close>

definition handleRefreshCopilotToken :: "'w net \<Rightarrow> ('c, 't, 'm, 'k, 'a) backends \<Rightarrow> ('p, 'b) copilot_kv \<Rightarrow> bool \<Rightarrow> call \<Rightarrow> string \<Rightarrow>
    ('c, 't, 'm, 'k, 'a, 'p, 'b) copilot_admin \<Rightarrow> 'w \<Rightarrow> int \<times> ('c, 't, 'm, 'k, 'a, 'p, 'b) copilot_admin \<times> 'w" where
  "handleRefreshCopilotToken net B K svc cl raw st w = with_account svc (ckAccounts K) raw (coAccounts st) (\<lambda>c. (c, st, w)) (\<lambda>ident a.
     if caOAuthToken a = [] then (400, st, w) else
     case account_update (ckAccounts K) (rfc3339 (netNow net w)) (coAccounts st) ident (a\<lparr>caCopilotToken := [], caExpiresAt := 0\<rparr>) of
       Inl _ \<Rightarrow> (500, st, w)
     | Inr b \<Rightarrow> (case forceRefreshToken net (ckAccounts K) ident b w of (Inl _, b1, w1) \<Rightarrow> (502, st\<lparr>coAccounts := b1\<rparr>, w1)
       | (Inr _, b1, w1) \<Rightarrow> (case account_get (ckAccounts K) b1 ident of Inl _ \<Rightarrow> (500, st\<lparr>coAccounts := b1\<rparr>, w1)
         | Inr a1 \<Rightarrow> (200, copilot_audit B (cl\<lparr>clNow := netNow net w1\<rparr>) (st\<lparr>coAccounts := b1\<rparr>)
             ''copilot.account.refresh_token'' ident (''api_base_url='' @ caAPIBaseURL a1), w1))))"

section \<open>Lists of models\<close>

definition handleListCopilotModels :: "'w net \<Rightarrow> ('p, 'b) copilot_kv \<Rightarrow> bool \<Rightarrow> ('c, 't, 'm, 'k, 'a, 'p, 'b) copilot_admin \<Rightarrow> 'w \<Rightarrow>
    (model_detail list + model_info list) \<times> ('c, 't, 'm, 'k, 'a, 'p, 'b) copilot_admin \<times> 'w" where
  "handleListCopilotModels net K svc st w = (if \<not> svc then (Inr listAvailableModels, st, w) else
     case getCachedModels net (ckAccounts K) (coCache st) (coAccounts st) w of (r, c, b, w1) \<Rightarrow>
       (case r of Inl _ \<Rightarrow> Inr listAvailableModels | Inr ds \<Rightarrow> Inl ds, st\<lparr>coCache := c, coAccounts := b\<rparr>, w1))"

text \<open>The models of each account of the pool that can be asked and answers.\<close>

fun models_per_account :: "'w net \<Rightarrow> ('b, copilot_account) kv \<Rightarrow> copilot_account list \<Rightarrow> 'b \<Rightarrow> 'w \<Rightarrow> model_detail list list \<times> 'b \<times> 'w" where
  "models_per_account net kv [] b w = ([], b, w)"
| "models_per_account net kv (a # as) b w = (if \<not> in_use a \<or> caOAuthToken a = [] then models_per_account net kv as b w else
     case fetchAccountModels net kv (caID a) b w of (r, b1, w1) \<Rightarrow>
     (case models_per_account net kv as b1 w1 of (dss, s) \<Rightarrow> (case r of Inl _ \<Rightarrow> dss | Inr ds \<Rightarrow> ds # dss, s)))"

text \<open>The models of the first list by their ids, the last of an id, that every other list has.\<close>

definition intersect_models :: "model_detail list list \<Rightarrow> model_detail list" where
  "intersect_models dss = (case dss of [] \<Rightarrow> [] | ds # rest \<Rightarrow>
     let base = foldl (\<lambda>m d. AList.update (mdID d) d m) [] ds in
     sortModelDetailByCategory (map snd (filter (\<lambda>(i, _). list_all (\<lambda>es. i \<in> mdID ` set es) rest) base)))"

definition handleListCopilotPoolModels :: "'w net \<Rightarrow> ('p, 'b) copilot_kv \<Rightarrow> bool \<Rightarrow> string \<Rightarrow> ('c, 't, 'm, 'k, 'a, 'p, 'b) copilot_admin \<Rightarrow> 'w \<Rightarrow>
    (int \<times> model_detail list \<times> nat) \<times> ('c, 't, 'm, 'k, 'a, 'p, 'b) copilot_admin \<times> 'w" where
  "handleListCopilotPoolModels net K svc raw st w = (let pool = trim_space raw in
     if pool = [] then ((400, [], 0), st, w) else if \<not> svc then ((503, [], 0), st, w)
     else case listByPool (ckAccounts K) (coAccounts st) pool of Inl _ \<Rightarrow> ((500, [], 0), st, w)
     | Inr as \<Rightarrow> (case models_per_account net (ckAccounts K) as (coAccounts st) w of (dss, b, w1) \<Rightarrow>
         ((200, intersect_models dss, length dss), st\<lparr>coAccounts := b\<rparr>, w1)))"

end
