(* ===== verification/Admin_Handler_Props.thy ===== *)
theory Admin_Handler_Props
  imports Admin_Handler Serve_Ends
begin

text \<open>
  Properties of the admin routes: a change of a client takes effect in the store of access keys at
  once, and a change of a target is made in the store, the running service and the cached
  configuration together or in none of them.
\<close>

section \<open>Clients\<close>

datatype client_request = New_client "client option" | Change_client string "client option" | Remove_client string

definition client_request :: "('c, 't, 'm, 'k, 'a) backends \<Rightarrow> call \<Rightarrow> client_request \<Rightarrow> ('c, 't, 'm, 'k, 'a) handler" where
  "client_request B cl rq st = (case rq of New_client c \<Rightarrow> handleCreateClient B cl c st
     | Change_client n c \<Rightarrow> handleUpdateClient B cl n c st | Remove_client n \<Rightarrow> handleDeleteClient B cl n st)"

definition auth_agrees :: "('c, client) kv \<Rightarrow> 'c \<Rightarrow> (string \<rightharpoonup> principal) \<Rightarrow> bool" where
  "auth_agrees kv b m = (\<forall>k p. m k = Some p \<longleftrightarrow> (\<exists>n c. kvGet kv b n = Some (Some c) \<and> ccAccessKey c = k \<and>
     p = new_principal (ccName c) k (ccAllowedTargets c)))"

lemma loaded_iff:
  assumes "ordered_bucket kv" "clients_ok kv b"
  obtains cs m where "client_list kv b = Inr cs" "loadFromConfig store (map auth_client cs) = (None, m)"
    "auth_agrees kv b m"
proof -
  obtain cs m where l: "client_list kv b = Inr cs" "loadFromConfig store (map auth_client cs) = (None, m)"
    and fwd: "\<forall>c \<in> set cs. m (ccAccessKey c) = Some (new_principal (ccName c) (ccAccessKey c) (ccAllowedTargets c))"
    using stored_clients_load[OF assms] by blast
  from ordered_bucket.list_ok[OF assms] obtain xs where xs: "store_list kv b = Inr xs"
    "\<And>a. a \<in> set xs \<longleftrightarrow> kvGet kv b (client_key a) = Some (Some a)" "\<And>a. a \<in> set xs \<Longrightarrow> good_client a" by metis
  have cs: "cs = xs" using l(1) xs(1) by (simp add: client_list_def)
  have mem: "c \<in> set cs \<longleftrightarrow> (\<exists>n. kvGet kv b n = Some (Some c))" for c
    using xs(2) assms(2) unfolding cs store_ok_def by (metis option.inject)
  have "load_clients Map.empty Map.empty (map auth_client cs) = Inr m"
    using l(2) by (auto simp: loadFromConfig_def split: sum.splits)
  note spec = load_clients_spec[OF this]
  have "m k = Some p \<longleftrightarrow> (\<exists>c \<in> set cs. ccAccessKey c = k \<and> p = new_principal (ccName c) k (ccAllowedTargets c))" for k p
  proof
    assume "m k = Some p"
    then obtain d where "find (\<lambda>c. trim_space (ccAccessKey c) = k) (map auth_client cs) = Some d"
      using spec by (auto split: option.splits)
    then obtain c where c: "c \<in> set cs" "trim_space (ccAccessKey (auth_client c)) = k"
      using find_in_set by fastforce
    then have "ccAccessKey c = k"
      using xs(3) unfolding cs by (simp add: auth_client_def client_config.truncate_def good_client_def)
    then show "\<exists>c \<in> set cs. ccAccessKey c = k \<and> p = new_principal (ccName c) k (ccAllowedTargets c)"
      using fwd c(1) \<open>m k = Some p\<close> by auto
  qed (use fwd in auto)
  then have "auth_agrees kv b m" unfolding auth_agrees_def mem Bex_def by metis
  then show thesis using l that by blast
qed

lemma audit_frame [simp]:
  "adClients (recordAudit B cl st a obj d) = adClients st" "adAuth (recordAudit B cl st a obj d) = adAuth st"
  "adTargets (recordAudit B cl st a obj d) = adTargets st" "adService (recordAudit B cl st a obj d) = adService st"
  "adConfig (recordAudit B cl st a obj d) = adConfig st" "adConfigTargets (recordAudit B cl st a obj d) = adConfigTargets st"
  by (simp_all add: recordAudit_def)

lemma quota_frame [simp]: "adClients (quota_evaluate st n t) = adClients st" "adAuth (quota_evaluate st n t) = adAuth st"
  by (simp_all add: quota_evaluate_def Let_def split: option.split)

lemma sync_frame [simp]: "adClients (sync_stores B st) = adClients st" "adAuth (sync_stores B st) = adAuth st"
  by (simp_all add: sync_stores_def Let_def)

lemma after_change:
  assumes "ordered_bucket (bkClients B)" "clients_ok (bkClients B) b" "after_client_change B cl b n a d ok st = (s, st')"
  shows "s = ok \<and> adClients st' = b \<and> auth_agrees (bkClients B) b (adAuth st')"
proof -
  obtain cs m where m: "client_list (bkClients B) b = Inr cs" "loadFromConfig (adAuth st) (map auth_client cs) = (None, m)"
    "auth_agrees (bkClients B) b m"
    by (rule loaded_iff[OF assms(1,2), of "adAuth st"]) (rule that)
  have "(s, st') = (ok, recordAudit B cl (quota_evaluate (sync_stores B (st\<lparr>adClients := b\<rparr>)\<lparr>adAuth := m\<rparr>) n (clNow cl)) a n d)"
    using assms(3) m(1,2) by (simp add: after_client_change_def reloadAuth_def)
  then show ?thesis using m(3) by simp
qed

lemma request_cases:
  "(\<exists>s \<ge> 400. client_request B cl rq st = (s, st)) \<or>
   (\<exists>c n a d. \<exists>ok < 300. client_request B cl rq st = after_client_change B cl (client_step (bkClients B) (adClients st) c) n a d ok st)"
proof -
  have low: "400 \<le> create_status m" "400 \<le> update_status m" "400 \<le> delete_status m" for m
    by (simp_all add: create_status_def update_status_def delete_status_def)
  have changed: ?thesis if "client_step (bkClients B) (adClients st) c = b" "ok < 300"
      "client_request B cl rq st = after_client_change B cl b n a d ok st" for b c n a d ok
    using that by blast
  show ?thesis
  proof (cases rq)
    case (New_client body)
    note r = this
    show ?thesis
    proof (cases body)
      case (Some c)
      show ?thesis
      proof (cases "client_create (bkClients B) (adClients st) c")
        case (Inl e)
        then show ?thesis using r Some low(1) by (simp add: client_request_def handleCreateClient_def)
      next
        case (Inr b)
        then have "client_step (bkClients B) (adClients st) (Create_client c) = b" by (simp add: client_step_def)
        then show ?thesis
        proof (rule changed)
          show "client_request B cl rq st = after_client_change B cl b (ccName c) ''client_create'' (maskKey (ccAccessKey c)) 201 st" using r Some Inr by (simp add: client_request_def handleCreateClient_def)
        qed simp
      qed
    qed (simp add: r client_request_def handleCreateClient_def)
  next
    case (Change_client n body)
    note r = this
    show ?thesis
    proof (cases "trim_space n = [] \<or> body = None")
      case True
      then show ?thesis using r by (auto simp: client_request_def handleUpdateClient_def)
    next
      case False
      then obtain c where c: "body = Some c" "trim_space n \<noteq> []" by auto
      show ?thesis
      proof (cases "client_update (bkClients B) (adClients st) n c")
        case (Inl e)
        then show ?thesis using r c low(2) by (simp add: client_request_def handleUpdateClient_def)
      next
        case (Inr b)
        then have "client_step (bkClients B) (adClients st) (Update_client n c) = b" by (simp add: client_step_def)
        then show ?thesis
        proof (rule changed)
          show "client_request B cl rq st = after_client_change B cl b n ''client_update'' (maskKey (ccAccessKey c)) 200 st" using r c Inr by (simp add: client_request_def handleUpdateClient_def)
        qed simp
      qed
    qed
  next
    case (Remove_client n)
    note r = this
    show ?thesis
    proof (cases "trim_space n = []")
      case True
      then show ?thesis using r by (simp add: client_request_def handleDeleteClient_def)
    next
      case False
      show ?thesis
      proof (cases "client_delete (bkClients B) (adClients st) n")
        case (Inl e)
        then show ?thesis using r False low(3) by (simp add: client_request_def handleDeleteClient_def)
      next
        case (Inr b)
        then have "client_step (bkClients B) (adClients st) (Delete_client n) = b" by (simp add: client_step_def)
        then show ?thesis
        proof (rule changed)
          show "client_request B cl rq st = after_client_change B cl b n ''client_delete'' [] 204 st" using r False Inr by (simp add: client_request_def handleDeleteClient_def)
        qed simp
      qed
    qed
  qed
qed

text \<open>
  C20: a request to create, change or delete a client that is refused leaves the state as it was; after
  one that succeeds the store of access keys holds exactly the clients of the database: a new or
  changed client can be used at once, and the key of a deleted or changed one is refused at once.
\<close>

theorem client_change_effective:
  assumes "ordered_bucket (bkClients B)" "clients_ok (bkClients B) (adClients st)" "client_request B cl rq st = (status, st')"
  shows "if status < 300 then clients_ok (bkClients B) (adClients st') \<and> auth_agrees (bkClients B) (adClients st') (adAuth st')
    else st' = st"
  using request_cases[of B cl rq st]
proof (elim disjE exE conjE bexE)
  fix s :: int assume "400 \<le> s" "client_request B cl rq st = (s, st)"
  then show ?thesis using assms(3) by auto
next
  fix c n a d and ok :: int
  assume ok: "ok < 300" and r: "client_request B cl rq st = after_client_change B cl (client_step (bkClients B) (adClients st) c) n a d ok st"
  have "clients_ok (bkClients B) (client_step (bkClients B) (adClients st) c)"
    by (rule client_bucket.client_step_ok[OF client_bucket.intro[OF assms(1)] assms(2)])
  from after_change[OF assms(1) this r[symmetric, unfolded assms(3)]] this show ?thesis using ok by simp
qed

section \<open>Targets\<close>

lemma build_names_paused:
  "build_loop idx names order now cs = Inr (ns, os) \<Longrightarrow>
     map (\<lambda>s. (tName (tsTarget s), tPaused (tsTarget s))) os =
     map (\<lambda>s. (tName (tsTarget s), tPaused (tsTarget s))) order @ map (\<lambda>c. (trim_space (ctName c), ctPaused c)) cs"
proof (induction cs arbitrary: idx names order)
  case (Cons c cs)
  have p: "ctPaused (normalizeTargetForCompatibility c) = ctPaused c"
    by (simp add: normalizeTargetForCompatibility_def normalize_legacy_def Let_def)
  show ?case
    using Cons.prems Cons.IH
    by (auto simp: Let_def p make_target_def newTargetState_def split: option.splits if_splits)
qed simp

lemma build_accepts:
  "build_loop idx names order now cs = Inr r \<Longrightarrow> c \<in> set cs \<Longrightarrow> trim_space (ctEndpoint c) \<noteq> [] \<and>
     (mergeKeys (trim_space (ctAPIKey c)) (ctAPIKeys c) \<noteq> [] \<or> ctAllowBearer c)"
proof (induction cs arbitrary: idx names order)
  case (Cons d cs)
  have e: "case parse_url [] of None \<Rightarrow> True | Some u \<Rightarrow> uHost u = []" by code_simp
  have b: "ctAllowBearer (normalizeTargetForCompatibility x) = ctAllowBearer x" for x by simp
  from Cons.prems(1) obtain u where u: "parse_url (trim_space (ctEndpoint d)) = Some u" "uHost u \<noteq> []"
      "mergeKeys (trim_space (ctAPIKey d)) (ctAPIKeys d) \<noteq> [] \<or> ctAllowBearer d"
      "\<exists>idx names order. build_loop idx names order now cs = Inr r"
    by (auto simp: Let_def make_target_def split: option.splits if_splits)
  have "trim_space (ctEndpoint d) \<noteq> []" using u(1,2) e by auto
  then show ?case using Cons.prems(2) Cons.IH u(3,4) by auto
qed simp

lemma mergeKeys_blank: "\<forall>k \<in> set ks. trim_space k = [] \<Longrightarrow> mergeKeys [] ks = []"
proof -
  have "\<forall>k \<in> set ks. trim_space k = [] \<Longrightarrow> foldl add_key [] ks = []" by (induction ks) (auto simp: add_key_def)
  then show "\<forall>k \<in> set ks. trim_space k = [] \<Longrightarrow> mergeKeys [] ks = []" by (simp add: mergeKeys_def)
qed

abbreviation valid_type :: "stored_target \<Rightarrow> bool" where
  "valid_type t \<equiv> isValidEndpointType (normalizeEndpointType (ctEndpointType (stTarget t)))"

lemma accepted_validates:
  assumes "buildTargetStates (map stTarget ts) now = Inr r" "t \<in> set ts" "trim_space (st_name t) \<noteq> []" "valid_type t"
  shows "validateTarget t = None"
proof -
  have "trim_space (ctEndpoint (stTarget t)) \<noteq> [] \<and>
     (mergeKeys (trim_space (ctAPIKey (stTarget t))) (ctAPIKeys (stTarget t)) \<noteq> [] \<or> ctAllowBearer (stTarget t))"
    using assms(1,2) unfolding buildTargetStates_def by (intro build_accepts) auto
  moreover have "trim_space (ctAPIKey (stTarget t)) = [] \<and> (\<forall>k \<in> set (ctAPIKeys (stTarget t)). trim_space k = []) \<longrightarrow>
      mergeKeys (trim_space (ctAPIKey (stTarget t))) (ctAPIKeys (stTarget t)) = []"
    by (simp add: mergeKeys_blank)
  ultimately show ?thesis using assms(3,4) by (auto simp: validateTarget_def Let_def)
qed

definition in_step :: "('c, 't, 'm, 'k, 'a) backends \<Rightarrow> ('c, 't, 'm, 'k, 'a) admin \<Rightarrow> stored_target list \<Rightarrow> bool" where
  "in_step B st ts = (stands_for (bkTargets B) (bkMeta B) (adTargets st) ts \<and> (\<forall>t \<in> set ts. valid_type t) \<and>
     (ts = [] \<longrightarrow> adConfigTargets st = []))"

text \<open>What the running service shows of its targets.\<close>

definition running :: "service \<Rightarrow> (string \<times> bool) list" where
  "running sv = map (\<lambda>s. (tName (tsTarget s), tPaused (tsTarget s))) (pxOrder sv)"

definition stored_view :: "stored_target \<Rightarrow> string \<times> bool" where
  "stored_view t = (st_name t, ctPaused (stTarget t))"

lemma compat_view: "ctEndpointType (normalizeTargetForCompatibility c) = normalizeEndpointType (ctEndpointType c)"
  "ctPaused (normalizeTargetForCompatibility c) = ctPaused c"
  by (simp_all add: normalizeTargetForCompatibility_def normalize_legacy_def Let_def)

lemma normalize_view:
  "st_name (normalize_stored t) = trim_space (st_name t)" "ctPaused (stTarget (normalize_stored t)) = ctPaused (stTarget t)"
  "ctEndpointType (stTarget (normalize_stored t)) = normalizeEndpointType (ctEndpointType (stTarget t))"
  by (simp_all add: normalize_stored_def Let_def trim_slices_def compat_view normalizeEndpointType_idem)

lemma settled_view: "settled t \<Longrightarrow> trim_space (st_name t) = st_name t \<and> st_name t \<noteq> []"
proof -
  assume s: "settled t"
  have "\<exists>x. fst (read_target t) = normalize_stored x \<and> st_name x = st_name t"
    unfolding read_target_def Let_def fst_conv by (rule exI, rule conjI, rule refl) simp
  then obtain x where x: "t = normalize_stored x" "st_name x = st_name t" using s by (auto simp: settled_def)
  then have "trim_space (st_name t) = st_name t" using normalize_view(1)[of x] by simp
  then show ?thesis using s by (auto simp: settled_def target_key_def)
qed

definition all_or_nothing :: "('c, 't, 'm, 'k, 'a) backends \<Rightarrow> ('c, 't, 'm, 'k, 'a) admin \<Rightarrow> int \<times> ('c, 't, 'm, 'k, 'a) admin \<Rightarrow> bool" where
  "all_or_nothing B st r \<longleftrightarrow> (if fst r < 300 then \<exists>us. in_step B (snd r) us \<and> running (adService (snd r)) = map stored_view us
     else snd r = st)"

locale admin_backends =
  fixes B :: "('c, 't, 'm, 'k, 'a) backends"
  assumes clients: "ordered_bucket (bkClients B)" and targets: "ordered_bucket (bkTargets B)" and meta: "ordered_bucket (bkMeta B)"
begin

lemma two: "target_buckets (bkTargets B) (bkMeta B)"
  by (rule target_buckets.intro[OF targets meta])

lemma current_in_step: "in_step B st ts \<Longrightarrow> current_targets B st = (Some ts, st)"
proof -
  assume i: "in_step B st ts"
  obtain b m where d: "adTargets st = (b, m)" by force
  have "target_list (bkTargets B) (bkMeta B) (adTargets st) = (Inr ts, adTargets st)"
    using i target_buckets.stands_list[OF two] by (simp add: in_step_def d)
  then show "current_targets B st = (Some ts, st)" using i by (auto simp: current_targets_def in_step_def Let_def)
qed

lemma commit_ok:
  assumes "clients_ok (bkClients B) (adClients st)" "in_step B st ts"
    and spec: "\<And>r. buildTargetStates (map stTarget ts') (clNow cl) = Inr r \<Longrightarrow>
      spec_step ts cmd = Inr us \<and> (\<forall>t \<in> set us. valid_type t) \<and>
      map (\<lambda>t. (trim_space (st_name t), ctPaused (stTarget t))) ts' = map stored_view us"
    and "commit_targets B cl cmd ts' a n ok st = (s, st')" "ok < 300"
  shows "if s < 300 then in_step B st' us \<and> running (adService st') = map stored_view us else st' = st"
proof -
  obtain cs m where l: "client_list (bkClients B) (adClients st) = Inr cs" "loadFromConfig (adAuth st) (map auth_client cs) = (None, m)"
    by (rule loaded_iff[OF clients assms(1), of "adAuth st"])
  show ?thesis
  proof (cases "buildTargetStates (map stTarget ts') (clNow cl)")
    case (Inl e)
    then have "applyConfig (adService st) (with_targets (adConfig st) ts') (clNow cl) = (Some e, adService st)"
      by (simp add: applyConfig_def with_targets_def)
    then have "applyConfigRuntime B st ts' (clNow cl) = (st, False)" by (simp add: applyConfigRuntime_def l)
    then show ?thesis using assms(4) by (auto simp: commit_targets_def)
  next
    case (Inr r)
    obtain ns os where r: "r = (ns, os)" by force
    note sp = spec[OF Inr]
    define sv where "sv = snd (applyConfig (adService st) (with_targets (adConfig st) ts') (clNow cl))"
    have ap: "applyConfig (adService st) (with_targets (adConfig st) ts') (clNow cl) = (None, sv)" and px: "pxOrder sv = os"
      using Inr by (simp_all add: sv_def applyConfig_def with_targets_def r setRequestTimeout_def)
    let ?st1 = "st\<lparr>adService := sv, adAuth := m\<rparr>"
    have rt: "applyConfigRuntime B st ts' (clNow cl) = (?st1, True)" by (simp add: applyConfigRuntime_def l ap)
    have "case target_step (bkTargets B) (bkMeta B) (adTargets st) cmd of Inl e \<Rightarrow> spec_step ts cmd = Inl e
       | Inr d' \<Rightarrow> \<exists>us. spec_step ts cmd = Inr us \<and> stands_for (bkTargets B) (bkMeta B) d' us"
      using assms(2) by (intro target_buckets.step_refines[OF two]) (simp add: in_step_def)
    then obtain d where d: "target_step (bkTargets B) (bkMeta B) (adTargets st) cmd = Inr d" "stands_for (bkTargets B) (bkMeta B) d us"
      using sp by (cases "target_step (bkTargets B) (bkMeta B) (adTargets st) cmd") auto
    have st': "(s, st') = (ok, recordAudit B cl (?st1\<lparr>adTargets := d, adConfigTargets := ts'\<rparr>) a n [])"
      using assms(4) by (simp add: commit_targets_def rt d(1))
    have "running sv = map (\<lambda>t. (trim_space (st_name t), ctPaused (stTarget t))) ts'"
      using build_names_paused[of 0 Map.empty "[]" "clNow cl" "map stTarget ts'" ns os] Inr
      by (simp add: running_def px r buildTargetStates_def comp_def)
    moreover have "us = [] \<longrightarrow> ts' = []" using sp by auto
    ultimately show ?thesis using st' d(2) sp assms(5) by (simp add: in_step_def)
  qed
qed

lemma changed:
  assumes "in_step B st ts" "find (has_name name) ts = Some t" "trim_space name = name"
  shows "change_first (has_name name) u ts = map (\<lambda>x. if target_key x = to_lower name then u else x) ts"
    and "t \<in> set ts" "target_key t = to_lower name" "trim_space (st_name t) = st_name t" "st_name t \<noteq> []" "valid_type t"
proof -
  have n: "has_name name x \<longleftrightarrow> target_key x = to_lower name" for x by (simp add: has_name_def target_key_def equal_fold_def)
  have "distinct (map target_key ts)" using assms(1) by (simp add: in_step_def stands_for_def)
  then show "change_first (has_name name) u ts = map (\<lambda>x. if target_key x = to_lower name then u else x) ts"
  proof (induction ts)
    case (Cons x ts)
    show ?case
    proof (cases "target_key x = to_lower name")
      case True
      then have "map (\<lambda>x. if target_key x = to_lower name then u else x) ts = ts"
        using Cons.prems by (intro map_idI) (force intro: rev_image_eqI)
      then show ?thesis using True by (simp add: n)
    qed (use Cons in \<open>simp add: n\<close>)
  qed simp
  show t: "t \<in> set ts" "target_key t = to_lower name" using assms(2) n by (auto simp: find_Some_iff)
  show "trim_space (st_name t) = st_name t" "st_name t \<noteq> []" "valid_type t"
    using assms(1) t(1) settled_view[of t] by (auto simp: in_step_def stands_for_def)
qed

lemma update_spec:
  assumes "in_step B st ts" "find (has_name name) ts = Some t" "trim_space name = name"
    "st_name u = st_name t" "valid_type u" "buildTargetStates (map stTarget (change_first (has_name name) u ts)) now = Inr r"
  shows "\<exists>us. spec_step ts (Update_target name u) = Inr us \<and> (\<forall>t \<in> set us. valid_type t) \<and>
    map (\<lambda>t. (trim_space (st_name t), ctPaused (stTarget t))) (change_first (has_name name) u ts) = map stored_view us"
proof -
  note c = changed[OF assms(1,2,3)]
  let ?us = "map (\<lambda>x. if target_key x = to_lower name then normalize_stored u else x) ts"
  have "u \<in> set (change_first (has_name name) u ts)" using c(2,3) by (auto simp: c(1))
  then have v: "validateTarget u = None" using accepted_validates[OF assms(6)] assms(4,5) c(4,5) by simp
  have k: "target_key (normalize_stored u) = to_lower name"
    using c(3,4) assms(4) by (simp add: target_key_def normalize_view)
  have "name \<noteq> []" using c(3,5) by (auto simp: target_key_def to_lower_def)
  moreover have "to_lower name \<in> target_key ` set ts" using c(2,3) by (metis image_eqI)
  ultimately have "spec_step ts (Update_target name u) = Inr ?us"
    using v k assms(3) by (auto simp: spec_step_def Let_def)
  moreover have "\<forall>t \<in> set ?us. valid_type t"
    using assms(1,5) by (auto simp: in_step_def normalize_view normalizeEndpointType_idem)
  moreover have "map (\<lambda>t. (trim_space (st_name t), ctPaused (stTarget t))) (change_first (has_name name) u ts) = map stored_view ?us"
    using assms(1) settled_view unfolding c(1) by (auto simp: stored_view_def normalize_view in_step_def stands_for_def)
  ultimately show ?thesis by blast
qed

lemma patched_type: "patch_target p c = Some d \<Longrightarrow> isValidEndpointType (normalizeEndpointType (ctEndpointType c)) \<Longrightarrow>
    ctName d = ctName c \<and> isValidEndpointType (normalizeEndpointType (ctEndpointType d))"
  by (auto simp: patch_target_def Let_def normalizeEndpointType_idem split: option.splits if_splits)

lemma committed:
  assumes "clients_ok (bkClients B) (adClients st)" "in_step B st ts" "ok < 300"
    and "\<And>r. buildTargetStates (map stTarget ts') (clNow cl) = Inr r \<Longrightarrow> \<exists>us.
      spec_step ts cmd = Inr us \<and> (\<forall>t \<in> set us. valid_type t) \<and>
      map (\<lambda>t. (trim_space (st_name t), ctPaused (stTarget t))) ts' = map stored_view us"
  shows "all_or_nothing B st (commit_targets B cl cmd ts' a n ok st)"
proof -
  obtain s st' where c: "commit_targets B cl cmd ts' a n ok st = (s, st')" by force
  have "\<exists>us. \<forall>r. buildTargetStates (map stTarget ts') (clNow cl) = Inr r \<longrightarrow>
      spec_step ts cmd = Inr us \<and> (\<forall>t \<in> set us. valid_type t) \<and>
      map (\<lambda>t. (trim_space (st_name t), ctPaused (stTarget t))) ts' = map stored_view us"
    using assms(4) by (cases "buildTargetStates (map stTarget ts') (clNow cl)") blast+
  then obtain us where us: "\<And>r. buildTargetStates (map stTarget ts') (clNow cl) = Inr r \<Longrightarrow>
      spec_step ts cmd = Inr us \<and> (\<forall>t \<in> set us. valid_type t) \<and>
      map (\<lambda>t. (trim_space (st_name t), ctPaused (stTarget t))) ts' = map stored_view us" by blast
  have "if s < 300 then in_step B st' us \<and> running (adService st') = map stored_view us else st' = st"
    by (rule commit_ok[OF assms(1,2) _ c assms(3)]) (rule us)
  then show ?thesis by (auto simp: all_or_nothing_def c)
qed

lemma update_all_or_nothing:
  assumes "clients_ok (bkClients B) (adClients st)" "in_step B st ts"
  shows "all_or_nothing B st (handleUpdateTarget B cl raw body st)"
proof -
  have bad: "all_or_nothing B st (s, st)" if "300 \<le> s" for s using that by (simp add: all_or_nothing_def)
  have go: "all_or_nothing B st (commit_targets B cl (Update_target name (t\<lparr>stTarget := d\<rparr>))
      (change_first (has_name name) (t\<lparr>stTarget := d\<rparr>) ts) ''update_target'' name 200 st)"
    if "targetNameParam raw = Some name" "find (has_name name) ts = Some t" "patch_target p (stTarget t) = Some d" for name t p d
  proof (rule committed[OF assms], simp)
    fix r assume b: "buildTargetStates (map stTarget (change_first (has_name name) (t\<lparr>stTarget := d\<rparr>) ts)) (clNow cl) = Inr r"
    have n: "trim_space name = name" using that(1) by (auto simp: targetNameParam_def Let_def split: option.splits if_splits)
    have "valid_type t" by (rule changed(6)[OF assms(2) that(2) n])
    then have "ctName d = ctName (stTarget t) \<and> valid_type (t\<lparr>stTarget := d\<rparr>)" using patched_type[OF that(3)] by simp
    then show "\<exists>us. spec_step ts (Update_target name (t\<lparr>stTarget := d\<rparr>)) = Inr us \<and> (\<forall>t \<in> set us. valid_type t) \<and>
        map (\<lambda>t. (trim_space (st_name t), ctPaused (stTarget t))) (change_first (has_name name) (t\<lparr>stTarget := d\<rparr>) ts) = map stored_view us"
      by (intro update_spec[OF assms(2) that(2) n _ _ b]) simp_all
  qed
  show ?thesis
    unfolding handleUpdateTarget_def current_in_step[OF assms(2)] Let_def using bad go by (simp split: option.split)
qed

lemma pause_all_or_nothing:
  assumes "clients_ok (bkClients B) (adClients st)" "in_step B st ts"
  shows "all_or_nothing B st (handleSetTargetPaused B cl paused raw st)"
proof -
  have bad: "all_or_nothing B st (s, st)" if "300 \<le> s" for s using that by (simp add: all_or_nothing_def)
  have go: "all_or_nothing B st (commit_targets B cl (Update_target name (t\<lparr>stTarget := (stTarget t)\<lparr>ctPaused := paused\<rparr>\<rparr>))
      (change_first (has_name name) (t\<lparr>stTarget := (stTarget t)\<lparr>ctPaused := paused\<rparr>\<rparr>) ts) a name 200 st)"
    if "targetNameParam raw = Some name" "find (has_name name) ts = Some t" for name t a
  proof (rule committed[OF assms], simp)
    let ?u = "t\<lparr>stTarget := (stTarget t)\<lparr>ctPaused := paused\<rparr>\<rparr>"
    fix r assume b: "buildTargetStates (map stTarget (change_first (has_name name) ?u ts)) (clNow cl) = Inr r"
    have n: "trim_space name = name" using that(1) by (auto simp: targetNameParam_def Let_def split: option.splits if_splits)
    show "\<exists>us. spec_step ts (Update_target name ?u) = Inr us \<and> (\<forall>t \<in> set us. valid_type t) \<and>
        map (\<lambda>t. (trim_space (st_name t), ctPaused (stTarget t))) (change_first (has_name name) ?u ts) = map stored_view us"
      by (rule update_spec[OF assms(2) that(2) n _ _ b]) (use changed(6)[OF assms(2) that(2) n] in simp_all)
  qed
  show ?thesis
    unfolding handleSetTargetPaused_def current_in_step[OF assms(2)] Let_def using bad go by (auto split: option.split)
qed

lemma delete_all_or_nothing:
  assumes "clients_ok (bkClients B) (adClients st)" "in_step B st ts"
  shows "all_or_nothing B st (handleDeleteTarget B cl raw st)"
proof -
  have bad: "all_or_nothing B st (s, st)" if "300 \<le> s" for s using that by (simp add: all_or_nothing_def)
  have go: "all_or_nothing B st (commit_targets B cl (Delete_target name) (filter (\<lambda>t. \<not> has_name name t) ts) ''delete_target'' name 200 st)"
    if "targetNameParam raw = Some name" "\<exists>t \<in> set ts. has_name name t" for name
  proof (rule committed[OF assms], simp)
    have n: "trim_space name = name" "name \<noteq> []" using that(1) by (auto simp: targetNameParam_def Let_def split: option.splits if_splits)
    have k: "has_name name x \<longleftrightarrow> target_key x = to_lower name" for x by (simp add: has_name_def target_key_def equal_fold_def)
    let ?us = "filter (\<lambda>t. \<not> has_name name t) ts"
    have "to_lower name \<in> target_key ` set ts" using that(2) unfolding k by (metis image_eqI)
    then have "spec_step ts (Delete_target name) = Inr ?us" using n by (simp add: spec_step_def Let_def k)
    moreover have "map (\<lambda>t. (trim_space (st_name t), ctPaused (stTarget t))) ?us = map stored_view ?us"
      using assms(2) settled_view by (auto simp: stored_view_def in_step_def stands_for_def)
    ultimately show "\<exists>us. spec_step ts (Delete_target name) = Inr us \<and> (\<forall>t \<in> set us. valid_type t) \<and>
        map (\<lambda>t. (trim_space (st_name t), ctPaused (stTarget t))) ?us = map stored_view us"
      using assms(2) by (auto simp: in_step_def)
  qed
  show ?thesis
    unfolding handleDeleteTarget_def current_in_step[OF assms(2)] Let_def using bad go by (simp split: option.split)
qed

lemma create_all_or_nothing:
  assumes "clients_ok (bkClients B) (adClients st)" "in_step B st ts"
  shows "all_or_nothing B st (handleCreateTarget B cl body st)"
proof -
  have bad: "all_or_nothing B st (s, st)" if "300 \<le> s" for s using that by (simp add: all_or_nothing_def)
  have go: "all_or_nothing B st (commit_targets B cl (Create_target t) (ts @ [t]) ''create_target'' (st_name t) 201 st)"
    if "trim_space (st_name t) = st_name t" "st_name t \<noteq> []" "valid_type t" "\<not> (\<exists>x \<in> set ts. has_name (st_name t) x)" for t
  proof (rule committed[OF assms], simp)
    fix r assume b: "buildTargetStates (map stTarget (ts @ [t])) (clNow cl) = Inr r"
    have v: "validateTarget t = None" by (rule accepted_validates[OF b]) (use that in auto)
    let ?us = "ts @ [normalize_stored t]"
    have "target_key (normalize_stored t) \<notin> target_key ` set ts"
      using that(1,4) by (auto simp: has_name_def target_key_def equal_fold_def normalize_view)
    then have "spec_step ts (Create_target t) = Inr ?us" using v by (simp add: spec_step_def Let_def)
    moreover have "map (\<lambda>t. (trim_space (st_name t), ctPaused (stTarget t))) (ts @ [t]) = map stored_view ?us"
      using assms(2) settled_view by (auto simp: stored_view_def in_step_def stands_for_def normalize_view)
    ultimately show "\<exists>us. spec_step ts (Create_target t) = Inr us \<and> (\<forall>t \<in> set us. valid_type t) \<and>
        map (\<lambda>t. (trim_space (st_name t), ctPaused (stTarget t))) (ts @ [t]) = map stored_view us"
      using assms(2) that(3) by (auto simp: in_step_def normalize_view normalizeEndpointType_idem)
  qed
  show ?thesis
  proof (cases body)
    case (Some c)
    let ?t = "\<lparr>stTarget = c\<lparr>ctName := trim_space (ctName c), ctEndpointType := normalizeEndpointType (ctEndpointType c),
        ctEndpoint := trim_space (ctEndpoint c), ctAPIKey := trim_space (ctAPIKey c)\<rparr>,
      stResourcePathPrefix = [], stProviderClass = [], stAllowedModels = []\<rparr>"
    show ?thesis
      using go[of ?t] bad
      unfolding handleCreateTarget_def current_in_step[OF assms(2)] Let_def Some by (simp add: normalizeEndpointType_idem)
  qed (simp add: bad handleCreateTarget_def)
qed

end

section \<open>Keys that are submitted as masks\<close>

text \<open>A target whose first key is repeated among its further keys cannot be saved with the masks it shows.\<close>

lemma repeated_key_ambiguous:
  "k \<noteq> [] \<Longrightarrow> trim_space (maskKey k) = maskKey k \<Longrightarrow> \<not> has_prefix (maskKey k) existingTargetKeyRefPrefix \<Longrightarrow>
    resolveSubmittedTargetKey (maskKey k) [k, k] = None"
proof -
  have "maskKey k \<noteq> []" by (simp add: maskKey_def)
  then show "k \<noteq> [] \<Longrightarrow> trim_space (maskKey k) = maskKey k \<Longrightarrow> \<not> has_prefix (maskKey k) existingTargetKeyRefPrefix \<Longrightarrow>
    resolveSubmittedTargetKey (maskKey k) [k, k] = None" by (simp add: resolveSubmittedTargetKey_def)
qed

lemma short_keys_ambiguous: "length k \<le> 8 \<Longrightarrow> length l \<le> 8 \<Longrightarrow> k \<noteq> [] \<Longrightarrow> l \<noteq> [] \<Longrightarrow>
    resolveSubmittedTargetKey (maskKey k) [k, l] = None"
proof -
  have m: "trim_space ''****'' = ''****''" "has_prefix ''****'' existingTargetKeyRefPrefix = False" by code_simp+
  show "length k \<le> 8 \<Longrightarrow> length l \<le> 8 \<Longrightarrow> k \<noteq> [] \<Longrightarrow> l \<noteq> [] \<Longrightarrow> resolveSubmittedTargetKey (maskKey k) [k, l] = None"
    by (simp add: resolveSubmittedTargetKey_def Let_def maskKey_def m)
qed

text \<open>A target whose only keys are the further ones, which the store accepts, cannot be updated with its key left out.\<close>

lemma further_keys_only_refused: "ctAPIKey c = [] \<Longrightarrow> tpAPIKey p = None \<Longrightarrow> \<not> tpAllowBearer p \<Longrightarrow> patch_target p c = None"
  by (simp add: patch_target_def Let_def split: option.split)

section \<open>Requests on targets\<close>

datatype target_request = New_target "config_target option" | Change_target string "target_patch option"
  | Pause_target bool string | Remove_target string

definition target_request :: "('c, 't, 'm, 'k, 'a) backends \<Rightarrow> call \<Rightarrow> target_request \<Rightarrow> ('c, 't, 'm, 'k, 'a) handler" where
  "target_request B cl rq st = (case rq of New_target c \<Rightarrow> handleCreateTarget B cl c st
     | Change_target n p \<Rightarrow> handleUpdateTarget B cl n p st | Pause_target b n \<Rightarrow> handleSetTargetPaused B cl b n st
     | Remove_target n \<Rightarrow> handleDeleteTarget B cl n st)"


section \<open>Reloading\<close>

lemma build_distinct:
  "build_loop idx names order now cs = Inr (ns, os) \<Longrightarrow> distinct (map (\<lambda>c. to_lower (trim_space (ctName c))) cs) \<and>
     (\<forall>c \<in> set cs. names (to_lower (trim_space (ctName c))) = None)"
proof (induction cs arbitrary: idx names order)
  case (Cons c cs)
  let ?k = "to_lower (trim_space (ctName c))"
  obtain i n o' where r: "build_loop i (names(?k \<mapsto> n)) o' now cs = Inr (ns, os)" "names ?k = None"
    using Cons.prems by (auto simp: Let_def make_target_def split: option.splits if_splits)
  note h = Cons.IH[OF r(1)]
  have other: "to_lower (trim_space (ctName d)) \<noteq> ?k \<and> names (to_lower (trim_space (ctName d))) = None" if "d \<in> set cs" for d
  proof -
    have "(names(?k \<mapsto> n)) (to_lower (trim_space (ctName d))) = None" using h that by blast
    then show ?thesis by (auto split: if_splits)
  qed
  then have "?k \<notin> (\<lambda>c. to_lower (trim_space (ctName c))) ` set cs" by fastforce
  then show ?case using h r(2) other by simp
qed simp

lemma normalize_all_total:
  "\<forall>t \<in> set ts. validateTarget t = None \<and> target_key (normalize_stored t) \<notin> seen \<Longrightarrow> distinct (map (target_key \<circ> normalize_stored) ts) \<Longrightarrow>
     normalize_all seen ts = Inr (map normalize_stored ts)"
proof (induction seen ts rule: normalize_all.induct)
  case (2 seen t ts)
  let ?k = "target_key (normalize_stored t)"
  have "?k \<notin> (target_key \<circ> normalize_stored) ` set ts" using "2.prems"(2) by simp
  then have "\<forall>u \<in> set ts. target_key (normalize_stored u) \<noteq> ?k"
  proof (intro ballI notI)
    fix u assume "?k \<notin> (target_key \<circ> normalize_stored) ` set ts" "u \<in> set ts" "target_key (normalize_stored u) = ?k"
    then show False by (metis comp_apply imageI)
  qed
  then have "normalize_all (insert ?k seen) ts = Inr (map normalize_stored ts)"
    using "2.prems" by (intro "2.IH") auto
  then show ?case using "2.prems"(1) by (simp add: Let_def)
qed simp

lemma migrate_total:
  assumes "\<forall>t \<in> set ts. validateTarget t = None" "distinct (map (\<lambda>t. to_lower (trim_space (st_name t))) ts)" "ts \<noteq> []"
  shows "migrateTargetsFromConfig kv mkv (b, m) ts = (if kvEach kv b \<noteq> [] then (Inr False, (b, m))
    else (Inr True, fst (snd (migrateTargetsFromConfig kv mkv (b, m) ts)), snd (snd (migrateTargetsFromConfig kv mkv (b, m) ts))))"
proof -
  have "normalize_all {} ts = Inr (map normalize_stored ts)"
    using assms by (intro normalize_all_total) (simp_all add: comp_def target_key_def normalize_view)
  then show ?thesis using assms(3) by (simp add: migrateTargetsFromConfig_def)
qed

lemma stands_nonempty:
  assumes "ordered_bucket kv" "stands_for kv mkv (b, m) ts"
  shows "kvEach kv b = [] \<longleftrightarrow> ts = []"
proof -
  have g: "kvGet kv b k = map_option Some (map_of (map (\<lambda>t. (target_key t, t)) ts) k)" for k using assms(2) by (simp add: stands_for_def)
  show ?thesis
  proof
    assume "kvEach kv b = []"
    then have "kvGet kv b k = None" for k using ordered_bucket.each_get[OF assms(1), of b] by (metis map_of.simps(1))
    then show "ts = []" using g[of "target_key (hd ts)"] by (cases ts) simp_all
  next
    assume "ts = []"
    then have "map_of (kvEach kv b) = Map.empty" using g ordered_bucket.each_get[OF assms(1), of b] by auto
    then show "kvEach kv b = []" by simp
  qed
qed

text \<open>
  Reloading a configuration file, whose targets have been validated, is all or nothing as well: the
  stored targets take precedence, and those of the file are taken over when none are stored.
\<close>

lemma reload_all_or_nothing:
  assumes "ordered_bucket (bkClients B)" "ordered_bucket (bkTargets B)" "ordered_bucket (bkMeta B)"
    "clients_ok (bkClients B) (adClients st)" "in_step B st ts"
    "\<forall>t \<in> set cts. trim_space (st_name t) \<noteq> [] \<and> valid_type t"
  shows "all_or_nothing B st (handleReloadConfig B cl path (Some (cfg, cts)) st)"
proof -
  obtain b m where d: "adTargets st = (b, m)" by force
  have stands: "stands_for (bkTargets B) (bkMeta B) (b, m) ts" and ty: "\<forall>t \<in> set ts. valid_type t"
    using assms(5) by (simp_all add: in_step_def d)
  have listed: "target_list (bkTargets B) (bkMeta B) (adTargets st) = (Inr ts, adTargets st)"
    unfolding d by (rule target_buckets.stands_list[OF target_buckets.intro[OF assms(2,3)] stands])
  obtain cs k0 where cs: "client_list (bkClients B) (adClients st) = Inr cs" "loadFromConfig Map.empty (map auth_client cs) = (None, k0)"
    by (rule loaded_iff[OF assms(1,4), of Map.empty])
  obtain cs' k where k: "client_list (bkClients B) (adClients st) = Inr cs'" "loadFromConfig (adAuth st) (map auth_client cs') = (None, k)"
    by (rule loaded_iff[OF assms(1,4), of "adAuth st"])
  have keys: "loadFromConfig (adAuth st) (map auth_client cs) = (None, k)" using k cs(1) by simp
  let ?o = "overlay_targets ts cts"
  have named: "\<forall>t \<in> set ?o. trim_space (st_name t) \<noteq> [] \<and> valid_type t"
    using assms(6) ty stands settled_view by (auto simp: overlay_targets_def stands_for_def)
  show ?thesis
  proof (cases "buildTargetStates (map stTarget ?o) (clNow cl)")
    case (Inl e)
    then have "applyConfig (adService st) (with_targets cfg ?o) (clNow cl) = (Some e, adService st)"
      by (simp add: applyConfig_def with_targets_def)
    then show ?thesis by (simp add: handleReloadConfig_def listed cs Let_def all_or_nothing_def)
  next
    case (Inr r)
    obtain ns os where r: "r = (ns, os)" by force
    define sv where "sv = snd (applyConfig (adService st) (with_targets cfg ?o) (clNow cl))"
    have ap: "applyConfig (adService st) (with_targets cfg ?o) (clNow cl) = (None, sv)" and px: "pxOrder sv = os"
      using Inr by (simp_all add: sv_def applyConfig_def with_targets_def r setRequestTimeout_def)
    have run: "running sv = map (\<lambda>t. (trim_space (st_name t), ctPaused (stTarget t))) ?o"
      using build_names_paused[of 0 Map.empty "[]" "clNow cl" "map stTarget ?o" ns os] Inr
      by (simp add: running_def px r buildTargetStates_def comp_def)
    have v: "\<forall>t \<in> set ?o. validateTarget t = None" using accepted_validates[OF Inr] named by blast
    have dn: "distinct (map (\<lambda>t. to_lower (trim_space (st_name t))) ?o)"
      using build_distinct[of 0 Map.empty "[]" "clNow cl" "map stTarget ?o" ns os] Inr by (simp add: r buildTargetStates_def comp_def)
    let ?us = "if ts = [] then map normalize_stored ?o else ts"
    let ?m = "if ?o = [] then (Inr False, adTargets st) else migrateTargetsFromConfig (bkTargets B) (bkMeta B) (adTargets st) ?o"
    obtain mv d' where m: "?m = (Inr mv, d')" and s': "stands_for (bkTargets B) (bkMeta B) d' ?us"
    proof (cases "?o = [] \<or> ts \<noteq> []")
      case True
      then have "?m = (Inr False, adTargets st)"
        using migrate_total[OF v dn, of "bkTargets B" "bkMeta B" b m] stands_nonempty[OF assms(2) stands] by (auto simp: d)
      then show thesis using that True stands d by (auto simp: overlay_targets_def split: if_splits)
    next
      case False
      then have e: "kvEach (bkTargets B) b = []" using stands_nonempty[OF assms(2) stands] by simp
      obtain d' where m: "migrateTargetsFromConfig (bkTargets B) (bkMeta B) (b, m) ?o = (Inr True, d')"
        by (rule that[of "snd (migrateTargetsFromConfig (bkTargets B) (bkMeta B) (b, m) ?o)"])
          (use False e migrate_total[OF v dn, of "bkTargets B" "bkMeta B" b m] in auto)
      show thesis using that[of True d'] migrated_stands[OF assms(2,3) e m] False m by (auto simp: d)
    qed
    have "map (\<lambda>t. (trim_space (st_name t), ctPaused (stTarget t))) ?o = map stored_view ?us"
      using stands settled_view by (auto simp: stored_view_def normalize_view overlay_targets_def stands_for_def)
    moreover have "\<forall>t \<in> set ?us. valid_type t" using named ty by (auto simp: normalize_view normalizeEndpointType_idem)
    moreover have "?us = [] \<longrightarrow> ?o = []" by (auto simp: overlay_targets_def)
    moreover have res: "handleReloadConfig B cl path (Some (cfg, cts)) st = (200, recordAudit B cl
        (st\<lparr>adService := sv, adAuth := k, adTargets := d', adConfig := cfg, adConfigTargets := ?o\<rparr>) ''config_reload'' path
        (''targets='' @ int_literal (int (length ?o)) @ '' clients='' @ int_literal (int (length cs))))"
      by (simp add: handleReloadConfig_def listed cs Let_def keys ap m cong: if_cong)
    ultimately have "in_step B (snd (handleReloadConfig B cl path (Some (cfg, cts)) st)) ?us \<and>
        running (adService (snd (handleReloadConfig B cl path (Some (cfg, cts)) st))) = map stored_view ?us"
      using s' run by (simp add: res in_step_def)
    then show ?thesis unfolding all_or_nothing_def by (auto simp: res)
  qed
qed

section \<open>Concrete requests\<close>

type_synonym 'v rows = "(string \<times> 'v option) list"

definition alist_backends :: "(client rows, stored_target rows, meta_value rows, stored_cost rows, audit_event rows) backends" where
  "alist_backends = \<lparr>bkClients = alist_kv, bkTargets = alist_kv, bkMeta = alist_kv, bkCosts = alist_kv, bkAudit = alist_kv\<rparr>"

interpretation alist_admin: admin_backends alist_backends
  by unfold_locales (simp_all add: alist_backends_def alist.get_put alist.get_delete alist.each_get alist.each_sorted)

definition demo_admin :: "(client rows, stored_target rows, meta_value rows, stored_cost rows, audit_event rows) admin" where
  "demo_admin = \<lparr>adClients = [], adTargets = ([], []), adCosts = [], adAudit = [], adAuth = Map.empty, adService = demo_service,
     adConfig = \<lparr>cfgBind = [], cfgRequestTimeoutSeconds = 30, cfgTargets = [], cfgDBPath = [], cfgCookieName = [], cfgSecret = [],
       cfgTTLSeconds = 0, cfgLogLevel = [], cfgAccessLog = [], cfgErrorLog = []\<rparr>, adConfigTargets = []\<rparr>"

definition demo_admin_call :: call where
  "demo_admin_call = \<lparr>clActor = Some ''root'', clUUID = ''u'', clNow = 0\<rparr>"

lemma demo_empty: "clients_ok (bkClients alist_backends) (adClients demo_admin)" "in_step alist_backends demo_admin []"
  by (simp_all add: alist_backends_def demo_admin_def store_ok_def in_step_def stands_for_def read_order_def alist_kv_def)

theorem client_change_effective_witness:
  "\<exists>st'. client_request alist_backends demo_admin_call (New_client (Some \<lparr>ccName = ''a'', ccAccessKey = ''k'', ccAllowedTargets = [],
       clDaily = 0, clWeekly = 0, clMonthly = 0\<rparr>)) demo_admin = (201, st') \<and>
     clients_ok (bkClients alist_backends) (adClients st') \<and> auth_agrees (bkClients alist_backends) (adClients st') (adAuth st')"
proof -
  let ?r = "client_request alist_backends demo_admin_call (New_client (Some \<lparr>ccName = ''a'', ccAccessKey = ''k'', ccAllowedTargets = [],
       clDaily = 0, clWeekly = 0, clMonthly = 0\<rparr>)) demo_admin"
  have "fst ?r = 201" by code_simp
  then have r: "?r = (201, snd ?r)" by (metis prod.collapse)
  from client_change_effective[OF alist_admin.clients demo_empty(1) r] r show ?thesis by (intro exI[of _ "snd ?r"]) simp
qed


end
