(* ===== verification/Startup.thy ===== *)
theory Startup
  imports Migrate Admin_Handler_Props Admin_Session
begin

text \<open>
  The start of the program (\<open>cmd/proxy/main.go\<close>), from the decoded configuration file and the database
  to the state that the routes work on: the migrations, the backfill, the loading of clients and
  targets, the first administrator, the service and the quotas. The environment's settings of logs,
  addresses and the trace store, and the servers themselves, are left out. Filling the quota counters
  at the start is taken to end within its ten seconds.
\<close>

section \<open>The start\<close>

record start_input =
  siConfig :: config
  siTargets :: "stored_target list"
  siFiles :: data_files
  siAdminPassword :: string
  siRandom :: string
  siSalt :: string
  siTrace :: trace_config
  siCatalog :: "catalog option"

datatype start_error = Bad_targets store_error | Backfill_unfinished | Bad_clients store_error | Unreadable_targets store_error
  | Bad_access_keys load_error | Bad_users store_error | Bad_service build_error

text \<open>
  The steps on the database before its stores are used; the second component says whether targets were
  taken from the configuration file, which are then removed from it.
\<close>

definition prepare_database :: "('c, 't, 'm, 'k, 'a, 'u, 'e) buckets \<Rightarrow> time \<Rightarrow> start_input \<Rightarrow> ('c, 't, 'm, 'k, 'a, 'u, 'e) database \<Rightarrow>
    start_error + ('c, 't, 'm, 'k, 'a, 'u, 'e) database \<times> bool" where
  "prepare_database B now inp d0 = (let d = migrateFromJSON B now d0 (siFiles inp) in
     case migrateTargetsFromConfig (bcTargets B) (bcMeta B) (dbTargets d, dbMeta d) (siTargets inp) of
       (Inl e, _) \<Rightarrow> Inl (Bad_targets e)
     | (Inr moved, t, m) \<Rightarrow>
        (case backfillUsageAgg (Suc (length (kvEach (bcEvents B) (dbEvents d)))) (bcEvents B) (bcMeta B) (rfc3339 now)
            \<lparr>ubEvents = dbEvents d, ubMeta = m, ubCells = dbCells d\<rparr> of None \<Rightarrow> Inl Backfill_unfinished
         | Some u \<Rightarrow> Inr (d\<lparr>dbTargets := t, dbMeta := ubMeta u, dbCells := ubCells u, dbCosts := migrateKeys (bcCosts B) (dbCosts d)\<rparr>, moved)))"

text \<open>An administrator when there is none; an error of the store is logged and passed over.\<close>

definition initial_password :: "start_input \<Rightarrow> string" where
  "initial_password inp = (let p = trim_space (siAdminPassword inp) in if p = [] then hex_encode (siRandom inp) else p)"

definition seed_admin :: "(string \<Rightarrow> string) \<Rightarrow> ('u, admin_user) kv \<Rightarrow> start_input \<Rightarrow> 'u \<Rightarrow> store_error + 'u" where
  "seed_admin sha kv inp b = (case user_list kv b of Inl e \<Rightarrow> Inl e
     | Inr us \<Rightarrow> if us \<noteq> [] then Inr b else
        (case seedDefaultUser kv b \<lparr>auUsername = ''admin'', auPasswordHash = hashWithSaltBytes sha (initial_password inp) (siSalt inp),
            auRole = ''admin'', auDisabled = False, auUpdatedAt = []\<rparr> of Inl _ \<Rightarrow> Inr b | Inr b' \<Rightarrow> Inr b'))"

definition admin_backends_of :: "('c, 't, 'm, 'k, 'a, 'u, 'e) buckets \<Rightarrow> ('c, 't, 'm, 'k, 'a) backends" where
  "admin_backends_of B = \<lparr>bkClients = bcClients B, bkTargets = bcTargets B, bkMeta = bcMeta B, bkCosts = bcCosts B, bkAudit = bcAudit B\<rparr>"

definition usage_of :: "('e, usage_event) kv \<Rightarrow> 'e \<Rightarrow> (agg_key \<times> agg_cell) list \<Rightarrow> usage_db" where
  "usage_of kv e cells = \<lparr>udEvents = events_in (kvEach kv e), udAgg = cells\<rparr>"

text \<open>The quota manager with the counters of the clients that have a quota.\<close>

definition start_quota :: "time \<Rightarrow> service \<Rightarrow> service" where
  "start_quota now sv = setQuotaManager sv (Some (calibrateAll (svStores sv) new_manager now))"

record ('c, 't, 'm, 'k, 'a, 'u) started =
  sdAdmin :: "('c, 't, 'm, 'k, 'a) admin"
  sdUsers :: 'u
  sdTargetsMoved :: bool

definition start :: "(string \<Rightarrow> string) \<Rightarrow> ('c, 't, 'm, 'k, 'a, 'u, 'e) buckets \<Rightarrow> time \<Rightarrow> start_input \<Rightarrow>
    ('c, 't, 'm, 'k, 'a, 'u, 'e) database \<Rightarrow> start_error + ('c, 't, 'm, 'k, 'a, 'u) started" where
  "start sha B now inp d0 =
    (case prepare_database B now inp d0 of Inl e \<Rightarrow> Inl e
     | Inr (d, moved) \<Rightarrow>
       (case client_list (bcClients B) (dbClients d) of Inl e \<Rightarrow> Inl (Bad_clients e)
        | Inr cs \<Rightarrow>
       (case target_list (bcTargets B) (bcMeta B) (dbTargets d, dbMeta d) of (Inl e, _) \<Rightarrow> Inl (Unreadable_targets e)
        | (Inr ts, tm) \<Rightarrow>
       (case loadFromConfig Map.empty (map auth_client cs) of (Some e, _) \<Rightarrow> Inl (Bad_access_keys e)
        | (None, keys) \<Rightarrow>
       (case seed_admin sha (bcUsers B) inp (dbUsers d) of Inl e \<Rightarrow> Inl (Bad_users e)
        | Inr us \<Rightarrow>
       (case newService (with_targets (siConfig inp) ts) (siTrace inp) (siCatalog inp) now of Inl e \<Rightarrow> Inl (Bad_service e)
        | Inr sv \<Rightarrow>
          let st = sync_stores (admin_backends_of B) \<lparr>adClients = dbClients d, adTargets = tm, adCosts = dbCosts d, adAudit = dbAudit d,
                adAuth = keys, adService = setUsageRecorder sv (Some (usage_of (bcEvents B) (dbEvents d) (dbCells d))),
                adConfig = siConfig inp, adConfigTargets = ts\<rparr>
          in Inr \<lparr>sdAdmin = st\<lparr>adService := start_quota now (adService st)\<rparr>, sdUsers = us, sdTargetsMoved = moved\<rparr>))))))"

section \<open>What a start leaves\<close>

lemma with_put:
  assumes "ordered_bucket mkv" "k \<noteq> targetOrderKey" "stands_for kv mkv (b, m) ts"
  shows "stands_for kv mkv (b, kvPut mkv m k v) ts"
  using assms ordered_bucket.get_put[OF assms(1)] by (simp add: stands_for_def read_order_def)

lemma migrate_frame: "dbTargets (migrateFromJSON B now d f) = dbTargets d"
  by (simp add: migrateFromJSON_def)

lemma normalize_all_valid: "normalize_all seen ts = Inr us \<Longrightarrow> \<forall>t \<in> set ts. validateTarget t = None"
  by (induction seen ts arbitrary: us rule: normalize_all.induct) (auto simp: Let_def split: option.splits sum.splits if_splits)

text \<open>The targets the program starts with: those of the database, or else those of the configuration file.\<close>

lemma migrated_or_kept:
  assumes "ordered_bucket kv" "ordered_bucket mkv" "stands_for kv mkv (b, m) ts" "\<forall>t \<in> set ts. valid_type t"
    "migrateTargetsFromConfig kv mkv (b, m) cfg = (Inr moved, d)"
  defines "us \<equiv> if ts = [] then map normalize_stored cfg else ts"
  shows "stands_for kv mkv d us \<and> (\<forall>t \<in> set us. valid_type t)"
proof (cases "cfg = [] \<or> ts \<noteq> []")
  case True
  then have "d = (b, m)" using assms(5) stands_nonempty[OF assms(1,3)]
    by (auto simp: migrateTargetsFromConfig_def split: if_splits sum.splits)
  then show ?thesis using True assms(3,4) by (auto simp: us_def)
next
  case False
  then have e: "kvEach kv b = []" using stands_nonempty[OF assms(1,3)] by simp
  then have m: "migrateTargetsFromConfig kv mkv (b, m) cfg = (Inr True, d)"
    using False assms(5) by (auto simp: migrateTargetsFromConfig_def split: sum.splits)
  have v: "\<forall>t \<in> set cfg. validateTarget t = None"
    using False m by (auto simp: migrateTargetsFromConfig_def split: sum.splits dest!: normalize_all_valid)
  have "valid_type (normalize_stored t)" if "validateTarget t = None" for t
    using that by (auto simp: normalize_view normalizeEndpointType_idem validateTarget_def Let_def split: if_splits)
  then show ?thesis using False v migrated_stands[OF assms(1,2) e m] by (auto simp: us_def)
qed

lemma backfill_meta: "backfillUsageAgg fuel kv mkv mark b = Some b' \<Longrightarrow>
    ubMeta b' = ubMeta b \<or> (\<exists>v. ubMeta b' = kvPut mkv (ubMeta b) usageAggBuiltMetaKey v)"
  by (auto simp: backfillUsageAgg_def split: if_splits)

lemma new_service_running:
  assumes "newService (with_targets cfg ts) tr cat now = Inr sv"
  shows "running sv = map (\<lambda>t. (trim_space (st_name t), ctPaused (stTarget t))) ts"
proof -
  obtain ns os where b: "buildTargetStates (map stTarget ts) now = Inr (ns, os)" and o: "pxOrder sv = os"
    using assms by (auto simp: newService_def applyConfig_def with_targets_def Let_def setRequestTimeout_def
        split: option.splits sum.splits prod.splits)
  show ?thesis
    using build_names_paused[of 0 Map.empty "[]" now "map stTarget ts" ns os] b
    by (simp add: running_def o buildTargetStates_def comp_def)
qed

text \<open>
  A start over a database of clients and targets as the stores keep them, when it succeeds, leaves
  the program in step: the store of access keys holds exactly the clients of the database, and the
  running service shows exactly the targets of the database, which are those it had or, when it had
  none, the normalised ones of the configuration file, in their order.
\<close>

theorem started_in_step:
  assumes "ordered_bucket (bcClients B)" "ordered_bucket (bcTargets B)" "ordered_bucket (bcMeta B)"
    "kvGet (bcMeta B) (dbMeta d0) ''migrated'' \<noteq> None" "clients_ok (bcClients B) (dbClients d0)"
    "stands_for (bcTargets B) (bcMeta B) (dbTargets d0, dbMeta d0) ts" "\<forall>t \<in> set ts. valid_type t"
    "start sha B now inp d0 = Inr s"
  shows "\<exists>us. us = (if ts = [] then map normalize_stored (siTargets inp) else ts) \<and>
    in_step (admin_backends_of B) (sdAdmin s) us \<and> running (adService (sdAdmin s)) = map stored_view us \<and>
    adClients (sdAdmin s) = dbClients d0 \<and> auth_agrees (bcClients B) (dbClients d0) (adAuth (sdAdmin s))"
proof -
  let ?us = "if ts = [] then map normalize_stored (siTargets inp) else ts"
  have mig: "migrateFromJSON B now d0 (siFiles inp) = d0" using assms(4) by (simp add: migrateFromJSON_def)
  from assms(8) obtain d moved where prep: "prepare_database B now inp d0 = Inr (d, moved)"
    by (auto simp: start_def split: sum.splits)
  from prep obtain t m u where mt: "migrateTargetsFromConfig (bcTargets B) (bcMeta B) (dbTargets d0, dbMeta d0) (siTargets inp) = (Inr moved, t, m)"
    and bf: "backfillUsageAgg (Suc (length (kvEach (bcEvents B) (dbEvents d0)))) (bcEvents B) (bcMeta B) (rfc3339 now)
        \<lparr>ubEvents = dbEvents d0, ubMeta = m, ubCells = dbCells d0\<rparr> = Some u"
    and d: "d = d0\<lparr>dbTargets := t, dbMeta := ubMeta u, dbCells := ubCells u, dbCosts := migrateKeys (bcCosts B) (dbCosts d0)\<rparr>"
    by (auto simp: prepare_database_def mig Let_def split: prod.splits sum.splits option.splits)
  have kept: "stands_for (bcTargets B) (bcMeta B) (t, m) ?us" "\<forall>t \<in> set ?us. valid_type t"
    using migrated_or_kept[OF assms(2,3,6,7) mt] by blast+
  have "stands_for (bcTargets B) (bcMeta B) (t, ubMeta u) ?us"
    using backfill_meta[OF bf] kept(1) with_put[OF assms(3) _ kept(1), of usageAggBuiltMetaKey]
    by (auto simp: usageAggBuiltMetaKey_def targetOrderKey_def)
  note stands = this
  have listed: "target_list (bcTargets B) (bcMeta B) (t, ubMeta u) = (Inr ?us, t, ubMeta u)"
    by (rule target_buckets.stands_list[OF target_buckets.intro[OF assms(2,3)] stands])
  obtain cs keys where cs: "client_list (bcClients B) (dbClients d0) = Inr cs" "loadFromConfig Map.empty (map auth_client cs) = (None, keys)"
    "auth_agrees (bcClients B) (dbClients d0) keys"
    by (rule loaded_iff[OF assms(1,5), of Map.empty])
  from assms(8) obtain sv st where sv: "newService (with_targets (siConfig inp) ?us) (siTrace inp) (siCatalog inp) now = Inr sv"
    and st: "sdAdmin s = st\<lparr>adService := start_quota now (adService st)\<rparr>"
      "st = sync_stores (admin_backends_of B) \<lparr>adClients = dbClients d0, adTargets = (t, ubMeta u), adCosts = migrateKeys (bcCosts B) (dbCosts d0),
        adAudit = dbAudit d0, adAuth = keys, adService = setUsageRecorder sv (Some (usage_of (bcEvents B) (dbEvents d0) (ubCells u))),
        adConfig = siConfig inp, adConfigTargets = ?us\<rparr>"
    by (auto simp: start_def prep d cs(1,2) listed Let_def simp del: map_is_Nil_conv split: sum.splits)
  have fields: "adClients (sdAdmin s) = dbClients d0" "adTargets (sdAdmin s) = (t, ubMeta u)" "adAuth (sdAdmin s) = keys"
    "adConfigTargets (sdAdmin s) = ?us" "pxOrder (adService (sdAdmin s)) = pxOrder sv"
    by (simp_all add: st sync_stores_def start_quota_def setQuotaManager_def setUsageRecorder_def Let_def)
  have "running (adService (sdAdmin s)) = map stored_view ?us"
    using new_service_running[OF sv] kept(1) settled_view by (auto simp: running_def fields stored_view_def stands_for_def)
  moreover have "in_step (admin_backends_of B) (sdAdmin s) ?us"
    using stands kept(2) by (simp add: in_step_def fields admin_backends_of_def)
  ultimately show ?thesis using cs(3) by (simp add: fields)
qed

text \<open>
  After a first start, with no administrators in the database, the administrator \<open>admin\<close> can log in
  with the password that the environment sets or that is printed.
\<close>

theorem seeded_admin_logs_in:
  assumes "ordered_bucket (bcUsers B)" "\<And>x. sha x \<noteq> []" "kvEach (bcUsers B) (dbUsers (migrateFromJSON B now d0 (siFiles inp))) = []"
    "start sha B now inp d0 = Inr s"
  shows "\<exists>u. authenticateUser sha (bcUsers B) (sdUsers s) ''admin'' (initial_password inp) = Inr u"
proof -
  let ?b = "dbUsers (migrateFromJSON B now d0 (siFiles inp))" and ?h = "hashWithSaltBytes sha (initial_password inp) (siSalt inp)"
  have f: "trim_space ''admin'' = ''admin''" "to_lower ''admin'' = ''admin''" by code_simp+
  have "dbUsers d = ?b" if "prepare_database B now inp d0 = Inr (d, moved)" for d moved
    using that by (auto simp: prepare_database_def Let_def split: prod.splits sum.splits option.splits)
  then have "seed_admin sha (bcUsers B) inp ?b = Inr (sdUsers s)"
    using assms(4) by (auto simp: start_def Let_def split: sum.splits prod.splits option.splits)
  then have u: "sdUsers s = kvPut (bcUsers B) ?b ''admin''
      (Some \<lparr>auUsername = ''admin'', auPasswordHash = ?h, auRole = ''admin'', auDisabled = False, auUpdatedAt = []\<rparr>)"
    by (simp add: seed_admin_def user_list_def store_list_def assms(3) seedDefaultUser_def Let_def f default_role_def)
  show ?thesis
    by (simp add: authenticateUser_def user_get_def Let_def f u ordered_bucket.get_put[OF assms(1)] salted_hash_verifies[OF assms(2)])
qed

section \<open>A concrete start\<close>

definition demo_start :: start_input where
  "demo_start = \<lparr>siConfig = adConfig demo_admin, siTargets = [demo_stored ''b''], siFiles = demo_files, siAdminPassword = '' secret'',
     siRandom = ''r'', siSalt = ''s'', siTrace = rbCfg (svTrace demo_service), siCatalog = None\<rparr>"

definition migrated_database where
  "migrated_database = empty_database\<lparr>dbMeta := [(''migrated'', Some (Meta_marker ''now''))]\<rparr>"

lemma demo_starts: "case start demo_sha alist_buckets 0 demo_start migrated_database of Inl _ \<Rightarrow> False | Inr s \<Rightarrow> True"
  by code_simp

lemma demo_started: "start demo_sha alist_buckets 0 demo_start migrated_database = Inr (projr (start demo_sha alist_buckets 0 demo_start migrated_database))"
  using demo_starts by (auto split: sum.splits)

lemma alist_laws: "ordered_bucket (bcClients alist_buckets)" "ordered_bucket (bcTargets alist_buckets)" "ordered_bucket (bcMeta alist_buckets)"
  "ordered_bucket (bcUsers alist_buckets)"
  by (simp_all add: alist_buckets_def alist.ordered_bucket_axioms)

theorem started_in_step_witness:
  "\<exists>us. us = map normalize_stored [demo_stored ''b''] \<and>
    in_step (admin_backends_of alist_buckets) (sdAdmin (projr (start demo_sha alist_buckets 0 demo_start migrated_database))) us \<and>
    running (adService (sdAdmin (projr (start demo_sha alist_buckets 0 demo_start migrated_database)))) = map stored_view us \<and>
    adClients (sdAdmin (projr (start demo_sha alist_buckets 0 demo_start migrated_database))) = [] \<and>
    auth_agrees (bcClients alist_buckets) [] (adAuth (sdAdmin (projr (start demo_sha alist_buckets 0 demo_start migrated_database))))"
proof -
  have c: "clients_ok (bcClients alist_buckets) (dbClients migrated_database)" "kvGet (bcMeta alist_buckets) (dbMeta migrated_database) ''migrated'' \<noteq> None"
    "stands_for (bcTargets alist_buckets) (bcMeta alist_buckets) (dbTargets migrated_database, dbMeta migrated_database) []"
    by (simp_all add: alist_buckets_def migrated_database_def empty_database_def store_ok_def stands_for_def read_order_def alist_kv_def targetOrderKey_def)
  from started_in_step[OF alist_laws(1,2,3) c(2,1,3) _ demo_started]
  show ?thesis by (simp add: migrated_database_def empty_database_def demo_start_def)
qed

theorem seeded_admin_logs_in_witness:
  "\<exists>u. authenticateUser demo_sha (bcUsers alist_buckets) (sdUsers (projr (start demo_sha alist_buckets 0 demo_start migrated_database)))
     ''admin'' (initial_password demo_start) = Inr u"
proof (rule seeded_admin_logs_in[OF alist_laws(4) _ _ demo_started])
  show "kvEach (bcUsers alist_buckets) (dbUsers (migrateFromJSON alist_buckets 0 migrated_database (siFiles demo_start))) = []" by code_simp
qed (simp add: demo_sha_def)

end
