(* ===== verification/Program.thy ===== *)
theory Program
  imports Admin_Views Copilot_Admin Startup
begin

text \<open>
  The routes of the program (\<open>NewHandler\<close> of \<open>internal/admin/handler.go\<close> and \<open>cmd/proxy/main.go\<close>) with the
  middlewares in front of them (\<open>internal/middleware/middleware.go\<close>, \<open>internal/auth/middleware.go\<close>): what
  becomes of one request. A table of routes is a list of methods and patterns, the empty method for any,
  with their handlers; which entry serves a path, and the parameters of its pattern, is the choice of
  the router, a library that is the parameter \<open>enRouter\<close>. Bodies, forms and cookies are decoded by the
  functions of \<open>decoders\<close>. The log of requests is not modelled.
\<close>

section \<open>What surrounds the program\<close>

record decoders =
  dcLogin :: "request \<Rightarrow> (string \<times> string \<times> string) option"
  dcCookies :: "request \<Rightarrow> (string \<times> string) list"
  dcPassword :: "request \<Rightarrow> (string \<times> string) option"
  dcClient :: "request \<Rightarrow> client option"
  dcCost :: "request \<Rightarrow> (string \<times> cost) option"
  dcTarget :: "request \<Rightarrow> config_target option"
  dcPatch :: "request \<Rightarrow> target_patch option"
  dcPool :: "request \<Rightarrow> copilot_pool option"
  dcPoolName :: "request \<Rightarrow> string option"

datatype routed = Matched nat "(string \<times> string) list" | No_match | Wrong_method

type_synonym pattern = "string \<times> string"

text \<open>
  \<open>enFresh\<close> is what the generators of random bytes and identifiers give in a world, one value after the other (the
  identifier of the request, that of the audit entry, that of what is created), \<open>enFuel\<close> the bounds on
  the rounds over targets, over keys and of the device flow, \<open>enRows\<close> the rows of the usage events.
\<close>

record ('c, 't, 'm, 'k, 'a, 'p, 'b, 'u, 'w) env =
  enNet :: "'w net"
  enBackends :: "('c, 't, 'm, 'k, 'a) backends"
  enCopilot :: "('p, 'b) copilot_kv"
  enUsers :: "('u, admin_user) kv"
  enMac :: mac
  enSha :: "string \<Rightarrow> string"
  enLoginError :: "login_error \<Rightarrow> string"
  enDecoders :: decoders
  enRouter :: "pattern list \<Rightarrow> string \<Rightarrow> string \<Rightarrow> routed"
  enFresh :: "'w \<Rightarrow> nat \<Rightarrow> string"
  enRows :: "usage_db \<Rightarrow> (string \<times> usage_event option) list"
  enDiskGet :: "string \<Rightarrow> trace_record option"
  enDiskList :: "nat \<Rightarrow> nat \<Rightarrow> trace_record list"
  enConfigPath :: string
  enConfigFile :: "'w \<Rightarrow> (config \<times> stored_target list) option"
  enFuel :: "nat \<times> nat \<times> nat"

section \<open>The state and the answers\<close>

record ('c, 't, 'm, 'k, 'a, 'p, 'b, 'u) program =
  pgCopilot :: "('c, 't, 'm, 'k, 'a, 'p, 'b) copilot_admin"
  pgSessions :: session_manager
  pgUsers :: 'u

datatype view = View_page | View_health health_view | View_metrics metrics_view | View_me "(string \<times> string \<times> time) option"
  | View_overview overview | View_audit "audit_event list" | View_clients "client list" | View_costs "stored_cost list"
  | View_events "usage_event list" | View_aggregate "agg_result option" | View_summary "summary_result option"
  | View_targets "target_row list" | View_pools "copilot_pool list" | View_accounts "account_view list" | View_account "account_view option"
  | View_account_quota "(string \<times> real \<times> int \<times> int \<times> string \<times> string \<times> string \<times> bool) option"
  | View_copilot_models "model_detail list + model_info list" | View_pool_models "model_detail list" nat
  | View_catalog "model_entry list" | View_quota "quota_status option" | View_types "endpoint_type_meta list"
  | View_trace "trace_record option" | View_traces "trace_record list"

datatype answer = Proxied outcome | Copilot_reply copilot_reply | Portal_reply portal_reply | Refused auth_error | Closed gate
  | Status int | Shown int view | Pong string

type_synonym ('c, 't, 'm, 'k, 'a, 'p, 'b, 'u) prog = "('c, 't, 'm, 'k, 'a, 'p, 'b, 'u) program"

type_synonym ('c, 't, 'm, 'k, 'a, 'p, 'b, 'u, 'w) endpoint =
  "request \<Rightarrow> (string \<times> string) list \<Rightarrow> session option \<Rightarrow> ('c, 't, 'm, 'k, 'a, 'p, 'b, 'u) program \<Rightarrow> 'w \<Rightarrow>
    (answer \<times> ('c, 't, 'm, 'k, 'a, 'p, 'b, 'u) program \<times> 'w) option"

abbreviation admin_of :: "('c, 't, 'm, 'k, 'a, 'p, 'b, 'u) prog \<Rightarrow> ('c, 't, 'm, 'k, 'a) admin" where
  "admin_of st \<equiv> coAdmin (pgCopilot st)"

definition put_admin :: "('c, 't, 'm, 'k, 'a, 'p, 'b, 'u) prog \<Rightarrow> ('c, 't, 'm, 'k, 'a) admin \<Rightarrow> ('c, 't, 'm, 'k, 'a, 'p, 'b, 'u) prog" where
  "put_admin st ad = st\<lparr>pgCopilot := (pgCopilot st)\<lparr>coAdmin := ad\<rparr>\<rparr>"

text \<open>The login pages and the password see the administrators, the sessions and the audit log.\<close>

definition portal_of :: "('c, 't, 'm, 'k, 'a, 'p, 'b, 'u) prog \<Rightarrow> ('u, 'a) portal" where
  "portal_of st = \<lparr>poUsers = pgUsers st, poSessions = pgSessions st, poAudit = adAudit (admin_of st)\<rparr>"

definition put_portal :: "('c, 't, 'm, 'k, 'a, 'p, 'b, 'u) prog \<Rightarrow> ('u, 'a) portal \<Rightarrow> ('c, 't, 'm, 'k, 'a, 'p, 'b, 'u) prog" where
  "put_portal st p = put_admin (st\<lparr>pgUsers := poUsers p, pgSessions := poSessions p\<rparr>) ((admin_of st)\<lparr>adAudit := poAudit p\<rparr>)"

section \<open>Kinds of handlers\<close>

definition param :: "(string \<times> string) list \<Rightarrow> string \<Rightarrow> string" where
  "param ps k = (case map_of ps k of None \<Rightarrow> [] | Some v \<Rightarrow> v)"

definition call_of :: "('c, 't, 'm, 'k, 'a, 'p, 'b, 'u, 'w) env \<Rightarrow> session option \<Rightarrow> 'w \<Rightarrow> call" where
  "call_of E s w = \<lparr>clActor = map_option seUsername s, clUUID = enFresh E w 1, clNow = netNow (enNet E) w\<rparr>"

definition shows_view :: "(request \<Rightarrow> (string \<times> string) list \<Rightarrow> ('c, 't, 'm, 'k, 'a, 'p, 'b, 'u) prog \<Rightarrow> 'w \<Rightarrow> int \<times> view) \<Rightarrow>
    ('c, 't, 'm, 'k, 'a, 'p, 'b, 'u, 'w) endpoint" where
  "shows_view f r ps s st w = (case f r ps st w of (c, v) \<Rightarrow> Some (Shown c v, st, w))"

definition changes_admin :: "('c, 't, 'm, 'k, 'a, 'p, 'b, 'u, 'w) env \<Rightarrow>
    (call \<Rightarrow> request \<Rightarrow> (string \<times> string) list \<Rightarrow> ('c, 't, 'm, 'k, 'a) handler) \<Rightarrow> ('c, 't, 'm, 'k, 'a, 'p, 'b, 'u, 'w) endpoint" where
  "changes_admin E f r ps s st w = (case f (call_of E s w) r ps (admin_of st) of (c, ad) \<Rightarrow> Some (Status c, put_admin st ad, w))"

definition changes_copilot :: "('c, 't, 'm, 'k, 'a, 'p, 'b, 'u, 'w) env \<Rightarrow>
    (call \<Rightarrow> request \<Rightarrow> (string \<times> string) list \<Rightarrow> ('c, 't, 'm, 'k, 'a, 'p, 'b) copilot_admin \<Rightarrow> 'w \<Rightarrow>
       (int \<times> ('c, 't, 'm, 'k, 'a, 'p, 'b) copilot_admin \<times> 'w) option) \<Rightarrow> ('c, 't, 'm, 'k, 'a, 'p, 'b, 'u, 'w) endpoint" where
  "changes_copilot E f r ps s st w = (case f (call_of E s w) r ps (pgCopilot st) w of None \<Rightarrow> None
     | Some (c, co, w1) \<Rightarrow> Some (Status c, st\<lparr>pgCopilot := co\<rparr>, w1))"

section \<open>The routes of the administration\<close>

definition view_routes :: "('c, 't, 'm, 'k, 'a, 'p, 'b, 'u, 'w) env \<Rightarrow> (pattern \<times> ('c, 't, 'm, 'k, 'a, 'p, 'b, 'u, 'w) endpoint) list" where
  "view_routes E = (let B = enBackends E; K = enCopilot E; now = netNow (enNet E) in
    [((''GET'', ''/''), shows_view (\<lambda>r ps st w. (200, View_page))),
     ((''GET'', ''/ui''), shows_view (\<lambda>r ps st w. (200, View_page))),
     ((''GET'', ''/healthz''), shows_view (\<lambda>r ps st w. (200, View_health (handleHealthz (adService (admin_of st)) (now w))))),
     ((''GET'', ''/metrics''), shows_view (\<lambda>r ps st w. (200, View_metrics (handleMetrics (adService (admin_of st)) (now w))))),
     ((''GET'', ''/api/me''), (\<lambda>r ps s st w. case handleMe s of (c, v) \<Rightarrow> Some (Shown c (View_me v), st, w))),
     ((''GET'', ''/api/overview''), shows_view (\<lambda>r ps st w. case handleOverview B (admin_of st) (now w) of
        None \<Rightarrow> (500, View_page) | Some v \<Rightarrow> (200, View_overview v))),
     ((''GET'', ''/data/clients''), shows_view (\<lambda>r ps st w. map_prod id View_clients (handleListClients B (admin_of st)))),
     ((''GET'', ''/data/model-costs''), shows_view (\<lambda>r ps st w. map_prod id View_costs (handleListModelCosts B (admin_of st)))),
     ((''GET'', ''/data/usage/events''), shows_view (\<lambda>r ps st w. map_prod id View_events (handleListUsageEvents (enRows E (usage_db_of (admin_of st))) r))),
     ((''GET'', ''/data/usage/aggregate''), shows_view (\<lambda>r ps st w. map_prod id View_aggregate (handleAggregateUsage B r (admin_of st) (now w)))),
     ((''GET'', ''/data/usage/summary''), shows_view (\<lambda>r ps st w. map_prod id View_summary (handleUsageSummary B (admin_of st) (now w)))),
     ((''GET'', ''/data/audit''), shows_view (\<lambda>r ps st w. map_prod id View_audit (handleListAudit B r (admin_of st)))),
     ((''GET'', ''/data/targets''), (\<lambda>r ps s st w. case handleListTargets B (admin_of st) (now w) of
        ((c, v), ad) \<Rightarrow> Some (Shown c (View_targets v), put_admin st ad, w))),
     ((''GET'', ''/data/copilot-pools''), shows_view (\<lambda>r ps st w. case pool_list (ckPools K) (coPools (pgCopilot st)) of
        Inl _ \<Rightarrow> (500, View_page) | Inr xs \<Rightarrow> (200, View_pools xs))),
     ((''GET'', ''/data/copilot-accounts''), shows_view (\<lambda>r ps st w. map_prod id View_accounts
        (handleListCopilotAccounts True (ckAccounts K) (query_of r ''pool_name'') (coAccounts (pgCopilot st))))),
     ((''GET'', ''/data/copilot-accounts/{id}''), shows_view (\<lambda>r ps st w. map_prod id View_account
        (handleGetCopilotAccount True (ckAccounts K) (param ps ''id'') (coAccounts (pgCopilot st))))),
     ((''GET'', ''/data/copilot-accounts/{id}/quota''), shows_view (\<lambda>r ps st w. map_prod id View_account_quota
        (handleGetCopilotQuota True (ckAccounts K) (param ps ''id'') (coAccounts (pgCopilot st))))),
     ((''GET'', ''/data/copilot-pools/{name}/models''), (\<lambda>r ps s st w. case handleListCopilotPoolModels (enNet E) K True (param ps ''name'') (pgCopilot st) w of
        ((c, ds, n), co, w1) \<Rightarrow> Some (Shown c (View_pool_models ds n), st\<lparr>pgCopilot := co\<rparr>, w1))),
     ((''GET'', ''/data/copilot-models''), (\<lambda>r ps s st w. case handleListCopilotModels (enNet E) K True (pgCopilot st) w of
        (v, co, w1) \<Rightarrow> Some (Shown 200 (View_copilot_models v), st\<lparr>pgCopilot := co\<rparr>, w1))),
     ((''GET'', ''/data/catalog''), shows_view (\<lambda>r ps st w. (200, View_catalog (handleListCatalog (svCatalog (adService (admin_of st))) r)))),
     ((''GET'', ''/data/catalog/{endpoint_type}''), shows_view (\<lambda>r ps st w. (200, View_catalog
        (handleListCatalogByType (svCatalog (adService (admin_of st))) (param ps ''endpoint_type''))))),
     ((''GET'', ''/data/quota/{client}''), (\<lambda>r ps s st w. case handleQuotaStatus (param ps ''client'') (admin_of st) (now w) of
        ((c, v), ad) \<Rightarrow> Some (Shown c (View_quota v), put_admin st ad, w))),
     ((''GET'', ''/data/endpoint-types''), shows_view (\<lambda>r ps st w. (200, View_types handleListEndpointTypes))),
     ((''GET'', ''/data/trace''), shows_view (\<lambda>r ps st w. map_prod id View_traces (handleListTrace (enDiskList E) (adService (admin_of st)) r))),
     ((''GET'', ''/data/trace/{request_id}''), shows_view (\<lambda>r ps st w. map_prod id View_trace
        (handleGetTrace (enDiskGet E) (adService (admin_of st)) r (param ps ''request_id''))))])"

definition change_routes :: "('c, 't, 'm, 'k, 'a, 'p, 'b, 'u, 'w) env \<Rightarrow> (pattern \<times> ('c, 't, 'm, 'k, 'a, 'p, 'b, 'u, 'w) endpoint) list" where
  "change_routes E = (let B = enBackends E; D = enDecoders E in
    [((''POST'', ''/api/change-password''), (\<lambda>r ps s st w. case handleChangePassword (enSha E) (enUsers E) (bkAudit B) (enFresh E w 1) (enFresh E w 2)
        (netNow (enNet E) w) s (portal_of st) (dcPassword D r) of (c, p) \<Rightarrow> Some (Status c, put_portal st p, w))),
     ((''POST'', ''/config/reload''), (\<lambda>r ps s st w. changes_admin E (\<lambda>cl r ps. handleReloadConfig B cl (enConfigPath E) (enConfigFile E w)) r ps s st w)),
     ((''POST'', ''/data/clients''), changes_admin E (\<lambda>cl r ps. handleCreateClient B cl (dcClient D r))),
     ((''PUT'', ''/data/clients/{name}''), changes_admin E (\<lambda>cl r ps. handleUpdateClient B cl (param ps ''name'') (dcClient D r))),
     ((''DELETE'', ''/data/clients/{name}''), changes_admin E (\<lambda>cl r ps. handleDeleteClient B cl (param ps ''name''))),
     ((''PUT'', ''/data/model-costs/{model}''), changes_admin E (\<lambda>cl r ps. handleUpsertModelCost B cl (param ps ''model'') (dcCost D r))),
     ((''DELETE'', ''/data/model-costs/{model}''), changes_admin E (\<lambda>cl r ps. handleDeleteModelCost B cl (param ps ''model''))),
     ((''POST'', ''/data/targets''), changes_admin E (\<lambda>cl r ps. handleCreateTarget B cl (dcTarget D r))),
     ((''PUT'', ''/data/targets/{name}''), changes_admin E (\<lambda>cl r ps. handleUpdateTarget B cl (param ps ''name'') (dcPatch D r))),
     ((''DELETE'', ''/data/targets/{name}''), changes_admin E (\<lambda>cl r ps. handleDeleteTarget B cl (param ps ''name''))),
     ((''PUT'', ''/data/targets/{name}/pause''), changes_admin E (\<lambda>cl r ps. handleSetTargetPaused B cl True (param ps ''name''))),
     ((''PUT'', ''/data/targets/{name}/resume''), changes_admin E (\<lambda>cl r ps. handleSetTargetPaused B cl False (param ps ''name''))),
     ((''PUT'', ''/data/targets/{name}/keys/{index}/block''), changes_admin E (\<lambda>cl r ps. handleBlockTargetKey B cl (param ps ''name'') (param ps ''index''))),
     ((''PUT'', ''/data/targets/{name}/keys/{index}/unblock''), changes_admin E (\<lambda>cl r ps. handleUnblockTargetKey B cl (param ps ''name'') (param ps ''index''))),
     ((''POST'', ''/data/targets/{name}/keys/wakeup''), (\<lambda>r ps s st w.
        case handleWakeUpTargetKeys (enNet E) B (call_of E s w) (param ps ''name'') (admin_of st) w of
          ((c, ad), w1) \<Rightarrow> Some (Status c, put_admin st ad, w1)))])"

definition copilot_routes :: "('c, 't, 'm, 'k, 'a, 'p, 'b, 'u, 'w) env \<Rightarrow> (pattern \<times> ('c, 't, 'm, 'k, 'a, 'p, 'b, 'u, 'w) endpoint) list" where
  "copilot_routes E = (let B = enBackends E; K = enCopilot E; D = enDecoders E; net = enNet E;
       still = (\<lambda>f cl r ps co w. case f cl r ps co of (c, co1) \<Rightarrow> Some (c, co1, w)) in
    [((''POST'', ''/data/copilot-pools''), changes_copilot E (still (\<lambda>cl r ps. handleCreateCopilotPool B K cl (dcPool D r)))),
     ((''PUT'', ''/data/copilot-pools/{name}''), changes_copilot E (still (\<lambda>cl r ps. handleUpdateCopilotPool B K cl (param ps ''name'') (dcPool D r)))),
     ((''DELETE'', ''/data/copilot-pools/{name}''), changes_copilot E (still (\<lambda>cl r ps. handleDeleteCopilotPool B K cl (param ps ''name'')))),
     ((''POST'', ''/data/copilot-accounts/auth/start''), changes_copilot E (\<lambda>cl r ps co w.
        Some (handleStartCopilotAuth net B K True cl (enFresh E w 2) (dcPoolName D r) co w))),
     ((''POST'', ''/data/copilot-accounts/auth/complete/{id}''), changes_copilot E (\<lambda>cl r ps co w.
        handleCompleteCopilotAuth (snd (snd (enFuel E))) net B K True cl (param ps ''id'') co w)),
     ((''POST'', ''/data/copilot-accounts/{id}/revoke''), changes_copilot E (still (\<lambda>cl r ps. handleRevokeCopilotAccount B K True cl (param ps ''id'')))),
     ((''POST'', ''/data/copilot-accounts/{id}/disable''), changes_copilot E (still (\<lambda>cl r ps. handleDisableCopilotAccount B K True cl (param ps ''id'')))),
     ((''POST'', ''/data/copilot-accounts/{id}/enable''), changes_copilot E (still (\<lambda>cl r ps. handleEnableCopilotAccount B K True cl (param ps ''id'')))),
     ((''POST'', ''/data/copilot-accounts/{id}/toggle-overage''), changes_copilot E (still (\<lambda>cl r ps. handleToggleCopilotOverage B K True cl (param ps ''id'')))),
     ((''POST'', ''/data/copilot-accounts/{id}/refresh-token''), changes_copilot E (\<lambda>cl r ps co w.
        Some (handleRefreshCopilotToken net B K True cl (param ps ''id'') co w))),
     ((''DELETE'', ''/data/copilot-accounts/{id}''), changes_copilot E (still (\<lambda>cl r ps. handleDeleteCopilotAccount B K True cl (param ps ''id'')))),
     ((''POST'', ''/data/copilot-accounts/{id}/quota/sync''), changes_copilot E (\<lambda>cl r ps co w.
        Some (handleSyncCopilotQuota net B K True True cl (param ps ''id'') co w)))])"

definition admin_routes :: "('c, 't, 'm, 'k, 'a, 'p, 'b, 'u, 'w) env \<Rightarrow> (pattern \<times> ('c, 't, 'm, 'k, 'a, 'p, 'b, 'u, 'w) endpoint) list" where
  "admin_routes E = view_routes E @ change_routes E @ copilot_routes E"

section \<open>The router\<close>

definition dispatch :: "('c, 't, 'm, 'k, 'a, 'p, 'b, 'u, 'w) env \<Rightarrow> (pattern \<times> ('c, 't, 'm, 'k, 'a, 'p, 'b, 'u, 'w) endpoint) list \<Rightarrow>
    ('c, 't, 'm, 'k, 'a, 'p, 'b, 'u, 'w) endpoint \<Rightarrow> string \<Rightarrow> request \<Rightarrow> session option \<Rightarrow> ('c, 't, 'm, 'k, 'a, 'p, 'b, 'u) prog \<Rightarrow> 'w \<Rightarrow>
    (answer \<times> ('c, 't, 'm, 'k, 'a, 'p, 'b, 'u) prog \<times> 'w) option" where
  "dispatch E table otherwise path r s st w = (case enRouter E (map fst table) (rqMethod r) path of
     Matched i ps \<Rightarrow> (if i < length table then snd (table ! i) r ps s st w else otherwise r [] s st w)
   | No_match \<Rightarrow> otherwise r [] s st w
   | Wrong_method \<Rightarrow> Some (Status 405, st, w))"

definition not_found :: "('c, 't, 'm, 'k, 'a, 'p, 'b, 'u, 'w) endpoint" where
  "not_found r ps s st w = Some (Status 404, st, w)"

text \<open>The path that a mounted table serves.\<close>

definition rest_path :: "(string \<times> string) list \<Rightarrow> string" where
  "rest_path ps = ''/'' @ param ps ''*''"

section \<open>The areas of the program\<close>

definition admin_area :: "('c, 't, 'm, 'k, 'a, 'p, 'b, 'u, 'w) env \<Rightarrow> ('c, 't, 'm, 'k, 'a, 'p, 'b, 'u, 'w) endpoint" where
  "admin_area E r ps s0 st w = (let now = netNow (enNet E) w in
     case session_middleware (enMac E) (pgSessions st) now now (dcCookies (enDecoders E) r) (uPath (rqURL r)) (h_get (rqHeader r) ''Accept'') of
       (Admitted s c, m) \<Rightarrow> dispatch E (admin_routes E) not_found (rest_path ps) r (Some s) (st\<lparr>pgSessions := m\<rparr>) w
     | (g, m) \<Rightarrow> Some (Closed g, st\<lparr>pgSessions := m\<rparr>, w))"

definition with_service :: "('c, 't, 'm, 'k, 'a, 'p, 'b, 'u) prog \<Rightarrow> service \<Rightarrow> 'b \<Rightarrow> ('c, 't, 'm, 'k, 'a, 'p, 'b, 'u) prog" where
  "with_service st sv b = st\<lparr>pgCopilot := (pgCopilot st)\<lparr>coAdmin := (admin_of st)\<lparr>adService := sv\<rparr>, coAccounts := b\<rparr>\<rparr>"

definition copilot_endpoint :: "(service \<Rightarrow> request \<Rightarrow> 'p \<Rightarrow> 'b \<Rightarrow> 'w \<Rightarrow> ('b, 'w) copilot_result) \<Rightarrow> ('c, 't, 'm, 'k, 'a, 'p, 'b, 'u, 'w) endpoint" where
  "copilot_endpoint f r ps s st w = (case f (adService (admin_of st)) r (coPools (pgCopilot st)) (coAccounts (pgCopilot st)) w of
     (rp, sv, b, w1) \<Rightarrow> Some (Copilot_reply rp, with_service st sv b, w1))"

definition client_routes :: "('c, 't, 'm, 'k, 'a, 'p, 'b, 'u, 'w) env \<Rightarrow> (pattern \<times> ('c, 't, 'm, 'k, 'a, 'p, 'b, 'u, 'w) endpoint) list" where
  "client_routes E = (let K = Some (enCopilot E); net = enNet E in
    [((''GET'', ''/api/ping''), (\<lambda>r ps s st w. Some (Pong (case rqPrincipal r of None \<Rightarrow> [] | Some p \<Rightarrow> prName p), st, w))),
     ((''GET'', ''/copilot/auth''), copilot_endpoint (\<lambda>sv r pb b w. (handleCopilotAuth K pb r b, sv, b, w))),
     ((''GET'', ''/copilot/quota''), copilot_endpoint (\<lambda>sv r pb b w. handleCopilotQuotaSummary net K pb sv r b w)),
     ((''GET'', ''/copilot/models''), copilot_endpoint (\<lambda>sv r pb b w. handleCopilotModels net K pb sv r b w)),
     (([], ''/copilot/*''), copilot_endpoint (\<lambda>sv r pb b w. handleCopilotPassthrough net K pb sv r b w))])"

text \<open>A panic is answered by the recovering middleware, which writes an entry of the error log.\<close>

definition remoteIP :: "request \<Rightarrow> string" where
  "remoteIP r = (let xff = h_get (rqHeader r) ''X-Forwarded-For'' in if xff \<noteq> [] then trim_space (before_char (CHR '','') xff)
     else case split_host (rqRemoteAddr r) of None \<Rightarrow> rqRemoteAddr r | Some h \<Rightarrow> h)"

definition recovered :: "request \<Rightarrow> outcome \<times> service \<Rightarrow> outcome \<times> service" where
  "recovered r x = (case x of (Panicked, sv) \<Rightarrow> (Replied (error_text ''Internal Server Error'' 500), sv\<lparr>svErrorLog := errorlog_write (svErrorLog sv)
       \<lparr>eeTraceID = rqId r, eeKind = KindProxyPanic, eeMethod = rqMethod r, eePath = uPath (rqURL r), eeClientIP = remoteIP r,
        eeTarget = [], eeEndpointType = [], eeUpstreamURL = [], eeUpstreamFullURL = [], eeUpstreamStatus = 0, eeDurationMS = 0,
        eeReqBytes = 0, eeRespBytes = 0, eeRespExcerpt = []\<rparr>\<rparr>)
     | _ \<Rightarrow> x)"

definition proxy_endpoint :: "('c, 't, 'm, 'k, 'a, 'p, 'b, 'u, 'w) env \<Rightarrow> ('c, 't, 'm, 'k, 'a, 'p, 'b, 'u, 'w) endpoint" where
  "proxy_endpoint E r ps s st w = (case serveHTTP (fst (enFuel E)) (fst (snd (enFuel E))) (enNet E) (adService (admin_of st)) r w of
     None \<Rightarrow> None | Some (out, sv, w1) \<Rightarrow> (case recovered r (out, sv) of
       (out1, sv1) \<Rightarrow> Some (Proxied out1, with_service st sv1 (coAccounts (pgCopilot st)), w1)))"

definition client_area :: "('c, 't, 'm, 'k, 'a, 'p, 'b, 'u, 'w) env \<Rightarrow> ('c, 't, 'm, 'k, 'a, 'p, 'b, 'u, 'w) endpoint" where
  "client_area E r ps s st w = (case authenticate (adAuth (admin_of st)) (rqHeader r) (uRawQuery (rqURL r)) of
     Inl e \<Rightarrow> Some (Refused e, st, w)
   | Inr p \<Rightarrow> dispatch E (client_routes E) (proxy_endpoint E) (rest_path ps) (r\<lparr>rqPrincipal := Some p\<rparr>) None st w)"

definition portal_endpoint :: "(request \<Rightarrow> ('u, 'a) portal \<Rightarrow> 'w \<Rightarrow> portal_reply \<times> ('u, 'a) portal) \<Rightarrow> ('c, 't, 'm, 'k, 'a, 'p, 'b, 'u, 'w) endpoint" where
  "portal_endpoint f r ps s st w = (case f r (portal_of st) w of (rp, p) \<Rightarrow> Some (Portal_reply rp, put_portal st p, w))"

text \<open>A table that is mounted at a path is one pattern with a star, which stands for the path alone as well.\<close>

definition root_routes :: "('c, 't, 'm, 'k, 'a, 'p, 'b, 'u, 'w) env \<Rightarrow> (pattern \<times> ('c, 't, 'm, 'k, 'a, 'p, 'b, 'u, 'w) endpoint) list" where
  "root_routes E = (let akv = bkAudit (enBackends E); now = netNow (enNet E); D = enDecoders E in
    [((''GET'', ''/healthz''), (\<lambda>r ps s st w. Some (Status 200, st, w))),
     ((''GET'', ''/login''), portal_endpoint (\<lambda>r p w. handleLoginPage (enMac E) (now w) p (dcCookies D r))),
     ((''POST'', ''/login''), portal_endpoint (\<lambda>r p w. case dcLogin D r of None \<Rightarrow> (Login_page 400, p)
        | Some (user, password, next) \<Rightarrow> handleLogin (enMac E) (enSha E) (enLoginError E) (enUsers E) akv (enFresh E w 1) (enFresh E w 2) (now w) p user password next)),
     ((''POST'', ''/logout''), portal_endpoint (\<lambda>r p w. handleLogout (enMac E) akv (enFresh E w 1) (now w) p (dcCookies D r))),
     (([], ''/admin/*''), admin_area E),
     (([], ''/*''), client_area E)])"

text \<open>A request is given an identifier unless it has one.\<close>

definition with_request_id :: "string \<Rightarrow> request \<Rightarrow> request" where
  "with_request_id fresh r = (let h = h_get (rqHeader r) ''X-Request-ID'' in r\<lparr>rqId := (if h = [] then fresh else h), rqPrincipal := None\<rparr>)"

definition answer_request :: "('c, 't, 'm, 'k, 'a, 'p, 'b, 'u, 'w) env \<Rightarrow> request \<Rightarrow> ('c, 't, 'm, 'k, 'a, 'p, 'b, 'u) prog \<Rightarrow> 'w \<Rightarrow>
    (answer \<times> ('c, 't, 'm, 'k, 'a, 'p, 'b, 'u) prog \<times> 'w) option" where
  "answer_request E r st w = dispatch E (root_routes E) not_found (uPath (rqURL r)) (with_request_id (enFresh E w 0) r) None st w"

section \<open>The steps of the program\<close>

text \<open>
  Besides the requests: the quotas are calibrated at every full hour, the accounts of Copilot synchronised
  by their ticker, and the world goes on.
\<close>

definition calibrated :: "('c, 't, 'm, 'k, 'a) admin \<Rightarrow> time \<Rightarrow> ('c, 't, 'm, 'k, 'a) admin" where
  "calibrated ad now = (let sv = adService ad in ad\<lparr>adService := sv\<lparr>svQuota := map_option (\<lambda>m. calibrateAll (svStores sv) m now) (svQuota sv)\<rparr>\<rparr>)"

definition synced_accounts :: "('c, 't, 'm, 'k, 'a, 'p, 'b, 'u, 'w) env \<Rightarrow> ('c, 't, 'm, 'k, 'a, 'p, 'b, 'u) prog \<Rightarrow> 'w \<Rightarrow> ('c, 't, 'm, 'k, 'a, 'p, 'b, 'u) prog \<times> 'w" where
  "synced_accounts E st w = (case syncAllAccounts (enNet E) (ckAccounts (enCopilot E)) (coAccounts (pgCopilot st)) w of
     (b, w1) \<Rightarrow> (st\<lparr>pgCopilot := (pgCopilot st)\<lparr>coAccounts := b\<rparr>\<rparr>, w1))"

inductive program_step :: "('c, 't, 'm, 'k, 'a, 'p, 'b, 'u, 'w) env \<Rightarrow> ('c, 't, 'm, 'k, 'a, 'p, 'b, 'u) prog \<times> 'w \<Rightarrow>
    ('c, 't, 'm, 'k, 'a, 'p, 'b, 'u) prog \<times> 'w \<Rightarrow> bool" for E where
  request: "answer_request E r st w = Some (a, st', w') \<Longrightarrow> program_step E (st, w) (st', w')"
| calibration: "program_step E (st, w) (put_admin st (calibrated (admin_of st) (netNow (enNet E) w)), w)"
| account_sync: "program_step E (st, w) (synced_accounts E st w)"
| time_passes: "program_step E (st, w) (st, w')"

text \<open>The program as the start leaves it, with the pools and accounts of the database.\<close>

definition initial_program :: "session_config \<Rightarrow> ('c, 't, 'm, 'k, 'a, 'u) started \<Rightarrow> 'p \<Rightarrow> 'b \<Rightarrow> ('c, 't, 'm, 'k, 'a, 'p, 'b, 'u) prog" where
  "initial_program c s pools accounts = \<lparr>pgCopilot = \<lparr>coAdmin = sdAdmin s, coPools = pools, coAccounts = accounts,
     coCache = \<lparr>mhModels = [], mhAt = 0\<rparr>\<rparr>, pgSessions = newSessionManager c, pgUsers = sdUsers s\<rparr>"

end
