(* ===== verification/Copilot_Props.thy ===== *)
theory Copilot_Props
  imports Copilot_Admin Serve_Ends
begin

text \<open>
  Properties of the Copilot service: which account is chosen, where a token comes from, that the device
  flow ends, what a request to the upstream carries, and that a revoked account stays out.
\<close>

section \<open>The store of accounts\<close>

text \<open>Every record decodes and stands under its own id, which is trimmed and not empty.\<close>

definition accounts_ok :: "('b, copilot_account) kv \<Rightarrow> 'b \<Rightarrow> bool" where
  "accounts_ok kv b = (\<forall>k v. kvGet kv b k = Some v \<longrightarrow> (\<exists>a. v = Some a \<and> caID a = k) \<and> trim_space k = k \<and> k \<noteq> [])"

lemma account_get_iff: "account_get kv b i = Inr a \<longleftrightarrow> trim_space i \<noteq> [] \<and> kvGet kv b (trim_space i) = Some (Some a)"
  by (auto simp: account_get_def Let_def split: option.splits)

lemma account_update_iff: "account_update kv t b i a = Inr b' \<longleftrightarrow> trim_space i \<noteq> [] \<and> kvGet kv b (trim_space i) \<noteq> None \<and>
    b' = kvPut kv b (trim_space i) (Some (a\<lparr>caID := trim_space i, caUpdatedAt := t\<rparr>))"
  by (auto simp: account_update_def Let_def)

lemma account_got: "accounts_ok kv b \<Longrightarrow> account_get kv b i = Inr a \<Longrightarrow> caID a = trim_space i \<and> trim_space (caID a) = caID a \<and> caID a \<noteq> []"
  unfolding accounts_ok_def account_get_iff by (metis option.inject)

lemma account_again: "accounts_ok kv b \<Longrightarrow> account_get kv b i = Inr a \<Longrightarrow> account_get kv b (caID a) = Inr a"
  using account_got[of kv b i a] by (simp add: account_get_iff)

section \<open>Choosing an account\<close>

text \<open>The account that is chosen first, and the one that only overage makes usable.\<close>

definition has_quota :: "copilot_account \<Rightarrow> bool" where
  "has_quota a = (caStatus a = Active \<and> 0 < caPercent a)"

definition may_exceed :: "copilot_account \<Rightarrow> bool" where
  "may_exceed a = (caAllowOverage a \<and> in_use a)"

lemma select_two_rounds: "selectAccount kv b pool m = (case listByPool kv b pool of Inl e \<Rightarrow> Inl (In_store e)
     | Inr as \<Rightarrow> if as = [] then Inl Empty_pool else (case find has_quota as of Some a \<Rightarrow> Inr a
       | None \<Rightarrow> (case find may_exceed as of Some a \<Rightarrow> Inr a | None \<Rightarrow> Inl No_account)))"
proof -
  have "(\<lambda>a. caStatus a = Active \<and> \<not> isQuotaExhausted a) = has_quota" "(\<lambda>a. caAllowOverage a \<and> in_use a) = may_exceed"
    by (auto simp: has_quota_def may_exceed_def isQuotaExhausted_def quotaExhaustedThreshold_def)
  then show ?thesis by (cases "listByPool kv b pool") (simp_all add: selectAccount_def no_free_model split: option.split)
qed

lemma find_first: "find P xs = Some x \<longleftrightarrow> (\<exists>us vs. xs = us @ x # vs \<and> P x \<and> (\<forall>u \<in> set us. \<not> P u))"
proof (induction xs)
  case (Cons y ys)
  show ?case
  proof (cases "P y")
    case True
    then show ?thesis by (auto simp: Cons_eq_append_conv)
  next
    case False
    have "(\<exists>us vs. y # ys = us @ x # vs \<and> P x \<and> (\<forall>u \<in> set us. \<not> P u)) \<longleftrightarrow>
        (\<exists>us vs. ys = us @ x # vs \<and> P x \<and> (\<forall>u \<in> set us. \<not> P u))"
      using False by (fastforce simp: Cons_eq_append_conv intro: exI[of _ "y # us" for us])
    then show ?thesis using Cons.IH False by simp
  qed
qed simp

text \<open>
  C18: the account a pool serves with is, in the order of the pool, the first active one with quota
  left, and when there is none the first that may exceed its quota and is active or out of quota;
  no other account is ever chosen, whatever the model.
\<close>

theorem selectAccount_first:
  "selectAccount kv b pool m = Inr a \<longleftrightarrow> (\<exists>us vs. listByPool kv b pool = Inr (us @ a # vs) \<and>
     (has_quota a \<and> (\<forall>u \<in> set us. \<not> has_quota u) \<or>
      may_exceed a \<and> (\<forall>u \<in> set us. \<not> may_exceed u) \<and> (\<forall>u \<in> set (us @ a # vs). \<not> has_quota u)))"
proof (cases "listByPool kv b pool")
  case (Inr as)
  show ?thesis
  proof (cases "find has_quota as")
    case None
    then have n: "\<forall>u \<in> set as. \<not> has_quota u" by (simp add: find_None_iff)
    have "selectAccount kv b pool m = Inr a \<longleftrightarrow> find may_exceed as = Some a"
      using Inr None by (auto simp: select_two_rounds split: option.splits)
    then show ?thesis using n unfolding find_first Inr by fastforce
  next
    case (Some c)
    then have "selectAccount kv b pool m = Inr a \<longleftrightarrow> find has_quota as = Some a"
      using Inr by (auto simp: select_two_rounds)
    moreover have "\<exists>u \<in> set as. has_quota u" using Some by (auto simp: find_Some_iff)
    ultimately show ?thesis unfolding find_first Inr by fastforce
  qed
qed (simp add: select_two_rounds)

text \<open>
  An account whose quota is unlimited, with nothing remaining, is passed over; so is one that has just
  been authorised, until its quota has been read.
\<close>

lemma unlimited_passed_over:
  "caPercent a \<le> 0 \<Longrightarrow> \<not> caAllowOverage a \<Longrightarrow> listByPool kv b pool = Inr [a] \<Longrightarrow> selectAccount kv b pool m = Inl No_account"
  by (simp add: select_two_rounds has_quota_def may_exceed_def)

section \<open>Tokens\<close>

text \<open>
  C17: a token is only given out for an account that is in use. It is the stored one, when that is good
  for more than five minutes, or one that has just been fetched with the account's own authorisation,
  and then it is stored with its base URL and no other account changes.
\<close>

theorem getToken_source:
  assumes "ordered_bucket kv" "accounts_ok kv b" "getToken net until kv i b w = (Inr tok, b', w')"
  shows "\<exists>a. account_get kv b i = Inr a \<and> in_use a \<and>
    (fresh_token a (netNow net w) \<and> tok = caCopilotToken a \<and> b' = b \<and> w' = w \<or>
     \<not> fresh_token a (netNow net w) \<and> caOAuthToken a \<noteq> [] \<and>
     (\<exists>t. fetchCopilotToken net until (caOAuthToken a) w = (Inr t, w') \<and> tok = trToken t \<and>
        (\<forall>k. kvGet kv b' k = (if k = caID a then Some (Some ((with_token a t)\<lparr>caUpdatedAt := rfc3339 (netNow net w')\<rparr>)) else kvGet kv b k))))"
proof -
  obtain a where a: "account_get kv b i = Inr a" "in_use a"
    using assms(3) by (auto simp: getToken_def split: sum.splits if_splits)
  obtain r a' b1 w1 where e0: "ensureValidToken net until kv a b w = (r, a', b1, w1)" by (metis surj_pair)
  then have e: "ensureValidToken net until kv a b w = (Inr tok, a', b', w')" using assms(3) a by (simp add: getToken_def)
  note own = account_got[OF assms(2) a(1)] and again = account_again[OF assms(2) a(1)]
  show ?thesis
  proof (cases "fresh_token a (netNow net w)")
    case True
    then show ?thesis using a e by (auto simp: ensureValidToken_def)
  next
    case False
    have o': "caOAuthToken a \<noteq> []" using e False again by (auto simp: ensureValidToken_def)
    obtain r w1 where f: "fetchCopilotToken net until (caOAuthToken a) w = (r, w1)" by force
    obtain t where r: "r = Inr t" using e False again o' f by (cases r) (simp_all add: ensureValidToken_def)
    let ?b = "kvPut kv b (caID a) (Some ((with_token a t)\<lparr>caUpdatedAt := rfc3339 (netNow net w1)\<rparr>))"
    have u: "account_update kv (rfc3339 (netNow net w1)) b (caID a) (with_token a t) = Inr ?b"
      using own again by (cases a) (simp add: account_update_iff account_get_iff with_token_def)
    have "ensureValidToken net until kv a b w = (Inr (trToken t), with_token a t, ?b, w1)"
      using False again o' f r u by (simp add: ensureValidToken_def)
    then show ?thesis using False a o' e f r
      by (intro exI[of _ a] conjI disjI2 exI[of _ t]) (simp_all add: ordered_bucket.get_put[OF assms(1)])
  qed
qed

section \<open>The device flow ends\<close>

text \<open>Calling and sleeping take time that passes.\<close>

definition clock_runs :: "'w net \<Rightarrow> bool" where
  "clock_runs net = ((\<forall>w q. netNow net w \<le> netNow net (snd (netDo net w q))) \<and>
     (\<forall>w d. 0 \<le> d \<longrightarrow> netNow net w + d \<le> netNow net (netSleep net w d)))"

lemma github_call_time: "clock_runs net \<Longrightarrow> netNow net w \<le> netNow net (snd (github_call net l u m url h body w))"
  by (auto simp: github_call_def clock_runs_def split: option.splits prod.splits sum.splits) (metis snd_conv)+

lemma pollOnce_time: "clock_runs net \<Longrightarrow> pollOnce net until c i w = (r, w1) \<Longrightarrow> netNow net w \<le> netNow net w1"
  using github_call_time[of net w] by (auto simp: pollOnce_def split: prod.splits sum.splits) (metis snd_conv)+

lemma pollOnce_next: "pollOnce net until c i w = (Poll_again nxt, w1) \<Longrightarrow> i \<le> nxt"
  by (auto simp: pollOnce_def poll_answer_def split: prod.splits sum.splits option.splits if_splits)

lemma poll_loop_ends:
  assumes "clock_runs net"
  shows "1 \<le> i \<Longrightarrow> until - netNow net w \<le> seconds (int n) \<Longrightarrow> \<exists>r. poll_loop (Suc n) net until c i w = Some r"
proof (induction n arbitrary: i w)
  case (Suc n)
  obtain r w1 where p: "pollOnce net (Some until) c i w = (r, w1)" by force
  note t = pollOnce_time[OF assms p]
  show ?case
  proof (cases r)
    case (Poll_again nxt)
    have nx: "1 \<le> nxt" using pollOnce_next[of net "Some until" c i w nxt w1] p Poll_again Suc.prems(1) by simp
    have "netNow net w1 + seconds nxt \<le> netNow net (netSleep net w1 (seconds nxt))"
      using assms nx by (simp add: clock_runs_def seconds_def)
    then have "until - netNow net (netSleep net w1 (seconds nxt)) \<le> seconds (int n)"
      using t nx Suc.prems(2) by (simp add: seconds_def)
    then show ?thesis using p Poll_again Suc.IH[OF nx] by simp
  qed (use p in simp_all)
qed (simp add: seconds_def)

section \<open>What is sent for a client\<close>

text \<open>A network that keeps the requests it was given.\<close>

definition recording :: "'w net \<Rightarrow> ('w \<times> out_request list) net" where
  "recording net = \<lparr>netNow = (\<lambda>(w, qs). netNow net w), netDo = (\<lambda>(w, qs) q. case netDo net w q of (r, w1) \<Rightarrow> (r, w1, qs @ [q])),
     netSleep = (\<lambda>(w, qs) d. (netSleep net w d, qs)), netGunzip = netGunzip net\<rparr>"

lemma recorded_call:
  "github_call (recording net) l u m url h body (w, qs) = (r, w1, qs1) \<Longrightarrow> qs1 = qs \<or> (\<exists>q. qs1 = qs @ [q] \<and> orHeader q = h)"
  by (auto simp: github_call_def recording_def split: option.splits prod.splits sum.splits)

definition token_headers :: "string \<Rightarrow> headers" where
  "token_headers oauth = applyEditorHeaders (h_set [] ''Authorization'' (''token '' @ oauth))"

lemma recorded_fetch:
  "fetchCopilotToken (recording net) until oauth (w, qs) = (r, w1, qs1) \<Longrightarrow> qs1 = qs \<or> (\<exists>q. qs1 = qs @ [q] \<and> orHeader q = token_headers oauth)"
  unfolding fetchCopilotToken_def token_headers_def by (auto split: prod.splits sum.splits dest!: recorded_call)

lemma listed_stored:
  assumes "ordered_bucket kv" "accounts_ok kv b" "store_list kv b = Inr xs" "a \<in> set xs"
  shows "kvGet kv b (caID a) = Some (Some a) \<and> trim_space (caID a) = caID a \<and> caID a \<noteq> []"
proof -
  obtain k where "(k, Some a) \<in> set (kvEach kv b)"
    using assms(3,4) by (force simp: store_list_def decode_all_inr)
  then have "kvGet kv b k = Some (Some a)" by (simp add: ordered_bucket.in_each[OF assms(1)])
  then show ?thesis using assms(2) unfolding accounts_ok_def by fastforce
qed

lemma pool_listed: "listByPool kv b pool = Inr as \<Longrightarrow> \<exists>xs. store_list kv b = Inr xs \<and> set as \<subseteq> set xs"
  by (cases "store_list kv b") (auto simp: listByPool_def Let_def split: if_splits)

lemma selected_stored:
  assumes "ordered_bucket kv" "accounts_ok kv b" "selectAccount kv b pool m = Inr a"
  shows "account_get kv b (caID a) = Inr a"
proof -
  obtain as where "listByPool kv b pool = Inr as" "a \<in> set as"
    using assms(3) by (auto simp: select_two_rounds find_Some_iff split: sum.splits if_splits option.splits)
  then show ?thesis using pool_listed[of kv b pool as] listed_stored[OF assms(1,2)] by (auto simp: account_get_iff)
qed

lemma recorded_token:
  assumes "account_get kv b (caID a) = Inr a" "getToken (recording net) until kv (caID a) b (w, qs) = (r, b1, w1, qs1)"
  shows "qs1 = qs \<or> (\<exists>q. qs1 = qs @ [q] \<and> orHeader q = token_headers (caOAuthToken a))"
proof -
  obtain f w2 qs2 where f: "fetchCopilotToken (recording net) until (caOAuthToken a) (w, qs) = (f, w2, qs2)" by (metis surj_pair)
  have "qs1 = qs \<or> qs1 = qs2"
    using assms f by (auto simp: getToken_def ensureValidToken_def split: if_splits sum.splits)
  then show ?thesis using recorded_fetch[OF f] by blast
qed

lemma h_values_ensure: "to_lower j \<noteq> to_lower k \<Longrightarrow> h_values (ensure_header k v h) j = h_values h j"
  by (simp add: ensure_header_def)

lemma copilot_names:
  "to_lower ''Editor-Version'' = ''editor-version''" "to_lower ''Editor-Plugin-Version'' = ''editor-plugin-version''"
  "to_lower ''Copilot-Integration-Id'' = ''copilot-integration-id''" "to_lower ''User-Agent'' = ''user-agent''"
  "to_lower ''X-Initiator'' = ''x-initiator''"
  by code_simp+

lemma initiator_cases: "inferInitiator body v = ''user'' \<or> inferInitiator body v = ''agent''"
proof -
  have u: "classifyUserContent c = ''user'' \<or> classifyUserContent c = ''agent''" for c
    by (auto simp: classifyUserContent_def split: option.splits json.splits)
  then have l: "classifyLastMessage x = ''user'' \<or> classifyLastMessage x = ''agent''" for x
    by (auto simp: classifyLastMessage_def split: option.splits json.splits)
  then have r: "classifyResponsesInput x = ''user'' \<or> classifyResponsesInput x = ''agent''" for x
    by (auto simp: classifyResponsesInput_def split: json.splits)
  show ?thesis
    using l r by (auto simp: inferInitiator_def Let_def split: option.splits)
qed

text \<open>A request that carries a Copilot token, and nothing of what steers or authorises the client at the proxy.\<close>

definition bears :: "string \<Rightarrow> headers \<Rightarrow> bool" where
  "bears token h = (h_values h ''Authorization'' = [''Bearer '' @ token] \<and> h_values h ''api-key'' = [] \<and>
     h_values h ''X-Proxy-Target'' = [] \<and> h_values h ''X-Azure-Authorization'' = [] \<and>
     (h_values h ''X-Initiator'' = [''user''] \<or> h_values h ''X-Initiator'' = [''agent'']))"

lemma passthrough_bears: "bears token (passthrough_headers r token)"
  using initiator_cases[of "rqBody r" "h_get (rqHeader r) ''X-Initiator''"]
  by (auto simp: bears_def passthrough_headers_def Let_def ensureCopilotHeaders_def h_values_ensure copilot_names lower_names header_names)


section \<open>A concrete pool\<close>

definition demo_account :: copilot_account where
  "demo_account = blank_account\<lparr>caID := ''u'', caPoolName := ''p'', caStatus := Active, caOAuthToken := ''gho'', caPercent := 50\<rparr>"

definition demo_copilot_kv where
  "demo_copilot_kv = \<lparr>ckPools = alist_kv, ckAccounts = alist_kv\<rparr>"

definition token_answer :: response where
  "token_answer = demo_answer\<lparr>rsBody := ''{'' @ enc_str ''token'' @ '':'' @ enc_str ''t'' @ '','' @ enc_str ''expires_at'' @ '':9}''\<rparr>"

definition copilot_request :: request where
  "copilot_request = demo_call\<lparr>rqPrincipal := Some (new_principal ''c'' ''client-key'' []),
     rqURL := \<lparr>uScheme = [], uHost = [], uPath = ''/copilot/chat/completions'', uRawQuery = []\<rparr>\<rparr>"

lemma demo_accounts_ok: "accounts_ok (ckAccounts demo_copilot_kv) [(''u'', Some demo_account)]"
proof -
  have "trim_space ''u'' = ''u''" by code_simp
  then show ?thesis by (simp add: accounts_ok_def demo_copilot_kv_def alist_kv_def demo_account_def)
qed

lemma demo_bucket: "ordered_bucket (ckAccounts demo_copilot_kv)"
  by (simp add: demo_copilot_kv_def alist.ordered_bucket_axioms)

lemma demo_selected:
  "findPoolByClient (ckPools demo_copilot_kv) [(''p'', Some demo_copilot_pool)] ''c'' = Inr demo_copilot_pool"
  "selectAccount (ckAccounts demo_copilot_kv) [(''u'', Some demo_account)] (cpName demo_copilot_pool) [] = Inr demo_account"
  "caID demo_account = ''u''" "rqPrincipal copilot_request = Some (new_principal ''c'' ''client-key'' [])" "\<not> rqBodyError copilot_request"
  by code_simp+

lemma recording_now: "netNow (recording net) (w, qs) = netNow net w"
  by (simp add: recording_def)

text \<open>Keeping the requests does not change what happens.\<close>

lemma recorded_same:
  "getToken net until kv i b w = (r, b1, w1) \<Longrightarrow> \<exists>qs1. getToken (recording net) until kv i b (w, qs) = (r, b1, w1, qs1)"
proof -
  have g: "\<exists>qs1. github_call (recording net) l u m url h body (w, qs) = (fst (github_call net l u m url h body w), snd (github_call net l u m url h body w), qs1)"
    for l u m url h body by (auto simp: github_call_def recording_def split: option.split prod.split sum.split)
  have f: "\<exists>qs1. fetchCopilotToken (recording net) until oauth (w, qs) = (fst (fetchCopilotToken net until oauth w), snd (fetchCopilotToken net until oauth w), qs1)"
    for oauth using g[of "seconds 30" until "''GET''" copilotTokenURL "applyEditorHeaders (h_set [] ''Authorization'' (''token '' @ oauth))" "[]"]
    by (auto simp: fetchCopilotToken_def split: prod.split sum.split)
  show "getToken net until kv i b w = (r, b1, w1) \<Longrightarrow> ?thesis"
  proof (cases "account_get kv b i")
    case (Inr a)
    show "getToken net until kv i b w = (r, b1, w1) \<Longrightarrow> ?thesis"
      using Inr f[of "caOAuthToken (projr (account_get kv b (caID a)))"]
      by (auto simp: getToken_def ensureValidToken_def recording_now split: sum.splits if_splits prod.splits)
  qed (simp add: getToken_def)
qed

lemma demo_token:
  "\<exists>b w qs. getToken (recording (demo_net (Inr token_answer))) None (ckAccounts demo_copilot_kv) ''u'' [(''u'', Some demo_account)] (0, []) = (Inr ''t'', b, w, qs)"
proof -
  have "case getToken (demo_net (Inr token_answer)) None (ckAccounts demo_copilot_kv) ''u'' [(''u'', Some demo_account)] 0 of
      (Inr tok, _) \<Rightarrow> tok = ''t'' | _ \<Rightarrow> False" by code_simp
  then obtain b w where "getToken (demo_net (Inr token_answer)) None (ckAccounts demo_copilot_kv) ''u'' [(''u'', Some demo_account)] 0 = (Inr ''t'', b, w)"
    by (auto split: prod.splits sum.splits)
  from recorded_same[OF this] show ?thesis by blast
qed

text \<open>The last request goes to the upstream, with the client's key in a header that is not the upstream's.\<close>

lemma passthrough_example:
  "case handleCopilotPassthrough (recording (demo_net (Inr token_answer))) (Some demo_copilot_kv) [(''p'', Some demo_copilot_pool)] demo_service
      copilot_request [(''u'', Some demo_account)] (0, []) of (rp, sv, b, w, qs) \<Rightarrow> crStatus rp = 200 \<and> qs \<noteq> [] \<and>
      h_values (orHeader (last qs)) ''x-api-key'' = [''client-key'']"
proof -
  obtain b w qs where t: "getToken (recording (demo_net (Inr token_answer))) None (ckAccounts demo_copilot_kv) ''u'' [(''u'', Some demo_account)] (0, []) =
      (Inr ''t'', b, w, qs)" using demo_token by blast
  have u: "new_request_url (rqMethod copilot_request) (copilotIndividualBase @ upstream_path (uPath (rqURL copilot_request))) \<noteq> None" by code_simp
  have k: "h_values (passthrough_headers copilot_request ''t'') ''x-api-key'' = [''client-key'']" by code_simp
  have b: "caAPIBaseURL demo_account = []" "rsStatus token_answer = 200" by code_simp+
  then show ?thesis
    using t u k by (auto simp: handleCopilotPassthrough_def copilotPassthroughSetup_def demo_selected pass_on_def new_principal_def Let_def
        recording_def demo_net_def logUpstream4xx_def count_answer_def)
qed


theorem getToken_source_witness:
  "\<exists>a. account_get (ckAccounts demo_copilot_kv) [(''u'', Some demo_account)] ''u'' = Inr a \<and> in_use a"
proof -
  have "case getToken (demo_net (Inr token_answer)) None (ckAccounts demo_copilot_kv) ''u'' [(''u'', Some demo_account)] 0 of
      (Inr tok, _) \<Rightarrow> tok = ''t'' | _ \<Rightarrow> False" by code_simp
  then obtain b w where "getToken (demo_net (Inr token_answer)) None (ckAccounts demo_copilot_kv) ''u'' [(''u'', Some demo_account)] 0 = (Inr ''t'', b, w)"
    by (auto split: prod.splits sum.splits)
  from getToken_source[OF demo_bucket demo_accounts_ok this] show ?thesis by blast
qed

theorem selectAccount_first_witness:
  "selectAccount (ckAccounts demo_copilot_kv) [(''u'', Some demo_account)] ''p'' [] = Inr demo_account"
proof -
  have "listByPool (ckAccounts demo_copilot_kv) [(''u'', Some demo_account)] ''p'' = Inr [demo_account]" by code_simp
  moreover have "has_quota demo_account" by (simp add: has_quota_def demo_account_def)
  ultimately show ?thesis unfolding selectAccount_first by (intro exI[of _ "[]"]) simp
qed

section \<open>What goes astray\<close>

text \<open>
  The answer to a failed request is cut to 4096 bytes while its headers, \<open>Content-Length\<close> among them,
  are passed on as they are.
\<close>

lemma error_answer_cut:
  assumes "rsStatus resp = 400" "length (rsBody resp) = 5000"
  shows "length (rsBody (logUpstream4xx resp)) = 4096 \<and> rsHeader (logUpstream4xx resp) = rsHeader resp"
  using assms by (simp add: logUpstream4xx_def)

text \<open>A query is left out of the upstream's URL, unless the path contains it in escaped form.\<close>

lemma escaped_query_passes:
  "map_option uRawQuery (new_request_url ''GET'' (copilotIndividualBase @ upstream_path ''/copilot/x?key=k'')) = Some ''key=k''"
  by code_simp

text \<open>A token that is fetched anew brings a new base URL, but the request still goes to the old one.\<close>

lemma stale_base:
  assumes "findPoolByClient (ckPools K) pb client = Inr p" "selectAccount (ckAccounts K) b (cpName p) [] = Inr a" "caAPIBaseURL a = ''https://old''"
    "getToken net None (ckAccounts K) (caID a) b w = (Inr token, b', w')"
  shows "copilotPassthroughSetup net (Some K) pb client b w = (Inr (a, token, ''https://old''), b', w')"
  using assms by (simp add: copilotPassthroughSetup_def trim_right_char_def)

text \<open>Refreshing the models by force does nothing while the cached ones are valid.\<close>

lemma forced_refresh_does_nothing: "cache_valid c (netNow net w) \<Longrightarrow> refreshModelCache net kv c b w = (None, c, b, w)"
  by (simp add: refreshModelCache_def refreshModelCacheInternal_def)

text \<open>An account that has been authorised has no quota, and is not chosen, until its quota is read.\<close>

lemma new_account_not_chosen:
  assumes "selectAccount kv b pool m = Inr a"
  shows "0 < caPercent a \<or> caAllowOverage a"
  using assms by (auto simp: selectAccount_def no_free_model isQuotaExhausted_def quotaExhaustedThreshold_def find_Some_iff split: sum.splits option.splits if_splits)

end
