(* ===== verification/Copilot_Admin_Props.thy ===== *)
theory Copilot_Admin_Props
  imports Copilot_Props Admin_Handler_Props
begin

text \<open>
  Properties of the admin routes of Copilot: an authorisation is completed in time, a revoked account
  never serves again, the clients' keys stay in step when pools change, and the models of a pool are
  those all its accounts have.
\<close>

section \<open>The device flow ends\<close>


section \<open>Accounts without authorisation\<close>

definition tokenless :: "copilot_account \<Rightarrow> bool" where
  "tokenless a = (caOAuthToken a = [] \<and> caCopilotToken a = [] \<and> caDeviceCode a = [])"

text \<open>The store is well-formed, and the account \<open>i\<close>, if it is there, has no token and no code.\<close>

definition barred :: "('b, copilot_account) kv \<Rightarrow> string \<Rightarrow> 'b \<Rightarrow> bool" where
  "barred kv i b = (accounts_ok kv b \<and> (\<forall>a. kvGet kv b i = Some (Some a) \<longrightarrow> tokenless a))"

text \<open>An account as it was read from such a store, perhaps some time ago.\<close>

definition barred_copy :: "string \<Rightarrow> copilot_account \<Rightarrow> bool" where
  "barred_copy i a = (trim_space (caID a) = caID a \<and> caID a \<noteq> [] \<and> (caID a = i \<longrightarrow> tokenless a))"

locale account_bucket = ordered_bucket kv for kv :: "('b, copilot_account) kv"
begin

lemma put_barred:
  assumes "barred kv i b" "trim_space k = k" "k \<noteq> []" "caID a = k" "k = i \<Longrightarrow> tokenless a"
  shows "barred kv i (kvPut kv b k (Some a))"
  using assms by (auto simp: barred_def accounts_ok_def get_put)

lemma delete_barred: "barred kv i b \<Longrightarrow> barred kv i (kvDelete kv b k)"
  by (auto simp: barred_def accounts_ok_def get_delete split: if_splits)

lemma update_barred:
  assumes "barred kv i b" "account_update kv t b k a = Inr b'" "trim_space k = i \<Longrightarrow> tokenless a"
  shows "barred kv i b'"
proof -
  have "trim_space k \<noteq> []" "kvGet kv b (trim_space k) \<noteq> None"
    "b' = kvPut kv b (trim_space k) (Some (a\<lparr>caID := trim_space k, caUpdatedAt := t\<rparr>))"
    using assms(2) by (auto simp: account_update_iff)
  moreover from this have "trim_space (trim_space k) = trim_space k" using assms(1) by (auto simp: barred_def accounts_ok_def)
  ultimately show ?thesis using assms(1,3) by (auto intro!: put_barred simp: tokenless_def)
qed

lemma got_copy: "barred kv i b \<Longrightarrow> account_get kv b k = Inr a \<Longrightarrow> barred_copy i a \<and> caID a = trim_space k"
  using account_got[of kv b k a] by (auto simp: barred_def barred_copy_def account_get_iff)

lemma listed_copy: "barred kv i b \<Longrightarrow> store_list kv b = Inr xs \<Longrightarrow> a \<in> set xs \<Longrightarrow> barred_copy i a"
  using listed_stored[OF ordered_bucket_axioms, of b xs a] by (auto simp: barred_def barred_copy_def)

lemma pool_copies: "barred kv i b \<Longrightarrow> listByPool kv b pool = Inr as \<Longrightarrow> \<forall>a \<in> set as. barred_copy i a"
  using pool_listed[of kv b pool as] listed_copy[of i b] by blast

text \<open>A refused call leaves everything; the caller's copy keeps its id.\<close>

lemma ensure_barred:
  assumes "barred kv i b" "barred_copy i a" "ensureValidToken net until kv a b w = (r, a1, b1, w1)"
  shows "barred kv i b1 \<and> caID a1 = caID a \<and> (caID a = i \<longrightarrow> a1 = a \<and> b1 = b \<and> w1 = w \<and> (\<exists>e. r = Inl e))"
proof (cases "caID a = i")
  case True
  then have "\<not> fresh_token a (netNow net w)" using assms(2) by (simp add: barred_copy_def fresh_token_def tokenless_def)
  moreover have "tokenless r" if "account_get kv b i = Inr r" for r
    using got_copy[OF assms(1) that] assms(2) True by (simp add: barred_copy_def)
  ultimately show ?thesis
    using assms True by (auto simp: ensureValidToken_def fresh_token_def tokenless_def split: sum.splits if_splits)
next
  case False
  have t: "trim_space (caID a) \<noteq> i" using assms(2) False by (simp add: barred_copy_def)
  have "barred kv i b1 \<and> caID a1 = caID a"
  proof (cases "account_get kv b (caID a)")
    case (Inr x)
    have x: "caID x = trim_space (caID a)" using got_copy[OF assms(1) Inr] by simp
    obtain f w2 where f: "fetchCopilotToken net until (caOAuthToken x) w = (f, w2)" by force
    have "barred kv i b2" if "account_update kv s b (caID x) (with_token x t) = Inr b2" for s t b2
      using that x t assms(2) by (intro update_barred[OF assms(1) that]) (simp add: barred_copy_def)
    then show ?thesis
      using assms(1,3) Inr f by (auto simp: ensureValidToken_def with_token_def split: sum.splits if_splits)
  qed (use assms(1,3) in \<open>auto simp: ensureValidToken_def split: if_splits\<close>)
  then show ?thesis using False by simp
qed

lemma token_barred:
  assumes "barred kv i b" "getToken net until kv k b w = (r, b1, w1)"
  shows "barred kv i b1 \<and> (trim_space k = i \<longrightarrow> b1 = b \<and> w1 = w \<and> (\<exists>e. r = Inl e))"
proof (cases "account_get kv b k")
  case (Inr a)
  obtain r' a' b' w' where e: "ensureValidToken net until kv a b w = (r', a', b', w')" by (metis surj_pair)
  show ?thesis
    using ensure_barred[OF assms(1) _ e] got_copy[OF assms(1) Inr] assms Inr e by (auto simp: getToken_def split: if_splits)
qed (use assms in \<open>auto simp: getToken_def\<close>)

lemma models_barred: "barred kv i b \<Longrightarrow> fetchAccountModels net kv k b w = (r, b1, w1) \<Longrightarrow> barred kv i b1"
  using token_barred[of i b net None k w] by (auto simp: fetchAccountModels_def split: prod.splits sum.splits)

lemma refresh_barred: "barred kv i b \<Longrightarrow> \<forall>a \<in> set as. barred_copy i a \<Longrightarrow> refresh_from net kv as b w = (r, b1, w1) \<Longrightarrow> barred kv i b1"
proof (induction as arbitrary: b w)
  case (Cons a as)
  obtain r' a' b' w' where e: "ensureValidToken net None kv a b w = (r', a', b', w')" by (metis surj_pair)
  have "barred kv i b'" using ensure_barred[OF Cons.prems(1) _ e] Cons.prems(2) by simp
  then show ?case using Cons e by (auto simp: Let_def split: if_splits sum.splits prod.splits)
qed simp

lemma refresh_listed: "barred kv i b \<Longrightarrow> store_list kv b = Inr xs \<Longrightarrow> refresh_from net kv xs b w = (r, b1, w1) \<Longrightarrow> barred kv i b1"
  by (rule refresh_barred[where as = xs]) (auto intro: listed_copy)

lemma cache_barred: "barred kv i b \<Longrightarrow> getCachedModels net kv c b w = (r, c1, b1, w1) \<Longrightarrow> barred kv i b1"
  by (auto simp: getCachedModels_def refreshModelCacheInternal_def account_list_def split: if_splits sum.splits prod.splits option.splits
      dest: refresh_listed)

lemma sync_barred:
  assumes "barred kv i b" "barred_copy i a" "sync_account net kv (b, w) a = (b1, w1)"
  shows "barred kv i b1"
proof (cases "caID a = i \<or> \<not> in_use a \<or> caOAuthToken a = []")
  case True
  then show ?thesis using assms by (auto simp: sync_account_def barred_copy_def tokenless_def)
next
  case False
  then have t: "trim_space (caID a) \<noteq> i" using assms(2) by (simp add: barred_copy_def)
  show ?thesis
    using assms False t update_barred[OF assms(1)] by (auto simp: sync_account_def split: prod.splits sum.splits)
qed

lemma sync_all_barred:
  assumes "barred kv i b" "syncAllAccounts net kv b w = (b1, w1)"
  shows "barred kv i b1"
proof -
  have "barred kv i b \<Longrightarrow> \<forall>a \<in> set as. barred_copy i a \<Longrightarrow> foldl (sync_account net kv) (b, w) as = (b1, w1) \<Longrightarrow> barred kv i b1" for as b w
  proof (induction as arbitrary: b w)
    case (Cons a as)
    obtain b2 w2 where "sync_account net kv (b, w) a = (b2, w2)" by force
    then show ?case using Cons sync_barred[of i b a net w b2 w2] by simp
  qed simp
  then show ?thesis using assms listed_copy[OF assms(1)] by (fastforce simp: syncAllAccounts_def account_list_def split: sum.splits)
qed

lemma create_barred:
  assumes "barred kv i b" "account_create pkv kv uuid t pb b a = Inr b1" "trim_space uuid = uuid" "uuid \<noteq> []" "uuid \<noteq> i"
  shows "barred kv i b1"
proof -
  obtain x where "b1 = kvPut kv b uuid (Some x)" "caID x = uuid"
    using assms(2) by (auto simp: account_create_def Let_def split: if_splits sum.splits)
  then show ?thesis using assms put_barred by blast
qed

lemma initiate_barred:
  assumes "barred kv i b" "initiateAuth net pkv kv uuid pb pool b w = (r, b1, w1)" "trim_space uuid = uuid" "uuid \<noteq> []" "uuid \<noteq> i"
  shows "barred kv i b1"
  using assms(1,2) create_barred[OF assms(1) _ assms(3-5)]
  by (auto simp: initiateAuth_def split: prod.splits sum.splits option.splits)

lemma finish_barred:
  assumes "barred kv i b" "trim_space k \<noteq> i" "finishAuth net until kv k a oauth b w = (e, b1, w1)"
  shows "barred kv i b1"
proof -
  obtain u w2 where u: "fetchGitHubUsername net until oauth w = (u, w2)" by force
  define a1 where "a1 = (case u of Inl _ \<Rightarrow> a | Inr n \<Rightarrow> if n \<noteq> [] then a\<lparr>caOAuthToken := oauth, caUsername := n\<rparr> else a)"
  define b2 where "b2 = (case u of Inl _ \<Rightarrow> b | Inr n \<Rightarrow> if n \<noteq> [] then
    (case account_update kv (rfc3339 (netNow net w2)) b k a1 of Inl _ \<Rightarrow> b | Inr b2 \<Rightarrow> b2) else b)"
  have b2: "barred kv i b2"
    using assms(1) update_barred[OF assms(1)] assms(2) by (auto simp: b2_def split: sum.split)
  show ?thesis
    using assms(3) b2 update_barred[OF b2] assms(2)
    by (auto simp: finishAuth_def u Let_def a1_def b2_def split: sum.splits prod.splits if_splits)
qed

lemma complete_barred:
  assumes "barred kv i b" "completeAuth fuel net until kv k b w = Some (e, b1, w1)"
  shows "barred kv i b1"
proof (cases "account_get kv b k")
  case (Inr a)
  show ?thesis
  proof (cases "trim_space k = i")
    case True
    then have "caDeviceCode a = []" using got_copy[OF assms(1) Inr] by (simp add: barred_copy_def tokenless_def)
    then show ?thesis using assms Inr by (simp add: completeAuth_def)
  next
    case False
    then show ?thesis using assms Inr
      by (auto simp: completeAuth_def split: if_splits option.splits prod.splits sum.splits dest: finish_barred[OF assms(1)])
  qed
qed (use assms in \<open>simp add: completeAuth_def\<close>)

lemma revoke_barred: "barred kv i b \<Longrightarrow> revokeAuth kv now k b = (e, b1) \<Longrightarrow> barred kv i b1"
  using update_barred[of i b] by (auto simp: revokeAuth_def clear_device_def tokenless_def split: sum.splits)

lemma force_barred:
  assumes "barred kv i b" "forceRefreshToken net kv k b w = (r, b1, w1)"
  shows "barred kv i b1"
proof (cases "account_get kv b k")
  case (Inr a)
  note copy = got_copy[OF assms(1) Inr]
  obtain r' a' b' w' where e: "ensureValidToken net None kv a b w = (r', a', b', w')" by (metis surj_pair)
  note n = ensure_barred[OF assms(1) copy[THEN conjunct1] e]
  show ?thesis
  proof (cases "caOAuthToken a = []")
    case False
    then have "trim_space k \<noteq> i" using copy by (auto simp: barred_copy_def tokenless_def)
    then show ?thesis using assms Inr e n update_barred[of i b' _ k] False
      by (auto simp: forceRefreshToken_def split: sum.splits if_splits)
  qed (use assms Inr in \<open>simp add: forceRefreshToken_def\<close>)
qed (use assms in \<open>simp add: forceRefreshToken_def\<close>)

lemma change_barred:
  assumes "barred kv i b" "account_get kv b k = Inr a" "account_update kv t b k a1 = Inr b1" "tokenless a \<Longrightarrow> tokenless a1"
  shows "barred kv i b1"
  using update_barred[OF assms(1,3)] got_copy[OF assms(1,2)] assms(4) by (auto simp: barred_copy_def)

lemma per_account_barred:
  "barred kv i b \<Longrightarrow> models_per_account net kv as b w = (dss, b1, w1) \<Longrightarrow> barred kv i b1"
proof (induction as arbitrary: b w dss)
  case (Cons a as)
  obtain r b2 w2 where "fetchAccountModels net kv (caID a) b w = (r, b2, w2)" by (metis surj_pair)
  then show ?case using Cons models_barred[of i b net "caID a" w r b2 w2] by (auto split: if_splits prod.splits)
qed simp

end

interpretation alist_accounts: account_bucket alist_kv ..

section \<open>A revoked account stays out\<close>

text \<open>
  What the running program does to the pools and accounts: it serves clients, reads quotas in the
  background, and answers the admin routes. \<open>U\<close> are the ids that have been given to accounts before;
  a new account has another one.
\<close>

inductive copilot_step :: "'w net \<Rightarrow> ('c, 't, 'm, 'k, 'a) backends \<Rightarrow> ('p, 'b) copilot_kv \<Rightarrow> string set \<Rightarrow>
    ('c, 't, 'm, 'k, 'a, 'p, 'b) copilot_admin \<times> 'w \<Rightarrow> ('c, 't, 'm, 'k, 'a, 'p, 'b) copilot_admin \<times> 'w \<Rightarrow> bool" for net B K U where
  serve: "copilotPassthroughSetup net (Some K) (coPools st) client (coAccounts st) w = (r, b, w1) \<Longrightarrow>
    copilot_step net B K U (st, w) (st\<lparr>coAccounts := b\<rparr>, w1)"
| sync: "syncAllAccounts net (ckAccounts K) (coAccounts st) w = (b, w1) \<Longrightarrow> copilot_step net B K U (st, w) (st\<lparr>coAccounts := b\<rparr>, w1)"
| create_pool: "handleCreateCopilotPool B K cl p st = (c, st1) \<Longrightarrow> copilot_step net B K U (st, w) (st1, w)"
| update_pool: "handleUpdateCopilotPool B K cl name p st = (c, st1) \<Longrightarrow> copilot_step net B K U (st, w) (st1, w)"
| delete_pool: "handleDeleteCopilotPool B K cl name st = (c, st1) \<Longrightarrow> copilot_step net B K U (st, w) (st1, w)"
| start_auth: "handleStartCopilotAuth net B K svc cl uuid body st w = (c, st1, w1) \<Longrightarrow> trim_space uuid = uuid \<Longrightarrow> uuid \<noteq> [] \<Longrightarrow> uuid \<notin> U \<Longrightarrow>
    copilot_step net B K U (st, w) (st1, w1)"
| complete_auth: "handleCompleteCopilotAuth fuel net B K svc cl raw st w = Some (c, st1, w1) \<Longrightarrow> copilot_step net B K U (st, w) (st1, w1)"
| revoke: "handleRevokeCopilotAccount B K svc cl raw st = (c, st1) \<Longrightarrow> copilot_step net B K U (st, w) (st1, w)"
| disable: "handleDisableCopilotAccount B K svc cl raw st = (c, st1) \<Longrightarrow> copilot_step net B K U (st, w) (st1, w)"
| enable: "handleEnableCopilotAccount B K svc cl raw st = (c, st1) \<Longrightarrow> copilot_step net B K U (st, w) (st1, w)"
| overage: "handleToggleCopilotOverage B K svc cl raw st = (c, st1) \<Longrightarrow> copilot_step net B K U (st, w) (st1, w)"
| delete: "handleDeleteCopilotAccount B K svc cl raw st = (c, st1) \<Longrightarrow> copilot_step net B K U (st, w) (st1, w)"
| sync_quota: "handleSyncCopilotQuota net B K svc mgr cl raw st w = (c, st1, w1) \<Longrightarrow> copilot_step net B K U (st, w) (st1, w1)"
| refresh_token: "handleRefreshCopilotToken net B K svc cl raw st w = (c, st1, w1) \<Longrightarrow> copilot_step net B K U (st, w) (st1, w1)"
| list_models: "handleListCopilotModels net K svc st w = (ms, st1, w1) \<Longrightarrow> copilot_step net B K U (st, w) (st1, w1)"
| pool_models: "handleListCopilotPoolModels net K svc raw st w = (rp, st1, w1) \<Longrightarrow> copilot_step net B K U (st, w) (st1, w1)"

lemma audit_accounts [simp]: "coAccounts (copilot_audit B cl st act obj d) = coAccounts st"
  by (simp add: copilot_audit_def)

lemma pool_routes_frame:
  "coAccounts (snd (handleCreateCopilotPool B K cl p st)) = coAccounts st"
  "coAccounts (snd (handleUpdateCopilotPool B K cl name p st)) = coAccounts st"
  "coAccounts (snd (handleDeleteCopilotPool B K cl name st)) = coAccounts st"
  by (auto simp: handleCreateCopilotPool_def handleUpdateCopilotPool_def handleDeleteCopilotPool_def Let_def
      split: option.split sum.split prod.split bool.split)

context account_bucket
begin

lemma change_account_barred:
  assumes "ckAccounts K = kv" "barred kv i (coAccounts st)" "change_account B K svc cl raw f action detail st = (c, st1)"
    "\<And>a. tokenless a \<Longrightarrow> tokenless (f a)"
  shows "barred kv i (coAccounts st1)"
  using assms(1-3) change_barred[OF assms(2) _ _ assms(4)]
  by (auto simp: change_account_def with_account_def Let_def split: if_splits sum.splits)

lemma sync_quota_barred:
  assumes "ckAccounts K = kv" "barred kv i (coAccounts st)" "handleSyncCopilotQuota net B K svc mgr cl raw st w = (c, st1, w1)"
  shows "barred kv i (coAccounts st1)"
  using assms(1,3) assms(2) change_barred[OF assms(2)]
  by (auto simp: handleSyncCopilotQuota_def with_account_def Let_def tokenless_def quota_synced_def split: if_splits sum.splits prod.splits)

lemma refresh_token_barred:
  assumes "ckAccounts K = kv" "barred kv i (coAccounts st)" "handleRefreshCopilotToken net B K svc cl raw st w = (c, st1, w1)"
  shows "barred kv i (coAccounts st1)"
proof -
  have cleared: "barred kv i b" if "account_get kv (coAccounts st) k = Inr a" "account_update kv t (coAccounts st) k (a\<lparr>caCopilotToken := [], caExpiresAt := 0\<rparr>) = Inr b" for k a t b
    by (rule change_barred[OF assms(2) that]) (simp add: tokenless_def)
  show ?thesis
    using assms(2,3) by (auto simp: handleRefreshCopilotToken_def with_account_def assms(1) Let_def split: if_splits sum.splits prod.splits
        dest!: force_barred[OF cleared])
qed

lemma step_barred:
  assumes "copilot_step net B K U s s1" "ckAccounts K = kv" "i \<in> U" "barred kv i (coAccounts (fst s))"
  shows "barred kv i (coAccounts (fst s1))"
  using assms
proof (cases rule: copilot_step.cases)
  case (serve st client w r b w1)
  then show ?thesis using assms(4)
    by (auto simp: copilotPassthroughSetup_def assms(2) split: sum.splits prod.splits dest: token_barred)
next
  case (sync st w b w1)
  then show ?thesis using assms(2,4) sync_all_barred by auto
next
  case (create_pool cl p st c st1 w)
  then show ?thesis using assms(4) pool_routes_frame(1)[of B K cl p st] by simp
next
  case (update_pool cl name p st c st1 w)
  then show ?thesis using assms(4) pool_routes_frame(2)[of B K cl name p st] by simp
next
  case (delete_pool cl name st c st1 w)
  then show ?thesis using assms(4) pool_routes_frame(3)[of B K cl name st] by simp
next
  case (start_auth svc cl uuid body st w c st1 w1)
  have "uuid \<noteq> i" using start_auth assms(3) by blast
  then show ?thesis using start_auth assms(4)
    by (auto simp: handleStartCopilotAuth_def assms(2) Let_def split: if_splits option.splits sum.splits prod.splits dest: initiate_barred)
next
  case (complete_auth fuel svc cl raw st w c st1 w1)
  then show ?thesis using assms(4)
    by (auto simp: handleCompleteCopilotAuth_def assms(2) Let_def split: if_splits option.splits prod.splits dest: complete_barred)
next
  case (revoke svc cl raw st c st1 w)
  then show ?thesis using assms(4)
    by (auto simp: handleRevokeCopilotAccount_def assms(2) Let_def split: if_splits option.splits prod.splits dest: revoke_barred)
next
  case (disable svc cl raw st c st1 w)
  then have "barred kv i (coAccounts st)" using assms(4) by simp
  from change_account_barred[OF assms(2) this disable(3)[unfolded handleDisableCopilotAccount_def]] show ?thesis using disable by (simp add: tokenless_def)
next
  case (enable svc cl raw st c st1 w)
  then have "barred kv i (coAccounts st)" using assms(4) by simp
  from change_account_barred[OF assms(2) this enable(3)[unfolded handleEnableCopilotAccount_def]] show ?thesis using enable by (simp add: tokenless_def)
next
  case (overage svc cl raw st c st1 w)
  then have "barred kv i (coAccounts st)" using assms(4) by simp
  from change_account_barred[OF assms(2) this overage(3)[unfolded handleToggleCopilotOverage_def]] show ?thesis using overage by (simp add: tokenless_def)
next
  case (delete svc cl raw st c st1 w)
  then show ?thesis using assms(4)
    by (auto simp: handleDeleteCopilotAccount_def assms(2) account_delete_def Let_def split: if_splits sum.splits intro: delete_barred)
next
  case (sync_quota svc mgr cl raw st w c st1 w1)
  then have "barred kv i (coAccounts st)" using assms(4) by simp
  from sync_quota_barred[OF assms(2) this sync_quota(3)] show ?thesis using sync_quota by simp
next
  case (refresh_token svc cl raw st w c st1 w1)
  then have "barred kv i (coAccounts st)" using assms(4) by simp
  from refresh_token_barred[OF assms(2) this refresh_token(3)] show ?thesis using refresh_token by simp
next
  case (list_models svc st w ms st1 w1)
  then show ?thesis using assms(4)
    by (auto simp: handleListCopilotModels_def assms(2) split: if_splits prod.splits dest: cache_barred)
next
  case (pool_models svc raw st w rp st1 w1)
  then show ?thesis using assms(4)
    by (auto simp: handleListCopilotPoolModels_def assms(2) Let_def split: if_splits sum.splits prod.splits dest: per_account_barred)
qed

lemma steps_barred: "(copilot_step net B K U)\<^sup>*\<^sup>* s s1 \<Longrightarrow> ckAccounts K = kv \<Longrightarrow> i \<in> U \<Longrightarrow> barred kv i (coAccounts (fst s)) \<Longrightarrow>
    barred kv i (coAccounts (fst s1))"
proof (induction rule: rtranclp_induct)
  case (step y z)
  then show ?case using step_barred[OF step.hyps(2)] by simp
qed simp

end


text \<open>
  An authorisation that is under way when its account is revoked brings the account back, since it
  writes the account as it was before.
\<close>

lemma finish_revives_revoked:
  assumes "fetchGitHubUsername net until oauth w = (Inl e, w1)" "fetchCopilotToken net until oauth w1 = (Inr t, w2)"
    "account_update kv (rfc3339 (netNow net w2)) b i (clear_device (with_token (a\<lparr>caStatus := Active, caOAuthToken := oauth, caUsername := []\<rparr>) t)) = Inr b'"
  shows "finishAuth net until kv i a oauth b w = (None, b', w2)"
  using assms by (simp add: finishAuth_def Let_def)

section \<open>Pools and the keys of their clients\<close>

datatype pool_request = New_pool "copilot_pool option" | Change_pool string "copilot_pool option" | Remove_pool string

definition pool_request :: "('c, 't, 'm, 'k, 'a) backends \<Rightarrow> ('p, 'b) copilot_kv \<Rightarrow> call \<Rightarrow> pool_request \<Rightarrow>
    ('c, 't, 'm, 'k, 'a, 'p, 'b) copilot_admin \<Rightarrow> int \<times> ('c, 't, 'm, 'k, 'a, 'p, 'b) copilot_admin" where
  "pool_request B K cl rq st = (case rq of New_pool p \<Rightarrow> handleCreateCopilotPool B K cl p st
     | Change_pool n p \<Rightarrow> handleUpdateCopilotPool B K cl n p st | Remove_pool n \<Rightarrow> handleDeleteCopilotPool B K cl n st)"

text \<open>The clients are as the store keeps them, and the store of access keys holds exactly them.\<close>

definition keys_fit :: "('c, 't, 'm, 'k, 'a) backends \<Rightarrow> ('c, 't, 'm, 'k, 'a) admin \<Rightarrow> bool" where
  "keys_fit B ad = (clients_ok (bkClients B) (adClients ad) \<and> auth_agrees (bkClients B) (adClients ad) (adAuth ad))"

lemma keys_fit_audit [simp]: "keys_fit B (recordAudit B cl ad act obj d) = keys_fit B ad"
  by (simp add: keys_fit_def)

lemma store_client_fits:
  assumes "ordered_bucket (bkClients B)" "keys_fit B ad"
  shows "keys_fit B (store_client B c allowed ad)"
proof (cases "client_update (bkClients B) (adClients ad) (ccName c) (c\<lparr>ccAllowedTargets := allowed\<rparr>)")
  case (Inr b)
  have "clients_ok (bkClients B) (client_step (bkClients B) (adClients ad) (Update_client (ccName c) (c\<lparr>ccAllowedTargets := allowed\<rparr>)))"
    using assms(2) by (intro client_bucket.client_step_ok[OF client_bucket.intro[OF assms(1)]]) (simp add: keys_fit_def)
  then have b: "clients_ok (bkClients B) b" using Inr by (simp add: client_step_def)
  let ?ad = "sync_stores B (ad\<lparr>adClients := b\<rparr>)"
  obtain cs m where "client_list (bkClients B) b = Inr cs" "loadFromConfig (adAuth ?ad) (map auth_client cs) = (None, m)"
    "auth_agrees (bkClients B) b m"
    by (rule loaded_iff[OF assms(1) b, of "adAuth ?ad"])
  then show ?thesis using Inr b by (simp add: store_client_def reloadAuth_def keys_fit_def)
qed (simp add: store_client_def assms(2))

lemma sync_fits: "ordered_bucket (bkClients B) \<Longrightarrow> keys_fit B ad \<Longrightarrow> keys_fit B (syncClientAllowedTargets B n ts ad)"
  by (auto simp: syncClientAllowedTargets_def Let_def intro: store_client_fits split: sum.split option.split)

lemma remove_fits: "ordered_bucket (bkClients B) \<Longrightarrow> keys_fit B ad \<Longrightarrow> keys_fit B (removeTargetsFromClient B n ts ad)"
  by (auto simp: removeTargetsFromClient_def Let_def intro: store_client_fits split: sum.split option.split)

lemma current_fits: "keys_fit B (snd (current_targets B ad)) = keys_fit B ad"
  by (auto simp: current_targets_def keys_fit_def Let_def split: prod.split sum.split)

lemma validate_fits: "keys_fit B ad \<Longrightarrow> validateCopilotTargets B names ad = (ok, ad1) \<Longrightarrow> keys_fit B ad1"
  using current_fits[of B ad] by (auto simp: validateCopilotTargets_def split: if_splits prod.splits option.splits)

text \<open>
  C21: whatever is done to a pool, and however its client's targets change with it, the store of access
  keys holds exactly the clients of the database afterwards.
\<close>

theorem pool_change_keeps_keys:
  assumes "ordered_bucket (bkClients B)" "keys_fit B (coAdmin st)"
  shows "keys_fit B (coAdmin (snd (pool_request B K cl rq st)))"
proof -
  have audit: "keys_fit B (coAdmin (copilot_audit B cl s act obj d)) = keys_fit B (coAdmin s)"
    for s :: "('a, 'b, 'c, 'd, 'e, 'f, 'g) copilot_admin" and act obj d by (simp add: copilot_audit_def)
  note fits = sync_fits[OF assms(1)] remove_fits[OF assms(1)] validate_fits[OF assms(2)]
  show ?thesis
  proof (cases rq)
    case (New_pool p)
    then show ?thesis
      using assms(2) by (auto simp: pool_request_def handleCreateCopilotPool_def audit split: option.split sum.split prod.split bool.split intro: fits)
  next
    case (Change_pool n p)
    then show ?thesis
      using assms(2) by (auto simp: pool_request_def handleUpdateCopilotPool_def audit Let_def split: option.split sum.split prod.split bool.split intro: fits)
  next
    case (Remove_pool n)
    then show ?thesis
      using assms(2) by (auto simp: pool_request_def handleDeleteCopilotPool_def audit split: option.split sum.split intro: fits)
  qed
qed

text \<open>
  Taking the targets of a pool from a client that may use no others leaves it with an empty list, which
  allows every target.
\<close>

lemma emptied_list_allows_all:
  assumes "client_list (bkClients B) (adClients ad) = Inr cs" "find (\<lambda>c. equal_fold (ccName c) name) cs = Some c"
    "ccAllowedTargets c \<noteq> []" "\<forall>t \<in> set (ccAllowedTargets c). to_lower t \<in> set (map (to_lower \<circ> trim_space) targets)"
  shows "removeTargetsFromClient B name targets ad = store_client B c [] ad \<and> canAccess (Some (new_principal (ccName c) (ccAccessKey c) [])) t"
proof -
  have "filter (\<lambda>t. to_lower t \<notin> set (map (to_lower \<circ> trim_space) targets)) (ccAllowedTargets c) = []"
    using assms(4) by (simp add: filter_empty_conv)
  moreover have "targets \<noteq> []" using assms(3,4) by (cases "ccAllowedTargets c") auto
  ultimately show ?thesis
    using assms(1-3) by (simp add: removeTargetsFromClient_def Let_def new_principal_def canAccess_def)
qed

text \<open>A pool of a client that may use every target takes all other targets from it.\<close>

lemma pool_restricts_client:
  assumes "client_list (bkClients B) (adClients ad) = Inr cs" "find (\<lambda>c. equal_fold (ccName c) name) cs = Some c"
    "ccAllowedTargets c = []" "to_lower (trim_space t) \<noteq> []"
  shows "syncClientAllowedTargets B name [t] ad = store_client B c [to_lower (trim_space t)] ad"
  using assms by (simp add: syncClientAllowedTargets_def allow_target_def Let_def)

section \<open>The models of a pool\<close>

lemma keys_of_base: "fst ` set (foldl (\<lambda>m d. AList.update (mdID d) d m) m ds) = fst ` set m \<union> mdID ` set ds"
  by (induction ds arbitrary: m) (auto simp: update_conv' simp flip: dom_map_of_conv_image_fst)

lemma ids_of_base: "\<forall>p \<in> set m. mdID (snd p) = fst p \<Longrightarrow> \<forall>p \<in> set (foldl (\<lambda>m d. AList.update (mdID d) d m) m ds). mdID (snd p) = fst p"
proof (induction ds arbitrary: m)
  case (Cons d ds)
  have "\<forall>p \<in> set (AList.update (mdID d) d m). mdID (snd p) = fst p"
    using Cons.prems by (induction m) auto
  then show ?case using Cons.IH by simp
qed simp

text \<open>
  C31: the models that a pool lists are exactly those that every account that could be asked has, in
  the order of their categories.
\<close>

theorem pool_models_common:
  assumes "dss \<noteq> []"
  shows "mdID ` set (intersect_models dss) = (\<Inter>ds \<in> set dss. mdID ` set ds) \<and>
    sorted_wrt (\<lambda>a b. \<not> category_less mdCategory mdID b a) (intersect_models dss)"
proof -
  obtain ds rest where dss: "dss = ds # rest" using assms by (cases dss) auto
  let ?base = "foldl (\<lambda>m d. AList.update (mdID d) d m) [] ds"
  let ?q = "\<lambda>i. \<forall>es \<in> set rest. i \<in> mdID ` set es"
  have "mdID ` set (intersect_models dss) = {i. i \<in> fst ` set ?base \<and> ?q i}"
  proof -
    have "mdID ` set (intersect_models dss) = (mdID \<circ> snd) ` {p \<in> set ?base. ?q (fst p)}"
      by (auto simp: dss intersect_models_def sortModelDetailByCategory_def list_all_iff image_iff split: prod.splits) blast
    also have "\<dots> = fst ` {p \<in> set ?base. ?q (fst p)}"
      using ids_of_base[of "[]" ds] by (intro image_cong) auto
    finally show ?thesis by (force simp: image_iff)
  qed
  then show ?thesis using keys_of_base[of "[]" ds] sorted_by_category
    by (auto simp: dss intersect_models_def sortModelDetailByCategory_def)
qed

section \<open>A concrete program\<close>

definition demo_copilot_admin where
  "demo_copilot_admin = \<lparr>coAdmin = demo_admin, coPools = [(''p'', Some demo_copilot_pool)], coAccounts = [(''u'', Some demo_account)],
     coCache = \<lparr>mhModels = [], mhAt = 0\<rparr>\<rparr>"

definition demo_model :: "string \<Rightarrow> model_detail" where
  "demo_model i = detail_of ((zero_of decode_detail)\<lparr>deID := i\<rparr>)"



theorem pool_change_keeps_keys_witness:
  "keys_fit alist_backends (coAdmin (snd (pool_request alist_backends demo_copilot_kv demo_admin_call (Remove_pool ''p'') demo_copilot_admin)))"
proof (rule pool_change_keeps_keys[OF alist_admin.clients])
  show "keys_fit alist_backends (coAdmin demo_copilot_admin)"
    using demo_empty(1) by (simp add: keys_fit_def demo_copilot_admin_def auth_agrees_def alist_backends_def alist_kv_def demo_admin_def)
qed

theorem pool_models_common_witness:
  "mdID ` set (intersect_models [[demo_model ''a'', demo_model ''b''], [demo_model ''b'']]) = {''b''}"
proof -
  have "mdID (demo_model i) = i" for i by (simp add: demo_model_def detail_of_def Let_def)
  then show ?thesis using pool_models_common[of "[[demo_model ''a'', demo_model ''b''], [demo_model ''b'']]"] by simp
qed

end
