(* ===== verification/Program_Props.thy ===== *)
theory Program_Props
  imports Program Copilot_Admin_Props
begin

text \<open>
  What a request can do that brings neither a session nor an access key.
\<close>

section \<open>Requests without credentials\<close>

definition no_credentials :: "('c, 't, 'm, 'k, 'a, 'p, 'b, 'u, 'w) env \<Rightarrow> request \<Rightarrow> ('c, 't, 'm, 'k, 'a, 'p, 'b, 'u) prog \<Rightarrow> 'w \<Rightarrow> bool" where
  "no_credentials E r st w = (isl (authenticate (adAuth (admin_of st)) (rqHeader r) (uRawQuery (rqURL r))) \<and>
     fst (currentSession (enMac E) (pgSessions st) (netNow (enNet E) w) (dcCookies (enDecoders E) r)) = None)"

text \<open>The state with another audit log and other sessions.\<close>

definition with_log :: "('c, 't, 'm, 'k, 'a, 'p, 'b, 'u) prog \<Rightarrow> 'a \<Rightarrow> session_manager \<Rightarrow> ('c, 't, 'm, 'k, 'a, 'p, 'b, 'u) prog" where
  "with_log st a m = (put_admin st ((admin_of st)\<lparr>adAudit := a\<rparr>))\<lparr>pgSessions := m\<rparr>"

definition harmless :: "('c, 't, 'm, 'k, 'a, 'p, 'b, 'u) prog \<Rightarrow> 'w \<Rightarrow> (answer \<times> ('c, 't, 'm, 'k, 'a, 'p, 'b, 'u) prog \<times> 'w) option \<Rightarrow> bool" where
  "harmless st w x = (\<exists>ans a m. x = Some (ans, with_log st a m, w) \<and>
     ((\<forall>i s. ans \<noteq> Portal_reply (Redirected i (Some s))) \<longrightarrow> smSessions m \<subseteq>\<^sub>m smSessions (pgSessions st)))"

lemma harmlessI:
  "x = Some (ans, with_log st a m, w) \<Longrightarrow> (\<And>i s. ans \<noteq> Portal_reply (Redirected i (Some s))) \<Longrightarrow> smSessions m \<subseteq>\<^sub>m smSessions (pgSessions st) \<Longrightarrow>
    harmless st w x"
  by (auto simp: harmless_def)

lemma harmless_still: "(\<And>i s. ans \<noteq> Portal_reply (Redirected i (Some s))) \<Longrightarrow> harmless st w (Some (ans, st, w))"
  by (rule harmlessI[of _ _ _ "adAudit (admin_of st)" "pgSessions st"]) (auto simp: with_log_def put_admin_def)

lemma put_portal_log: "poUsers p = pgUsers st \<Longrightarrow> put_portal st p = with_log st (poAudit p) (poSessions p)"
  by (simp add: put_portal_def with_log_def put_admin_def)

lemma session_drops: "smSessions (snd (currentSession mac m now cs)) \<subseteq>\<^sub>m smSessions m"
  by (auto simp: currentSession_def sessionByID_def map_le_def Let_def split: option.split)

lemma destroy_drops: "smSessions (destroySession mac m cs) \<subseteq>\<^sub>m smSessions m"
  by (auto simp: destroySession_def map_le_def split: option.split)

lemma harmless_portal:
  assumes "\<And>rp p. f r (portal_of st) w = (rp, p) \<Longrightarrow> poUsers p = pgUsers st \<and>
    ((\<forall>i s. rp \<noteq> Redirected i (Some s)) \<longrightarrow> smSessions (poSessions p) \<subseteq>\<^sub>m smSessions (pgSessions st))"
  shows "harmless st w (portal_endpoint f r ps s st w)"
proof -
  obtain rp p where f: "f r (portal_of st) w = (rp, p)" by force
  show ?thesis using assms[OF f] by (auto simp: portal_endpoint_def f harmless_def put_portal_log)
qed

lemma login_page_harmless: "harmless st w (portal_endpoint (\<lambda>r p w. handleLoginPage mac (now w) p (ck r)) r ps s st w)"
proof (rule harmless_portal)
  fix rp p assume h: "handleLoginPage mac (now w) (portal_of st) (ck r) = (rp, p)"
  obtain x m where c: "currentSession mac (pgSessions st) (now w) (ck r) = (x, m)" by force
  have "smSessions m \<subseteq>\<^sub>m smSessions (pgSessions st)" using session_drops[of mac "pgSessions st" "now w" "ck r"] by (simp add: c)
  then show "poUsers p = pgUsers st \<and> ((\<forall>i s. rp \<noteq> Redirected i (Some s)) \<longrightarrow> smSessions (poSessions p) \<subseteq>\<^sub>m smSessions (pgSessions st))"
    using h by (auto simp: handleLoginPage_def portal_of_def c)
qed

lemma logout_harmless: "harmless st w (portal_endpoint (\<lambda>r p w. handleLogout mac akv (u w) (now w) p (ck r)) r ps s st w)"
proof (rule harmless_portal)
  fix rp p assume h: "handleLogout mac akv (u w) (now w) (portal_of st) (ck r) = (rp, p)"
  obtain x m where c: "currentSession mac (pgSessions st) (now w) (ck r) = (x, m)" by force
  have "smSessions m \<subseteq>\<^sub>m smSessions (pgSessions st)" using session_drops[of mac "pgSessions st" "now w" "ck r"] by (simp add: c)
  then have "smSessions (destroySession mac m (ck r)) \<subseteq>\<^sub>m smSessions (pgSessions st)" using destroy_drops map_le_trans by blast
  then show "poUsers p = pgUsers st \<and> ((\<forall>i s. rp \<noteq> Redirected i (Some s)) \<longrightarrow> smSessions (poSessions p) \<subseteq>\<^sub>m smSessions (pgSessions st))"
    using h by (auto simp: handleLogout_def portal_of_def c portal_audit_def Let_def split: option.splits)
qed

lemma login_harmless:
  "harmless st w (portal_endpoint (\<lambda>r p w. case dec r of None \<Rightarrow> (Login_page 400, p)
     | Some (user, password, next) \<Rightarrow> handleLogin mac sha err ukv akv (u w) (i w) (now w) p user password next) r ps s st w)"
  by (rule harmless_portal) (auto simp: handleLogin_def portal_of_def portal_audit_def Let_def split: option.splits sum.splits prod.splits)

lemma admin_harmless:
  assumes "no_credentials E r st w"
  shows "harmless st w (admin_area E r ps s st w)"
proof -
  let ?m = "snd (currentSession (enMac E) (pgSessions st) (netNow (enNet E) w) (dcCookies (enDecoders E) r))"
  have "session_middleware (enMac E) (pgSessions st) (netNow (enNet E) w) (netNow (enNet E) w) (dcCookies (enDecoders E) r) (uPath (rqURL r)) (h_get (rqHeader r) ''Accept'')
      = (unauthorized (uPath (rqURL r)) (h_get (rqHeader r) ''Accept''), ?m)"
    using assms by (auto simp: no_credentials_def session_middleware_def split: prod.split option.split)
  then have "admin_area E r ps s st w = Some (Closed (unauthorized (uPath (rqURL r)) (h_get (rqHeader r) ''Accept'')), st\<lparr>pgSessions := ?m\<rparr>, w)"
    by (simp add: admin_area_def Let_def unauthorized_def)
  then show ?thesis
    by (rule harmlessI[of _ _ _ "adAudit (admin_of st)" ?m, OF trans]) (auto simp: with_log_def put_admin_def session_drops)
qed

lemma client_harmless:
  assumes "no_credentials E r st w"
  shows "harmless st w (client_area E r ps s st w)"
  using assms by (auto simp: no_credentials_def client_area_def intro: harmless_still split: sum.splits)

lemma root_harmless:
  assumes "no_credentials E r st w" "k < length (root_routes E)"
  shows "harmless st w (snd (root_routes E ! k) r ps s st w)"
proof -
  have "snd (root_routes E ! k) \<in> snd ` set (root_routes E)" using assms(2) by simp
  then show ?thesis
    using admin_harmless[OF assms(1)] client_harmless[OF assms(1)]
    by (auto simp: root_routes_def Let_def login_page_harmless logout_harmless login_harmless harmless_still)
qed

text \<open>
  C3: A request that brings neither a valid session nor an access key of a client, to whatever path and
  however the router reads it, is answered without anything being sent to an upstream and changes nothing
  but the audit log and the sessions: no client, target, price, account, counter or usage event, and the
  running targets and keys stay as they are. It can only remove sessions, unless it is a login that
  succeeds.
\<close>

theorem closed_without_credentials:
  assumes "no_credentials E (with_request_id (enFresh E w 0) r) st w"
  shows "\<exists>ans a m. answer_request E r st w = Some (ans, with_log st a m, w) \<and>
     ((\<forall>i s. ans \<noteq> Portal_reply (Redirected i (Some s))) \<longrightarrow> smSessions m \<subseteq>\<^sub>m smSessions (pgSessions st))"
  using root_harmless[OF assms] harmless_still[of "Status 404" st w] harmless_still[of "Status 405" st w]
  unfolding harmless_def[symmetric] answer_request_def dispatch_def
  by (auto simp: not_found_def split: routed.split)

section \<open>A program\<close>

definition demo_decoders :: decoders where
  "demo_decoders = \<lparr>dcLogin = (\<lambda>_. None), dcCookies = (\<lambda>_. []), dcPassword = (\<lambda>_. None), dcClient = (\<lambda>_. None), dcCost = (\<lambda>_. None),
     dcTarget = (\<lambda>_. None), dcPatch = (\<lambda>_. None), dcPool = (\<lambda>_. None), dcPoolName = (\<lambda>_. None)\<rparr>"

text \<open>A router for the area of the administration and that of the clients.\<close>

definition demo_router :: "pattern list \<Rightarrow> string \<Rightarrow> string \<Rightarrow> routed" where
  "demo_router ps method path = (if length ps = 6 then Matched (if has_prefix path ''/admin'' then 4 else 5) [(''*'', path)] else No_match)"

definition demo_env where
  "demo_env = \<lparr>enNet = demo_net (Inr demo_answer), enBackends = alist_backends, enCopilot = demo_copilot_kv, enUsers = alist_kv,
     enMac = demo_mac, enSha = demo_sha, enLoginError = (\<lambda>_. []), enDecoders = demo_decoders, enRouter = demo_router,
     enFresh = (\<lambda>w n. replicate n CHR ''u''), enRows = (\<lambda>_. []), enDiskGet = (\<lambda>_. None), enDiskList = (\<lambda>_ _. []),
     enConfigPath = [], enConfigFile = (\<lambda>_. None), enFuel = (9, 9, 601)\<rparr>"

definition demo_program where
  "demo_program = \<lparr>pgCopilot = demo_copilot_admin, pgSessions = newSessionManager demo_session_config, pgUsers = poUsers demo_portal\<rparr>"

lemma demo_no_credentials: "no_credentials demo_env r demo_program w"
  by (simp add: no_credentials_def demo_env_def demo_program_def demo_decoders_def currentSession_def cookie_id_def authenticate_def
      demo_copilot_admin_def demo_admin_def authenticate_key_def Let_def)

theorem closed_without_credentials_witness:
  "\<exists>ans a m. answer_request demo_env demo_call demo_program 0 = Some (ans, with_log demo_program a m, 0) \<and>
     ((\<forall>i s. ans \<noteq> Portal_reply (Redirected i (Some s))) \<longrightarrow> smSessions m \<subseteq>\<^sub>m smSessions (pgSessions demo_program))"
  by (rule closed_without_credentials[OF demo_no_credentials])

end
