(* ===== verification/Program_Steady.thy ===== *)
theory Program_Steady
  imports Program_Props
begin

text \<open>
  What every request keeps: the store of access keys holds exactly the clients of the database, the
  running targets are those of the database, and the pools and names of the service are well-formed.
\<close>

section \<open>Services with the same targets\<close>

definition same_targets :: "service \<Rightarrow> service \<Rightarrow> bool" where
  "same_targets a b = (pxByName b = pxByName a \<and> orders_kept (pxOrder a) (pxOrder b))"

lemma same_targets_refl: "proxy_ok sv \<Longrightarrow> same_targets sv sv"
  by (simp add: same_targets_def proxy_ok_def orders_kept_refl)

lemma same_order: "proxy_ok sv \<Longrightarrow> pxOrder sv' = pxOrder sv \<Longrightarrow> pxByName sv' = pxByName sv \<Longrightarrow> same_targets sv sv'"
  by (simp add: same_targets_def proxy_ok_def orders_kept_refl)

lemma same_targets_ok: "proxy_ok a \<Longrightarrow> same_targets a b \<Longrightarrow> proxy_ok b"
  by (auto simp: same_targets_def intro: proxy_ok_kept)

lemma same_targets_running:
  assumes "same_targets a b"
  shows "running b = running a"
proof -
  have o: "orders_kept (pxOrder a) (pxOrder b)" using assms by (simp add: same_targets_def)
  show ?thesis unfolding running_def
  proof (rule nth_equalityI)
    fix i assume "i < length (map (\<lambda>s. (tName (tsTarget s), tPaused (tsTarget s))) (pxOrder b))"
    then have "i < length (pxOrder a)" using orders_kept_length[OF o] by simp
    then show "map (\<lambda>s. (tName (tsTarget s), tPaused (tsTarget s))) (pxOrder b) ! i =
        map (\<lambda>s. (tName (tsTarget s), tPaused (tsTarget s))) (pxOrder a) ! i"
      using orders_kept_nth[OF o] orders_kept_length[OF o] by (simp add: state_kept_def)
  qed (simp add: orders_kept_length[OF o])
qed

lemma put_pool_same:
  assumes "proxy_ok sv" "pool_of sv name = Some (i, p)" "pool_kept p q"
  shows "same_targets sv (put_pool sv i q)"
proof -
  obtain n where i: "pxByName sv n = Some i" "tsKeyPool (the_state sv i) = Some p" using assms(2) by (auto simp: pool_of_def split: option.splits)
  then have l: "i < length (pxOrder sv)" using assms(1) by (auto simp: proxy_ok_def names_ok_def)
  have "state_kept (the_state sv i) ((the_state sv i)\<lparr>tsKeyPool := Some q\<rparr>)" using i(2) assms(3) by (simp add: state_kept_def)
  then show ?thesis
    using orders_kept_update[OF orders_kept_refl l] assms(1) by (simp add: same_targets_def put_pool_def put_state_def proxy_ok_def)
qed

lemma pool_of_wf: "proxy_ok sv \<Longrightarrow> pool_of sv name = Some (i, p) \<Longrightarrow> kp_wf p"
proof -
  assume h: "proxy_ok sv" "pool_of sv name = Some (i, p)"
  then obtain n where i: "pxByName sv n = Some i" "tsKeyPool (the_state sv i) = Some p" by (auto simp: pool_of_def split: option.splits)
  then have "state_ok (the_state sv i)" using h(1) by (auto simp: proxy_ok_def names_ok_def)
  then show ?thesis using i(2) by (simp add: state_ok_def)
qed

lemma block_kept: "kp_wf p \<Longrightarrow> pool_kept p (blockKey p k)" "kp_wf p \<Longrightarrow> pool_kept p (unblockKey p k)"
  using kp_wf_block[of p k] kp_wf_unblock[of p k]
  by (auto simp: pool_kept_def blockKey_def unblockKey_def map_keyStr_upd)

lemma block_same: "proxy_ok sv \<Longrightarrow> block_key sv name k = (e, sv') \<Longrightarrow> same_targets sv sv'"
  by (auto simp: block_key_def same_targets_refl split: option.splits prod.splits if_splits intro: put_pool_same block_kept(1) pool_of_wf)

lemma unblock_same: "proxy_ok sv \<Longrightarrow> unblock_key sv name k = (e, sv') \<Longrightarrow> same_targets sv sv'"
  by (auto simp: unblock_key_def same_targets_refl split: option.splits prod.splits if_splits intro: put_pool_same block_kept(2) pool_of_wf)

lemma wake_keys_kept: "kp_wf p \<Longrightarrow> wake_keys net reg t is p w = (n, q, w') \<Longrightarrow> pool_kept p q"
proof (induction net reg t "is" p w arbitrary: n q w' rule: wake_keys.induct)
  case (2 net reg t i "is" p w)
  obtain ok w1 where k: "probeKey net reg t p (int i) w = (ok, w1)" by force
  obtain r p1 where r: "(if ok then markRecovered p (int i) else (False, p)) = (r, p1)" by force
  obtain m p2 w2 where m: "wake_keys net reg t is p1 w1 = (m, p2, w2)" by (cases "wake_keys net reg t is p1 w1") auto
  have "pool_kept p p1" using markRecovered_kept[OF 2(2), of "int i"] r 2(2) by (auto split: if_splits simp: pool_kept_refl)
  moreover have "pool_kept p1 p2" using 2(1)[OF k[symmetric] refl r[symmetric] refl _ m] calculation pool_keptD(1) by blast
  moreover have "q = p2" using 2(3) by (auto simp: k r m split: if_splits)
  ultimately show ?case using pool_kept_trans by blast
qed (simp add: pool_kept_refl)

lemma wakeUp_same: "proxy_ok sv \<Longrightarrow> wakeUpKeys net sv name w = (e, sv', w') \<Longrightarrow> same_targets sv sv'"
proof -
  assume h: "proxy_ok sv" "wakeUpKeys net sv name w = (e, sv', w')"
  show ?thesis
  proof (cases "pool_of sv name")
    case None
    then show ?thesis using h by (auto simp: wakeUpKeys_def same_targets_refl)
  next
    case (Some ip)
    obtain i p where ip: "ip = (i, p)" by force
    have wf: "kp_wf p" using pool_of_wf[OF h(1)] Some ip by simp
    obtain started p1 where t: "tryWakeUp p (netNow net w) = (started, p1)" by force
    obtain n p2 w1 where k: "wake_keys net (svRegistry sv) (the_target sv i) (getExhaustedKeys p1 (netNow net w)) p1 w = (n, p2, w1)"
      by (cases "wake_keys net (svRegistry sv) (the_target sv i) (getExhaustedKeys p1 (netNow net w)) p1 w") auto
    have "pool_kept p p1" using tryWakeUp_kept[OF wf, of "netNow net w"] t by simp
    moreover have "pool_kept p1 p2" using wake_keys_kept[OF _ k] calculation pool_keptD(1) by blast
    moreover have "pool_kept p2 (wakeUpComplete p2 (netNow net w1))" using wakeUpComplete_kept calculation(2) pool_keptD(1) by blast
    ultimately have "pool_kept p (wakeUpComplete p2 (netNow net w1))" using pool_kept_trans by blast
    then show ?thesis
      using h Some ip put_pool_same[OF h(1), of name i p] same_targets_refl by (auto simp: wakeUpKeys_def t k Let_def split: if_splits)
  qed
qed

lemma serveHTTP_same: "proxy_ok sv \<Longrightarrow> serveHTTP tf kf net sv r w = Some (out, sv', w') \<Longrightarrow> same_targets sv sv'"
  using serveHTTP_served by (fastforce simp: served_def same_targets_def begin_request_def end_request_def)

lemma applyConfig_ok: "proxy_ok sv \<Longrightarrow> applyConfig sv cfg now = (e, sv') \<Longrightarrow> proxy_ok sv'"
proof -
  assume h: "proxy_ok sv" "applyConfig sv cfg now = (e, sv')"
  show ?thesis
  proof (cases "buildTargetStates (cfgTargets cfg) now")
    case (Inr r)
    obtain ns os where r: "r = (ns, os)" by force
    have "names_ok Map.empty []" by (simp add: names_ok_def)
    from build_loop_ok[OF _ this, of 0 now "cfgTargets cfg" ns os] Inr r
    show ?thesis using h(2) by (auto simp: applyConfig_def buildTargetStates_def proxy_ok_def setRequestTimeout_def)
  qed (use h in \<open>auto simp: applyConfig_def\<close>)
qed

section \<open>The handlers\<close>

definition steady :: "('c, 't, 'm, 'k, 'a) backends \<Rightarrow> ('c, 't, 'm, 'k, 'a) admin \<Rightarrow> bool" where
  "steady B ad = (keys_fit B ad \<and> proxy_ok (adService ad) \<and> (\<exists>ts. in_step B ad ts \<and> running (adService ad) = map stored_view ts))"

lemma steady_same:
  assumes "steady B a" "adClients b = adClients a" "adTargets b = adTargets a" "adAuth b = adAuth a" "adConfigTargets b = adConfigTargets a"
    "same_targets (adService a) (adService b)"
  shows "steady B b"
  using assms same_targets_ok same_targets_running by (auto simp: steady_def keys_fit_def in_step_def)

lemma steady_frame:
  assumes "steady B a" "adClients b = adClients a" "adTargets b = adTargets a" "adAuth b = adAuth a" "adConfigTargets b = adConfigTargets a"
    "pxOrder (adService b) = pxOrder (adService a)" "pxByName (adService b) = pxByName (adService a)"
  shows "steady B b"
  using assms steady_same[OF assms(1-5)] same_order by (simp add: steady_def)

lemma steady_audit [simp]: "steady B (recordAudit B cl ad act obj d) = steady B ad"
  by (simp add: steady_def in_step_def)

lemma sync_service [simp]:
  "pxOrder (adService (sync_stores B st)) = pxOrder (adService st)" "pxByName (adService (sync_stores B st)) = pxByName (adService st)"
  "adTargets (sync_stores B st) = adTargets st" "adConfigTargets (sync_stores B st) = adConfigTargets st"
  by (simp_all add: sync_stores_def Let_def)

lemma quota_service_frame [simp]:
  "pxOrder (adService (quota_evaluate st n t)) = pxOrder (adService st)" "pxByName (adService (quota_evaluate st n t)) = pxByName (adService st)"
  "adTargets (quota_evaluate st n t) = adTargets st" "adConfigTargets (quota_evaluate st n t) = adConfigTargets st"
  by (simp_all add: quota_evaluate_def Let_def split: option.split)

lemma reload_frame:
  "reloadAuth B st = (st1, ok) \<Longrightarrow> adService st1 = adService st \<and> adTargets st1 = adTargets st \<and> adConfigTargets st1 = adConfigTargets st \<and> adClients st1 = adClients st"
  by (auto simp: reloadAuth_def split: sum.splits prod.splits option.splits)

text \<open>The clients change, the targets do not.\<close>

lemma steady_clients:
  assumes "steady B a" "keys_fit B b" "adTargets b = adTargets a" "adConfigTargets b = adConfigTargets a"
    "pxOrder (adService b) = pxOrder (adService a)" "pxByName (adService b) = pxByName (adService a)"
  shows "steady B b"
  using assms same_order same_targets_ok[of "adService a" "adService b"] same_targets_running[of "adService a" "adService b"]
  by (auto simp: steady_def in_step_def)

lemma after_client_frame:
  "after_client_change B cl b n a d ok st = (s, st') \<Longrightarrow> adTargets st' = adTargets st \<and> adConfigTargets st' = adConfigTargets st \<and>
     pxOrder (adService st') = pxOrder (adService st) \<and> pxByName (adService st') = pxByName (adService st)"
  by (auto simp: after_client_change_def dest!: reload_frame split: prod.splits bool.splits)

lemma client_request_steady:
  assumes "ordered_bucket (bkClients B)" "steady B st"
  shows "steady B (snd (client_request B cl rq st))"
  using request_cases[of B cl rq st]
proof (elim disjE exE conjE bexE)
  fix s :: int assume "client_request B cl rq st = (s, st)"
  then show ?thesis using assms(2) by simp
next
  fix c n a d and ok :: int
  let ?b = "client_step (bkClients B) (adClients st) c"
  assume r: "client_request B cl rq st = after_client_change B cl ?b n a d ok st"
  obtain s st' where a: "after_client_change B cl ?b n a d ok st = (s, st')" by force
  have "clients_ok (bkClients B) ?b"
    using assms by (intro client_bucket.client_step_ok[OF client_bucket.intro[OF assms(1)]]) (simp add: steady_def keys_fit_def)
  then have "keys_fit B st'" using after_change[OF assms(1) _ a] by (simp add: keys_fit_def)
  then show ?thesis using steady_clients[OF assms(2)] after_client_frame[OF a] by (simp add: r a)
qed

lemma client_handlers_steady:
  assumes "ordered_bucket (bkClients B)" "steady B st"
  shows "steady B (snd (handleCreateClient B cl c st))" "steady B (snd (handleUpdateClient B cl n c st))" "steady B (snd (handleDeleteClient B cl n st))"
  using client_request_steady[OF assms, of cl "New_client c"] client_request_steady[OF assms, of cl "Change_client n c"]
    client_request_steady[OF assms, of cl "Remove_client n"] by (simp_all add: client_request_def)

lemma cost_handlers_steady:
  assumes "steady B st"
  shows "steady B (snd (handleUpsertModelCost B cl raw body st))" "steady B (snd (handleDeleteModelCost B cl raw st))"
proof -
  have s: "steady B (sync_stores B (st\<lparr>adCosts := b\<rparr>))" for b by (rule steady_frame[OF assms]) simp_all
  show "steady B (snd (handleUpsertModelCost B cl raw body st))" 
    using assms s by (simp add: handleUpsertModelCost_def Let_def split: option.split sum.split prod.split)
  show "steady B (snd (handleDeleteModelCost B cl raw st))"
    using assms s by (simp add: handleDeleteModelCost_def Let_def split: option.split sum.split prod.split)
qed

text \<open>The keys and the shape of the service, whatever becomes of the targets.\<close>

definition sound :: "('c, 't, 'm, 'k, 'a) backends \<Rightarrow> ('c, 't, 'm, 'k, 'a) admin \<Rightarrow> bool" where
  "sound B ad = (keys_fit B ad \<and> proxy_ok (adService ad))"

lemma steady_sound: "steady B ad \<Longrightarrow> sound B ad"
  by (simp add: steady_def sound_def)

lemma sound_audit [simp]: "sound B (recordAudit B cl ad act obj d) = sound B ad"
  by (simp add: sound_def)

lemma loads_again:
  assumes "ordered_bucket (bkClients B)" "keys_fit B ad" "client_list (bkClients B) (adClients ad) = Inr cs"
    "loadFromConfig store (map auth_client cs) = (e, m)"
  shows "e = None \<and> auth_agrees (bkClients B) (adClients ad) m"
  using assms by (auto simp: keys_fit_def elim: loaded_iff[of "bkClients B" "adClients ad" store])

lemma runtime_sound:
  assumes "ordered_bucket (bkClients B)" "sound B st" "applyConfigRuntime B st ts now = (st1, ok)"
  shows "sound B st1"
proof -
  obtain cs where cs: "client_list (bkClients B) (adClients st) = Inr cs"
    using assms(1,2) by (auto simp: sound_def keys_fit_def elim: loaded_iff[of "bkClients B" "adClients st" "adAuth st"])
  obtain e sv where a: "applyConfig (adService st) (with_targets (adConfig st) ts) now = (e, sv)" by force
  obtain e2 m where l: "loadFromConfig (adAuth st) (map auth_client cs) = (e2, m)" by force
  have "proxy_ok sv" using applyConfig_ok[OF _ a] assms(2) by (simp add: sound_def)
  moreover have "e2 = None \<and> auth_agrees (bkClients B) (adClients st) m" using loads_again[OF assms(1) _ cs l] assms(2) by (simp add: sound_def)
  moreover have "st1 = st\<lparr>adService := sv\<rparr> \<or> st1 = st\<lparr>adService := sv, adAuth := m\<rparr>"
    using assms(3) by (cases e; cases e2) (simp_all add: applyConfigRuntime_def cs a l)
  ultimately show ?thesis using assms(2) by (auto simp: sound_def keys_fit_def)
qed

lemma commit_sound:
  assumes "ordered_bucket (bkClients B)" "sound B st"
  shows "sound B (snd (commit_targets B cl cmd ts a n ok st))"
proof -
  obtain st1 b where r: "applyConfigRuntime B st ts (clNow cl) = (st1, b)" by force
  have s: "sound B st1" by (rule runtime_sound[OF assms r])
  moreover have "sound B (st1\<lparr>adTargets := d, adConfigTargets := ts\<rparr>)" for d using s by (simp add: sound_def keys_fit_def)
  ultimately show ?thesis by (cases b; cases "target_step (bkTargets B) (bkMeta B) (adTargets st1) cmd") (simp_all add: commit_targets_def r)
qed

lemma current_sound: "sound B st \<Longrightarrow> current_targets B st = (r, st1) \<Longrightarrow> sound B st1"
proof -
  assume h: "sound B st" "current_targets B st = (r, st1)"
  have "adService (snd (current_targets B st)) = adService st" by (simp add: current_targets_def Let_def split: prod.split sum.split)
  then show ?thesis using h current_fits[of B st] by (simp add: sound_def)
qed

lemma target_handlers_sound:
  assumes "ordered_bucket (bkClients B)" "sound B st"
  shows "sound B (snd (handleCreateTarget B cl c st))" "sound B (snd (handleUpdateTarget B cl raw p st))"
    "sound B (snd (handleSetTargetPaused B cl b raw st))" "sound B (snd (handleDeleteTarget B cl raw st))"
  using assms(2) by (auto simp: handleCreateTarget_def handleUpdateTarget_def handleSetTargetPaused_def handleDeleteTarget_def Let_def
    intro!: commit_sound[OF assms(1)] dest: current_sound split: option.split prod.split)

lemma reload_sound:
  assumes "ordered_bucket (bkClients B)" "sound B st"
  shows "sound B (snd (handleReloadConfig B cl path c st))"
proof (cases c)
  case (Some x)
  obtain cfg cts where c: "c = Some (cfg, cts)" using Some by (cases x) simp
  obtain r d where l: "target_list (bkTargets B) (bkMeta B) (adTargets st) = (r, d)"
    by (cases "target_list (bkTargets B) (bkMeta B) (adTargets st)")
  have base: "sound B (st\<lparr>adTargets := d\<rparr>)" for d using assms(2) by (simp add: sound_def keys_fit_def)
  show ?thesis
  proof (cases r)
    case (Inr stored)
    obtain cs where cs: "client_list (bkClients B) (adClients st) = Inr cs"
      using assms by (auto simp: sound_def keys_fit_def elim: loaded_iff[of "bkClients B" "adClients st" "adAuth st"])
    let ?ts = "overlay_targets stored cts"
    obtain e0 m0 where l0: "loadFromConfig Map.empty (map auth_client cs) = (e0, m0)" by force
    obtain e sv where a: "applyConfig (adService st) (with_targets cfg ?ts) (clNow cl) = (e, sv)" by force
    obtain e2 m where lm: "loadFromConfig (adAuth st) (map auth_client cs) = (e2, m)" by force
    have k: "e2 = None \<and> auth_agrees (bkClients B) (adClients st) m"
      using loads_again[OF assms(1) _ cs lm] assms(2) by (simp add: sound_def)
    have sv: "proxy_ok sv" using applyConfig_ok[OF _ a] assms(2) by (simp add: sound_def)
    then have s1: "sound B (st\<lparr>adTargets := d1, adService := sv\<rparr>)" for d1 using assms(2) by (simp add: sound_def keys_fit_def)
    have s2: "sound B (st\<lparr>adService := sv, adAuth := m, adTargets := d1\<rparr>)" for d1 using assms(2) k sv by (simp add: sound_def keys_fit_def)
    have s3: "sound B (st\<lparr>adService := sv, adAuth := m, adTargets := d2, adConfig := cfg, adConfigTargets := ?ts\<rparr>)" for d2
      using assms(2) k sv by (simp add: sound_def keys_fit_def)
    obtain mg d2 where mg: "(if ?ts = [] then (Inr False, d) else migrateTargetsFromConfig (bkTargets B) (bkMeta B) d ?ts) = (mg, d2)"
      by (cases "if ?ts = [] then (Inr False, d) else migrateTargetsFromConfig (bkTargets B) (bkMeta B) d ?ts")
    show ?thesis
      using base[of d] s1[of d] s2[of d2] s3[of d2] k
      by (cases e0; cases e; cases mg) (simp_all add: handleReloadConfig_def c l Inr cs l0 a lm mg Let_def cong: if_cong)
  qed (use base in \<open>simp add: handleReloadConfig_def c l\<close>)
qed (simp add: handleReloadConfig_def assms(2))

text \<open>The databases of the administration behave, and so do the files it reloads.\<close>

definition good_backends :: "('c, 't, 'm, 'k, 'a) backends \<Rightarrow> bool" where
  "good_backends B = (ordered_bucket (bkClients B) \<and> ordered_bucket (bkTargets B) \<and> ordered_bucket (bkMeta B))"

lemma all_or_nothing_steady:
  assumes "steady B st" "sound B (snd r)" "\<And>ts. in_step B st ts \<Longrightarrow> all_or_nothing B st r"
  shows "steady B (snd r)"
proof -
  obtain ts where "in_step B st ts" using assms(1) by (auto simp: steady_def)
  from assms(3)[OF this] show ?thesis
    using assms(1,2) by (auto simp: all_or_nothing_def steady_def sound_def split: if_splits)
qed

lemma target_handlers_steady:
  assumes "good_backends B" "steady B st"
  shows "steady B (snd (handleCreateTarget B cl c st))" "steady B (snd (handleUpdateTarget B cl raw p st))"
    "steady B (snd (handleSetTargetPaused B cl b raw st))" "steady B (snd (handleDeleteTarget B cl raw st))"
proof -
  have ok: "ordered_bucket (bkClients B)" "clients_ok (bkClients B) (adClients st)" "sound B st" and ad: "admin_backends B"
    using assms steady_sound[OF assms(2)] by (simp_all add: good_backends_def steady_def keys_fit_def admin_backends.intro)
  note snd = target_handlers_sound[OF ok(1,3)]
  show "steady B (snd (handleCreateTarget B cl c st))"
    by (rule all_or_nothing_steady[OF assms(2) snd(1) admin_backends.create_all_or_nothing[OF ad ok(2)]])
  show "steady B (snd (handleUpdateTarget B cl raw p st))"
    by (rule all_or_nothing_steady[OF assms(2) snd(2) admin_backends.update_all_or_nothing[OF ad ok(2)]])
  show "steady B (snd (handleSetTargetPaused B cl b raw st))"
    by (rule all_or_nothing_steady[OF assms(2) snd(3) admin_backends.pause_all_or_nothing[OF ad ok(2)]])
  show "steady B (snd (handleDeleteTarget B cl raw st))"
    by (rule all_or_nothing_steady[OF assms(2) snd(4) admin_backends.delete_all_or_nothing[OF ad ok(2)]])
qed

lemma reload_steady:
  assumes "good_backends B" "steady B st" "\<And>cfg cts. c = Some (cfg, cts) \<Longrightarrow> \<forall>t \<in> set cts. trim_space (st_name t) \<noteq> [] \<and> valid_type t"
  shows "steady B (snd (handleReloadConfig B cl path c st))"
proof (cases c)
  case None
  then show ?thesis using assms(2) by (simp add: handleReloadConfig_def)
next
  case (Some x)
  obtain cfg cts where c: "c = Some (cfg, cts)" using Some by (cases x) simp
  have ok: "ordered_bucket (bkClients B)" "ordered_bucket (bkTargets B)" "ordered_bucket (bkMeta B)" "clients_ok (bkClients B) (adClients st)" "sound B st"
    using assms steady_sound[OF assms(2)] by (simp_all add: good_backends_def steady_def keys_fit_def)
  show ?thesis unfolding c
    by (rule all_or_nothing_steady[OF assms(2) reload_sound[OF ok(1,5)] reload_all_or_nothing[OF ok(1-4) _ assms(3)[OF c]]])
qed

lemma key_handlers_steady:
  assumes "steady B st"
  shows "steady B (snd (handleBlockTargetKey B cl raw index st))" "steady B (snd (handleUnblockTargetKey B cl raw index st))"
    "steady B (snd (fst (handleWakeUpTargetKeys net B cl raw st w)))"
proof -
  have ok: "proxy_ok (adService st)" using assms by (simp add: steady_def)
  have s: "steady B (st\<lparr>adService := sv\<rparr>)" if "same_targets (adService st) sv" for sv by (rule steady_same[OF assms]) (use that in simp_all)
  show "steady B (snd (handleBlockTargetKey B cl raw index st))" "steady B (snd (handleUnblockTargetKey B cl raw index st))"
    using s block_same[OF ok] unblock_same[OF ok] assms
    by (auto simp: handleBlockTargetKey_def handleUnblockTargetKey_def split: option.split prod.split)
  show "steady B (snd (fst (handleWakeUpTargetKeys net B cl raw st w)))"
    using assms by (auto simp: handleWakeUpTargetKeys_def intro!: s elim: wakeUp_same[OF ok] split: option.split prod.split sum.split)
qed

section \<open>Pools and accounts of Copilot\<close>

lemma store_client_frame:
  "adTargets (store_client B c allowed ad) = adTargets ad" "adConfigTargets (store_client B c allowed ad) = adConfigTargets ad"
  "pxOrder (adService (store_client B c allowed ad)) = pxOrder (adService ad)" "pxByName (adService (store_client B c allowed ad)) = pxByName (adService ad)"
  by (simp_all add: store_client_def reload_frame[OF surjective_pairing] split: sum.split)

lemma pool_clients_steady:
  assumes "ordered_bucket (bkClients B)" "steady B ad"
  shows "steady B (syncClientAllowedTargets B n ts ad)" "steady B (removeTargetsFromClient B n ts ad)"
proof -
  have k: "keys_fit B ad" using assms(2) by (simp add: steady_def)
  note f = store_client_frame
  show "steady B (syncClientAllowedTargets B n ts ad)"
    by (rule steady_clients[OF assms(2) sync_fits[OF assms(1) k]])
      (auto simp: syncClientAllowedTargets_def Let_def f split: sum.split option.split)
  show "steady B (removeTargetsFromClient B n ts ad)"
    by (rule steady_clients[OF assms(2) remove_fits[OF assms(1) k]])
      (auto simp: removeTargetsFromClient_def Let_def f split: sum.split option.split)
qed

lemma current_steady: "good_backends B \<Longrightarrow> steady B ad \<Longrightarrow> snd (current_targets B ad) = ad"
  using admin_backends.current_in_step[OF admin_backends.intro] by (fastforce simp: good_backends_def steady_def)

lemma validate_steady: "good_backends B \<Longrightarrow> steady B ad \<Longrightarrow> validateCopilotTargets B names ad = (ok, ad1) \<Longrightarrow> ad1 = ad"
  using current_steady[of B ad] by (auto simp: validateCopilotTargets_def split: if_splits prod.splits option.splits)

lemma audit_steady [simp]: "steady B (coAdmin (copilot_audit B cl st act obj d)) = steady B (coAdmin st)"
  by (simp add: copilot_audit_def)

lemma pool_handlers_steady:
  assumes "good_backends B" "steady B (coAdmin st)"
  shows "steady B (coAdmin (snd (handleCreateCopilotPool B K cl c st)))" "steady B (coAdmin (snd (handleUpdateCopilotPool B K cl n c st)))"
    "steady B (coAdmin (snd (handleDeleteCopilotPool B K cl n st)))"
proof -
  have b: "ordered_bucket (bkClients B)" using assms(1) by (simp add: good_backends_def)
  note same = validate_steady[OF assms] and s = pool_clients_steady[OF b]
  show "steady B (coAdmin (snd (handleCreateCopilotPool B K cl c st)))"
    using assms(2) by (auto simp: handleCreateCopilotPool_def dest!: same intro!: s split: option.split sum.split prod.split bool.split)
  show "steady B (coAdmin (snd (handleUpdateCopilotPool B K cl n c st)))"
    using assms(2) by (auto simp: handleUpdateCopilotPool_def Let_def dest!: same intro!: s split: option.split sum.split prod.split bool.split)
  show "steady B (coAdmin (snd (handleDeleteCopilotPool B K cl n st)))"
    using assms(2) by (auto simp: handleDeleteCopilotPool_def intro!: s split: option.split sum.split)
qed

text \<open>The routes of accounts leave everything but the accounts and the audit log.\<close>

lemma account_handlers_steady:
  assumes "steady B (coAdmin st)"
  shows "steady B (coAdmin (snd (change_account B K svc cl raw f act d st)))" "steady B (coAdmin (snd (handleRevokeCopilotAccount B K svc cl raw st)))"
    "steady B (coAdmin (snd (handleDeleteCopilotAccount B K svc cl raw st)))"
  using assms by (simp_all add: change_account_def with_account_def handleRevokeCopilotAccount_def handleDeleteCopilotAccount_def Let_def
    split: sum.split prod.split option.split)

lemma calling_handlers_steady:
  assumes "steady B (coAdmin st)"
  shows "handleStartCopilotAuth net B K svc cl uuid body st w = (c, st', w') \<Longrightarrow> steady B (coAdmin st')"
    "handleCompleteCopilotAuth fuel net B K svc cl raw st w = Some (c, st', w') \<Longrightarrow> steady B (coAdmin st')"
    "handleRefreshCopilotToken net B K svc cl raw st w = (c, st', w') \<Longrightarrow> steady B (coAdmin st')"
    "handleSyncCopilotQuota net B K svc mgr cl raw st w = (c, st', w') \<Longrightarrow> steady B (coAdmin st')"
  using assms by (auto simp: handleStartCopilotAuth_def handleCompleteCopilotAuth_def handleRefreshCopilotToken_def handleSyncCopilotQuota_def
      with_account_def Let_def split: if_splits sum.splits prod.splits option.splits)

section \<open>Requests\<close>

definition keeps_steady :: "('c, 't, 'm, 'k, 'a, 'p, 'b, 'u, 'w) env \<Rightarrow> ('c, 't, 'm, 'k, 'a, 'p, 'b, 'u, 'w) endpoint \<Rightarrow> bool" where
  "keeps_steady E f = (\<forall>r ps s st w a st' w'. steady (enBackends E) (admin_of st) \<longrightarrow> f r ps s st w = Some (a, st', w') \<longrightarrow>
     steady (enBackends E) (admin_of st'))"

lemma keeps_steadyI:
  "(\<And>r ps s st w a st' w'. steady (enBackends E) (admin_of st) \<Longrightarrow> f r ps s st w = Some (a, st', w') \<Longrightarrow> steady (enBackends E) (admin_of st')) \<Longrightarrow>
    keeps_steady E f"
  unfolding keeps_steady_def by blast

lemma admin_of_put [simp]: "admin_of (put_admin st ad) = ad"
  by (simp add: put_admin_def)

lemma steady_log [simp]: "steady B (ad\<lparr>adAudit := a\<rparr>) = steady B ad"
  by (simp add: steady_def keys_fit_def in_step_def)

lemma keeps_view: "keeps_steady E (shows_view f)"
  by (rule keeps_steadyI) (auto simp: shows_view_def split: prod.splits)

lemma keeps_admin:
  assumes "\<And>cl r ps ad. steady (enBackends E) ad \<Longrightarrow> steady (enBackends E) (snd (f cl r ps ad))"
  shows "keeps_steady E (changes_admin E f)"
proof (rule keeps_steadyI)
  fix r ps s st w a st' w' assume h: "steady (enBackends E) (admin_of st)" "changes_admin E f r ps s st w = Some (a, st', w')"
  show "steady (enBackends E) (admin_of st')" using assms[OF h(1)] h(2) by (auto simp: changes_admin_def split: prod.splits dest: sndI)
qed

lemma keeps_copilot:
  assumes "\<And>cl r ps co w c co' w'. steady (enBackends E) (coAdmin co) \<Longrightarrow> f cl r ps co w = Some (c, co', w') \<Longrightarrow> steady (enBackends E) (coAdmin co')"
  shows "keeps_steady E (changes_copilot E f)"
  by (rule keeps_steadyI) (auto simp: changes_copilot_def split: option.splits prod.splits dest: assms)

lemma keeps_portal: "keeps_steady E (portal_endpoint f)"
  by (rule keeps_steadyI) (auto simp: portal_endpoint_def put_portal_def split: prod.splits)

lemma pass_on_frame:
  "(\<And>s. pxOrder (bad s) = pxOrder s \<and> pxByName (bad s) = pxByName s) \<Longrightarrow>
    pass_on net limit meth url h body extra shorten bad sv b w = (rp, sv', b', w') \<Longrightarrow> pxOrder sv' = pxOrder sv \<and> pxByName sv' = pxByName sv"
  by (auto simp: pass_on_def count_answer_def count_success_def count_failure_def Let_def split: option.splits sum.splits prod.splits)

lemma copilot_frame:
  "handleCopilotQuotaSummary net K pb sv r b w = (rp, sv', b', w') \<Longrightarrow> pxOrder sv' = pxOrder sv \<and> pxByName sv' = pxByName sv"
  "handleCopilotModels net K pb sv r b w = (rp, sv', b', w') \<Longrightarrow> pxOrder sv' = pxOrder sv \<and> pxByName sv' = pxByName sv"
  "handleCopilotPassthrough net K pb sv r b w = (rp, sv', b', w') \<Longrightarrow> pxOrder sv' = pxOrder sv \<and> pxByName sv' = pxByName sv"
  by (auto simp: handleCopilotQuotaSummary_def handleCopilotModels_def handleCopilotPassthrough_def count_failure_def
      split: option.splits sum.splits prod.splits if_splits dest!: pass_on_frame[rotated])

lemma keeps_copilot_endpoint:
  assumes "\<And>sv r pb b w rp sv' b' w'. f sv r pb b w = (rp, sv', b', w') \<Longrightarrow> pxOrder sv' = pxOrder sv \<and> pxByName sv' = pxByName sv"
  shows "keeps_steady E (copilot_endpoint f)"
proof (rule keeps_steadyI)
  fix r ps s st w a st' w' assume h: "steady (enBackends E) (admin_of st)" "copilot_endpoint f r ps s st w = Some (a, st', w')"
  obtain rp sv b w1 where f: "f (adService (admin_of st)) r (coPools (pgCopilot st)) (coAccounts (pgCopilot st)) w = (rp, sv, b, w1)"
    by (cases "f (adService (admin_of st)) r (coPools (pgCopilot st)) (coAccounts (pgCopilot st)) w") auto
  have "admin_of st' = (admin_of st)\<lparr>adService := sv\<rparr>" using h(2) by (auto simp: copilot_endpoint_def f with_service_def)
  then show "steady (enBackends E) (admin_of st')" using assms[OF f] by (intro steady_frame[OF h(1)]) simp_all
qed

lemma recovered_frame: "recovered r (out, sv) = (out', sv') \<Longrightarrow> pxOrder sv' = pxOrder sv \<and> pxByName sv' = pxByName sv"
  by (auto simp: recovered_def split: outcome.splits)

lemma keeps_proxy: "keeps_steady E (proxy_endpoint E)"
proof (rule keeps_steadyI)
  fix r ps s st w a st' w' assume h: "steady (enBackends E) (admin_of st)" "proxy_endpoint E r ps s st w = Some (a, st', w')"
  from h(2) obtain out sv w1 out1 sv1 where v: "serveHTTP (fst (enFuel E)) (fst (snd (enFuel E))) (enNet E) (adService (admin_of st)) r w = Some (out, sv, w1)"
    "recovered r (out, sv) = (out1, sv1)" and st': "st' = with_service st sv1 (coAccounts (pgCopilot st))"
    by (auto simp: proxy_endpoint_def split: option.splits prod.splits)
  have "steady (enBackends E) ((admin_of st)\<lparr>adService := sv\<rparr>)"
    by (rule steady_same[OF h(1)]) (use serveHTTP_same[OF _ v(1)] h(1) in \<open>simp_all add: steady_def\<close>)
  then show "steady (enBackends E) (admin_of st')"
    by (rule steady_frame) (use recovered_frame[OF v(2)] in \<open>simp_all add: st' with_service_def\<close>)
qed

lemma keeps_steadyD: "keeps_steady E f \<Longrightarrow> steady (enBackends E) (admin_of st) \<Longrightarrow> f r ps s st w = Some (a, st', w') \<Longrightarrow> steady (enBackends E) (admin_of st')"
  unfolding keeps_steady_def by blast

lemma keeps_dispatch:
  assumes "list_all (\<lambda>p. keeps_steady E (snd p)) table" "keeps_steady E otherwise"
    "steady (enBackends E) (admin_of st)" "dispatch E table otherwise path r s st w = Some (a, st', w')"
  shows "steady (enBackends E) (admin_of st')"
proof (cases "enRouter E (map fst table) (rqMethod r) path")
  case (Matched i ps)
  show ?thesis
  proof (cases "i < length table")
    case True
    then have "keeps_steady E (snd (table ! i))" using assms(1) by (simp add: list_all_length)
    then show ?thesis using assms(3,4) True by (auto simp: dispatch_def Matched dest: keeps_steadyD)
  next
    case False
    then show ?thesis using assms(2-4) by (auto simp: dispatch_def Matched dest: keeps_steadyD)
  qed
next
  case No_match
  then show ?thesis using assms(2-4) by (auto simp: dispatch_def dest: keeps_steadyD)
next
  case Wrong_method
  then show ?thesis using assms(3,4) by (simp add: dispatch_def)
qed

text \<open>The targets of every configuration file that can be loaded have been validated.\<close>

definition valid_files :: "('c, 't, 'm, 'k, 'a, 'p, 'b, 'u, 'w) env \<Rightarrow> bool" where
  "valid_files E = (\<forall>w cfg cts. enConfigFile E w = Some (cfg, cts) \<longrightarrow> (\<forall>t \<in> set cts. trim_space (st_name t) \<noteq> [] \<and> valid_type t))"

lemma listing_steady: "good_backends B \<Longrightarrow> steady B ad \<Longrightarrow> handleListTargets B ad now = (x, ad') \<Longrightarrow> ad' = ad"
  using current_steady[of B ad] by (auto simp: handleListTargets_def split: prod.splits option.splits)

lemma quota_view_steady: "steady B ad \<Longrightarrow> handleQuotaStatus name ad now = (x, ad') \<Longrightarrow> steady B ad'"
  by (auto simp: handleQuotaStatus_def Let_def intro: steady_frame split: if_splits option.splits prod.splits)

lemma model_views_steady:
  "handleListCopilotModels net K svc co w = (x, co', w') \<Longrightarrow> coAdmin co' = coAdmin co"
  "handleListCopilotPoolModels net K svc raw co w = (y, co', w') \<Longrightarrow> coAdmin co' = coAdmin co"
  by (auto simp: handleListCopilotModels_def handleListCopilotPoolModels_def Let_def split: if_splits sum.splits prod.splits)

lemma view_routes_steady:
  assumes "good_backends (enBackends E)"
  shows "list_all (\<lambda>p. keeps_steady E (snd p)) (view_routes E)"
proof -
  have me: "keeps_steady E (\<lambda>r ps s st w. case handleMe s of (c, v) \<Rightarrow> Some (Shown c (View_me v), st, w))"
    by (rule keeps_steadyI) (auto split: prod.splits)
  have targets: "keeps_steady E (\<lambda>r ps s st w. case handleListTargets (enBackends E) (admin_of st) (netNow (enNet E) w) of
      ((c, v), ad) \<Rightarrow> Some (Shown c (View_targets v), put_admin st ad, w))"
    by (rule keeps_steadyI) (auto split: prod.splits dest: listing_steady[OF assms])
  have quota: "keeps_steady E (\<lambda>r ps s st w. case handleQuotaStatus (param ps ''client'') (admin_of st) (netNow (enNet E) w) of
      ((c, v), ad) \<Rightarrow> Some (Shown c (View_quota v), put_admin st ad, w))"
    by (rule keeps_steadyI) (auto split: prod.splits dest: quota_view_steady)
  have pool: "keeps_steady E (\<lambda>r ps s st w. case handleListCopilotPoolModels (enNet E) (enCopilot E) True (param ps ''name'') (pgCopilot st) w of
      ((c, ds, n), co, w1) \<Rightarrow> Some (Shown c (View_pool_models ds n), st\<lparr>pgCopilot := co\<rparr>, w1))"
    by (rule keeps_steadyI) (auto split: prod.splits dest: model_views_steady(2))
  have models: "keeps_steady E (\<lambda>r ps s st w. case handleListCopilotModels (enNet E) (enCopilot E) True (pgCopilot st) w of
      (v, co, w1) \<Rightarrow> Some (Shown 200 (View_copilot_models v), st\<lparr>pgCopilot := co\<rparr>, w1))"
    by (rule keeps_steadyI) (auto split: prod.splits dest: model_views_steady(1))
  show ?thesis by (simp add: view_routes_def Let_def keeps_view me targets quota pool models)
qed

lemma change_routes_steady:
  assumes "good_backends (enBackends E)" "valid_files E"
  shows "list_all (\<lambda>p. keeps_steady E (snd p)) (change_routes E)"
proof -
  have o: "ordered_bucket (bkClients (enBackends E))" using assms(1) by (simp add: good_backends_def)
  have password: "keeps_steady E (\<lambda>r ps s st w. case handleChangePassword (enSha E) (enUsers E) (bkAudit (enBackends E)) (enFresh E w 1) (enFresh E w 2)
        (netNow (enNet E) w) s (portal_of st) (dcPassword (enDecoders E) r) of (c, p) \<Rightarrow> Some (Status c, put_portal st p, w))"
    by (rule keeps_steadyI) (auto simp: put_portal_def split: prod.splits)
  then have password: "keeps_steady E (\<lambda>r ps s st w. case handleChangePassword (enSha E) (enUsers E) (bkAudit (enBackends E)) (enFresh E w (Suc 0))
        (enFresh E w 2) (netNow (enNet E) w) s (portal_of st) (dcPassword (enDecoders E) r) of (c, p) \<Rightarrow> Some (Status c, put_portal st p, w))" by simp
  have reload: "keeps_steady E (\<lambda>r ps s st w. changes_admin E (\<lambda>cl r ps. handleReloadConfig (enBackends E) cl (enConfigPath E) (enConfigFile E w)) r ps s st w)"
  proof (rule keeps_steadyI)
    fix r ps s st w a st' w'
    assume h: "steady (enBackends E) (admin_of st)"
      "changes_admin E (\<lambda>cl r ps. handleReloadConfig (enBackends E) cl (enConfigPath E) (enConfigFile E w)) r ps s st w = Some (a, st', w')"
    have "steady (enBackends E) (snd (handleReloadConfig (enBackends E) cl (enConfigPath E) (enConfigFile E w) ad))" if "steady (enBackends E) ad" for cl ad
      by (rule reload_steady[OF assms(1) that]) (use assms(2) in \<open>auto simp: valid_files_def\<close>)
    then show "steady (enBackends E) (admin_of st')" using h by (intro keeps_steadyD[OF keeps_admin h(1,2)]) auto
  qed
  have wake: "keeps_steady E (\<lambda>r ps s st w. case handleWakeUpTargetKeys (enNet E) (enBackends E) (call_of E s w) (param ps ''name'') (admin_of st) w of
          ((c, ad), w1) \<Rightarrow> Some (Status c, put_admin st ad, w1))"
  proof (rule keeps_steadyI)
    fix r ps s st w a st' w'
    assume h: "steady (enBackends E) (admin_of st)"
      "(case handleWakeUpTargetKeys (enNet E) (enBackends E) (call_of E s w) (param ps ''name'') (admin_of st) w of
          ((c, ad), w1) \<Rightarrow> Some (Status c, put_admin st ad, w1)) = Some (a, st', w')"
    show "steady (enBackends E) (admin_of st')"
      using key_handlers_steady(3)[OF h(1), of "enNet E" "call_of E s w" "param ps ''name''" w] h(2) by (auto split: prod.splits)
  qed
  show ?thesis
    by (simp add: change_routes_def Let_def password reload wake keeps_admin client_handlers_steady[OF o] cost_handlers_steady
        target_handlers_steady[OF assms(1)] key_handlers_steady(1,2))
qed

lemma copilot_routes_steady:
  assumes "good_backends (enBackends E)"
  shows "list_all (\<lambda>p. keeps_steady E (snd p)) (copilot_routes E)"
proof -
  have still: "keeps_steady E (changes_copilot E (\<lambda>cl r ps co w. case f cl r ps co of (c, co1) \<Rightarrow> Some (c, co1, w)))"
    if "\<And>cl r ps co. steady (enBackends E) (coAdmin co) \<Longrightarrow> steady (enBackends E) (coAdmin (snd (f cl r ps co)))"
    for f :: "call \<Rightarrow> request \<Rightarrow> (string \<times> string) list \<Rightarrow> ('a, 'b, 'c, 'd, 'e, 'f, 'g) copilot_admin \<Rightarrow> int \<times> ('a, 'b, 'c, 'd, 'e, 'f, 'g) copilot_admin"
  proof (rule keeps_copilot)
    fix cl r ps w c w' and co co' :: "('a, 'b, 'c, 'd, 'e, 'f, 'g) copilot_admin"
    assume "steady (enBackends E) (coAdmin co)" "(case f cl r ps co of (c, co1) \<Rightarrow> Some (c, co1, w)) = Some (c, co', w')"
    then show "steady (enBackends E) (coAdmin co')" using that[of co cl r ps] by (cases "f cl r ps co") simp
  qed
  have start: "keeps_steady E (changes_copilot E (\<lambda>cl r ps co w. Some (handleStartCopilotAuth (enNet E) (enBackends E) (enCopilot E) True cl
      (enFresh E w 2) (dcPoolName (enDecoders E) r) co w)))"
    by (rule keeps_copilot) (auto dest: calling_handlers_steady(1))
  have complete: "keeps_steady E (changes_copilot E (\<lambda>cl r ps co w. handleCompleteCopilotAuth (snd (snd (enFuel E))) (enNet E) (enBackends E)
      (enCopilot E) True cl (param ps ''id'') co w))"
    by (rule keeps_copilot) (auto dest: calling_handlers_steady(2))
  have refresh: "keeps_steady E (changes_copilot E (\<lambda>cl r ps co w. Some (handleRefreshCopilotToken (enNet E) (enBackends E) (enCopilot E) True cl
      (param ps ''id'') co w)))"
    by (rule keeps_copilot) (auto dest: calling_handlers_steady(3))
  have sync: "keeps_steady E (changes_copilot E (\<lambda>cl r ps co w. Some (handleSyncCopilotQuota (enNet E) (enBackends E) (enCopilot E) True True cl
      (param ps ''id'') co w)))"
    by (rule keeps_copilot) (auto dest: calling_handlers_steady(4))
  show ?thesis
    by (simp add: copilot_routes_def Let_def still start complete refresh sync pool_handlers_steady[OF assms] account_handlers_steady
        handleDisableCopilotAccount_def handleEnableCopilotAccount_def handleToggleCopilotOverage_def)
qed

section \<open>Every step of the program\<close>

lemma keeps_admin_area:
  assumes "good_backends (enBackends E)" "valid_files E"
  shows "keeps_steady E (admin_area E)"
proof (rule keeps_steadyI)
  fix r ps s st w a st' w' assume h: "steady (enBackends E) (admin_of st)" "admin_area E r ps s st w = Some (a, st', w')"
  have t: "list_all (\<lambda>p. keeps_steady E (snd p)) (admin_routes E)"
    using view_routes_steady[OF assms(1)] change_routes_steady[OF assms] copilot_routes_steady[OF assms(1)] by (simp add: admin_routes_def)
  have n: "keeps_steady E not_found" by (rule keeps_steadyI) (simp add: not_found_def)
  have "steady (enBackends E) (admin_of (st\<lparr>pgSessions := m\<rparr>))" for m using h(1) by simp
  then show "steady (enBackends E) (admin_of st')"
    using h(2) by (auto simp: admin_area_def Let_def split: prod.splits gate.splits elim: keeps_dispatch[OF t n, rotated])
qed

lemma keeps_client_area: "keeps_steady E (client_area E)"
proof (rule keeps_steadyI)
  fix r ps s st w a st' w' assume h: "steady (enBackends E) (admin_of st)" "client_area E r ps s st w = Some (a, st', w')"
  have c: "keeps_steady E (\<lambda>r ps s st w. Some (Pong (case rqPrincipal r of None \<Rightarrow> [] | Some p \<Rightarrow> prName p), st, w))"
    by (rule keeps_steadyI) simp
  have t: "list_all (\<lambda>p. keeps_steady E (snd p)) (client_routes E)"
    by (auto simp: client_routes_def Let_def c intro!: keeps_copilot_endpoint dest: copilot_frame)
  show "steady (enBackends E) (admin_of st')"
    using h by (auto simp: client_area_def split: sum.splits elim: keeps_dispatch[OF t keeps_proxy])
qed

lemma request_steady:
  assumes "good_backends (enBackends E)" "valid_files E" "steady (enBackends E) (admin_of st)" "answer_request E r st w = Some (a, st', w')"
  shows "steady (enBackends E) (admin_of st')"
proof -
  have n: "keeps_steady E not_found" "keeps_steady E (\<lambda>r ps s st w. Some (Status 200, st, w))" by (rule keeps_steadyI, simp add: not_found_def)+
  have "list_all (\<lambda>p. keeps_steady E (snd p)) (root_routes E)"
    by (simp add: root_routes_def Let_def n keeps_portal keeps_client_area keeps_admin_area[OF assms(1,2)])
  then show ?thesis using assms(3,4) n(1) unfolding answer_request_def by (blast intro: keeps_dispatch)
qed

lemma step_steady:
  assumes "good_backends (enBackends E)" "valid_files E" "program_step E x y" "steady (enBackends E) (admin_of (fst x))"
  shows "steady (enBackends E) (admin_of (fst y))"
  using assms(3,4)
proof (cases rule: program_step.cases)
  case (request r st w a st' w')
  then show ?thesis using request_steady[OF assms(1,2)] assms(4) by simp
next
  case (calibration st w)
  then show ?thesis using assms(4) by (auto simp: calibrated_def Let_def intro: steady_frame)
next
  case (account_sync st w)
  then show ?thesis using assms(4) by (auto simp: synced_accounts_def split: prod.split)
qed simp

lemma steps_steady:
  assumes "(program_step E)\<^sup>*\<^sup>* x y" "good_backends (enBackends E)" "valid_files E" "steady (enBackends E) (admin_of (fst x))"
  shows "steady (enBackends E) (admin_of (fst y))"
  using assms(1,4) by (induction rule: rtranclp_induct) (auto intro: step_steady[OF assms(2,3)])

section \<open>From the start on\<close>

lemma new_service_ok: "newService cfg tr cat now = Inr sv \<Longrightarrow> proxy_ok sv"
  unfolding newService_def Let_def
  by (auto split: option.splits prod.splits elim!: applyConfig_ok[rotated]) (simp add: proxy_ok_def names_ok_def)

lemma start_service: "start sha B now inp d0 = Inr s \<Longrightarrow> proxy_ok (adService (sdAdmin s))"
proof -
  assume "start sha B now inp d0 = Inr s"
  then obtain cfg sv db st where sv: "newService cfg (siTrace inp) (siCatalog inp) now = Inr sv"
    and st: "sdAdmin s = sync_stores (admin_backends_of B) st\<lparr>adService := start_quota now (adService (sync_stores (admin_backends_of B) st))\<rparr>"
      "adService st = setUsageRecorder sv db"
    by (auto simp: start_def Let_def split: sum.splits prod.splits option.splits)
  have "pxOrder (adService (sdAdmin s)) = pxOrder sv" "pxByName (adService (sdAdmin s)) = pxByName sv"
    by (simp_all add: st start_quota_def setQuotaManager_def setUsageRecorder_def)
  then show ?thesis using new_service_ok[OF sv] by (simp add: proxy_ok_def)
qed

text \<open>
  C2: After a successful start over a database of clients and targets as the stores keep them, whatever
  requests follow, by whomever and however the router reads them, in any number and order, with the
  hourly calibration of the quotas and the synchronisation of the accounts in between, the program is in
  step: the store of access keys holds exactly the clients of the database, and the running service shows
  exactly the targets of the database, in their order, with their names and whether they are paused.
\<close>

theorem always_in_step:
  assumes "ordered_bucket (bcClients B)" "ordered_bucket (bcTargets B)" "ordered_bucket (bcMeta B)"
    "kvGet (bcMeta B) (dbMeta d0) ''migrated'' \<noteq> None" "clients_ok (bcClients B) (dbClients d0)"
    "stands_for (bcTargets B) (bcMeta B) (dbTargets d0, dbMeta d0) ts" "\<forall>t \<in> set ts. valid_type t"
    "start sha B now inp d0 = Inr s" "enBackends E = admin_backends_of B" "valid_files E"
    "(program_step E)\<^sup>*\<^sup>* (initial_program c s pools accounts, w0) (st, w)"
  shows "auth_agrees (bcClients B) (adClients (admin_of st)) (adAuth (admin_of st)) \<and>
    (\<exists>us. in_step (admin_backends_of B) (admin_of st) us \<and> running (adService (admin_of st)) = map stored_view us)"
proof -
  have b: "bkClients (admin_backends_of B) = bcClients B" "good_backends (enBackends E)"
    using assms(1-3) by (simp_all add: good_backends_def assms(9) admin_backends_of_def)
  have "steady (enBackends E) (sdAdmin s)"
    using started_in_step[OF assms(1-8)] assms(5) start_service[OF assms(8)] by (auto simp: steady_def keys_fit_def b assms(9))
  then have "steady (enBackends E) (admin_of (fst (st, w)))"
    by (intro steps_steady[OF assms(11) b(2) assms(10)]) (simp add: initial_program_def)
  then show ?thesis by (auto simp: steady_def keys_fit_def b assms(9))
qed

section \<open>A run\<close>

text \<open>A program that has just started is asked for the login page and then calibrates the quotas.\<close>

definition demo_run_env where
  "demo_run_env = demo_env\<lparr>enBackends := admin_backends_of alist_buckets, enRouter := (\<lambda>_ _ _. Matched 1 [])\<rparr>"

definition demo_run_start where
  "demo_run_start = initial_program demo_session_config (projr (start demo_sha alist_buckets 0 demo_start migrated_database))
     (coPools demo_copilot_admin) (coAccounts demo_copilot_admin)"

theorem always_in_step_witness:
  "\<exists>a st. answer_request demo_run_env demo_call demo_run_start 0 = Some (a, st, 0) \<and>
     auth_agrees (bcClients alist_buckets) (adClients (calibrated (admin_of st) 0)) (adAuth (calibrated (admin_of st) 0)) \<and>
     (\<exists>us. in_step (admin_backends_of alist_buckets) (calibrated (admin_of st) 0) us \<and>
       running (adService (calibrated (admin_of st) 0)) = map stored_view us)"
proof -
  have c: "clients_ok (bcClients alist_buckets) (dbClients migrated_database)" "kvGet (bcMeta alist_buckets) (dbMeta migrated_database) ''migrated'' \<noteq> None"
    "stands_for (bcTargets alist_buckets) (bcMeta alist_buckets) (dbTargets migrated_database, dbMeta migrated_database) []"
    by (simp_all add: alist_buckets_def migrated_database_def empty_database_def store_ok_def stands_for_def read_order_def alist_kv_def targetOrderKey_def)
  have E: "enBackends demo_run_env = admin_backends_of alist_buckets" "valid_files demo_run_env" "netNow (enNet demo_run_env) 0 = 0"
    by (simp_all add: demo_run_env_def valid_files_def demo_env_def demo_net_def)
  obtain rp p where h: "handleLoginPage demo_mac 0 (portal_of demo_run_start) [] = (rp, p)" by force
  define st where "st = put_portal demo_run_start p"
  have r: "answer_request demo_run_env demo_call demo_run_start 0 = Some (Portal_reply rp, st, 0)"
    by (simp add: answer_request_def dispatch_def demo_run_env_def root_routes_def Let_def portal_endpoint_def demo_env_def demo_decoders_def
        demo_net_def h st_def)
  have s: "(program_step demo_run_env)\<^sup>*\<^sup>* (demo_run_start, 0) (put_admin st (calibrated (admin_of st) 0), 0)"
    using program_step.request[OF r] program_step.calibration[of demo_run_env st 0] by (auto simp: E(3) intro: rtranclp.rtrancl_into_rtrancl)
  from always_in_step[OF alist_laws(1,2,3) c(2,1,3) _ demo_started E(1,2) s[unfolded demo_run_start_def]] r
  show ?thesis by auto
qed

end
