(* ===== verification/Spec2Isabelle.thy ===== *)
theory Spec2Isabelle
  imports Key_Pool_Props Key_Pool_Reset Targets_Fair Usage_Props Serve_Ends Service_Admin Quota_Serve Trace_Props Client_Store Copilot_Store
    Program_Steady
begin

text \<open>
  The program is a reverse proxy for the APIs of language models. A client authenticates with an access
  key, the proxy chooses one of its targets (an upstream URL with one or more API keys), replaces the
  client's credential with the target's, sends the request, retries it with other keys and other targets
  when that fails, and records what it cost. Clients, targets, prices, administrators and usage are kept
  in an embedded database and changed through an admin interface while the proxy runs. A second way
  through the proxy serves the accounts of GitHub Copilot that a client's pool holds.

  \<^bold>\<open>The parts and their theories.\<close> Each component has a theory of definitions, in the order of its source,
  and where they are many a theory \<open>_Props\<close> of theorems.

  \<^item> The ground: \<open>Prelude\<close> (byte strings, loops, association lists, time), \<open>Go_Http\<close> (headers), \<open>Go_Url\<close>
    (\<open>net/url\<close>), \<open>Go_Json\<close> (\<open>encoding/json\<close>), \<open>Civil_Time\<close> (the calendar of \<open>time\<close>): what the source
    uses of Go's standard library. \<open>Go_Json_Props\<close> has the round trip of encoding and decoding.
  \<^item> \<open>internal/proxy/keypool.go\<close>: \<open>Key_Pool\<close> has the state (\<open>key_pool\<close>, \<open>key_entry\<close>) and one definition
    per method. \<open>Key_Pool_Load\<close> reduces its comparison loops to a pure load, \<open>Key_Pool_Inv\<close> is the
    well-formedness \<open>kp_wf\<close>, \<open>Key_Pool_Select\<close> the contract of the selectors (locale \<open>key_selector\<close>),
    \<open>Key_Pool_Run\<close> the pools that can be reached, \<open>Key_Pool_Props\<close> and \<open>Key_Pool_Reset\<close> the properties.
  \<^item> \<open>internal/config\<close>: \<open>Config_Types\<close> has the targets, the normalisation of legacy ones and the validation.
  \<^item> \<open>internal/proxy/path_capability.go\<close>, \<open>protocol.go\<close>, \<open>provider_profile.go\<close>, \<open>url.go\<close>: \<open>Routing\<close>, with
    the interfaces of the providers as locales in \<open>Routing_Props\<close>.
  \<^item> \<open>internal/auth\<close>: \<open>Auth\<close>. \<open>internal/proxy/affinity.go\<close>: \<open>Affinity\<close> (locale \<open>ttl_map\<close>).
    \<open>internal/proxy/target.go\<close>: \<open>Targets\<close>, with \<open>Targets_Props\<close> and \<open>Targets_Fair\<close>.
  \<^item> \<open>sanitize.go\<close>, \<open>custom_inject.go\<close>, \<open>multipart_convert.go\<close> and the rewriting of models in \<open>forward.go\<close>:
    \<open>Bodies\<close>, \<open>Bodies_Props\<close>. \<open>usage.go\<close>, \<open>sse_aggregate.go\<close>: \<open>Usage_Tokens\<close>, \<open>Usage_Props\<close>.
  \<^item> \<open>internal/catalog\<close>, \<open>internal/costutil\<close>: \<open>Catalog\<close>. \<open>internal/nosql/usage.go\<close>, \<open>usage_agg.go\<close>: \<open>Usage_Agg\<close>
    and \<open>Usage_Backfill\<close>. \<open>internal/quota\<close>: \<open>Quota\<close>, \<open>Quota_Props\<close>. \<open>internal/tracestore\<close>,
    \<open>internal/errorlog\<close>: \<open>Trace\<close>, \<open>Trace_Props\<close>.
  \<^item> \<open>internal/proxy/forward.go\<close>: \<open>Forward\<close> is one attempt with one target (\<open>forwardRequest\<close>). \<open>service.go\<close>:
    \<open>Service\<close> has the state of the proxy, \<open>Serve\<close> the handler \<open>serveHTTP\<close> with its two loops,
    \<open>Service_Admin\<close> the construction and the operations for the administration. \<open>Forward_Props\<close>,
    \<open>Serve_Props\<close>, \<open>Serve_Ends\<close> and \<open>Quota_Serve\<close> are about whole requests.
  \<^item> \<open>internal/nosql\<close>: \<open>Buckets\<close> has the database as a record of operations with the locale
    \<open>ordered_bucket\<close> of what bbolt promises; \<open>Client_Store\<close>, \<open>Target_Store\<close>, \<open>Admin_Stores\<close> (prices,
    administrators, audit), \<open>Copilot_Store\<close> (pools and accounts) the stores over it; \<open>Migrate\<close> the
    migration of the files of older releases.
  \<^item> \<open>internal/admin\<close>: \<open>Admin_Session\<close> (\<open>session.go\<close>, \<open>portal.go\<close>, \<open>users.go\<close>) is the login, \<open>Admin_Handler\<close> and
    \<open>Admin_Handler_Props\<close> the routes that change state (\<open>handler.go\<close>), \<open>Admin_Views\<close> those that read,
    \<open>Copilot_Admin\<close> and \<open>Copilot_Admin_Props\<close> those of Copilot (\<open>copilot_handler.go\<close>).
  \<^item> \<open>internal/copilot\<close>: \<open>Copilot_Models\<close> (models and prices), \<open>Copilot\<close> (tokens, device flow, quota of
    accounts, the service); \<open>copilot_passthrough.go\<close>, \<open>copilot_initiator.go\<close>: \<open>Copilot_Route\<close>; their
    theorems are in \<open>Copilot_Props\<close>.
  \<^item> \<open>cmd/proxy/main.go\<close>: \<open>Startup\<close> puts all of it together, from the configuration and the database to
    the running state. \<open>Program\<close> has the tables of routes and the middlewares: \<open>answer_request\<close> is what
    becomes of one request and \<open>program_step\<close> what can happen next. \<open>Program_Props\<close> is about requests
    without credentials, \<open>Program_Steady\<close> about every sequence of steps from the start on.

  \<^bold>\<open>How the model is written.\<close> A struct is a record, an operation a function that takes and returns the
  state it changes, an error a value of a sum type. A method that holds a lock, and a transaction, is one
  step with one reading of the clock. What is not part of the repository is an argument: the database
  (\<open>kv\<close>), the network with its clock (\<open>net\<close> over a world \<open>'w\<close>), the router, the hash functions, the decompression of
  an answer, and generated identifiers, salts and formatted times. A Go map that is iterated is an
  association list, whose order the theorems leave open. Strings are lists of bytes; folding of case and
  trimming act on ASCII. A time is its nanoseconds since the year 1, a float a real number, a counter of 64 bits
  an integer. A nil receiver is \<open>None\<close>. Log lines are dropped.

  \<^bold>\<open>What the theorems show.\<close> A request leaves every pool with the requests in flight it had, counts
  in exactly one outcome, carries the target's credential and none of the client's, and ends; a failing
  target is muted and another one takes over; a client over its quota is refused before anything is sent.
  Selection returns only targets and keys that can be used, finds one when there is one, and shares
  requests by the number of keys. The counters of quotas follow the store of usage, which adds up the
  recorded events. The stores refine lists of their records, and after any change by an administrator the keys that
  are accepted, the targets that run and the database agree, as they do after the start and, putting all
  handlers together, after every sequence of requests and timers that follows it. Sessions are
  let in between login and logout only. A Copilot account serves only its pool's client, with its own
  token, and not after it has been revoked. Without a session or an access key no request, to whatever
  path, gets further than the login. The lemmas that are not listed as properties carry these
  proofs, or show by an example where the code does not do what it says.

  \<^bold>\<open>Bounds.\<close> The loops over keys and targets take a bound on their rounds and give \<open>None\<close> when it does not
  suffice; \<open>Serve_Ends.request_ends\<close> shows that as many rounds as there are targets are enough (when no
  upstream keeps answering with errors for one of several keys, which is its hypothesis, since the code does
  not bound that case). The device flow takes 601 rounds for its ten minutes. The backfill takes one round more than there are events.

  \<^bold>\<open>Hypotheses.\<close> \<open>ordered_bucket\<close> is what bbolt documents, satisfied by association lists
  (\<open>alist_kv\<close>); \<open>clock_runs\<close> that sleeping takes its time and requests do not turn the clock back. The other
  hypotheses are invariants of the state that other lemmas establish (\<open>kp_wf\<close>, \<open>state_ok\<close>, \<open>proxy_ok\<close>,
  \<open>clients_ok\<close>, \<open>accounts_ok\<close>) or name the case the theorem is about.

  \<^bold>\<open>Not modelled.\<close> The interleaving of requests inside one handler (each locked method is a step, the
  properties of the pool hold for every order of such steps); the reading and writing of the
  configuration file and of the files of traces and errors on disk, with their rotation; timers, of which the step they
  take is modelled; the HTTP server and the environment in \<open>main.go\<close>; the router, which is a parameter, and the encoding of the
  answers of the admin routes as JSON; logging
  (\<open>internal/logging\<close>); the embedded pages (\<open>ui_embed.go\<close>) and the opening of the database file
  (\<open>internal/nosql/db.go\<close>); the program of \<open>scripts\<close>.
\<close>

end
